(* ===== verification/Py_Base.thy ===== *)
theory Py_Base
  imports
    Complex_Main
    "HOL-Library.Char_ord"
    "HOL-Library.List_Lexorder"
    "HOL-Library.Product_Lexorder"
    "HOL-Library.Multiset"
    "HOL-Library.AList"
begin

text \<open>
  The prelude of the development: exceptions and fallible results, the Python string
  operations the connector uses, decimal text, and the generic list lemmas that the
  component theories share.

  Exceptions are values of \<open>exn\<close> (one constructor per class of
  \<^verbatim>\<open>_common/errors.py\<close>, the built-in exceptions the sources can raise, one
  constructor for whatever a database driver raises, and the control-flow exceptions).
  Exception messages are not modelled: every theorem speaks about the class raised.
  A fallible operation returns \<open>exn + 'a\<close>; \<open>r_bind\<close> sequences two of them and
  \<open>r_map\<close> runs one per list element, stopping at the first exception.

  A Python \<open>str\<close> is a \<open>string\<close>, a list of code points below 256; code points
  from 256 on (in particular lone surrogates) are outside the model.
\<close>

named_theorems py_simps \<open>evaluation rules of the Python string and result operations\<close>

section \<open>Exceptions\<close>

text \<open>
  What \<open>getattr\<close> can find on a driver exception; anything that is not an integer, a
  boolean, a string or bytes is \<open>AOther\<close>.
\<close>

datatype pyattr = AInt int | ABool bool | AStr string | ABytes string | AOther

record exc_attrs =
  ex_attrs :: "(string \<times> pyattr) list"
  ex_args :: "pyattr list"

datatype exn =
    ConfigurationError
  | DependencyError
  | CompatibilityError
  | SchemaError
  | DiscoveryError
  | AuthenticationError
  | DatabasePermissionError
  | DatabaseObjectNotFoundError
  | TransportError
  | UnsupportedPredicateError
  | ValueError
  | ZeroDivisionError
  | KeyError
  | IndexError
  | TypeError
  | AttributeError
  | AssertionError
  | OSError
  | TimeoutError
  | ModuleNotFoundError
  | ArchiveError
  | ArtifactError
  | CandidateError
  | TagError
  | InstallProfileError
  | DriverException exc_attrs
  | CancelledError
  | GeneratorExit
  | KeyboardInterrupt
  | SystemExit

text \<open>The subclasses of \<open>DaftOlapError\<close>.\<close>

fun is_daft_olap_error :: "exn \<Rightarrow> bool" where
  "is_daft_olap_error ConfigurationError = True"
| "is_daft_olap_error DependencyError = True"
| "is_daft_olap_error CompatibilityError = True"
| "is_daft_olap_error SchemaError = True"
| "is_daft_olap_error DiscoveryError = True"
| "is_daft_olap_error AuthenticationError = True"
| "is_daft_olap_error DatabasePermissionError = True"
| "is_daft_olap_error DatabaseObjectNotFoundError = True"
| "is_daft_olap_error TransportError = True"
| "is_daft_olap_error UnsupportedPredicateError = True"
| "is_daft_olap_error _ = False"

text \<open>
  \<open>except Exception\<close> catches everything but the control-flow exceptions, which derive
  from \<open>BaseException\<close> only.
\<close>

fun is_exception :: "exn \<Rightarrow> bool" where
  "is_exception CancelledError = False"
| "is_exception GeneratorExit = False"
| "is_exception KeyboardInterrupt = False"
| "is_exception SystemExit = False"
| "is_exception _ = True"

lemma daft_olap_is_exception [simp]: "is_daft_olap_error e \<Longrightarrow> is_exception e"
  by (cases e) simp_all

text \<open>
  The attributes \<open>getattr\<close> finds on an exception. The connector's own exceptions and the
  built-in ones carry no driver codes; their first argument is a message string.
\<close>

fun attrs_of :: "exn \<Rightarrow> exc_attrs" where
  "attrs_of (DriverException a) = a"
| "attrs_of _ = \<lparr>ex_attrs = [], ex_args = [AOther]\<rparr>"

section \<open>Fallible results\<close>

type_synonym 'a result = "exn + 'a"

definition r_bind :: "'a result \<Rightarrow> ('a \<Rightarrow> 'b result) \<Rightarrow> 'b result" where
  "r_bind m f = (case m of Inl e \<Rightarrow> Inl e | Inr x \<Rightarrow> f x)"

lemma r_bind_simps [simp, py_simps]:
  "r_bind (Inl e) f = Inl e"
  "r_bind (Inr x) f = f x"
  by (simp_all add: r_bind_def)

lemma r_bind_cong [fundef_cong]:
  assumes "m = m'" and "\<And>x. m' = Inr x \<Longrightarrow> f x = f' x"
  shows "r_bind m f = r_bind m' f'"
  using assms by (cases m') auto

lemma r_bind_Inr_iff: "r_bind m f = Inr y \<longleftrightarrow> (\<exists>x. m = Inr x \<and> f x = Inr y)"
  by (cases m) auto

lemma r_bind_Inl_iff: "r_bind m f = Inl e \<longleftrightarrow> m = Inl e \<or> (\<exists>x. m = Inr x \<and> f x = Inl e)"
  by (cases m) auto

lemma r_bindE [elim!]:
  assumes "r_bind m f = Inr y"
  obtains x where "m = Inr x" and "f x = Inr y"
  using assms by (auto simp: r_bind_Inr_iff)

text \<open>A guard: the statement \<open>if b: raise e\<close>.\<close>

definition raise_if :: "bool \<Rightarrow> exn \<Rightarrow> unit result" where
  "raise_if b e = (if b then Inl e else Inr ())"

lemma raise_if_simps [simp, py_simps]:
  "raise_if True e = Inl e"
  "raise_if False e = Inr ()"
  by (simp_all add: raise_if_def)

lemma raise_if_Inr_iff [simp]: "raise_if b e = Inr u \<longleftrightarrow> \<not> b"
  by (simp add: raise_if_def)

lemma raise_if_Inl_iff [simp]: "raise_if b e = Inl e' \<longleftrightarrow> b \<and> e' = e"
  by (auto simp: raise_if_def)

lemma r_bind_raise_if_Inr [simp]:
  "r_bind (raise_if b e) f = Inr y \<longleftrightarrow> \<not> b \<and> f () = Inr y"
  by (simp add: raise_if_def)

fun r_map :: "('a \<Rightarrow> 'b result) \<Rightarrow> 'a list \<Rightarrow> 'b list result" where
  "r_map f [] = Inr []"
| "r_map f (x # xs) = r_bind (f x) (\<lambda>y. r_bind (r_map f xs) (\<lambda>ys. Inr (y # ys)))"

lemma r_map_cong [fundef_cong]:
  assumes "xs = ys" and "\<And>x. x \<in> set ys \<Longrightarrow> f x = g x"
  shows "r_map f xs = r_map g ys"
  using assms(2) unfolding assms(1) by (induction ys) auto

lemma r_map_Inr_iff: "r_map f xs = Inr ys \<longleftrightarrow> list_all2 (\<lambda>x y. f x = Inr y) xs ys"
proof (induction xs arbitrary: ys)
  case Nil
  then show ?case by auto
next
  case (Cons x xs)
  then show ?case by (auto simp: r_bind_Inr_iff list_all2_Cons1)
qed

lemma r_map_Inr_map: "(\<And>x. x \<in> set xs \<Longrightarrow> f x = Inr (g x)) \<Longrightarrow> r_map f xs = Inr (map g xs)"
  by (induction xs) simp_all

lemma r_map_Inl_ex: "r_map f xs = Inl e \<Longrightarrow> \<exists>x\<in>set xs. f x = Inl e"
  by (induction xs) (auto simp: r_bind_Inl_iff)

lemma r_map_total: "(\<And>x. x \<in> set xs \<Longrightarrow> \<exists>y. f x = Inr y) \<Longrightarrow> \<exists>ys. r_map f xs = Inr ys"
proof (induction xs)
  case (Cons x xs)
  then obtain y ys where "f x = Inr y" "r_map f xs = Inr ys" by (meson list.set_intros)
  then show ?case by simp
qed simp

lemma r_map_length: "r_map f xs = Inr ys \<Longrightarrow> length ys = length xs"
  by (auto simp: r_map_Inr_iff dest: list_all2_lengthD)

lemma r_map_append:
  "r_map f (xs @ ys) = r_bind (r_map f xs) (\<lambda>us. r_bind (r_map f ys) (\<lambda>vs. Inr (us @ vs)))"
proof (induction xs)
  case Nil
  then show ?case by (cases "r_map f ys") simp_all
next
  case (Cons x xs)
  then show ?case
    by (cases "f x"; cases "r_map f xs"; cases "r_map f ys") simp_all
qed

text \<open>A loop that only checks: the first failing element stops it.\<close>

fun r_all :: "('a \<Rightarrow> unit result) \<Rightarrow> 'a list \<Rightarrow> unit result" where
  "r_all f [] = Inr ()"
| "r_all f (x # xs) = r_bind (f x) (\<lambda>_. r_all f xs)"

lemma r_all_cong [fundef_cong]:
  assumes "xs = ys" and "\<And>x. x \<in> set ys \<Longrightarrow> f x = g x"
  shows "r_all f xs = r_all g ys"
  using assms(2) unfolding assms(1) by (induction ys) auto

lemma r_all_Inr_iff: "r_all f xs = Inr u \<longleftrightarrow> (\<forall>x\<in>set xs. f x = Inr ())"
  by (induction xs) (auto simp: r_bind_Inr_iff)

lemma r_all_Inl_ex: "r_all f xs = Inl e \<Longrightarrow> \<exists>x\<in>set xs. f x = Inl e"
  by (induction xs) (auto simp: r_bind_Inl_iff)

text \<open>\<open>try: m except P: h\<close>, for the exceptions that satisfy \<open>P\<close>.\<close>

definition r_catch :: "'a result \<Rightarrow> (exn \<Rightarrow> bool) \<Rightarrow> (exn \<Rightarrow> 'a result) \<Rightarrow> 'a result" where
  "r_catch m P h = (case m of Inl e \<Rightarrow> if P e then h e else Inl e | Inr x \<Rightarrow> Inr x)"

lemma r_catch_simps [simp, py_simps]:
  "r_catch (Inr x) P h = Inr x"
  "r_catch (Inl e) P h = (if P e then h e else Inl e)"
  by (simp_all add: r_catch_def)

lemma r_catch_cong [fundef_cong]:
  assumes "m = m'" and "P = P'" and "\<And>e. m' = Inl e \<Longrightarrow> P' e \<Longrightarrow> h e = h' e"
  shows "r_catch m P h = r_catch m' P' h'"
  using assms by (cases m') auto

lemma r_catch_Inr_iff:
  "r_catch m P h = Inr y \<longleftrightarrow> m = Inr y \<or> (\<exists>e. m = Inl e \<and> P e \<and> h e = Inr y)"
  by (cases m) auto

lemma r_catch_Inl_iff:
  "r_catch m P h = Inl e \<longleftrightarrow>
     (\<exists>e'. m = Inl e' \<and> (if P e' then h e' = Inl e else e = e'))"
  by (cases m) auto

section \<open>Dictionaries\<close>

text \<open>
  A Python \<open>dict\<close> is an association list in insertion order; storing under a key that is
  present overwrites in place, which is \<open>AList.update\<close>. \<open>dict(pairs)\<close> and
  \<open>d.update(pairs)\<close> store the pairs one by one.
\<close>

definition dict_update :: "('k \<times> 'v) list \<Rightarrow> ('k \<times> 'v) list \<Rightarrow> ('k \<times> 'v) list" where
  "dict_update d ps = fold (\<lambda>(k, v). AList.update k v) ps d"

abbreviation py_dict :: "('k \<times> 'v) list \<Rightarrow> ('k \<times> 'v) list" where
  "py_dict \<equiv> dict_update []"

lemma dict_update_simps [simp]:
  "dict_update d [] = d"
  "dict_update d (p # ps) = dict_update (AList.update (fst p) (snd p) d) ps"
  by (simp_all add: dict_update_def split: prod.split)

lemma keys_alist_update:
  "map fst (AList.update k v d) = map fst d @ (if k \<in> set (map fst d) then [] else [k])"
  by (induction d) auto

lemma set_keys_dict_update:
  "set (map fst (dict_update d ps)) = set (map fst d) \<union> set (map fst ps)"
proof (induction ps arbitrary: d)
  case Nil
  then show ?case by simp
next
  case (Cons p ps)
  then show ?case using keys_alist_update [of "fst p" "snd p" d]
    by (auto simp del: set_map)
qed

lemma alist_update_fresh: "k \<notin> set (map fst d) \<Longrightarrow> AList.update k v d = d @ [(k, v)]"
  by (induction d) auto

lemma dict_update_fresh:
  assumes "distinct (map fst ps)" and "set (map fst ps) \<inter> set (map fst d) = {}"
  shows "dict_update d ps = d @ ps"
  using assms
proof (induction ps arbitrary: d)
  case Nil
  then show ?case by simp
next
  case (Cons p ps)
  have "AList.update (fst p) (snd p) d = d @ [p]"
    using Cons.prems by (simp add: alist_update_fresh)
  then show ?case using Cons by auto
qed

lemma py_dict_distinct: "distinct (map fst ps) \<Longrightarrow> py_dict ps = ps"
  using dict_update_fresh [of ps "[]"] by simp

lemma distinct_keys_dict_update:
  "distinct (map fst d) \<Longrightarrow> distinct (map fst (dict_update d ps))"
proof (induction ps arbitrary: d)
  case Nil
  then show ?case by simp
next
  case (Cons p ps)
  have "distinct (map fst (AList.update (fst p) (snd p) d))"
    using Cons.prems by (simp add: keys_alist_update)
  then show ?case using Cons.IH by simp
qed

lemma length_py_dict_iff: "length (py_dict ps) = length ps \<longleftrightarrow> distinct (map fst ps)"
proof
  assume len: "length (py_dict ps) = length ps"
  have "length (py_dict ps) = card (set (map fst (py_dict ps)))"
    using distinct_keys_dict_update [of "[]" ps] by (metis distinct.simps(1) distinct_card length_map list.map(1))
  then have "card (set (map fst ps)) = length (map fst ps)"
    using len set_keys_dict_update [of "[]" ps] by simp
  then show "distinct (map fst ps)" by (rule card_distinct)
next
  assume "distinct (map fst ps)"
  then show "length (py_dict ps) = length ps" by (simp add: py_dict_distinct)
qed

end
