(* ===== verification/Py_Strings.thy ===== *)
theory Py_Strings
  imports Py_Base
begin

text \<open>
  The string operations of the Python standard library that the connector calls, on
  strings of code points below 256: character classes, \<open>strip\<close>, \<open>join\<close>,
  \<open>upper\<close>, \<open>casefold\<close>, substring tests, decimal text and \<open>int(text)\<close>.
\<close>

section \<open>Characters\<close>

abbreviation code :: "char \<Rightarrow> nat" where
  "code c \<equiv> of_char c"

text \<open>Python's \<open>str.isspace\<close> and the regular-expression class \<open>\s\<close>.\<close>

definition py_isspace :: "char \<Rightarrow> bool" where
  "py_isspace c \<longleftrightarrow>
     (9 \<le> code c \<and> code c \<le> 13) \<or> (28 \<le> code c \<and> code c \<le> 32) \<or> code c = 133 \<or> code c = 160"

definition is_ascii_digit :: "char \<Rightarrow> bool" where
  "is_ascii_digit c \<longleftrightarrow> 48 \<le> code c \<and> code c \<le> 57"

definition is_upper_letter :: "char \<Rightarrow> bool" where
  "is_upper_letter c \<longleftrightarrow> 65 \<le> code c \<and> code c \<le> 90"

definition is_lower_letter :: "char \<Rightarrow> bool" where
  "is_lower_letter c \<longleftrightarrow> 97 \<le> code c \<and> code c \<le> 122"

definition is_letter :: "char \<Rightarrow> bool" where
  "is_letter c \<longleftrightarrow> is_upper_letter c \<or> is_lower_letter c"

text \<open>The classes \<open>[A-Za-z_]\<close> and \<open>[A-Za-z0-9_]\<close>.\<close>

definition is_name_start :: "char \<Rightarrow> bool" where
  "is_name_start c \<longleftrightarrow> is_letter c \<or> c = CHR ''_''"

definition is_name_char :: "char \<Rightarrow> bool" where
  "is_name_char c \<longleftrightarrow> is_name_start c \<or> is_ascii_digit c"

lemmas char_class_defs =
  py_isspace_def is_ascii_digit_def is_upper_letter_def is_lower_letter_def is_letter_def
  is_name_start_def is_name_char_def

declare char_class_defs [py_simps]

text \<open>
  \<open>str.isdigit\<close> also accepts the superscript digits two, three and one, which
  \<open>int\<close> does not.
\<close>

definition py_isdigit_char :: "char \<Rightarrow> bool" where
  "py_isdigit_char c \<longleftrightarrow> is_ascii_digit c \<or> code c = 178 \<or> code c = 179 \<or> code c = 185"

definition py_isdigit :: "string \<Rightarrow> bool" where
  "py_isdigit s \<longleftrightarrow> s \<noteq> [] \<and> list_all py_isdigit_char s"

text \<open>
  \<open>str.upper\<close> and \<open>str.casefold\<close>. The micro sign and the letter y with diaeresis have
  images above code point 255 and are left as they are: neither they nor their images
  belong to any class or literal the connector compares with.
\<close>

definition upper_char :: "char \<Rightarrow> string" where
  "upper_char c =
     (if is_lower_letter c then [char_of (code c - 32)]
      else if code c = 223 then ''SS''
      else if 224 \<le> code c \<and> code c \<le> 254 \<and> code c \<noteq> 247 then [char_of (code c - 32)]
      else [c])"

definition py_upper :: "string \<Rightarrow> string" where
  "py_upper s = concat (map upper_char s)"

definition casefold_char :: "char \<Rightarrow> string" where
  "casefold_char c =
     (if is_upper_letter c then [char_of (code c + 32)]
      else if code c = 223 then ''ss''
      else if 192 \<le> code c \<and> code c \<le> 222 \<and> code c \<noteq> 215 then [char_of (code c + 32)]
      else [c])"

definition py_casefold :: "string \<Rightarrow> string" where
  "py_casefold s = concat (map casefold_char s)"

section \<open>Strings\<close>

definition py_lstrip :: "string \<Rightarrow> string" where
  "py_lstrip s = dropWhile py_isspace s"

definition py_strip :: "string \<Rightarrow> string" where
  "py_strip s = rev (py_lstrip (rev (py_lstrip s)))"

definition py_startswith :: "string \<Rightarrow> string \<Rightarrow> bool" where
  "py_startswith s p \<longleftrightarrow> take (length p) s = p"

definition py_endswith :: "string \<Rightarrow> string \<Rightarrow> bool" where
  "py_endswith s p \<longleftrightarrow> py_startswith (rev s) (rev p)"

text \<open>The operator \<open>p in s\<close> on strings.\<close>

fun py_contains :: "string \<Rightarrow> string \<Rightarrow> bool" where
  "py_contains [] p \<longleftrightarrow> p = []"
| "py_contains (c # s) p \<longleftrightarrow> py_startswith (c # s) p \<or> py_contains s p"

fun py_join :: "string \<Rightarrow> string list \<Rightarrow> string" where
  "py_join sep [] = []"
| "py_join sep [x] = x"
| "py_join sep (x # y # xs) = x @ sep @ py_join sep (y # xs)"

text \<open>\<open>s.split(c)\<close> with a one-character separator: always at least one piece.\<close>

fun py_split :: "char \<Rightarrow> string \<Rightarrow> string list" where
  "py_split c [] = [[]]"
| "py_split c (x # xs) =
     (if x = c then [] # py_split c xs
      else (case py_split c xs of [] \<Rightarrow> [[x]] | y # ys \<Rightarrow> (x # y) # ys))"

text \<open>\<open>s.replace(c, r)\<close> for a one-character \<open>c\<close>.\<close>

definition py_replace :: "char \<Rightarrow> string \<Rightarrow> string \<Rightarrow> string" where
  "py_replace c r s = concat (map (\<lambda>x. if x = c then r else [x]) s)"

lemma py_replace_simps [simp]:
  "py_replace c r [] = []"
  "py_replace c r (x # s) = (if x = c then r else [x]) @ py_replace c r s"
  by (simp_all add: py_replace_def)

lemma set_py_replace: "set (py_replace c r s) \<subseteq> set r \<union> (set s - {c})"
  by (auto simp: py_replace_def split: if_splits)

lemma set_py_join: "set (py_join sep xs) \<subseteq> set sep \<union> \<Union> (set ` set xs)"
  by (induction sep xs rule: py_join.induct) auto

lemma py_join_Cons: "py_join sep (x # xs) = x @ (if xs = [] then [] else sep @ py_join sep xs)"
  by (cases xs) simp_all

lemma length_dropWhile_space: "length (py_lstrip s) \<le> length s"
  by (simp add: py_lstrip_def length_dropWhile_le)

lemma length_py_strip: "length (py_strip s) \<le> length s"
  unfolding py_strip_def
  by (metis length_dropWhile_space length_rev order_trans)

lemma set_py_lstrip: "set (py_lstrip s) \<subseteq> set s"
  by (auto simp: py_lstrip_def dest: set_dropWhileD)

lemma set_py_strip: "set (py_strip s) \<subseteq> set s"
  unfolding py_strip_def by (metis set_py_lstrip set_rev order_trans)

lemma py_lstrip_hd: "py_lstrip s = c # r \<Longrightarrow> \<not> py_isspace c"
  by (metis list.distinct(1) list.sel(1) py_lstrip_def hd_dropWhile)

lemma py_lstrip_id: "s = [] \<or> \<not> py_isspace (hd s) \<Longrightarrow> py_lstrip s = s"
  by (cases s) (auto simp: py_lstrip_def)

text \<open>A text that neither starts nor ends with white space.\<close>

definition stripped :: "string \<Rightarrow> bool" where
  "stripped s \<longleftrightarrow> s = [] \<or> (\<not> py_isspace (hd s) \<and> \<not> py_isspace (last s))"

lemma py_strip_id: "stripped s \<Longrightarrow> py_strip s = s"
  by (cases "s = []") (auto simp: stripped_def py_strip_def py_lstrip_id hd_rev)

lemma stripped_no_space: "(\<And>c. c \<in> set s \<Longrightarrow> \<not> py_isspace c) \<Longrightarrow> stripped s"
  by (cases "s = []") (simp_all add: stripped_def)

lemma dropWhile_last: "dropWhile P s \<noteq> [] \<Longrightarrow> last (dropWhile P s) = last s"
  by (induction s) auto

lemma stripped_py_strip: "stripped (py_strip s)"
proof (cases "py_strip s = []")
  case True
  then show ?thesis by (simp add: stripped_def)
next
  case False
  let ?t = "py_lstrip s"
  from False have ne: "py_lstrip (rev ?t) \<noteq> []" by (simp add: py_strip_def)
  have "\<not> py_isspace (hd (py_lstrip (rev ?t)))"
    using ne by (metis hd_dropWhile py_lstrip_def)
  moreover have "last (py_lstrip (rev ?t)) = last (rev ?t)"
    using ne unfolding py_lstrip_def by (rule dropWhile_last)
  moreover from ne have "rev ?t \<noteq> []"
    by (metis dropWhile.simps(1) py_lstrip_def)
  then have "?t \<noteq> []" by simp
  then have "\<not> py_isspace (last (rev ?t))"
    by (metis hd_dropWhile last_rev py_lstrip_def)
  ultimately show ?thesis
    using ne by (simp add: stripped_def py_strip_def last_rev hd_rev)
qed

lemma py_strip_idem [simp]: "py_strip (py_strip s) = py_strip s"
  by (rule py_strip_id) (rule stripped_py_strip)

lemma py_lstrip_decomp: "\<exists>a. s = a @ py_lstrip s \<and> list_all py_isspace a"
  by (intro exI [of _ "takeWhile py_isspace s"])
    (auto simp: py_lstrip_def list_all_iff dest: set_takeWhileD)

lemma py_strip_decomp:
  "\<exists>a b. s = a @ py_strip s @ b \<and> list_all py_isspace a \<and> list_all py_isspace b"
proof -
  obtain a where a: "s = a @ py_lstrip s" "list_all py_isspace a" using py_lstrip_decomp by blast
  obtain b where b: "rev (py_lstrip s) = b @ py_lstrip (rev (py_lstrip s))" "list_all py_isspace b"
    using py_lstrip_decomp by blast
  have "py_lstrip s = rev (b @ py_lstrip (rev (py_lstrip s)))"
    by (rule rev_rev_ident [THEN sym, THEN trans]) (rule arg_cong [OF b(1)])
  then have "py_lstrip s = py_strip s @ rev b" unfolding py_strip_def rev_append .
  then have "s = a @ py_strip s @ rev b" using a(1) by simp
  then show ?thesis using a(2) b(2) by (intro exI [of _ a] exI [of _ "rev b"]) (simp add: list_all_iff)
qed

lemma set_strip_or_space: "c \<in> set s \<Longrightarrow> c \<in> set (py_strip s) \<or> py_isspace c"
proof -
  assume c: "c \<in> set s"
  obtain a b where d: "s = a @ py_strip s @ b" and sp: "list_all py_isspace a" "list_all py_isspace b"
    using py_strip_decomp by blast
  have "set s = set a \<union> set (py_strip s) \<union> set b"
    using arg_cong [OF d, of set] by (simp add: Un_assoc)
  then show ?thesis using c sp by (auto simp: list_all_iff)
qed

lemma py_strip_space_prefix:
  assumes "list_all py_isspace a" and "stripped s"
  shows "py_strip (a @ s) = s"
proof -
  have "py_lstrip (a @ s) = py_lstrip s"
    using assms(1) by (induction a) (simp_all add: py_lstrip_def)
  then have "py_strip (a @ s) = py_strip s" by (simp add: py_strip_def)
  then show ?thesis using py_strip_id [OF assms(2)] by simp
qed

section \<open>Decimal text\<close>

definition digit_char :: "nat \<Rightarrow> char" where
  "digit_char d = char_of (48 + d)"

fun nat_str :: "nat \<Rightarrow> string" where
  "nat_str n = (if n < 10 then [digit_char n] else nat_str (n div 10) @ [digit_char (n mod 10)])"

declare nat_str.simps [simp del]

lemmas nat_str_unfold [py_simps] = nat_str.simps

text \<open>\<open>str(i)\<close> of an integer.\<close>

definition int_str :: "int \<Rightarrow> string" where
  "int_str i = (if i < 0 then ''-'' @ nat_str (nat (- i)) else nat_str (nat i))"

definition digit_val :: "char \<Rightarrow> nat" where
  "digit_val c = code c - 48"

definition digits_val :: "string \<Rightarrow> nat" where
  "digits_val s = foldl (\<lambda>n c. 10 * n + digit_val c) 0 s"

lemma digit_char_props:
  assumes "d < 10"
  shows "is_ascii_digit (digit_char d)" and "digit_val (digit_char d) = d"
  using assms by (simp_all add: digit_char_def is_ascii_digit_def digit_val_def of_char_of)

lemma nat_str_digits: "list_all is_ascii_digit (nat_str n)"
proof (induction n rule: nat_str.induct)
  case (1 n)
  then show ?case
    by (cases "n < 10") (simp_all add: nat_str.simps [of n] digit_char_props)
qed

lemma nat_str_not_Nil [simp]: "nat_str n \<noteq> []"
  by (simp add: nat_str.simps [of n])

lemma digits_val_nat_str [simp]: "digits_val (nat_str n) = n"
proof (induction n rule: nat_str.induct)
  case (1 n)
  then show ?case
    by (cases "n < 10") (simp_all add: nat_str.simps [of n] digits_val_def digit_char_props)
qed

lemma nat_str_inj: "nat_str m = nat_str n \<Longrightarrow> m = n"
  by (metis digits_val_nat_str)

lemma nat_str_inj_iff [simp]: "nat_str m = nat_str n \<longleftrightarrow> m = n"
  by (auto dest: nat_str_inj)

text \<open>
  \<open>int(text)\<close>: surrounding white space, an optional sign, ASCII digits with single
  underscores between them, at most 4300 digits (CPython's conversion limit); anything
  else raises \<open>ValueError\<close>.
\<close>

fun int_digits_ok :: "bool \<Rightarrow> string \<Rightarrow> bool" where
  "int_digits_ok prev [] \<longleftrightarrow> prev"
| "int_digits_ok prev (c # cs) \<longleftrightarrow>
     (if is_ascii_digit c then int_digits_ok True cs
      else c = CHR ''_'' \<and> prev \<and> int_digits_ok False cs)"

definition max_str_digits :: nat where
  "max_str_digits = 4300"

definition py_int_unsigned :: "string \<Rightarrow> nat result" where
  "py_int_unsigned s =
     (let ds = filter is_ascii_digit s
      in if int_digits_ok False s \<and> length ds \<le> max_str_digits then Inr (digits_val ds)
         else Inl ValueError)"

definition py_int :: "string \<Rightarrow> int result" where
  "py_int s =
     (case py_strip s of
        [] \<Rightarrow> Inl ValueError
      | c # t \<Rightarrow>
          (if c = CHR ''-'' then r_bind (py_int_unsigned t) (\<lambda>n. Inr (- int n))
           else if c = CHR ''+'' then r_bind (py_int_unsigned t) (\<lambda>n. Inr (int n))
           else r_bind (py_int_unsigned (c # t)) (\<lambda>n. Inr (int n))))"

lemma int_digits_ok_all: "list_all is_ascii_digit s \<Longrightarrow> int_digits_ok b s \<longleftrightarrow> b \<or> s \<noteq> []"
  by (induction s arbitrary: b) auto

lemma digit_not_space: "is_ascii_digit c \<Longrightarrow> \<not> py_isspace c"
  by (auto simp: py_isspace_def is_ascii_digit_def)

lemma digit_not_sign: "is_ascii_digit c \<Longrightarrow> c \<noteq> CHR ''-'' \<and> c \<noteq> CHR ''+''"
  by (auto simp: is_ascii_digit_def)

lemma py_int_all_digits:
  assumes "list_all is_ascii_digit s" and "s \<noteq> []"
  shows "py_int s = (if length s \<le> max_str_digits then Inr (int (digits_val s)) else Inl ValueError)"
proof -
  from assms obtain c t where s: "s = c # t" by (cases s) auto
  have "stripped s"
    using assms by (auto simp: list_all_iff intro!: stripped_no_space dest: digit_not_space)
  then have st: "py_strip (c # t) = c # t" by (simp add: py_strip_id s)
  have f: "filter is_ascii_digit s = s"
    using assms(1) by (simp add: list_all_iff)
  have "is_ascii_digit c" using assms(1) by (simp add: s)
  then have "py_int s = r_bind (py_int_unsigned s) (\<lambda>n. Inr (int n))"
    using digit_not_sign [of c] by (simp add: py_int_def st s)
  then show ?thesis
    using assms by (simp add: py_int_unsigned_def Let_def f int_digits_ok_all)
qed

lemma py_int_error: "py_int s = Inl e \<Longrightarrow> e = ValueError"
  by (auto simp: py_int_def py_int_unsigned_def Let_def r_bind_Inl_iff
      split: list.splits if_splits)

theorem py_int_int_str:
  assumes "length (nat_str (nat \<bar>i\<bar>)) \<le> max_str_digits"
  shows "py_int (int_str i) = Inr i"
proof (cases "i < 0")
  case True
  let ?d = "nat_str (nat (- i))"
  have st: "stripped (CHR ''-'' # ?d)"
    using nat_str_digits [of "nat (- i)"]
    by (intro stripped_no_space) (auto simp: py_isspace_def is_ascii_digit_def list_all_iff)
  have f: "filter is_ascii_digit ?d = ?d"
    using nat_str_digits [of "nat (- i)"] by (simp add: list_all_iff)
  have "py_int_unsigned ?d = Inr (nat (- i))"
    using assms True nat_str_digits [of "nat (- i)"]
    by (simp add: py_int_unsigned_def Let_def f int_digits_ok_all)
  then show ?thesis
    using True st by (simp add: py_int_def int_str_def py_strip_id)
next
  case False
  then show ?thesis
    using assms by (simp add: int_str_def py_int_all_digits nat_str_digits)
qed


text \<open>\<open>str(i)\<close>, which the interpreter bounds in the same way as \<open>int(text)\<close>.\<close>

definition str_limit_ok :: "int \<Rightarrow> bool" where
  "str_limit_ok i \<longleftrightarrow> length (nat_str (nat \<bar>i\<bar>)) \<le> max_str_digits"

definition py_str_int :: "int \<Rightarrow> string result" where
  "py_str_int i = (if str_limit_ok i then Inr (int_str i) else Inl ValueError)"

lemma py_str_int_Inr_iff: "py_str_int i = Inr s \<longleftrightarrow> str_limit_ok i \<and> s = int_str i"
  by (auto simp: py_str_int_def)

lemma py_str_int_error: "py_str_int i = Inl e \<Longrightarrow> e = ValueError"
  by (auto simp: py_str_int_def split: if_splits)

end
