(* ===== verification/Py_Values.thy ===== *)
theory Py_Values
  imports Py_Strings
begin

text \<open>
  The dynamically typed values the connector receives: scalars, callables, other objects,
  and references to containers. Containers live in a heap, because the sources look at
  their identity: \<^verbatim>\<open>_validate_snapshot_structure\<close> detects cycles by the \<open>id\<close> of
  the containers it is inside, \<^verbatim>\<open>validate_query_parameter_values\<close> skips containers it
  has seen. The theory defines the values, the heap, the edges between values, and the
  text Python prints for the scalars that reach SQL.
\<close>

section \<open>Scalars\<close>

text \<open>
  A finite float is its exact value with its \<open>repr\<close>; a finite \<open>Decimal\<close> is its
  \<open>str\<close>, which determines it.
\<close>

datatype pyfloat = FFin rat string | FInf bool | FNaN

datatype pydecimal = DFin string | DNonFinite

datatype pydate = PyDate (year: nat) (month: nat) (day: nat)

datatype pytime = PyTime (hour: nat) (minute: nat) (second: nat) (microsecond: nat)

type_synonym ref = nat

text \<open>
  Values. \<open>aware\<close> tells whether a date-time or time has a \<open>tzinfo\<close>. \<open>PObject\<close> is
  any other instance, with whether pickle can serialise it.
\<close>

datatype pyobj =
    PNone
  | PBool bool
  | PInt int
  | PFloat pyfloat
  | PDecimal pydecimal
  | PStr string
  | PBytes string
  | PDate pydate
  | PDateTime (aware: bool) pydate pytime
  | PTime (aware: bool) pytime
  | PUUID nat
  | PCallable
  | PObject (picklable: bool)
  | PRef ref

datatype container =
    CMapping "(pyobj \<times> pyobj) list"
  | CList "pyobj list"
  | CTuple "pyobj list"
  | CSet "pyobj list"
  | CFrozenset "pyobj list"

type_synonym heap = "(ref \<times> container) list"

text \<open>The objects a container holds, in iteration order: for a mapping, each key and its value.\<close>

fun children :: "container \<Rightarrow> pyobj list" where
  "children (CMapping kvs) = concat (map (\<lambda>(k, v). [k, v]) kvs)"
| "children (CList xs) = xs"
| "children (CTuple xs) = xs"
| "children (CSet xs) = xs"
| "children (CFrozenset xs) = xs"

text \<open>The same without mapping keys: what \<open>.values()\<close> and iteration give.\<close>

fun value_children :: "container \<Rightarrow> pyobj list" where
  "value_children (CMapping kvs) = map snd kvs"
| "value_children (CList xs) = xs"
| "value_children (CTuple xs) = xs"
| "value_children (CSet xs) = xs"
| "value_children (CFrozenset xs) = xs"

lemma value_children_subset: "set (value_children c) \<subseteq> set (children c)"
  by (cases c) force+

fun deref :: "heap \<Rightarrow> pyobj \<Rightarrow> container option" where
  "deref h (PRef r) = map_of h r"
| "deref h _ = None"

text \<open>
  The test \<open>isinstance(v, (Mapping, list, tuple, set, frozenset))\<close> together with \<open>id(v)\<close>:
  the identity and the contents of a container.
\<close>

fun container_of :: "heap \<Rightarrow> pyobj \<Rightarrow> (ref \<times> container) option" where
  "container_of h (PRef r) = map_option (Pair r) (map_of h r)"
| "container_of h _ = None"

lemma container_of_Some: "container_of h v = Some (r, c) \<longleftrightarrow> v = PRef r \<and> map_of h r = Some c"
  by (cases v) auto

lemma container_of_None: "container_of h v = None \<longleftrightarrow> deref h v = None"
  by (cases v) auto

definition edge :: "heap \<Rightarrow> pyobj \<Rightarrow> pyobj \<Rightarrow> bool" where
  "edge h v w \<longleftrightarrow> (\<exists>c. deref h v = Some c \<and> w \<in> set (children c))"

definition value_edge :: "heap \<Rightarrow> pyobj \<Rightarrow> pyobj \<Rightarrow> bool" where
  "value_edge h v w \<longleftrightarrow> (\<exists>c. deref h v = Some c \<and> w \<in> set (value_children c))"

lemma edge_PRef [simp]: "edge h (PRef r) w \<longleftrightarrow> (\<exists>c. map_of h r = Some c \<and> w \<in> set (children c))"
  by (simp add: edge_def)

lemma edge_source: "edge h v w \<Longrightarrow> \<exists>r c. v = PRef r \<and> map_of h r = Some c"
  by (cases v) (auto simp: edge_def)

lemma value_edgeE:
  assumes "value_edge h v w"
  obtains r c where "v = PRef r" and "map_of h r = Some c" and "w \<in> set (value_children c)"
  using assms by (cases v) (auto simp: value_edge_def)

lemma map_of_domI: "map_of h r = Some c \<Longrightarrow> r \<in> fst ` set h"
  by (force dest: map_of_SomeD)

fun is_callable :: "pyobj \<Rightarrow> bool" where
  "is_callable PCallable = True"
| "is_callable _ = False"

text \<open>A \<open>datetime\<close> or \<open>time\<close> with a time zone.\<close>

fun tz_aware :: "pyobj \<Rightarrow> bool" where
  "tz_aware (PDateTime a _ _) = a"
| "tz_aware (PTime a _) = a"
| "tz_aware _ = False"

text \<open>Python's truth value of an object of this model, for the tests the sources make on strings.\<close>

fun is_nonempty_str :: "pyobj \<Rightarrow> bool" where
  "is_nonempty_str (PStr s) = (s \<noteq> [])"
| "is_nonempty_str _ = False"

section \<open>Numbers\<close>

text \<open>
  The value of an \<open>int\<close> or finite \<open>float\<close>; a boolean is an \<open>int\<close> in Python but every
  caller excludes it first.
\<close>

fun finite_number :: "pyobj \<Rightarrow> rat option" where
  "finite_number (PInt i) = Some (of_int i)"
| "finite_number (PFloat (FFin q _)) = Some q"
| "finite_number _ = None"

section \<open>Text of scalars\<close>

fun pad_zeros :: "nat \<Rightarrow> string \<Rightarrow> string" where
  "pad_zeros k s = replicate (k - length s) (CHR ''0'') @ s"

definition date_str :: "pydate \<Rightarrow> string" where
  "date_str d =
     pad_zeros 4 (nat_str (year d)) @ ''-'' @ pad_zeros 2 (nat_str (month d)) @ ''-''
     @ pad_zeros 2 (nat_str (day d))"

text \<open>\<open>time.isoformat()\<close>: the fraction is printed only when it is not zero.\<close>

definition time_str :: "pytime \<Rightarrow> string" where
  "time_str t =
     pad_zeros 2 (nat_str (hour t)) @ '':'' @ pad_zeros 2 (nat_str (minute t)) @ '':''
     @ pad_zeros 2 (nat_str (second t))
     @ (if microsecond t = 0 then [] else ''.'' @ pad_zeros 6 (nat_str (microsecond t)))"

definition hex_char :: "nat \<Rightarrow> char" where
  "hex_char n = (if n < 10 then char_of (48 + n) else char_of (87 + n))"

text \<open>\<open>k\<close> hexadecimal digits of \<open>n\<close>.\<close>

fun hex_digits :: "nat \<Rightarrow> nat \<Rightarrow> string" where
  "hex_digits 0 n = []"
| "hex_digits (Suc k) n = hex_digits k (n div 16) @ [hex_char (n mod 16)]"

text \<open>\<open>bytes.hex()\<close> and \<open>str(uuid)\<close>.\<close>

definition bytes_hex :: "string \<Rightarrow> string" where
  "bytes_hex bs = concat (map (\<lambda>b. hex_digits 2 (of_char b)) bs)"

definition uuid_str :: "nat \<Rightarrow> string" where
  "uuid_str n =
     (let x = hex_digits 32 n
      in take 8 x @ ''-'' @ take 4 (drop 8 x) @ ''-'' @ take 4 (drop 12 x) @ ''-''
         @ take 4 (drop 16 x) @ ''-'' @ drop 20 x)"

definition is_hex_char :: "char \<Rightarrow> bool" where
  "is_hex_char c \<longleftrightarrow> is_ascii_digit c \<or> (97 \<le> code c \<and> code c \<le> 102)"

lemma hex_char_ok: "n < 16 \<Longrightarrow> is_hex_char (hex_char n)"
  by (auto simp: is_hex_char_def hex_char_def is_ascii_digit_def of_char_of)

lemma hex_digits_ok: "list_all is_hex_char (hex_digits k n)"
  by (induction k arbitrary: n) (simp_all add: hex_char_ok)

lemma bytes_hex_ok: "list_all is_hex_char (bytes_hex bs)"
  by (induction bs) (simp_all add: bytes_hex_def hex_digits_ok del: hex_digits.simps)

end
