(* ===== verification/Identifiers.thy ===== *)
theory Identifiers
  imports Py_Values
begin

text \<open>
  \<^verbatim>\<open>_common/identifiers.py\<close>: validation and backtick quoting of identifiers, the
  qualified table name and the projection list. The specification side is a reader for
  quoted identifiers, as a SQL lexer reads them; quoting and reading are inverse to each
  other, so no identifier can end its own quotes.
\<close>

abbreviation backtick :: char where
  "backtick \<equiv> CHR 0x60"

abbreviation backslash :: char where
  "backslash \<equiv> CHR 0x5C"

section \<open>Operations\<close>

fun validate_identifier :: "pyobj \<Rightarrow> string result" where
  "validate_identifier (PStr s) =
     (if s = [] then Inl ConfigurationError
      else if CHR 0x00 \<in> set s then Inl ConfigurationError
      else Inr s)"
| "validate_identifier _ = Inl ConfigurationError"

definition quote_identifier :: "string \<Rightarrow> string result" where
  "quote_identifier value =
     r_bind (validate_identifier (PStr value)) (\<lambda>validated.
       Inr ([backtick] @ py_replace backtick [backtick, backtick] validated @ [backtick]))"

record qualified_table =
  database :: string
  table :: string

text \<open>\<open>QualifiedTable.__post_init__\<close>: construction validates both names.\<close>

definition QualifiedTable :: "pyobj \<Rightarrow> pyobj \<Rightarrow> qualified_table result" where
  "QualifiedTable db tb =
     r_bind (validate_identifier db) (\<lambda>d.
     r_bind (validate_identifier tb) (\<lambda>t.
       Inr \<lparr>database = d, table = t\<rparr>))"

definition table_sql :: "qualified_table \<Rightarrow> string result" where
  "table_sql t =
     r_bind (quote_identifier (database t)) (\<lambda>d.
     r_bind (quote_identifier (table t)) (\<lambda>n.
       Inr (d @ ''.'' @ n)))"

text \<open>
  The projection argument: absent, one text value (rejected: a string iterates over its
  characters), or an iterable of objects.
\<close>

datatype columns_arg = NoColumns | TextColumns | ColumnList "pyobj list"

fun normalize_columns :: "columns_arg \<Rightarrow> string list option result" where
  "normalize_columns NoColumns = Inr None"
| "normalize_columns TextColumns = Inl ConfigurationError"
| "normalize_columns (ColumnList columns) =
     r_bind (r_map validate_identifier columns) (\<lambda>normalized.
     r_bind (raise_if (normalized = []) ConfigurationError) (\<lambda>_.
     r_bind (raise_if (length (remdups normalized) \<noteq> length normalized) ConfigurationError) (\<lambda>_.
       Inr (Some normalized))))"

definition quote_columns :: "string list \<Rightarrow> string result" where
  "quote_columns columns =
     r_bind (normalize_columns (ColumnList (map PStr columns))) (\<lambda>normalized.
       (case normalized of
          None \<Rightarrow> Inl AssertionError
        | Some ns \<Rightarrow> r_bind (r_map quote_identifier ns) (\<lambda>qs. Inr (py_join '', '' qs))))"

section \<open>Valid identifiers\<close>

definition valid_identifier :: "string \<Rightarrow> bool" where
  "valid_identifier s \<longleftrightarrow> s \<noteq> [] \<and> CHR 0x00 \<notin> set s"

text \<open>The quoted form of a valid identifier, as a total function.\<close>

definition quoted :: "string \<Rightarrow> string" where
  "quoted s = [backtick] @ py_replace backtick [backtick, backtick] s @ [backtick]"

lemma validate_identifier_Inr_iff [simp]:
  "validate_identifier v = Inr s \<longleftrightarrow> v = PStr s \<and> valid_identifier s"
  by (cases v) (auto simp: valid_identifier_def)

lemma validate_identifier_error: "validate_identifier v = Inl e \<Longrightarrow> e = ConfigurationError"
  by (cases v) (auto split: if_splits)

lemma validate_identifier_valid [simp]:
  "valid_identifier s \<Longrightarrow> validate_identifier (PStr s) = Inr s"
  by (simp del: validate_identifier.simps)

lemma quote_identifier_valid [simp]:
  "valid_identifier s \<Longrightarrow> quote_identifier s = Inr (quoted s)"
  by (simp add: quote_identifier_def quoted_def del: validate_identifier.simps)

lemma quote_identifier_Inr_iff:
  "quote_identifier s = Inr q \<longleftrightarrow> valid_identifier s \<and> q = quoted s"
  by (auto simp: quote_identifier_def quoted_def r_bind_Inr_iff simp del: validate_identifier.simps)

lemma quote_identifier_error: "quote_identifier s = Inl e \<Longrightarrow> e = ConfigurationError"
  by (auto simp: quote_identifier_def r_bind_Inl_iff dest: validate_identifier_error
      simp del: validate_identifier.simps)

lemma r_map_quote_identifier_valid:
  "list_all valid_identifier xs \<Longrightarrow> r_map quote_identifier xs = Inr (map quoted xs)"
  by (rule r_map_Inr_map) (simp add: list_all_iff)

lemma map_PStr_eq [simp]: "map PStr xs = map PStr ys \<longleftrightarrow> xs = ys"
  by (rule inj_map_eq_map) (simp add: inj_def)

lemma r_map_validate_iff:
  "r_map validate_identifier vs = Inr ns \<longleftrightarrow> vs = map PStr ns \<and> list_all valid_identifier ns"
proof -
  have "list_all2 (\<lambda>v s. v = PStr s \<and> valid_identifier s) vs ns \<longleftrightarrow>
      vs = map PStr ns \<and> list_all valid_identifier ns"
    by (auto simp: list_all2_conv_all_nth list_all_length intro: nth_equalityI)
  then show ?thesis by (simp add: r_map_Inr_iff)
qed

lemma r_map_validate_PStr:
  "r_map validate_identifier (map PStr xs) = Inr ys \<longleftrightarrow> list_all valid_identifier xs \<and> ys = xs"
  by (auto simp: r_map_validate_iff)

lemma normalize_columns_Inr_iff:
  "normalize_columns (ColumnList vs) = Inr r \<longleftrightarrow>
     (\<exists>ns. vs = map PStr ns \<and> r = Some ns \<and> ns \<noteq> [] \<and> distinct ns \<and> list_all valid_identifier ns)"
proof -
  have d: "length (remdups ns) = length ns \<longleftrightarrow> distinct ns" for ns :: "string list"
    by simp
  show ?thesis
    unfolding normalize_columns.simps r_bind_Inr_iff r_map_validate_iff raise_if_Inr_iff d
    by blast
qed


lemma quote_columns_Inr_iff:
  "quote_columns cs = Inr s \<longleftrightarrow>
     cs \<noteq> [] \<and> distinct cs \<and> list_all valid_identifier cs \<and> s = py_join '', '' (map quoted cs)"
proof -
  have n: "normalize_columns (ColumnList (map PStr cs)) = Inr r \<longleftrightarrow>
      r = Some cs \<and> cs \<noteq> [] \<and> distinct cs \<and> list_all valid_identifier cs" for r
    unfolding normalize_columns_Inr_iff by auto
  show ?thesis
    unfolding quote_columns_def r_bind_Inr_iff n
    by (auto simp: r_map_quote_identifier_valid)
qed

lemma table_sql_Inr_iff:
  "table_sql t = Inr s \<longleftrightarrow>
     valid_identifier (database t) \<and> valid_identifier (table t)
     \<and> s = quoted (database t) @ ''.'' @ quoted (table t)"
  by (auto simp: table_sql_def r_bind_Inr_iff quote_identifier_Inr_iff)

text \<open>A table that \<open>QualifiedTable\<close> built always renders.\<close>

lemma QualifiedTable_sql:
  "QualifiedTable db tb = Inr t \<Longrightarrow> \<exists>s. table_sql t = Inr s"
  by (auto simp: QualifiedTable_def table_sql_Inr_iff simp del: validate_identifier.simps)

section \<open>Reading quoted identifiers\<close>

text \<open>
  A SQL lexer's view: after the opening backtick, a doubled backtick is one backtick of the
  name and a single one ends it. With \<open>esc\<close> a backslash also escapes the next character
  (the rule that \<^verbatim>\<open>clickhouse/schema.py\<close> applies to backtick quotes); without it a
  backslash is an ordinary character (the rule that \<^verbatim>\<open>doris/sql.py\<close> applies to them).
\<close>

fun read_quoted_body :: "bool \<Rightarrow> string \<Rightarrow> (string \<times> string) option" where
  "read_quoted_body esc [] = None"
| "read_quoted_body esc [c] =
     (if c = backtick then Some ([], []) else None)"
| "read_quoted_body esc (c # d # cs) =
     (if c = backtick then
        (if d = backtick then map_option (apfst (Cons backtick)) (read_quoted_body esc cs)
         else Some ([], d # cs))
      else if esc \<and> c = backslash then map_option (apfst (Cons d)) (read_quoted_body esc cs)
      else map_option (apfst (Cons c)) (read_quoted_body esc (d # cs)))"

fun read_identifier :: "bool \<Rightarrow> string \<Rightarrow> (string \<times> string) option" where
  "read_identifier esc [] = None"
| "read_identifier esc (c # cs) = (if c = backtick then read_quoted_body esc cs else None)"

definition ends_quote :: "string \<Rightarrow> bool" where
  "ends_quote rest \<longleftrightarrow> rest = [] \<or> hd rest \<noteq> backtick"

lemma read_quoted_body_end:
  "ends_quote rest \<Longrightarrow> read_quoted_body esc (backtick # rest) = Some ([], rest)"
  by (cases rest) (auto simp: ends_quote_def)

lemma read_quoted_body_step:
  assumes "c \<noteq> backtick" and "\<not> (esc \<and> c = backslash)" and "cs \<noteq> []"
  shows "read_quoted_body esc (c # cs) = map_option (apfst (Cons c)) (read_quoted_body esc cs)"
  using assms by (cases cs) auto

lemma read_quoted_body_replace:
  assumes "ends_quote rest" and "esc \<Longrightarrow> backslash \<notin> set s"
  shows "read_quoted_body esc (py_replace backtick [backtick, backtick] s @ backtick # rest)
         = Some (s, rest)"
  using assms(2)
proof (induction s)
  case Nil
  then show ?case using read_quoted_body_end [OF assms(1)] by simp
next
  case (Cons c s)
  let ?r = "py_replace backtick [backtick, backtick] s @ backtick # rest"
  have IH: "read_quoted_body esc ?r = Some (s, rest)"
    using Cons by simp
  show ?case
  proof (cases "c = backtick")
    case True
    then show ?thesis using IH by simp
  next
    case False
    moreover have "\<not> (esc \<and> c = backslash)" using Cons.prems by auto
    ultimately have "read_quoted_body esc (c # ?r) = Some (c # s, rest)"
      using IH read_quoted_body_step [of c esc ?r] by simp
    then show ?thesis using False by simp
  qed
qed

theorem read_quoted:
  assumes "ends_quote rest" and "esc \<Longrightarrow> backslash \<notin> set s"
  shows "read_identifier esc (quoted s @ rest) = Some (s, rest)"
  using read_quoted_body_replace [OF assms] by (simp add: quoted_def)

lemma quoted_inj: "quoted s = quoted t \<Longrightarrow> s = t"
  using read_quoted [of "[]" False s] read_quoted [of "[]" False t]
  by (simp add: ends_quote_def)

lemma read_quoted_body_length:
  "read_quoted_body esc s = Some (c, rest) \<Longrightarrow> length rest < length s"
  by (induction esc s arbitrary: c rule: read_quoted_body.induct)
     (auto split: if_splits simp: less_Suc_eq)

lemma read_identifier_length:
  "read_identifier esc s = Some (c, rest) \<Longrightarrow> length rest < length s"
  by (cases s) (auto split: if_splits dest: read_quoted_body_length)

text \<open>Reading a rendered projection list: identifiers separated by a comma and a space.\<close>

function read_columns :: "string \<Rightarrow> string list option" where
  "read_columns s =
     (case read_identifier False s of
        None \<Rightarrow> None
      | Some (c, rest) \<Rightarrow>
          (if rest = [] then Some [c]
           else if take 2 rest = '', '' then map_option (Cons c) (read_columns (drop 2 rest))
           else None))"
  by pat_completeness auto

termination
  by (relation "measure length") (auto dest: read_identifier_length simp: less_imp_diff_less)

declare read_columns.simps [simp del]

lemma read_columns_join:
  "cs \<noteq> [] \<Longrightarrow> read_columns (py_join '', '' (map quoted cs)) = Some cs"
proof (induction cs)
  case Nil
  then show ?case by simp
next
  case (Cons c cs)
  let ?rest = "if cs = [] then [] else '', '' @ py_join '', '' (map quoted cs)"
  have eq: "py_join '', '' (map quoted (c # cs)) = quoted c @ ?rest"
    by (simp add: py_join_Cons)
  have "read_identifier False (quoted c @ ?rest) = Some (c, ?rest)"
    by (rule read_quoted) (simp_all add: ends_quote_def)
  then show ?case
    unfolding eq using Cons.IH read_columns.simps [of "quoted c @ ?rest"]
    by (cases "cs = []") simp_all
qed

end
