(* ===== verification/Redaction.thy ===== *)
theory Redaction
  imports Identifiers
begin

text \<open>
  \<^verbatim>\<open>_common/redaction.py\<close>: secrets given literally or as a reference to an environment
  variable, resolved in the process that needs them, and the option names that
  representations may show. The environment is an association list.
\<close>

section \<open>Python's \<open>repr\<close> of a string\<close>

abbreviation squote :: char where
  "squote \<equiv> CHR 0x27"

abbreviation dquote :: char where
  "dquote \<equiv> CHR 0x22"

definition py_isprintable :: "char \<Rightarrow> bool" where
  "py_isprintable c \<longleftrightarrow>
     (32 \<le> code c \<and> code c \<le> 126) \<or> (161 \<le> code c \<and> code c \<noteq> 173)"

definition repr_char :: "char \<Rightarrow> char \<Rightarrow> string" where
  "repr_char q c =
     (if c = q \<or> c = backslash then [backslash, c]
      else if code c = 10 then [backslash, CHR ''n'']
      else if code c = 13 then [backslash, CHR ''r'']
      else if code c = 9 then [backslash, CHR ''t'']
      else if py_isprintable c then [c]
      else [backslash, CHR ''x''] @ hex_digits 2 (code c))"

definition py_repr_str :: "string \<Rightarrow> string" where
  "py_repr_str s =
     (let q = (if squote \<in> set s \<and> dquote \<notin> set s then dquote else squote)
      in [q] @ concat (map (repr_char q) s) @ [q])"

text \<open>\<open>repr\<close> of a tuple of strings: one element keeps its trailing comma.\<close>

fun py_repr_str_tuple :: "string list \<Rightarrow> string" where
  "py_repr_str_tuple [x] = ''('' @ py_repr_str x @ '',)''"
| "py_repr_str_tuple xs = ''('' @ py_join '', '' (map py_repr_str xs) @ '')''"

section \<open>Secrets\<close>

text \<open>
  A secret is a string or a \<open>SecretRef\<close>, which holds a variable name. An argument in the
  position of a secret may be any other object.
\<close>

datatype secret = PlainSecret string | SecretRef string

datatype secret_arg = SecretArg secret | NonSecretArg

definition env_name_ok :: "string \<Rightarrow> bool" where
  "env_name_ok s \<longleftrightarrow> (case s of [] \<Rightarrow> False | c # cs \<Rightarrow> is_name_start c \<and> list_all is_name_char cs)"

text \<open>\<open>SecretRef.env\<close>, with the check of \<open>__post_init__\<close>.\<close>

definition SecretRef_env :: "string \<Rightarrow> secret result" where
  "SecretRef_env name = (if env_name_ok name then Inr (SecretRef name) else Inl ConfigurationError)"

definition resolve_ref :: "(string \<times> string) list \<Rightarrow> string \<Rightarrow> string result" where
  "resolve_ref environ name =
     (case map_of environ name of Some v \<Rightarrow> Inr v | None \<Rightarrow> Inl ConfigurationError)"

definition SecretRef_repr :: "string \<Rightarrow> string" where
  "SecretRef_repr name = ''SecretRef.env('' @ py_repr_str name @ '')''"

fun validate_secret :: "secret_arg \<Rightarrow> secret result" where
  "validate_secret (SecretArg s) = Inr s"
| "validate_secret NonSecretArg = Inl ConfigurationError"

fun resolve_secret :: "(string \<times> string) list \<Rightarrow> secret \<Rightarrow> string result" where
  "resolve_secret environ (SecretRef name) = resolve_ref environ name"
| "resolve_secret environ (PlainSecret s) = Inr s"

definition option_keys :: "(string \<times> pyobj) list \<Rightarrow> string list" where
  "option_keys opts = map fst opts"

lemma resolve_secret_error: "resolve_secret env s = Inl e \<Longrightarrow> e = ConfigurationError"
  by (cases s) (auto simp: resolve_ref_def split: option.splits)

end
