(* ===== verification/Contracts.thy ===== *)
theory Contracts
  imports Redaction
begin

text \<open>
  \<^verbatim>\<open>_common/contracts.py\<close> without its batching functions: time-outs, resource limits,
  snapshots of caller-owned values, frozen options and parameters, and the query
  specification a task carries. The Arrow schema the specification holds is modelled as
  its fields and metadata.

  \<open>validate_structure\<close> and \<open>validate_values\<close> walk a heap that may contain cycles; both
  are total functions, and \<open>validate_structure_iff\<close> and \<open>validate_values_iff\<close> say
  exactly which object graphs they accept.
\<close>

section \<open>Time-outs and limits\<close>

definition MAX_BATCH_ROWS :: int where "MAX_BATCH_ROWS = 1000000"
definition MAX_BATCH_BYTES :: int where "MAX_BATCH_BYTES = 1024 * 1024 * 1024"
definition MAX_TASKS :: int where "MAX_TASKS = 1024"
definition MAX_TIMEOUT_SECONDS :: rat where "MAX_TIMEOUT_SECONDS = 86400"

lemmas limit_defs = MAX_BATCH_ROWS_def MAX_BATCH_BYTES_def MAX_TASKS_def MAX_TIMEOUT_SECONDS_def

text \<open>The validated value, as the number \<open>float(value)\<close> denotes.\<close>

definition validate_timeout_seconds :: "pyobj \<Rightarrow> rat result" where
  "validate_timeout_seconds v =
     (case finite_number v of
        Some q \<Rightarrow> (if 0 < q \<and> q \<le> MAX_TIMEOUT_SECONDS then Inr q else Inl ConfigurationError)
      | None \<Rightarrow> Inl ConfigurationError)"

record resource_limits =
  batch_rows :: int
  batch_bytes :: int
  target_tasks :: int
  max_tasks :: int
  connect_timeout_seconds :: pyobj
  query_timeout_seconds :: pyobj

text \<open>An integer argument within bounds; a boolean is not one.\<close>

definition bounded_int :: "pyobj \<Rightarrow> int \<Rightarrow> int result" where
  "bounded_int v hi =
     (case v of
        PInt i \<Rightarrow> (if 1 \<le> i \<and> i \<le> hi then Inr i else Inl ConfigurationError)
      | _ \<Rightarrow> Inl ConfigurationError)"

definition ResourceLimits ::
    "pyobj \<Rightarrow> pyobj \<Rightarrow> pyobj \<Rightarrow> pyobj \<Rightarrow> pyobj \<Rightarrow> pyobj \<Rightarrow> resource_limits result" where
  "ResourceLimits rows bytes target maxt connect query =
     r_bind (bounded_int rows MAX_BATCH_ROWS) (\<lambda>r.
     r_bind (bounded_int bytes MAX_BATCH_BYTES) (\<lambda>b.
     r_bind (bounded_int target MAX_TASKS) (\<lambda>t.
     r_bind (bounded_int maxt MAX_TASKS) (\<lambda>m.
     r_bind (raise_if (t > m) ConfigurationError) (\<lambda>_.
     r_bind (validate_timeout_seconds connect) (\<lambda>_.
     r_bind (validate_timeout_seconds query) (\<lambda>_.
       Inr \<lparr>batch_rows = r, batch_bytes = b, target_tasks = t, max_tasks = m,
            connect_timeout_seconds = connect, query_timeout_seconds = query\<rparr>)))))))"

text \<open>The number of seconds a validated time-out stands for.\<close>

definition timeout_ok :: "pyobj \<Rightarrow> bool" where
  "timeout_ok v \<longleftrightarrow>
     (case finite_number v of Some q \<Rightarrow> 0 < q \<and> q \<le> MAX_TIMEOUT_SECONDS | None \<Rightarrow> False)"

definition valid_limits :: "resource_limits \<Rightarrow> bool" where
  "valid_limits l \<longleftrightarrow>
     1 \<le> batch_rows l \<and> batch_rows l \<le> MAX_BATCH_ROWS
     \<and> 1 \<le> batch_bytes l \<and> batch_bytes l \<le> MAX_BATCH_BYTES
     \<and> 1 \<le> target_tasks l \<and> target_tasks l \<le> max_tasks l \<and> max_tasks l \<le> MAX_TASKS
     \<and> timeout_ok (connect_timeout_seconds l) \<and> timeout_ok (query_timeout_seconds l)"

lemma bounded_int_Inr_iff: "bounded_int v hi = Inr i \<longleftrightarrow> v = PInt i \<and> 1 \<le> i \<and> i \<le> hi"
  by (cases v) (auto simp: bounded_int_def)

lemma bounded_int_error: "bounded_int v hi = Inl e \<Longrightarrow> e = ConfigurationError"
  by (cases v) (auto simp: bounded_int_def split: if_splits)

lemma validate_timeout_Inr_iff:
  "validate_timeout_seconds v = Inr q \<longleftrightarrow>
     finite_number v = Some q \<and> 0 < q \<and> q \<le> MAX_TIMEOUT_SECONDS"
  by (auto simp: validate_timeout_seconds_def split: option.splits)

lemma validate_timeout_error: "validate_timeout_seconds v = Inl e \<Longrightarrow> e = ConfigurationError"
  by (auto simp: validate_timeout_seconds_def split: option.splits if_splits)

lemma ResourceLimits_Inr:
  "ResourceLimits r b t m c q = Inr l \<longleftrightarrow>
     valid_limits l \<and> r = PInt (batch_rows l) \<and> b = PInt (batch_bytes l)
     \<and> t = PInt (target_tasks l) \<and> m = PInt (max_tasks l)
     \<and> c = connect_timeout_seconds l \<and> q = query_timeout_seconds l"
  by (cases l)
     (auto simp: ResourceLimits_def r_bind_Inr_iff bounded_int_Inr_iff validate_timeout_Inr_iff
        valid_limits_def timeout_ok_def split: option.splits)

lemma ResourceLimits_error: "ResourceLimits r b t m c q = Inl e \<Longrightarrow> e = ConfigurationError"
  by (auto simp: ResourceLimits_def r_bind_Inl_iff
      dest: bounded_int_error validate_timeout_error)

section \<open>Snapshots\<close>

text \<open>Every level of the walk enters a container it is not yet inside.\<close>

lemma remaining_decreases:
  assumes "map_of h r = Some c" and "r \<notin> set active"
  shows "card (fst ` set h - set (r # active)) < card (fst ` set h - set active)"
proof (rule psubset_card_mono)
  show "finite (fst ` set h - set active)" by simp
  show "fst ` set h - set (r # active) \<subset> fst ` set h - set active"
    using assms map_of_domI [of h r c] by auto
qed

text \<open>
  \<open>_validate_snapshot_structure\<close>. The list \<open>active\<close> holds the containers the walk is
  inside; passing the extended list only downwards is the \<open>finally\<close> that removes the
  identity again.
\<close>

function validate_structure :: "heap \<Rightarrow> ref list \<Rightarrow> pyobj \<Rightarrow> unit result" where
  "validate_structure h active v =
     (if is_callable v then Inl ConfigurationError
      else case container_of h v of
        None \<Rightarrow> Inr ()
      | Some (r, c) \<Rightarrow>
          (if r \<in> set active then Inl ConfigurationError
           else r_all (\<lambda>w. validate_structure h (r # active) w) (children c)))"
  by pat_completeness auto

termination
  by (relation "measure (\<lambda>(h, active, v). card (fst ` set h - set active))")
     (auto simp: remaining_decreases container_of_Some simp del: set_simps)

declare validate_structure.simps [simp del]

text \<open>
  \<open>pickle.dumps\<close> fails on an object that cannot be serialised, at any depth. It is called
  after \<open>validate_structure\<close> accepted, on a graph without cycles.
\<close>

function pickle_ok :: "heap \<Rightarrow> ref list \<Rightarrow> pyobj \<Rightarrow> bool" where
  "pickle_ok h active v =
     (if v = PObject False then False
      else case container_of h v of
        None \<Rightarrow> True
      | Some (r, c) \<Rightarrow>
          (if r \<in> set active then True
           else list_all (\<lambda>w. pickle_ok h (r # active) w) (children c)))"
  by pat_completeness auto

termination
  by (relation "measure (\<lambda>(h, active, v). card (fst ` set h - set active))")
     (auto simp: remaining_decreases container_of_Some simp del: set_simps)

declare pickle_ok.simps [simp del]

text \<open>
  \<open>snapshot_serializable\<close>. The pickle round trip yields an isomorphic graph of fresh
  objects. Values and heaps of the model are immutable, so the copy is the same root in
  the heap as it was at the call: later changes of the caller's objects produce another
  heap, which the snapshot does not refer to.
\<close>

definition snapshot_serializable :: "heap \<Rightarrow> pyobj \<Rightarrow> pyobj result" where
  "snapshot_serializable h v =
     r_bind (validate_structure h [] v) (\<lambda>_.
       if pickle_ok h [] v then Inr v else Inl ConfigurationError)"

text \<open>The walk accepts exactly the graphs without a callable and without a cycle.\<close>

definition clean :: "heap \<Rightarrow> ref set \<Rightarrow> pyobj \<Rightarrow> bool" where
  "clean h A v \<longleftrightarrow>
     (\<forall>w. (edge h)\<^sup>*\<^sup>* v w \<longrightarrow>
        \<not> is_callable w \<and> \<not> (edge h)\<^sup>+\<^sup>+ w w
        \<and> (\<forall>r c. w = PRef r \<and> map_of h r = Some c \<longrightarrow> r \<notin> A))"

lemma clean_leaf:
  assumes "\<And>w. \<not> edge h v w"
  shows "clean h A v \<longleftrightarrow> \<not> is_callable v \<and> (\<forall>r c. v = PRef r \<and> map_of h r = Some c \<longrightarrow> r \<notin> A)"
proof -
  have "(edge h)\<^sup>*\<^sup>* v w \<longleftrightarrow> w = v" for w
    using assms by (metis converse_rtranclpE rtranclp.rtrancl_refl)
  moreover have "\<not> (edge h)\<^sup>+\<^sup>+ v v"
    using assms by (metis tranclpD)
  ultimately show ?thesis by (auto simp: clean_def)
qed

lemma clean_container:
  assumes c: "map_of h r = Some c"
  shows "clean h A (PRef r) \<longleftrightarrow> r \<notin> A \<and> (\<forall>w\<in>set (children c). clean h (insert r A) w)"
proof (intro iffI conjI ballI)
  assume cl: "clean h A (PRef r)"
  show "r \<notin> A" using cl c by (auto simp: clean_def)
  fix u assume u: "u \<in> set (children c)"
  then have e: "edge h (PRef r) u" using c by simp
  have no_cycle: "\<not> (edge h)\<^sup>+\<^sup>+ (PRef r) (PRef r)" using cl by (simp add: clean_def)
  show "clean h (insert r A) u"
    unfolding clean_def
  proof (intro allI impI)
    fix w assume w: "(edge h)\<^sup>*\<^sup>* u w"
    then have "(edge h)\<^sup>*\<^sup>* (PRef r) w" using e by (rule converse_rtranclp_into_rtranclp [rotated])
    moreover have "w \<noteq> PRef r"
      using no_cycle e w by (metis rtranclp_into_tranclp2)
    ultimately show "\<not> is_callable w \<and> \<not> (edge h)\<^sup>+\<^sup>+ w w
        \<and> (\<forall>r' c'. w = PRef r' \<and> map_of h r' = Some c' \<longrightarrow> r' \<notin> insert r A)"
      using cl by (auto simp: clean_def)
  qed
next
  assume "r \<notin> A \<and> (\<forall>w\<in>set (children c). clean h (insert r A) w)"
  then have rA: "r \<notin> A" and ch: "\<And>u. u \<in> set (children c) \<Longrightarrow> clean h (insert r A) u" by auto
  have no_cycle: "\<not> (edge h)\<^sup>+\<^sup>+ (PRef r) (PRef r)"
  proof
    assume "(edge h)\<^sup>+\<^sup>+ (PRef r) (PRef r)"
    then obtain u where "edge h (PRef r) u" and "(edge h)\<^sup>*\<^sup>* u (PRef r)" by (metis tranclpD)
    then show False using ch c by (auto simp: clean_def)
  qed
  show "clean h A (PRef r)"
    unfolding clean_def
  proof (intro allI impI)
    fix w assume "(edge h)\<^sup>*\<^sup>* (PRef r) w"
    then consider "w = PRef r" | u where "u \<in> set (children c)" and "(edge h)\<^sup>*\<^sup>* u w"
      using c by (auto elim: converse_rtranclpE)
    then show "\<not> is_callable w \<and> \<not> (edge h)\<^sup>+\<^sup>+ w w
        \<and> (\<forall>r' c'. w = PRef r' \<and> map_of h r' = Some c' \<longrightarrow> r' \<notin> A)"
      using ch rA no_cycle by cases (auto simp: clean_def)
  qed
qed

lemma validate_structure_clean:
  "validate_structure h active v = Inr () \<longleftrightarrow> clean h (set active) v"
proof (induction h active v rule: validate_structure.induct)
  case (1 h active v)
  show ?case
  proof (cases "\<exists>r c. v = PRef r \<and> map_of h r = Some c")
    case True
    then obtain r c where v: "v = PRef r" and c: "map_of h r = Some c" by blast
    have IH: "r \<notin> set active \<Longrightarrow> w \<in> set (children c) \<Longrightarrow>
        validate_structure h (r # active) w = Inr () \<longleftrightarrow> clean h (insert r (set active)) w" for w
      using "1.IH" [of "(r, c)" r c w] v c by simp
    show ?thesis
      using IH by (auto simp: v c clean_container validate_structure.simps [of h active "PRef r"] r_all_Inr_iff)
  next
    case False
    then have "\<And>w. \<not> edge h v w" by (auto dest: edge_source)
    then show ?thesis
      using False
      by (auto simp: clean_leaf container_of_Some validate_structure.simps [of h active v] split: option.splits)
  qed
qed

theorem validate_structure_iff:
  "validate_structure h [] v = Inr () \<longleftrightarrow>
     (\<forall>w. (edge h)\<^sup>*\<^sup>* v w \<longrightarrow> \<not> is_callable w \<and> \<not> (edge h)\<^sup>+\<^sup>+ w w)"
  unfolding validate_structure_clean by (simp add: clean_def)

lemma validate_structure_error:
  "validate_structure h active v = Inl e \<Longrightarrow> e = ConfigurationError"
proof (induction h active v rule: validate_structure.induct)
  case (1 h active v)
  from "1.prems" show ?case
    by (subst (asm) validate_structure.simps)
       (auto split: if_splits option.splits dest!: r_all_Inl_ex intro: "1.IH")
qed

text \<open>The values a snapshot can be taken of.\<close>

definition serializable :: "heap \<Rightarrow> pyobj \<Rightarrow> bool" where
  "serializable h v \<longleftrightarrow> validate_structure h [] v = Inr () \<and> pickle_ok h [] v"

lemma snapshot_Inr_iff: "snapshot_serializable h v = Inr w \<longleftrightarrow> w = v \<and> serializable h v"
  by (auto simp: snapshot_serializable_def r_bind_Inr_iff serializable_def)

lemma snapshot_error: "snapshot_serializable h v = Inl e \<Longrightarrow> e = ConfigurationError"
  by (auto simp: snapshot_serializable_def r_bind_Inl_iff dest: validate_structure_error
      split: if_splits)

section \<open>Time-zone-aware values\<close>

text \<open>
  \<open>validate_query_parameter_values\<close>: the recursive walk with one shared \<open>visited\<close> set, as
  a loop over the values still to look at; the members of a container come before what
  was waiting, in their order. Mapping keys are not visited.
\<close>

function validate_values :: "heap \<Rightarrow> ref list \<Rightarrow> pyobj list \<Rightarrow> ref list result" where
  "validate_values h visited [] = Inr visited"
| "validate_values h visited (v # todo) =
     (if tz_aware v then Inl ConfigurationError
      else case container_of h v of
        None \<Rightarrow> validate_values h visited todo
      | Some (r, c) \<Rightarrow>
          (if r \<in> set visited then validate_values h visited todo
           else validate_values h (r # visited) (value_children c @ todo)))"
  by pat_completeness auto

termination
  by (relation "measures [\<lambda>(h, visited, todo). card (fst ` set h - set visited),
                          \<lambda>(h, visited, todo). length todo]")
     (auto simp: remaining_decreases container_of_Some simp del: set_simps)

declare validate_values.simps(2) [simp del]

definition validate_query_parameter_values :: "heap \<Rightarrow> pyobj list \<Rightarrow> unit result" where
  "validate_query_parameter_values h vs = r_bind (validate_values h [] vs) (\<lambda>_. Inr ())"

lemma validate_values_found:
  assumes "tz_aware v"
  shows "validate_values h visited (v # todo) = Inl ConfigurationError"
  using assms by (simp add: validate_values.simps(2))

lemma validate_values_leaf:
  assumes "\<not> tz_aware v" and "container_of h v = None"
  shows "validate_values h visited (v # todo) = validate_values h visited todo"
  using assms by (simp add: validate_values.simps(2))

lemma validate_values_container:
  assumes "map_of h r = Some c"
  shows "validate_values h visited (PRef r # todo) =
           (if r \<in> set visited then validate_values h visited todo
            else validate_values h (r # visited) (value_children c @ todo))"
  using assms by (simp add: validate_values.simps(2))

text \<open>An induction with one case per kind of iteration.\<close>

lemma validate_values_cases_induct [case_names nil found leaf seen enter]:
  assumes "\<And>h visited. P h visited []"
    and "\<And>h visited v todo. tz_aware v \<Longrightarrow> P h visited (v # todo)"
    and "\<And>h visited v todo. \<not> tz_aware v \<Longrightarrow> container_of h v = None \<Longrightarrow>
           P h visited todo \<Longrightarrow> P h visited (v # todo)"
    and "\<And>h visited r c todo. map_of h r = Some c \<Longrightarrow> r \<in> set visited \<Longrightarrow>
           P h visited todo \<Longrightarrow> P h visited (PRef r # todo)"
    and "\<And>h visited r c todo. map_of h r = Some c \<Longrightarrow> r \<notin> set visited \<Longrightarrow>
           P h (r # visited) (value_children c @ todo) \<Longrightarrow> P h visited (PRef r # todo)"
  shows "P h visited todo"
proof (induction h visited todo rule: validate_values.induct)
  case (1 h visited)
  then show ?case by (rule assms(1))
next
  case (2 h visited v todo)
  show ?case
  proof (cases "container_of h v")
    case None
    then show ?thesis using 2 assms(2,3) by (cases "tz_aware v") auto
  next
    case (Some rc)
    then obtain r c where rc: "rc = (r, c)" and v: "v = PRef r" and c: "map_of h r = Some c"
      by (cases rc) (auto simp: container_of_Some)
    show ?thesis
      using 2 assms(4) [OF c] assms(5) [OF c] Some rc v by (cases "r \<in> set visited") auto
  qed
qed

lemma validate_values_error:
  "validate_values h visited todo = Inl e \<Longrightarrow>
     e = ConfigurationError \<and> (\<exists>v\<in>set todo. \<exists>w. (value_edge h)\<^sup>*\<^sup>* v w \<and> tz_aware w)"
proof (induction h visited todo rule: validate_values_cases_induct)
  case (enter h visited r c todo)
  then obtain u w where e: "e = ConfigurationError" and u: "u \<in> set (value_children c @ todo)"
    and w: "(value_edge h)\<^sup>*\<^sup>* u w" "tz_aware w"
    by (auto simp: validate_values_container)
  have "(value_edge h)\<^sup>*\<^sup>* (PRef r) w" if "u \<in> set (value_children c)"
    using that w(1) enter.hyps(1)
    by (intro converse_rtranclp_into_rtranclp [of _ "PRef r" u]) (auto simp: value_edge_def)
  then show ?case using e u w by auto
qed (auto simp: validate_values_found validate_values_leaf validate_values_container)

text \<open>
  What a completed walk has established: nothing waiting or newly visited is aware, and the
  containers among the members of what was newly visited are visited too.
\<close>

definition settled :: "heap \<Rightarrow> ref list \<Rightarrow> pyobj \<Rightarrow> bool" where
  "settled h V w \<longleftrightarrow> \<not> tz_aware w \<and> (\<forall>r c. w = PRef r \<and> map_of h r = Some c \<longrightarrow> r \<in> set V)"

lemma validate_values_complete:
  "validate_values h visited todo = Inr V \<Longrightarrow>
     set visited \<subseteq> set V \<and> (\<forall>v\<in>set todo. settled h V v)
     \<and> (\<forall>r c. r \<in> set V - set visited \<and> map_of h r = Some c \<longrightarrow>
          (\<forall>w\<in>set (value_children c). settled h V w))"
proof (induction h visited todo rule: validate_values_cases_induct)
  case (leaf h visited v todo)
  moreover have "settled h V v"
    using leaf.hyps by (cases v) (auto simp: settled_def)
  ultimately show ?case by (simp add: validate_values_leaf)
next
  case (seen h visited r c todo)
  then show ?case by (auto simp: validate_values_container settled_def)
next
  case (enter h visited r c todo)
  have IH: "set (r # visited) \<subseteq> set V" "\<forall>v\<in>set (value_children c @ todo). settled h V v"
    "\<forall>r' c'. r' \<in> set V - set (r # visited) \<and> map_of h r' = Some c' \<longrightarrow>
       (\<forall>w\<in>set (value_children c'). settled h V w)"
    using enter by (auto simp: validate_values_container)
  have "settled h V (PRef r)" using IH(1) by (simp add: settled_def)
  moreover have "\<forall>w\<in>set (value_children c'). settled h V w"
    if "r' \<in> set V - set visited" and "map_of h r' = Some c'" for r' c'
    using that IH enter.hyps(1) by (cases "r' = r") auto
  ultimately show ?case using IH by auto
qed (simp_all add: validate_values_found)

theorem validate_values_iff:
  "validate_query_parameter_values h vs = Inr () \<longleftrightarrow>
     (\<forall>v\<in>set vs. \<forall>w. (value_edge h)\<^sup>*\<^sup>* v w \<longrightarrow> \<not> tz_aware w)"
proof (cases "validate_values h [] vs")
  case (Inl e)
  then show ?thesis
    using validate_values_error [OF Inl] by (auto simp: validate_query_parameter_values_def)
next
  case (Inr V)
  note fin = validate_values_complete [OF Inr]
  have "settled h V w" if "v \<in> set vs" and "(value_edge h)\<^sup>*\<^sup>* v w" for v w
    using that(2)
  proof (induction rule: rtranclp_induct)
    case base
    then show ?case using fin that(1) by blast
  next
    case (step y z)
    then obtain r c where "y = PRef r" "map_of h r = Some c" "z \<in> set (value_children c)"
      by (auto elim: value_edgeE)
    then show ?case using step.IH fin by (auto simp: settled_def)
  qed
  then show ?thesis
    using Inr by (auto simp: validate_query_parameter_values_def settled_def)
qed

lemma validate_query_parameter_values_error:
  "validate_query_parameter_values h vs = Inl e \<Longrightarrow> e = ConfigurationError"
  by (auto simp: validate_query_parameter_values_def r_bind_Inl_iff dest: validate_values_error)

section \<open>Frozen options and parameters\<close>

text \<open>
  A mapping argument: absent, an object whose \<open>items()\<close> raises, or the items in the
  mapping's order.
\<close>

datatype mapping_arg = NoMapping | UnreadableMapping | MappingItems "(pyobj \<times> pyobj) list"

definition freeze_item ::
    "heap \<Rightarrow> string set \<Rightarrow> pyobj \<times> pyobj \<Rightarrow> (string \<times> pyobj) result" where
  "freeze_item h reserved kv =
     (case fst kv of
        PStr key \<Rightarrow>
          (if key = [] then Inl ConfigurationError
           else if key \<in> reserved then Inl ConfigurationError
           else r_bind (snapshot_serializable h (snd kv)) (\<lambda>v. Inr (key, v)))
      | _ \<Rightarrow> Inl ConfigurationError)"

fun freeze_options :: "heap \<Rightarrow> mapping_arg \<Rightarrow> string set \<Rightarrow> (string \<times> pyobj) list result" where
  "freeze_options h NoMapping reserved = Inr []"
| "freeze_options h UnreadableMapping reserved = Inl ConfigurationError"
| "freeze_options h (MappingItems items) reserved =
     r_bind (r_map (freeze_item h reserved) items) (\<lambda>frozen. Inr (sort_key fst frozen))"

text \<open>\<open>freeze_query_parameters\<close> looks at all names first and keeps the caller's order.\<close>

definition str_of :: "pyobj \<Rightarrow> string" where
  "str_of v = (case v of PStr s \<Rightarrow> s | _ \<Rightarrow> [])"

fun freeze_query_parameters :: "heap \<Rightarrow> mapping_arg \<Rightarrow> (string \<times> pyobj) list result" where
  "freeze_query_parameters h NoMapping = Inr []"
| "freeze_query_parameters h UnreadableMapping = Inl ConfigurationError"
| "freeze_query_parameters h (MappingItems items) =
     r_bind (raise_if (\<not> list_all (\<lambda>kv. is_nonempty_str (fst kv)) items) ConfigurationError) (\<lambda>_.
     r_bind (r_map (\<lambda>kv. r_bind (snapshot_serializable h (snd kv)) (\<lambda>v. Inr (str_of (fst kv), v))) items)
       (\<lambda>frozen.
     r_bind (validate_query_parameter_values h (map snd frozen)) (\<lambda>_.
       Inr frozen)))"

definition thaw_options :: "heap \<Rightarrow> (string \<times> pyobj) list \<Rightarrow> (string \<times> pyobj) list result" where
  "thaw_options h opts =
     r_bind (r_map (\<lambda>(k, v). r_bind (snapshot_serializable h v) (\<lambda>w. Inr (k, w))) opts)
       (\<lambda>ps. Inr (py_dict ps))"

lemma freeze_item_Inr_iff:
  "freeze_item h R kv = Inr p \<longleftrightarrow>
     fst p \<noteq> [] \<and> fst p \<notin> R \<and> kv = (PStr (fst p), snd p) \<and> serializable h (snd p)"
  by (cases kv; cases p; cases "fst kv")
     (auto simp: freeze_item_def r_bind_Inr_iff snapshot_Inr_iff)

text \<open>
  Freezing succeeds exactly when every name is a non-empty string that is not reserved and
  every value can be serialised; the result is then the caller's items ordered by name.
\<close>

theorem freeze_options_Inr_iff:
  "freeze_options h (MappingItems items) R = Inr opts \<longleftrightarrow>
     (\<exists>ps. items = map (\<lambda>(k, v). (PStr k, v)) ps \<and> opts = sort_key fst ps
        \<and> (\<forall>(k, v)\<in>set ps. k \<noteq> [] \<and> k \<notin> R \<and> serializable h v))"
proof -
  have "list_all2 (\<lambda>kv p. freeze_item h R kv = Inr p) items ps \<longleftrightarrow>
      items = map (\<lambda>(k, v). (PStr k, v)) ps
      \<and> (\<forall>(k, v)\<in>set ps. k \<noteq> [] \<and> k \<notin> R \<and> serializable h v)" for ps
    unfolding freeze_item_Inr_iff
    by (induction items arbitrary: ps) (auto simp: list_all2_Cons1 Cons_eq_map_conv)
  then show ?thesis by (auto simp: r_bind_Inr_iff r_map_Inr_iff)
qed

lemma freeze_options_error: "freeze_options h m R = Inl e \<Longrightarrow> e = ConfigurationError"
  by (cases m)
     (auto simp: r_bind_Inl_iff freeze_item_def split: pyobj.splits if_splits
        dest!: r_map_Inl_ex dest: snapshot_error)

lemma freeze_options_keys:
  assumes "freeze_options h m R = Inr opts"
  shows "set (map fst opts) \<inter> R = {}" and "sorted (map fst opts)"
proof -
  show "set (map fst opts) \<inter> R = {}"
    using assms by (cases m) (auto simp: freeze_options_Inr_iff simp del: freeze_options.simps(3))
  show "sorted (map fst opts)"
    using assms by (cases m) auto
qed

lemma freeze_query_parameters_error:
  "freeze_query_parameters h m = Inl e \<Longrightarrow> e = ConfigurationError"
  by (cases m)
     (auto simp: r_bind_Inl_iff dest!: r_map_Inl_ex
        dest: snapshot_error validate_query_parameter_values_error)

lemma freeze_query_parameters_Inr_iff:
  "freeze_query_parameters h (MappingItems items) = Inr ps \<longleftrightarrow>
     items = map (\<lambda>(k, v). (PStr k, v)) ps
     \<and> (\<forall>(k, v)\<in>set ps. k \<noteq> [] \<and> serializable h v)
     \<and> validate_query_parameter_values h (map snd ps) = Inr ()"
proof -
  have item: "is_nonempty_str (fst kv) \<and>
      r_bind (snapshot_serializable h (snd kv)) (\<lambda>v. Inr (str_of (fst kv), v)) = Inr p \<longleftrightarrow>
      kv = (PStr (fst p), snd p) \<and> fst p \<noteq> [] \<and> serializable h (snd p)" for kv p
    by (cases kv; cases "fst kv"; cases p) (auto simp: r_bind_Inr_iff snapshot_Inr_iff str_of_def)
  have "list_all (\<lambda>kv. is_nonempty_str (fst kv)) items \<and>
      list_all2 (\<lambda>kv p. r_bind (snapshot_serializable h (snd kv)) (\<lambda>v. Inr (str_of (fst kv), v)) = Inr p) items ps
      \<longleftrightarrow> list_all2 (\<lambda>kv p. kv = (PStr (fst p), snd p) \<and> fst p \<noteq> [] \<and> serializable h (snd p)) items ps"
    unfolding item [symmetric]
    by (auto simp: list_all2_conv_all_nth list_all_length)
  also have "\<dots> \<longleftrightarrow> items = map (\<lambda>(k, v). (PStr k, v)) ps
      \<and> (\<forall>(k, v)\<in>set ps. k \<noteq> [] \<and> serializable h v)"
    by (induction items arbitrary: ps) (auto simp: list_all2_Cons1 Cons_eq_map_conv)
  finally show ?thesis
    by (auto simp: r_bind_Inr_iff r_map_Inr_iff)
qed

text \<open>Thawing what was frozen returns the frozen options.\<close>

theorem thaw_freeze:
  assumes "freeze_options h (MappingItems items) R = Inr opts" and "distinct (map fst items)"
  shows "thaw_options h opts = Inr opts"
proof -
  obtain ps where items: "items = map (\<lambda>(k, v). (PStr k, v)) ps" and opts: "opts = sort_key fst ps"
    and ok: "\<forall>(k, v)\<in>set ps. k \<noteq> [] \<and> k \<notin> R \<and> serializable h v"
    using assms(1) unfolding freeze_options_Inr_iff by blast
  have "map fst items = map PStr (map fst ps)"
    by (simp add: items case_prod_beta o_def)
  then have "distinct (map fst ps)"
    using assms(2) by (metis distinct_map)
  then have d: "distinct (map fst opts)"
    unfolding opts by (simp add: distinct_map inj_on_def)
  have "r_map (\<lambda>(k, v). r_bind (snapshot_serializable h v) (\<lambda>w. Inr (k, w))) opts = Inr (map id opts)"
  proof (rule r_map_Inr_map)
    fix p assume "p \<in> set opts"
    then have "p \<in> set ps" by (simp add: opts)
    then have "snapshot_serializable h (snd p) = Inr (snd p)"
      using ok by (auto simp: snapshot_Inr_iff case_prod_beta)
    then show "(case p of (k, v) \<Rightarrow> r_bind (snapshot_serializable h v) (\<lambda>w. Inr (k, w))) = Inr (id p)"
      by (auto split: prod.split)
  qed
  then show ?thesis using d by (simp add: thaw_options_def py_dict_distinct)
qed

section \<open>Query specifications\<close>

text \<open>
  Arrow types the connector names itself, and \<open>ArrowOther\<close> with its printed form for the
  ones a driver reports. A schema is its fields with the schema's metadata.
\<close>

datatype arrow_type =
    ArrowBool | ArrowInt8 | ArrowInt16 | ArrowInt32 | ArrowInt64 | ArrowUInt64
  | ArrowFloat32 | ArrowFloat64 | ArrowString | ArrowDate32
  | ArrowTimestampUs | ArrowDecimal128 int int | ArrowOther string

record arrow_field =
  field_name :: string
  field_type :: arrow_type
  field_nullable :: bool

record arrow_schema =
  schema_fields :: "arrow_field list"
  schema_metadata :: "(string \<times> string) list"

definition schema_names :: "arrow_schema \<Rightarrow> string list" where
  "schema_names s = map field_name (schema_fields s)"

record query_spec =
  sql :: string
  positional_parameters :: "pyobj list"
  named_parameters :: "(string \<times> pyobj) list"
  arrow_schema :: arrow_schema

definition QuerySpec ::
    "heap \<Rightarrow> string \<Rightarrow> pyobj list \<Rightarrow> (string \<times> pyobj) list \<Rightarrow> arrow_schema \<Rightarrow> query_spec result" where
  "QuerySpec h text positional named schema =
     r_bind (raise_if (text = []) ConfigurationError) (\<lambda>_.
     r_bind (raise_if (positional \<noteq> [] \<and> named \<noteq> []) ConfigurationError) (\<lambda>_.
     r_bind (r_map (snapshot_serializable h) positional) (\<lambda>ps.
     r_bind (r_map (\<lambda>(n, v). r_bind (snapshot_serializable h v) (\<lambda>w. Inr (n, w))) named) (\<lambda>ns.
     r_bind (validate_query_parameter_values h ps) (\<lambda>_.
     r_bind (validate_query_parameter_values h (map snd ns)) (\<lambda>_.
       Inr \<lparr>sql = text, positional_parameters = ps, named_parameters = ns,
            arrow_schema = schema\<rparr>))))))"

definition named_parameter_dict :: "query_spec \<Rightarrow> (string \<times> pyobj) list" where
  "named_parameter_dict q = py_dict (named_parameters q)"

text \<open>
  \<open>QuerySpec.__repr__\<close>; the printed form of an Arrow schema is the library's and comes as
  an argument.
\<close>

definition QuerySpec_repr :: "(arrow_schema \<Rightarrow> string) \<Rightarrow> query_spec \<Rightarrow> string" where
  "QuerySpec_repr repr_schema q =
     ''QuerySpec('' @ ''sql=<redacted>, ''
     @ ''positional_parameter_count='' @ nat_str (length (positional_parameters q)) @ '', ''
     @ ''named_parameter_names='' @ py_repr_str_tuple (map fst (named_parameters q)) @ '', ''
     @ ''arrow_schema='' @ repr_schema (arrow_schema q) @ '')''"

lemma r_map_snapshot_iff:
  "r_map (snapshot_serializable h) vs = Inr ws \<longleftrightarrow> ws = vs \<and> (\<forall>v\<in>set vs. serializable h v)"
proof -
  have "list_all2 (\<lambda>v w. w = v \<and> serializable h v) vs ws \<longleftrightarrow> ws = vs \<and> (\<forall>v\<in>set vs. serializable h v)"
    by (induction vs arbitrary: ws) (auto simp: list_all2_Cons1)
  then show ?thesis by (simp add: r_map_Inr_iff snapshot_Inr_iff)
qed

lemma r_map_snapshot_named_iff:
  fixes ps :: "('a \<times> pyobj) list"
  shows "r_map (\<lambda>(n, v). r_bind (snapshot_serializable h v) (\<lambda>w. Inr (n, w))) ps = Inr qs \<longleftrightarrow>
     qs = ps \<and> (\<forall>v\<in>set (map snd ps). serializable h v)"
proof -
  have "(case p of (n, v) \<Rightarrow> r_bind (snapshot_serializable h v) (\<lambda>w. Inr (n, w))) = Inr q \<longleftrightarrow>
      q = p \<and> serializable h (snd p)" for p q :: "'a \<times> pyobj"
    by (cases p; cases q) (auto simp: r_bind_Inr_iff snapshot_Inr_iff)
  moreover have "list_all2 (\<lambda>p q. q = p \<and> serializable h (snd p)) ps qs \<longleftrightarrow>
      qs = ps \<and> (\<forall>v\<in>set (map snd ps). serializable h v)"
    by (induction ps arbitrary: qs) (auto simp: list_all2_Cons1)
  ultimately show ?thesis unfolding r_map_Inr_iff by simp
qed

theorem QuerySpec_Inr_iff:
  "QuerySpec h text ps ns sch = Inr q \<longleftrightarrow>
     text \<noteq> [] \<and> (ps = [] \<or> ns = [])
     \<and> (\<forall>v\<in>set (ps @ map snd ns). serializable h v)
     \<and> validate_query_parameter_values h ps = Inr ()
     \<and> validate_query_parameter_values h (map snd ns) = Inr ()
     \<and> q = \<lparr>sql = text, positional_parameters = ps, named_parameters = ns, arrow_schema = sch\<rparr>"
  by (auto simp: QuerySpec_def r_bind_Inr_iff r_map_snapshot_iff r_map_snapshot_named_iff)

lemma QuerySpec_error: "QuerySpec h text ps ns sch = Inl e \<Longrightarrow> e = ConfigurationError"
  by (auto simp: QuerySpec_def r_bind_Inl_iff dest!: r_map_Inl_ex
      dest: snapshot_error validate_query_parameter_values_error)

section \<open>Projecting a schema\<close>

text \<open>\<open>schema.field(name)\<close> of Arrow raises \<open>KeyError\<close> unless exactly one field has the name.\<close>

definition schema_field :: "arrow_schema \<Rightarrow> string \<Rightarrow> arrow_field result" where
  "schema_field sch n =
     (case List.filter (\<lambda>f. field_name f = n) (schema_fields sch) of
        [f] \<Rightarrow> Inr f
      | _ \<Rightarrow> Inl KeyError)"

definition project_schema :: "arrow_schema \<Rightarrow> string list \<Rightarrow> arrow_schema result" where
  "project_schema sch columns =
     r_bind (r_map (schema_field sch) columns) (\<lambda>fs.
     Inr \<lparr>schema_fields = fs, schema_metadata = schema_metadata sch\<rparr>)"

lemma schema_field_Inr:
  assumes "schema_field sch n = Inr f"
  shows "f \<in> set (schema_fields sch)" "field_name f = n"
proof -
  from assms have "List.filter (\<lambda>f. field_name f = n) (schema_fields sch) = [f]"
    by (auto simp: schema_field_def split: list.splits)
  then have "f \<in> set (List.filter (\<lambda>f. field_name f = n) (schema_fields sch))" by simp
  then show "f \<in> set (schema_fields sch)" "field_name f = n" by auto
qed

lemma project_schema_names:
  assumes "project_schema sch columns = Inr sch'"
  shows "schema_names sch' = columns" and "set (schema_fields sch') \<subseteq> set (schema_fields sch)"
proof -
  from assms have l: "list_all2 (\<lambda>n f. schema_field sch n = Inr f) columns (schema_fields sch')"
    by (auto simp: project_schema_def r_bind_Inr_iff r_map_Inr_iff)
  show "schema_names sch' = columns"
    using l schema_field_Inr(2)
    by (auto simp: schema_names_def list_all2_conv_all_nth intro!: nth_equalityI)
  show "set (schema_fields sch') \<subseteq> set (schema_fields sch)"
    using l schema_field_Inr(1) by (fastforce simp: list_all2_conv_all_nth in_set_conv_nth)
qed

lemma project_schema_total:
  assumes "distinct (schema_names sch)" and "set columns \<subseteq> set (schema_names sch)"
  shows "\<exists>sch'. project_schema sch columns = Inr sch'"
proof -
  have one: "\<exists>f. schema_field sch n = Inr f" if "n \<in> set columns" for n
  proof -
    from assms(2) that obtain f where f: "f \<in> set (schema_fields sch)" "field_name f = n"
      by (auto simp: schema_names_def)
    have "length (List.filter (\<lambda>g. field_name g = n) (schema_fields sch)) = 1"
      using f assms(1) unfolding schema_names_def
    proof (induction "schema_fields sch" arbitrary: sch)
      case Nil
      then show ?case by simp
    next
      case (Cons g gs)
      have z: "List.filter (\<lambda>g. field_name g = n) gs = []" if "n \<notin> field_name ` set gs"
        using that by (auto simp: filter_empty_conv)
      show ?case using Cons(1) [of "\<lparr>schema_fields = gs, schema_metadata = []\<rparr>"] Cons(2-) z
        by (auto simp: Cons(2) [symmetric])
    qed
    then show ?thesis by (auto simp: schema_field_def length_Suc_conv)
  qed
  then show ?thesis using r_map_total [of columns "schema_field sch"] by (auto simp: project_schema_def)
qed

end
