(* ===== verification/Batching.thy ===== *)
theory Batching
  imports Contracts
begin

text \<open>
  The batching and grouping functions of \<^verbatim>\<open>_common/contracts.py\<close>:
  \<open>iter_batch_slices\<close>, \<open>group_weighted_items\<close> and \<open>group_adjacent_ids\<close>. Record batches
  belong to pyarrow; what the connector relies on (a slice is a contiguous piece of the
  rows) is the locale \<open>arrow_batches\<close>. What both planners rely on in a grouping function
  (every item lands in exactly one non-empty group, and no more groups than allowed) is
  the locale \<open>splitter\<close>, which both grouping functions interpret.
\<close>

section \<open>Slicing a record batch\<close>

text \<open>The inner binary search over the number of rows of the next slice.\<close>

function search_size :: "(nat \<Rightarrow> nat) \<Rightarrow> int \<Rightarrow> int \<Rightarrow> int \<Rightarrow> int \<Rightarrow> int" where
  "search_size bytes cap low high best =
     (if low \<le> high then
        let candidate = (low + high) div 2
        in if int (bytes (nat candidate)) \<le> cap
           then search_size bytes cap (candidate + 1) high candidate
           else search_size bytes cap low (candidate - 1) best
      else best)"
  by pat_completeness auto
termination
  by (relation "measure (\<lambda>(bytes, cap, low, high, best). nat (high - low + 1))") auto

declare search_size.simps [simp del]

definition slice_size :: "(nat \<Rightarrow> nat) \<Rightarrow> resource_limits \<Rightarrow> int \<Rightarrow> int" where
  "slice_size bytes limits remaining =
     (let upper = min (batch_rows limits) remaining
      in if int (bytes (nat upper)) \<le> batch_bytes limits then upper
         else search_size bytes (batch_bytes limits) 1 upper 1)"

text \<open>
  The generator's loop from \<open>offset\<close> on, as the list of batches it yields. With limits that
  were not validated the loop need not end; \<open>None\<close> is a loop that does not.
\<close>

partial_function (option) slices_from ::
    "('b \<Rightarrow> nat) \<Rightarrow> ('b \<Rightarrow> nat \<Rightarrow> nat \<Rightarrow> 'b) \<Rightarrow> ('b \<Rightarrow> nat) \<Rightarrow> 'b \<Rightarrow> resource_limits \<Rightarrow> int \<Rightarrow> 'b list option"
where
  "slices_from num_rows slice nbytes batch limits offset =
     (if offset < int (num_rows batch) then
        Option.bind
          (slices_from num_rows slice nbytes batch limits
             (offset + slice_size (\<lambda>n. nbytes (slice batch (nat offset) n)) limits
                         (int (num_rows batch) - offset)))
          (\<lambda>rest. Some (slice batch (nat offset)
             (nat (slice_size (\<lambda>n. nbytes (slice batch (nat offset) n)) limits
                         (int (num_rows batch) - offset))) # rest))
      else Some [])"

declare slices_from.simps [code]

definition iter_batch_slices ::
    "('b \<Rightarrow> nat) \<Rightarrow> ('b \<Rightarrow> nat \<Rightarrow> nat \<Rightarrow> 'b) \<Rightarrow> ('b \<Rightarrow> nat) \<Rightarrow> 'b \<Rightarrow> resource_limits \<Rightarrow> 'b list option" where
  "iter_batch_slices num_rows slice nbytes batch limits =
     slices_from num_rows slice nbytes batch limits 0"

text \<open>The search result: within the range, and either one row or within the byte target.\<close>

lemma search_size_sound:
  assumes "1 \<le> low" and "1 \<le> best" and "best \<le> hi0" and "high \<le> hi0"
    and "best = 1 \<or> int (bytes (nat best)) \<le> cap"
  shows "1 \<le> search_size bytes cap low high best \<and> search_size bytes cap low high best \<le> hi0
    \<and> (search_size bytes cap low high best = 1
       \<or> int (bytes (nat (search_size bytes cap low high best))) \<le> cap)"
  using assms
proof (induction bytes cap low high best rule: search_size.induct)
  case (1 bytes cap low high best)
  let ?c = "(low + high) div 2"
  show ?case
  proof (cases "low \<le> high")
    case True
    then have c: "1 \<le> ?c" "?c \<le> hi0" "?c - 1 \<le> hi0" using "1.prems" by auto
    show ?thesis
    proof (cases "int (bytes (nat ?c)) \<le> cap")
      case fits: True
      have "search_size bytes cap low high best = search_size bytes cap (?c + 1) high ?c"
        using True fits by (simp add: search_size.simps [of bytes cap low high best] Let_def)
      then show ?thesis using "1.IH"(1) [OF True refl fits] c fits "1.prems"(4) by simp
    next
      case too_big: False
      have "search_size bytes cap low high best = search_size bytes cap low (?c - 1) best"
        using True too_big by (simp add: search_size.simps [of bytes cap low high best] Let_def)
      then show ?thesis using "1.IH"(2) [OF True refl too_big] c "1.prems" by simp
    qed
  next
    case False
    then show ?thesis
      using "1.prems" by (simp add: search_size.simps [of bytes cap low high best])
  qed
qed

text \<open>
  If the byte count grows with the number of rows, the search finds the largest fitting
  size: every larger one in the range exceeds the target.
\<close>

lemma search_size_maximal:
  assumes "mono bytes" and "1 \<le> low" and "best = low - 1 \<or> (best = 1 \<and> low = 1)"
    and "\<forall>n. high < n \<and> n \<le> hi0 \<longrightarrow> cap < int (bytes (nat n))"
    and "low = 1 \<or> low - 1 \<le> hi0" and "high \<le> hi0"
    and "search_size bytes cap low high best < n" and "n \<le> hi0"
  shows "cap < int (bytes (nat n))"
  using assms
proof (induction bytes cap low high best rule: search_size.induct)
  case (1 bytes cap low high best)
  let ?c = "(low + high) div 2"
  show ?case
  proof (cases "low \<le> high")
    case True
    then have c: "1 \<le> ?c" "?c \<le> high" "low \<le> ?c" using "1.prems" by auto
    show ?thesis
    proof (cases "int (bytes (nat ?c)) \<le> cap")
      case fits: True
      have "search_size bytes cap low high best = search_size bytes cap (?c + 1) high ?c"
        using True fits by (simp add: search_size.simps [of bytes cap low high best] Let_def)
      then show ?thesis using "1.IH"(1) [OF True refl fits] c "1.prems" by simp
    next
      case too_big: False
      have "search_size bytes cap low high best = search_size bytes cap low (?c - 1) best"
        using True too_big by (simp add: search_size.simps [of bytes cap low high best] Let_def)
      moreover have "\<forall>n. ?c - 1 < n \<and> n \<le> hi0 \<longrightarrow> cap < int (bytes (nat n))"
      proof (intro allI impI)
        fix n assume "?c - 1 < n \<and> n \<le> hi0"
        then have "bytes (nat ?c) \<le> bytes (nat n)"
          by (intro monoD [OF "1.prems"(1)]) auto
        then show "cap < int (bytes (nat n))" using too_big by simp
      qed
      ultimately show ?thesis using "1.IH"(2) [OF True refl too_big] c "1.prems" by simp
    qed
  next
    case False
    then show ?thesis
      using "1.prems" by (auto simp: search_size.simps [of bytes cap low high best])
  qed
qed

lemma slice_size_bounds:
  assumes "valid_limits l" and "1 \<le> remaining"
  shows "1 \<le> slice_size bytes l remaining" and "slice_size bytes l remaining \<le> batch_rows l"
    and "slice_size bytes l remaining \<le> remaining"
    and "slice_size bytes l remaining = 1
         \<or> int (bytes (nat (slice_size bytes l remaining))) \<le> batch_bytes l"
proof -
  let ?u = "min (batch_rows l) remaining"
  have u: "1 \<le> ?u" using assms by (simp add: valid_limits_def)
  show "1 \<le> slice_size bytes l remaining"
    and "slice_size bytes l remaining \<le> batch_rows l"
    and "slice_size bytes l remaining \<le> remaining"
    and "slice_size bytes l remaining = 1
         \<or> int (bytes (nat (slice_size bytes l remaining))) \<le> batch_bytes l"
    using u search_size_sound [of 1 1 ?u ?u bytes "batch_bytes l"]
    by (auto simp: slice_size_def Let_def)
qed

lemma slice_size_maximal:
  assumes "valid_limits l" and "1 \<le> remaining" and "mono bytes"
    and "slice_size bytes l remaining < n" and "n \<le> batch_rows l" and "n \<le> remaining"
  shows "batch_bytes l < int (bytes (nat n))"
proof -
  let ?u = "min (batch_rows l) remaining"
  have "1 \<le> ?u" using assms by (simp add: valid_limits_def)
  moreover have "\<forall>n. ?u < n \<and> n \<le> ?u \<longrightarrow> batch_bytes l < int (bytes (nat n))"
    using linorder_not_le by blast
  ultimately show ?thesis
    using assms(3-) search_size_maximal [of bytes 1 1 ?u ?u "batch_bytes l" n]
    by (cases "int (bytes (nat ?u)) \<le> batch_bytes l") (auto simp: slice_size_def Let_def)
qed

text \<open>
  What the connector relies on in a record batch: its rows, their number, and that a slice
  is the named piece of them.
\<close>

locale arrow_batches =
  fixes num_rows :: "'b \<Rightarrow> nat"
    and slice :: "'b \<Rightarrow> nat \<Rightarrow> nat \<Rightarrow> 'b"
    and nbytes :: "'b \<Rightarrow> nat"
    and rows :: "'b \<Rightarrow> 'r list"
  assumes num_rows_rows: "num_rows b = length (rows b)"
    and rows_slice: "rows (slice b off n) = take n (drop off (rows b))"
begin

text \<open>
  From any offset inside the batch the loop ends, and what it yields are the remaining
  rows, cut into slices that respect both limits.
\<close>

lemma slices_from_correct:
  assumes l: "valid_limits l" and "0 \<le> off"
  shows "\<exists>ss. slices_from num_rows slice nbytes b l off = Some ss
    \<and> concat (map rows ss) = drop (nat off) (rows b)
    \<and> (\<forall>s\<in>set ss. rows s \<noteq> [] \<and> int (length (rows s)) \<le> batch_rows l
         \<and> (length (rows s) = 1 \<or> int (nbytes s) \<le> batch_bytes l))"
  using assms(2)
proof (induction "nat (int (num_rows b) - off)" arbitrary: off rule: less_induct)
  case less
  show ?case
  proof (cases "off < int (num_rows b)")
    case False
    then show ?thesis
      by (simp add: slices_from.simps [of num_rows slice nbytes b l off] num_rows_rows)
  next
    case True
    let ?bytes = "\<lambda>n. nbytes (slice b (nat off) n)"
    let ?rem = "int (num_rows b) - off"
    let ?n = "slice_size ?bytes l ?rem"
    let ?s = "slice b (nat off) (nat ?n)"
    have "1 \<le> ?rem" using True by simp
    note size = slice_size_bounds [OF l this, of ?bytes]
    have "nat (int (num_rows b) - (off + ?n)) < nat ?rem" and "0 \<le> off + ?n"
      using True size(1) less.prems by simp_all
    from less.hyps [OF this] obtain ss where
      ss: "slices_from num_rows slice nbytes b l (off + ?n) = Some ss"
        "concat (map rows ss) = drop (nat (off + ?n)) (rows b)"
        "\<forall>s\<in>set ss. rows s \<noteq> [] \<and> int (length (rows s)) \<le> batch_rows l
         \<and> (length (rows s) = 1 \<or> int (nbytes s) \<le> batch_bytes l)" by blast
    have len: "length (rows ?s) = nat ?n"
      using True size less.prems by (simp add: rows_slice num_rows_rows)
    have "slices_from num_rows slice nbytes b l off = Some (?s # ss)"
      using True ss(1) by (simp add: slices_from.simps [of num_rows slice nbytes b l off])
    moreover have "nat (off + ?n) = nat ?n + nat off" using size(1) less.prems by simp
    then have "concat (map rows (?s # ss)) = drop (nat off) (rows b)"
      using ss(2) by (simp add: rows_slice del: drop_drop add: drop_drop [symmetric])
    moreover have "rows ?s \<noteq> []" using len size(1) by auto
    ultimately show ?thesis using ss(3) len size by auto
  qed
qed

lemma iter_batch_slices_correct:
  assumes "valid_limits l"
  shows "\<exists>ss. iter_batch_slices num_rows slice nbytes b l = Some ss
    \<and> concat (map rows ss) = rows b
    \<and> (\<forall>s\<in>set ss. rows s \<noteq> [] \<and> int (length (rows s)) \<le> batch_rows l
         \<and> (length (rows s) = 1 \<or> int (nbytes s) \<le> batch_bytes l))"
  using slices_from_correct [OF assms, of 0 b] by (simp add: iter_batch_slices_def)

end

text \<open>
  Batches as lists of rows with a width per row. They satisfy the interface, and the byte
  count of a slice grows with its length, so each slice is as long as the limits allow.
\<close>

definition list_slice :: "'r list \<Rightarrow> nat \<Rightarrow> nat \<Rightarrow> 'r list" where
  "list_slice rs off n = take n (drop off rs)"

definition list_nbytes :: "('r \<Rightarrow> nat) \<Rightarrow> 'r list \<Rightarrow> nat" where
  "list_nbytes width rs = sum_list (map width rs)"

interpretation list_batch: arrow_batches length list_slice "list_nbytes width" id
  for width :: "'r \<Rightarrow> nat"
  by unfold_locales (simp_all add: list_slice_def)

lemma list_nbytes_mono: "mono (\<lambda>n. list_nbytes width (list_slice rs off n))"
proof (rule monoI)
  fix m n :: nat assume "m \<le> n"
  then have "take n (drop off rs) = take m (drop off rs) @ take (n - m) (drop m (drop off rs))"
    by (metis le_add_diff_inverse take_add)
  then show "list_nbytes width (list_slice rs off m) \<le> list_nbytes width (list_slice rs off n)"
    by (simp add: list_nbytes_def list_slice_def)
qed

section \<open>Weighted groups\<close>

text \<open>
  \<open>min(range(n), key=lambda i: (weights[i], i))\<close>: the first index of the smallest weight.
\<close>

fun argmin :: "int list \<Rightarrow> nat" where
  "argmin [] = 0"
| "argmin [w] = 0"
| "argmin (w # v # ws) =
     (let j = argmin (v # ws) in if w \<le> (v # ws) ! j then 0 else Suc j)"

text \<open>One round of the loop: the item joins the lightest bucket.\<close>

definition place ::
    "string \<times> int \<Rightarrow> string list list \<times> int list \<Rightarrow> string list list \<times> int list" where
  "place item st =
     (let i = argmin (snd st)
      in ((fst st)[i := fst st ! i @ [fst item]],
          (snd st)[i := snd st ! i + max (snd item) 0]))"

definition fill_buckets :: "(string \<times> int) list \<Rightarrow> nat \<Rightarrow> string list list \<times> int list" where
  "fill_buckets items n =
     fold place (sort_key (\<lambda>item. (- snd item, fst item)) items) (replicate n [], replicate n 0)"

definition group_weighted_items ::
    "(string \<times> int) list \<Rightarrow> int \<Rightarrow> int \<Rightarrow> string list list result" where
  "group_weighted_items items target_groups max_groups =
     (if items = [] then Inr []
      else
        let group_count = min (min (int (length items)) target_groups) max_groups
        in if group_count \<le> 0 then Inl ValueError
           else Inr (map sort (filter (\<lambda>b. b \<noteq> []) (fst (fill_buckets items (nat group_count))))))"

lemma argmin_least:
  "ws \<noteq> [] \<Longrightarrow> argmin ws < length ws \<and> (\<forall>i<length ws. ws ! argmin ws \<le> ws ! i)"
proof (induction ws rule: argmin.induct)
  case (3 w v ws)
  then show ?case by (auto simp: Let_def nth_Cons split: nat.splits)
qed simp_all

lemma argmin_first:
  "ws \<noteq> [] \<Longrightarrow> i < argmin ws \<Longrightarrow> ws ! argmin ws < ws ! i"
proof (induction ws arbitrary: i rule: argmin.induct)
  case (3 w v ws)
  have IH: "k < argmin (v # ws) \<Longrightarrow> (v # ws) ! argmin (v # ws) < (v # ws) ! k" for k
    using "3.IH" by blast
  show ?case
  proof (cases "w \<le> (v # ws) ! argmin (v # ws)")
    case True
    then show ?thesis using "3.prems" by (simp add: Let_def)
  next
    case False
    then show ?thesis
      using "3.prems" IH by (cases i) (simp_all add: Let_def)
  qed
qed simp_all

text \<open>
  The loop's state after some items were placed: as many weights as buckets, and the
  buckets hold exactly these items.
\<close>

definition buckets_shape :: "nat \<Rightarrow> string multiset \<Rightarrow> string list list \<times> int list \<Rightarrow> bool" where
  "buckets_shape n placed st \<longleftrightarrow>
     length (fst st) = n \<and> length (snd st) = n \<and> mset (concat (fst st)) = placed"

lemma mset_concat_update:
  "i < length bs \<Longrightarrow> mset (concat (bs[i := bs ! i @ [x]])) = add_mset x (mset (concat bs))"
proof (induction bs arbitrary: i)
  case (Cons b bs)
  then show ?case by (cases i) simp_all
qed simp

lemma place_shape:
  assumes "buckets_shape n placed st" and "0 < n"
  shows "buckets_shape n (add_mset (fst item) placed) (place item st)"
proof -
  have "snd st \<noteq> []" using assms by (auto simp: buckets_shape_def)
  from argmin_least [OF this] show ?thesis
    using assms by (simp add: buckets_shape_def place_def Let_def mset_concat_update)
qed

lemma fold_place_shape:
  assumes "buckets_shape n placed st" and "0 < n"
  shows "buckets_shape n (placed + mset (map fst xs)) (fold place xs st)"
  using assms
proof (induction xs arbitrary: placed st)
  case (Cons x xs)
  from Cons.IH [OF place_shape [OF Cons.prems, of x]] Cons.prems(2) show ?case by simp
qed simp

lemma fill_buckets_shape:
  assumes "0 < n"
  shows "buckets_shape n (mset (map fst items)) (fill_buckets items n)"
proof -
  let ?xs = "sort_key (\<lambda>item. (- snd item, fst item)) items"
  have "buckets_shape n {#} (replicate n [], replicate n 0)"
    by (simp add: buckets_shape_def)
  from fold_place_shape [OF this assms, of ?xs] show ?thesis
    by (simp add: fill_buckets_def)
qed

text \<open>
  The weight of a bucket by its names. While every item weighs at most \<open>B\<close>, the recorded
  weights are those of the buckets, and no bucket is more than \<open>B\<close> heavier than another.
\<close>

definition load :: "(string \<times> int) list \<Rightarrow> string list \<Rightarrow> int" where
  "load items names = sum_list (map (\<lambda>n. max (the (map_of items n)) 0) names)"

definition buckets_balanced ::
    "(string \<times> int) list \<Rightarrow> int \<Rightarrow> string list list \<times> int list \<Rightarrow> bool" where
  "buckets_balanced items B st \<longleftrightarrow>
     length (snd st) = length (fst st) \<and> fst st \<noteq> []
     \<and> (\<forall>i<length (fst st). snd st ! i = load items (fst st ! i))
     \<and> (\<forall>i<length (fst st). \<forall>j<length (fst st). snd st ! i \<le> snd st ! j + B)"

lemma place_balanced:
  assumes ok: "buckets_balanced items B st"
    and w: "map_of items (fst item) = Some (snd item)" and B: "max (snd item) 0 \<le> B"
  shows "buckets_balanced items B (place item st)"
proof -
  let ?i = "argmin (snd st)" and ?n = "length (fst st)"
  have len: "length (snd st) = ?n" and "snd st \<noteq> []" using ok by (auto simp: buckets_balanced_def)
  from argmin_least [OF this(2)] have i: "?i < ?n"
    and least: "\<And>j. j < ?n \<Longrightarrow> snd st ! ?i \<le> snd st ! j"
    by (simp_all add: len)
  have balanced: "\<And>a b. a < ?n \<Longrightarrow> b < ?n \<Longrightarrow> snd st ! a \<le> snd st ! b + B"
    using ok unfolding buckets_balanced_def by blast
  have "snd (place item st) ! a \<le> snd (place item st) ! b + B" if "a < ?n" "b < ?n" for a b
    using balanced [OF that] balanced [OF that(1) i] least [OF that(2)] B that i len
    by (auto simp: place_def Let_def nth_list_update)
  moreover have "snd (place item st) ! a = load items (fst (place item st) ! a)" if "a < ?n" for a
    using ok that i w len
    by (simp add: buckets_balanced_def place_def Let_def nth_list_update load_def)
  ultimately show ?thesis
    using ok by (auto simp: buckets_balanced_def place_def Let_def)
qed

lemma fold_place_balanced:
  assumes "buckets_balanced items B st"
    and "\<forall>item\<in>set xs. map_of items (fst item) = Some (snd item) \<and> max (snd item) 0 \<le> B"
  shows "buckets_balanced items B (fold place xs st)"
  using assms by (induction xs arbitrary: st) (simp_all add: place_balanced)

lemma fill_buckets_balanced:
  assumes "distinct (map fst items)" and "0 < n" and "\<forall>item\<in>set items. snd item \<le> B" and "0 \<le> B"
  shows "buckets_balanced items B (fill_buckets items n)"
  unfolding fill_buckets_def
proof (rule fold_place_balanced)
  show "buckets_balanced items B (replicate n [], replicate n 0)"
    using assms(2,4) by (simp add: buckets_balanced_def load_def)
  show "\<forall>item\<in>set (sort_key (\<lambda>item. (- snd item, fst item)) items).
      map_of items (fst item) = Some (snd item) \<and> max (snd item) 0 \<le> B"
    using assms by simp
qed

lemma load_sort: "load items (sort names) = load items names"
  by (simp add: load_def flip: sum_mset_sum_list)

lemma mset_concat_filter_nonempty: "mset (concat (filter (\<lambda>b. b \<noteq> []) bs)) = mset (concat bs)"
  by (induction bs) auto

lemma mset_concat_map_sort: "mset (concat (map sort bs)) = mset (concat bs)"
  by (induction bs) auto

text \<open>The groups are balanced: any two differ by at most the largest item.\<close>

theorem group_weighted_balanced:
  assumes "group_weighted_items items target maxg = Inr gs"
    and "distinct (map fst items)" and "\<forall>item\<in>set items. snd item \<le> B" and "0 \<le> B"
    and "g \<in> set gs" and "g' \<in> set gs"
  shows "load items g \<le> load items g' + B"
proof -
  let ?n = "nat (min (min (int (length items)) target) maxg)"
  have n: "0 < ?n" and gs: "gs = map sort (filter (\<lambda>b. b \<noteq> []) (fst (fill_buckets items ?n)))"
    using assms(1,5) by (auto simp: group_weighted_items_def Let_def split: if_splits)
  let ?st = "fill_buckets items ?n"
  have bal: "buckets_balanced items B ?st"
    by (rule fill_buckets_balanced) (use assms n in auto)
  obtain a b where a: "a < length (fst ?st)" "g = sort (fst ?st ! a)"
    and b: "b < length (fst ?st)" "g' = sort (fst ?st ! b)"
    using assms(5,6) unfolding gs by (auto simp: in_set_conv_nth)
  then have "snd ?st ! a \<le> snd ?st ! b + B"
    and "snd ?st ! a = load items (fst ?st ! a)" and "snd ?st ! b = load items (fst ?st ! b)"
    using bal unfolding buckets_balanced_def by blast+
  then show ?thesis by (simp only: a(2) b(2) load_sort)
qed

section \<open>Groups of adjacent identifiers\<close>

text \<open>Consecutive pieces of \<open>k\<close> elements, as the slices of the generator expression.\<close>

function chunks :: "nat \<Rightarrow> 'a list \<Rightarrow> 'a list list" where
  "chunks k xs = (if k = 0 \<or> xs = [] then [] else take k xs # chunks k (drop k xs))"
  by pat_completeness auto
termination
  by (relation "measure (\<lambda>(k, xs). length xs)") auto

declare chunks.simps [simp del]

text \<open>
  With a group count of zero the size computation divides by zero, and a group size of zero
  is a step \<open>range\<close> refuses; a negative step gives no groups.
\<close>

definition group_adjacent_ids :: "int list \<Rightarrow> int \<Rightarrow> int \<Rightarrow> int list list result" where
  "group_adjacent_ids values target_groups max_groups =
     (if values = [] then Inr []
      else
        let group_count = min (min (int (length values)) target_groups) max_groups
        in if group_count = 0 then Inl ZeroDivisionError
           else
             let group_size = (int (length values) + group_count - 1) div group_count;
                 ordered = sort values
             in if group_size = 0 then Inl ValueError
                else if group_size < 0 then Inr []
                else Inr (chunks (nat group_size) ordered))"

lemma concat_chunks: "0 < k \<Longrightarrow> concat (chunks k xs) = xs"
proof (induction k xs rule: chunks.induct)
  case (1 k xs)
  then show ?case by (simp add: chunks.simps [of k xs])
qed

lemma chunks_pieces: "g \<in> set (chunks k xs) \<Longrightarrow> g \<noteq> [] \<and> length g \<le> k"
proof (induction k xs rule: chunks.induct)
  case (1 k xs)
  then show ?case by (auto simp: chunks.simps [of k xs] split: if_splits)
qed

lemma length_chunks_le: "0 < k \<Longrightarrow> length xs \<le> c * k \<Longrightarrow> length (chunks k xs) \<le> c"
proof (induction k xs arbitrary: c rule: chunks.induct)
  case (1 k xs)
  show ?case
  proof (cases "xs = []")
    case True
    then show ?thesis by (simp add: chunks.simps)
  next
    case False
    then have "0 < length xs" by simp
    then obtain c' where c: "c = Suc c'" using "1.prems"(2) by (cases c) auto
    have "length (drop k xs) \<le> c' * k" using "1.prems" by (simp add: c)
    then have "length (chunks k (drop k xs)) \<le> c'" using 1 False by simp
    then show ?thesis using False "1.prems" by (simp add: chunks.simps [of k xs] c)
  qed
qed

text \<open>The ceiling division makes the groups few enough.\<close>

lemma ceil_div_cover:
  fixes n g :: int
  assumes "1 \<le> n" and "1 \<le> g"
  shows "1 \<le> (n + g - 1) div g" and "n \<le> g * ((n + g - 1) div g)"
proof -
  have "g * ((n + g - 1) div g) = n + g - 1 - (n + g - 1) mod g"
    by (simp add: minus_mod_eq_mult_div)
  moreover have "(n + g - 1) mod g \<le> g - 1" using assms(2) by simp
  ultimately show *: "n \<le> g * ((n + g - 1) div g)" by linarith
  have "0 < g * ((n + g - 1) div g)" using * assms(1) by linarith
  then have "0 < (n + g - 1) div g" using assms(2) by (simp add: zero_less_mult_iff)
  then show "1 \<le> (n + g - 1) div g" by linarith
qed

lemma group_adjacent_ids_eq:
  assumes "values \<noteq> []" and "1 \<le> t" and "1 \<le> m"
  obtains k where "0 < k" and "group_adjacent_ids values t m = Inr (chunks k (sort values))"
    and "length values \<le> nat (min t m) * k"
proof -
  let ?n = "int (length values)"
  let ?g = "min (min ?n t) m"
  let ?k = "(?n + ?g - 1) div ?g"
  have n: "1 \<le> ?n" using assms(1) by (cases "values") auto
  then have g: "1 \<le> ?g" using assms by simp
  note k = ceil_div_cover [OF n g]
  have "?n \<le> min t m * ?k"
  proof -
    have "?g * ?k \<le> min t m * ?k" using k(1) by (intro mult_right_mono) auto
    then show ?thesis using k(2) by linarith
  qed
  moreover have "0 \<le> min t m" using assms by simp
  ultimately have "nat ?n \<le> nat (min t m) * nat ?k"
    by (metis nat_mono nat_mult_distrib)
  then have "length values \<le> nat (min t m) * nat ?k" by simp
  moreover have "?g \<noteq> 0" "?k \<noteq> 0" "\<not> ?k < 0" using g k(1) by linarith+
  then have "group_adjacent_ids values t m = Inr (chunks (nat ?k) (sort values))"
    using assms(1) by (simp only: group_adjacent_ids_def Let_def if_False)
  moreover have "0 < nat ?k" using k(1) by linarith
  ultimately show thesis using that by blast
qed

lemma distinct_concat_index:
  "distinct (concat gs) \<Longrightarrow> i < length gs \<Longrightarrow> j < length gs \<Longrightarrow> x \<in> set (gs ! i) \<Longrightarrow>
     x \<in> set (gs ! j) \<Longrightarrow> i = j"
proof (induction gs arbitrary: i j)
  case (Cons g gs)
  have "x \<notin> set (gs ! n)" if "x \<in> set g" and "n < length gs" for n
    using Cons.prems(1) that by (auto dest: nth_mem)
  then show ?case using Cons by (cases i; cases j) auto
qed simp

section \<open>The contract of a grouping function\<close>

text \<open>
  What the task planners rely on: with positive caps the function returns, the groups
  contain exactly the items, none is empty, and there are at most as many as both caps
  allow. For distinct items every one then lies in exactly one group.
\<close>

locale splitter =
  fixes split_items :: "'i list \<Rightarrow> int \<Rightarrow> int \<Rightarrow> 'k list list result"
    and key :: "'i \<Rightarrow> 'k"
  assumes split_total: "1 \<le> t \<Longrightarrow> 1 \<le> m \<Longrightarrow> \<exists>gs. split_items xs t m = Inr gs"
    and split_mset: "1 \<le> t \<Longrightarrow> 1 \<le> m \<Longrightarrow> split_items xs t m = Inr gs \<Longrightarrow>
           mset (concat gs) = mset (map key xs)"
    and split_nonempty: "1 \<le> t \<Longrightarrow> 1 \<le> m \<Longrightarrow> split_items xs t m = Inr gs \<Longrightarrow> [] \<notin> set gs"
    and split_count: "1 \<le> t \<Longrightarrow> 1 \<le> m \<Longrightarrow> split_items xs t m = Inr gs \<Longrightarrow>
           int (length gs) \<le> min t m"
begin

lemma split_set:
  "1 \<le> t \<Longrightarrow> 1 \<le> m \<Longrightarrow> split_items xs t m = Inr gs \<Longrightarrow> \<Union> (set ` set gs) = key ` set xs"
  by (metis split_mset set_concat set_map set_mset_mset)

lemma split_no_groups:
  "1 \<le> t \<Longrightarrow> 1 \<le> m \<Longrightarrow> split_items xs t m = Inr gs \<Longrightarrow> gs = [] \<longleftrightarrow> xs = []"
  using split_set by (cases gs; cases xs) (fastforce dest: split_nonempty)+

lemma split_once:
  assumes "1 \<le> t" "1 \<le> m" "split_items xs t m = Inr gs" "distinct (map key xs)" "x \<in> set xs"
  shows "\<exists>!i. i < length gs \<and> key x \<in> set (gs ! i)"
proof -
  have "distinct (concat gs)"
    using split_mset [OF assms(1-3)] assms(4) by (metis mset_eq_imp_distinct_iff)
  moreover obtain g where "g \<in> set gs" "key x \<in> set g"
    using split_set [OF assms(1-3)] assms(5) by blast
  ultimately show ?thesis
    using distinct_concat_index [of gs] by (metis in_set_conv_nth)
qed

end

lemma group_weighted_eq:
  assumes "items \<noteq> []" and "1 \<le> t" and "1 \<le> m"
  obtains n where "0 < n" and "int n \<le> min t m"
    and "group_weighted_items items t m
         = Inr (map sort (filter (\<lambda>b. b \<noteq> []) (fst (fill_buckets items n))))"
proof -
  let ?g = "min (min (int (length items)) t) m"
  have "1 \<le> int (length items)" using assms(1) by (cases items) auto
  then have g: "1 \<le> ?g" using assms by simp
  then have "\<not> ?g \<le> 0" by linarith
  then have "group_weighted_items items t m
      = Inr (map sort (filter (\<lambda>b. b \<noteq> []) (fst (fill_buckets items (nat ?g)))))"
    using assms(1) by (simp only: group_weighted_items_def Let_def if_False)
  moreover have "0 < nat ?g" and "int (nat ?g) \<le> min t m" using g by linarith+
  ultimately show thesis using that by blast
qed

lemma group_weighted_mset:
  assumes "1 \<le> t" "1 \<le> m" "group_weighted_items items t m = Inr gs"
  shows "mset (concat gs) = mset (map fst items)"
proof (cases "items = []")
  case True
  then show ?thesis using assms(3) by (simp add: group_weighted_items_def)
next
  case False
  from group_weighted_eq [OF this assms(1,2)] obtain n where n: "0 < n"
    and "gs = map sort (filter (\<lambda>b. b \<noteq> []) (fst (fill_buckets items n)))"
    using assms(3) by auto
  then show ?thesis
    using fill_buckets_shape [OF n, of items]
    by (simp only: mset_concat_map_sort mset_concat_filter_nonempty buckets_shape_def)
qed

lemma group_weighted_count:
  assumes "1 \<le> t" "1 \<le> m" "group_weighted_items items t m = Inr gs"
  shows "[] \<notin> set gs" and "int (length gs) \<le> min t m"
proof -
  have "[] \<notin> set gs \<and> int (length gs) \<le> min t m"
  proof (cases "items = []")
    case True
    then show ?thesis using assms by (simp add: group_weighted_items_def)
  next
    case False
    from group_weighted_eq [OF this assms(1,2)] obtain n where n: "0 < n" "int n \<le> min t m"
      and gs: "gs = map sort (filter (\<lambda>b. b \<noteq> []) (fst (fill_buckets items n)))"
      using assms(3) by auto
    have "sort b = [] \<longleftrightarrow> b = []" for b :: "string list"
      by (metis length_0_conv length_sort)
    then have "[] \<notin> set gs" unfolding gs by (auto dest: sym)
    moreover have "length (fst (fill_buckets items n)) = n"
      using fill_buckets_shape [OF n(1), of items] by (simp add: buckets_shape_def)
    then have "length gs \<le> n" unfolding gs by (metis length_filter_le length_map)
    ultimately show ?thesis using n(2) by linarith
  qed
  then show "[] \<notin> set gs" and "int (length gs) \<le> min t m" by simp_all
qed

interpretation weighted_split: splitter group_weighted_items fst
proof
  fix t m :: int and xs :: "(string \<times> int) list" and gs
  assume tm: "1 \<le> t" "1 \<le> m"
  show "\<exists>gs. group_weighted_items xs t m = Inr gs"
  proof (cases "xs = []")
    case True
    then show ?thesis by (simp add: group_weighted_items_def)
  next
    case False
    from group_weighted_eq [OF this tm] show ?thesis by metis
  qed
  assume "group_weighted_items xs t m = Inr gs"
  with tm show "mset (concat gs) = mset (map fst xs)" and "[] \<notin> set gs"
    and "int (length gs) \<le> min t m"
    by (rule group_weighted_mset group_weighted_count)+
qed

interpretation adjacent_split: splitter group_adjacent_ids "\<lambda>x. x"
proof
  fix t m :: int and xs :: "int list" and gs
  assume tm: "1 \<le> t" "1 \<le> m"
  show "\<exists>gs. group_adjacent_ids xs t m = Inr gs"
  proof (cases "xs = []")
    case True
    then show ?thesis by (simp add: group_adjacent_ids_def)
  next
    case False
    from group_adjacent_ids_eq [OF this tm] show ?thesis by metis
  qed
  assume gs: "group_adjacent_ids xs t m = Inr gs"
  have "mset (concat gs) = mset xs \<and> [] \<notin> set gs \<and> int (length gs) \<le> min t m"
  proof (cases "xs = []")
    case True
    then show ?thesis using gs tm by (simp add: group_adjacent_ids_def)
  next
    case False
    from group_adjacent_ids_eq [OF this tm] obtain k where k: "0 < k" "gs = chunks k (sort xs)"
      "length xs \<le> nat (min t m) * k" using gs by auto
    have "length gs \<le> nat (min t m)" using k length_chunks_le [of k "sort xs"] by simp
    then show ?thesis using k tm by (auto simp: concat_chunks dest: chunks_pieces)
  qed
  then show "mset (concat gs) = mset (map (\<lambda>x. x) xs)" and "[] \<notin> set gs"
    and "int (length gs) \<le> min t m" by simp_all
qed

text \<open>Adjacent groups keep the order: read one after the other they are the sorted identifiers.\<close>

lemma group_adjacent_sorted:
  assumes "1 \<le> t" "1 \<le> m" "group_adjacent_ids xs t m = Inr gs"
  shows "concat gs = sort xs"
proof (cases "xs = []")
  case True
  then show ?thesis using assms by (simp add: group_adjacent_ids_def)
next
  case False
  from group_adjacent_ids_eq [OF this assms(1,2)] obtain k where "0 < k" "gs = chunks k (sort xs)"
    using assms(3) by auto
  then show ?thesis by (simp add: concat_chunks)
qed

end
