(* ===== verification/Predicate_IR.thy ===== *)
theory Predicate_IR
  imports Contracts
begin

text \<open>
  \<^verbatim>\<open>_common/predicate_ir.py\<close>: the immutable predicate tree between Daft expressions and
  SQL, the checks its constructors make, and the columns it references. Its meaning is
  SQL's three-valued logic over a row, with the database's comparison of non-null values as
  a parameter.
\<close>

section \<open>The tree\<close>

datatype compare_operator = OpEq | OpNe | OpLt | OpLe | OpGt | OpGe

fun operator_sql :: "compare_operator \<Rightarrow> string" where
  "operator_sql OpEq = ''=''"
| "operator_sql OpNe = ''!=''"
| "operator_sql OpLt = ''<''"
| "operator_sql OpLe = ''<=''"
| "operator_sql OpGt = ''>''"
| "operator_sql OpGe = ''>=''"

datatype ir_value = Column string | Literal pyobj

datatype predicate =
    Compare compare_operator ir_value ir_value
  | And predicate predicate
  | Or predicate predicate
  | Not predicate
  | IsNull string bool
  | InValues string "pyobj list"

text \<open>\<open>Column.__post_init__\<close>.\<close>

definition mk_Column :: "string \<Rightarrow> ir_value result" where
  "mk_Column name = r_bind (validate_identifier (PStr name)) (\<lambda>n. Inr (Column n))"

text \<open>\<open>Literal.__post_init__\<close>: database scalars that are finite and without time zone.\<close>

fun is_database_scalar :: "pyobj \<Rightarrow> bool" where
  "is_database_scalar PCallable = False"
| "is_database_scalar (PObject _) = False"
| "is_database_scalar (PRef _) = False"
| "is_database_scalar _ = True"

fun is_nonfinite :: "pyobj \<Rightarrow> bool" where
  "is_nonfinite (PFloat (FInf _)) = True"
| "is_nonfinite (PFloat FNaN) = True"
| "is_nonfinite (PDecimal DNonFinite) = True"
| "is_nonfinite _ = False"

definition mk_Literal :: "pyobj \<Rightarrow> ir_value result" where
  "mk_Literal v =
     (if \<not> is_database_scalar v then Inl UnsupportedPredicateError
      else if is_nonfinite v then Inl UnsupportedPredicateError
      else if tz_aware v then Inl UnsupportedPredicateError
      else Inr (Literal v))"

text \<open>\<open>InValues.__post_init__\<close>: not empty, no NULL.\<close>

definition mk_InValues :: "string \<Rightarrow> pyobj list \<Rightarrow> predicate result" where
  "mk_InValues c vs =
     (if vs = [] then Inl UnsupportedPredicateError
      else if PNone \<in> set vs then Inl UnsupportedPredicateError
      else Inr (InValues c vs))"

fun value_columns :: "ir_value \<Rightarrow> string set" where
  "value_columns (Column c) = {c}"
| "value_columns (Literal _) = {}"

fun referenced_columns :: "predicate \<Rightarrow> string set" where
  "referenced_columns (Compare _ l r) = value_columns l \<union> value_columns r"
| "referenced_columns (And p q) = referenced_columns p \<union> referenced_columns q"
| "referenced_columns (Or p q) = referenced_columns p \<union> referenced_columns q"
| "referenced_columns (Not p) = referenced_columns p"
| "referenced_columns (IsNull c _) = {c}"
| "referenced_columns (InValues c _) = {c}"

section \<open>Trees the constructors build\<close>

fun wf_value :: "ir_value \<Rightarrow> bool" where
  "wf_value (Column c) = valid_identifier c"
| "wf_value (Literal v) = (is_database_scalar v \<and> \<not> is_nonfinite v \<and> \<not> tz_aware v)"

definition wf_literal :: "pyobj \<Rightarrow> bool" where
  "wf_literal v \<longleftrightarrow> wf_value (Literal v) \<and> v \<noteq> PNone"

text \<open>
  The invariant of a compiled tree: names are valid, literals are admissible, a comparison
  or an IN list never contains NULL, an IN list is not empty.
\<close>

fun wf_operand :: "ir_value \<Rightarrow> bool" where
  "wf_operand (Column c) = valid_identifier c"
| "wf_operand (Literal v) = wf_literal v"

fun wf_predicate :: "predicate \<Rightarrow> bool" where
  "wf_predicate (Compare _ l r) = (wf_operand l \<and> wf_operand r)"
| "wf_predicate (And p q) = (wf_predicate p \<and> wf_predicate q)"
| "wf_predicate (Or p q) = (wf_predicate p \<and> wf_predicate q)"
| "wf_predicate (Not p) = wf_predicate p"
| "wf_predicate (IsNull c _) = valid_identifier c"
| "wf_predicate (InValues c vs) = (valid_identifier c \<and> vs \<noteq> [] \<and> list_all wf_literal vs)"

lemma mk_Column_Inr_iff: "mk_Column c = Inr v \<longleftrightarrow> valid_identifier c \<and> v = Column c"
  by (auto simp: mk_Column_def r_bind_Inr_iff simp del: validate_identifier.simps)

lemma mk_Column_error: "mk_Column c = Inl e \<Longrightarrow> e = ConfigurationError"
  by (auto simp: mk_Column_def r_bind_Inl_iff dest: validate_identifier_error
      simp del: validate_identifier.simps)

lemma mk_Literal_Inr_iff: "mk_Literal v = Inr w \<longleftrightarrow> w = Literal v \<and> wf_value (Literal v)"
  by (auto simp: mk_Literal_def)

lemma mk_Literal_error: "mk_Literal v = Inl e \<Longrightarrow> e = UnsupportedPredicateError"
  by (auto simp: mk_Literal_def split: if_splits)

lemma mk_InValues_Inr_iff:
  "mk_InValues c vs = Inr p \<longleftrightarrow> vs \<noteq> [] \<and> PNone \<notin> set vs \<and> p = InValues c vs"
  by (auto simp: mk_InValues_def)

lemma referenced_columns_valid:
  "wf_predicate p \<Longrightarrow> c \<in> referenced_columns p \<Longrightarrow> valid_identifier c"
proof (induction p)
  case (Compare op l r)
  then show ?case by (cases l; cases r) auto
qed auto

section \<open>Meaning\<close>

text \<open>
  Three-valued logic: \<open>None\<close> is SQL's unknown. A row gives every column a value, \<open>PNone\<close>
  for NULL; \<open>cmp\<close> compares two values that are not NULL.
\<close>

definition and3 :: "bool option \<Rightarrow> bool option \<Rightarrow> bool option" where
  "and3 a b =
     (if a = Some False \<or> b = Some False then Some False
      else if a = None \<or> b = None then None else Some True)"

definition not3 :: "bool option \<Rightarrow> bool option" where
  "not3 a = map_option (\<lambda>b. \<not> b) a"

definition or3 :: "bool option \<Rightarrow> bool option \<Rightarrow> bool option" where
  "or3 a b = not3 (and3 (not3 a) (not3 b))"

type_synonym comparison = "compare_operator \<Rightarrow> pyobj \<Rightarrow> pyobj \<Rightarrow> bool"

definition compare3 :: "comparison \<Rightarrow> compare_operator \<Rightarrow> pyobj \<Rightarrow> pyobj \<Rightarrow> bool option" where
  "compare3 cmp op a b = (if a = PNone \<or> b = PNone then None else Some (cmp op a b))"

definition in3 :: "comparison \<Rightarrow> pyobj \<Rightarrow> pyobj list \<Rightarrow> bool option" where
  "in3 cmp a vs = foldr (\<lambda>v acc. or3 (compare3 cmp OpEq a v) acc) vs (Some False)"

fun value_of :: "(string \<Rightarrow> pyobj) \<Rightarrow> ir_value \<Rightarrow> pyobj" where
  "value_of row (Column c) = row c"
| "value_of row (Literal v) = v"

fun eval_predicate :: "comparison \<Rightarrow> (string \<Rightarrow> pyobj) \<Rightarrow> predicate \<Rightarrow> bool option" where
  "eval_predicate cmp row (Compare op l r) = compare3 cmp op (value_of row l) (value_of row r)"
| "eval_predicate cmp row (And p q) = and3 (eval_predicate cmp row p) (eval_predicate cmp row q)"
| "eval_predicate cmp row (Or p q) = or3 (eval_predicate cmp row p) (eval_predicate cmp row q)"
| "eval_predicate cmp row (Not p) = not3 (eval_predicate cmp row p)"
| "eval_predicate cmp row (IsNull c negated) = Some ((row c = PNone) \<noteq> negated)"
| "eval_predicate cmp row (InValues c vs) = in3 cmp (row c) vs"

text \<open>The value of a predicate depends on the columns it references only.\<close>

lemma eval_predicate_cong:
  "(\<And>c. c \<in> referenced_columns p \<Longrightarrow> row c = row' c) \<Longrightarrow>
     eval_predicate cmp row p = eval_predicate cmp row' p"
proof (induction p)
  case (Compare op l r)
  then show ?case by (cases l; cases r) auto
qed auto

end
