(* ===== verification/Compat.thy ===== *)
theory Compat
  imports Predicate_IR "HOL-Library.Sublist"
begin

text \<open>
  \<^verbatim>\<open>_compat.py\<close>, the adapter between Daft and the connectors: the visitor that compiles a
  Daft expression to the predicate tree, the negotiated \<open>COUNT(*)\<close> pushdown, the columns a
  scan must read, and the limit that may be sent to the database. What Daft itself
  provides is data here: the expression tree, the fields of \<open>Pushdowns\<close>, and which private
  names the installed release has.
\<close>

section \<open>Daft expressions\<close>

text \<open>The expression tree, with one constructor per visitor method (the six comparisons share one).\<close>

datatype expr =
    ECol string
  | ELit pyobj
  | EAlias expr string
  | ECast expr
  | ETryCast expr
  | EFunction string "expr list"
  | ECoalesce "expr list"
  | EList "expr list"
  | EAnd expr expr
  | EOr expr expr
  | ENot expr
  | ECompare compare_operator expr expr
  | EBetween expr expr expr
  | EIsIn expr "expr list"
  | EIsNull expr
  | ENotNull expr

text \<open>What the visitor returns: a predicate, a value, or a list of literals.\<close>

datatype compiled = CPredicate predicate | CValue ir_value | CLiterals "pyobj list"

fun as_predicate :: "compiled \<Rightarrow> predicate result" where
  "as_predicate (CPredicate p) = Inr p"
| "as_predicate _ = Inl UnsupportedPredicateError"

fun as_value :: "compiled \<Rightarrow> ir_value result" where
  "as_value (CValue v) = Inr v"
| "as_value _ = Inl UnsupportedPredicateError"

fun as_column :: "ir_value \<Rightarrow> string result" where
  "as_column (Column c) = Inr c"
| "as_column (Literal _) = Inl UnsupportedPredicateError"

fun as_literal :: "ir_value \<Rightarrow> pyobj result" where
  "as_literal (Literal v) = Inr v"
| "as_literal (Column _) = Inl UnsupportedPredicateError"

fun compiled_literal :: "compiled \<Rightarrow> pyobj result" where
  "compiled_literal (CValue v) = as_literal v"
| "compiled_literal _ = Inl UnsupportedPredicateError"

definition compare_values :: "compare_operator \<Rightarrow> ir_value \<Rightarrow> ir_value \<Rightarrow> predicate result" where
  "compare_values op l r =
     (if l = Literal PNone \<or> r = Literal PNone then Inl UnsupportedPredicateError
      else Inr (Compare op l r))"

text \<open>
  The visitor. A node visits its children in order, so the first exception of the leftmost
  failing child is the one raised.
\<close>

fun visit :: "expr \<Rightarrow> compiled result" where
  "visit (ECol name) = r_bind (mk_Column name) (\<lambda>c. Inr (CValue c))"
| "visit (ELit v) = r_bind (mk_Literal v) (\<lambda>l. Inr (CValue l))"
| "visit (EAlias _ _) = Inl UnsupportedPredicateError"
| "visit (ECast _) = Inl UnsupportedPredicateError"
| "visit (ETryCast _) = Inl UnsupportedPredicateError"
| "visit (EFunction _ _) = Inl UnsupportedPredicateError"
| "visit (ECoalesce _) = Inl UnsupportedPredicateError"
| "visit (EList items) =
     r_bind (r_map visit items) (\<lambda>values.
     r_bind (r_map compiled_literal values) (\<lambda>literals. Inr (CLiterals literals)))"
| "visit (EAnd l r) =
     r_bind (r_bind (visit l) as_predicate) (\<lambda>p.
     r_bind (r_bind (visit r) as_predicate) (\<lambda>q. Inr (CPredicate (And p q))))"
| "visit (EOr l r) =
     r_bind (r_bind (visit l) as_predicate) (\<lambda>p.
     r_bind (r_bind (visit r) as_predicate) (\<lambda>q. Inr (CPredicate (Or p q))))"
| "visit (ENot e) =
     r_bind (r_bind (visit e) as_predicate) (\<lambda>p. Inr (CPredicate (Not p)))"
| "visit (ECompare op l r) =
     r_bind (r_bind (visit l) as_value) (\<lambda>a.
     r_bind (r_bind (visit r) as_value) (\<lambda>b.
     r_bind (compare_values op a b) (\<lambda>p. Inr (CPredicate p))))"
| "visit (EBetween e lower upper) =
     r_bind (r_bind (visit e) as_value) (\<lambda>a.
     r_bind (r_bind (visit lower) as_value) (\<lambda>b.
     r_bind (compare_values OpGe a b) (\<lambda>p.
     r_bind (r_bind (visit e) as_value) (\<lambda>c.
     r_bind (r_bind (visit upper) as_value) (\<lambda>d.
     r_bind (compare_values OpLe c d) (\<lambda>q. Inr (CPredicate (And p q))))))))"
| "visit (EIsIn e items) =
     r_bind (r_bind (visit e) as_value) (\<lambda>operand.
     r_bind (as_column operand) (\<lambda>c.
     r_bind (r_map (\<lambda>i. r_bind (visit i) as_value) items) (\<lambda>values.
     r_bind (r_map as_literal values) (\<lambda>literals.
     r_bind (mk_InValues c literals) (\<lambda>p. Inr (CPredicate p))))))"
| "visit (EIsNull e) =
     r_bind (r_bind (visit e) as_value) (\<lambda>operand.
     r_bind (as_column operand) (\<lambda>c. Inr (CPredicate (IsNull c False))))"
| "visit (ENotNull e) =
     r_bind (r_bind (visit e) as_value) (\<lambda>operand.
     r_bind (as_column operand) (\<lambda>c. Inr (CPredicate (IsNull c True))))"

text \<open>\<open>compile_filter\<close> turns only \<open>UnsupportedPredicateError\<close> into "no pushdown".\<close>

definition compile_filter :: "expr option \<Rightarrow> predicate option result" where
  "compile_filter expression =
     (case expression of
        None \<Rightarrow> Inr None
      | Some e \<Rightarrow>
          (case visit e of
             Inl UnsupportedPredicateError \<Rightarrow> Inr None
           | Inl exc \<Rightarrow> Inl exc
           | Inr (CPredicate p) \<Rightarrow> Inr (Some p)
           | Inr _ \<Rightarrow> Inr None))"

section \<open>Pushdowns\<close>

text \<open>
  The fields and methods of Daft's \<open>Pushdowns\<close> the connectors read. \<open>pd_native\<close> is what
  the native conversion reports: the count mode and the required column names.
\<close>

record aggregation =
  agg_name :: string
  agg_count_mode :: "nat option"
  agg_required_columns :: "string list"

record pushdowns =
  pd_filters :: "expr option"
  pd_columns :: "string list option"
  pd_limit :: "int option"
  pd_aggregation :: "aggregation option"
  pd_filter_required :: "string list"

text \<open>
  What an installed Daft release exposes: the native module (\<open>None\<close> when its import fails),
  in it the class \<open>CountMode\<close>, in that the member \<open>All\<close>; whether the class \<open>DataSource\<close>
  has the hook; whether \<open>_to_pypushdowns\<close> is callable on the class and on the instance.
\<close>

record daft_api =
  native_module :: "nat option option option"
  has_supports_count_pushdown :: bool
  class_converter_callable :: bool
  instance_converter_callable :: bool

definition count_mode_all :: "daft_api \<Rightarrow> nat option" where
  "count_mode_all d =
     (case native_module d of None \<Rightarrow> None
      | Some None \<Rightarrow> None
      | Some (Some member) \<Rightarrow> member)"

definition count_pushdown_available :: "daft_api \<Rightarrow> bool" where
  "count_pushdown_available d \<longleftrightarrow>
     has_supports_count_pushdown d \<and> class_converter_callable d \<and> count_mode_all d \<noteq> None"

text \<open>\<open>CountPushdown\<close> is its output name.\<close>

definition count_pushdown :: "daft_api \<Rightarrow> pushdowns \<Rightarrow> string option result" where
  "count_pushdown d pd =
     (case pd_aggregation pd of
        None \<Rightarrow> Inr None
      | Some agg \<Rightarrow>
          let expected_mode = count_mode_all d
          in if \<not> count_pushdown_available d \<or> expected_mode = None
                \<or> \<not> instance_converter_callable d
             then Inl CompatibilityError
             else
               let columns = agg_required_columns agg
               in if agg_count_mode agg \<noteq> expected_mode \<or> 1 < length columns
                     \<or> pd_filters pd \<noteq> None
                  then Inl CompatibilityError
                  else
                    let output_name = (case columns of c # _ \<Rightarrow> c | [] \<Rightarrow> agg_name agg)
                    in if output_name = [] then Inl CompatibilityError
                       else Inr (Some output_name))"

definition requested_columns :: "pushdowns \<Rightarrow> arrow_schema \<Rightarrow> string set" where
  "requested_columns pd sch =
     (case pd_columns pd of None \<Rightarrow> set (schema_names sch) | Some cs \<Rightarrow> set cs)
     \<union> set (pd_filter_required pd)"

definition required_scan_columns :: "pushdowns \<Rightarrow> arrow_schema \<Rightarrow> string list result" where
  "required_scan_columns pd sch =
     (let requested = requested_columns pd sch
      in if requested - set (schema_names sch) \<noteq> {} then Inl CompatibilityError
         else Inr (List.filter (\<lambda>name. name \<in> requested) (schema_names sch)))"

definition safe_database_limit :: "pushdowns \<Rightarrow> predicate option \<Rightarrow> int option" where
  "safe_database_limit pd p =
     (let limit = pd_limit pd
      in if limit = None \<or> limit = Some 0 then limit
         else if pd_filters pd = None \<or> p \<noteq> None then limit
         else None)"

text \<open>
  \<open>daft_consumes\<close> stands for building an empty batch of a one-field schema and handing it
  to Daft's \<open>Schema\<close> and \<open>RecordBatch\<close>.
\<close>

definition validate_daft_arrow_schema ::
    "(arrow_field \<Rightarrow> unit result) \<Rightarrow> arrow_schema \<Rightarrow> unit result" where
  "validate_daft_arrow_schema daft_consumes sch =
     r_all (\<lambda>f. case daft_consumes f of
              Inl e \<Rightarrow> if is_exception e then Inl CompatibilityError else Inl e
            | Inr u \<Rightarrow> Inr u) (schema_fields sch)"

section \<open>What the visitor returns\<close>

fun wf_compiled :: "compiled \<Rightarrow> bool" where
  "wf_compiled (CPredicate p) = wf_predicate p"
| "wf_compiled (CValue v) = wf_value v"
| "wf_compiled (CLiterals vs) = list_all (\<lambda>v. wf_value (Literal v)) vs"

lemma as_predicate_Inr_iff [simp]: "as_predicate c = Inr p \<longleftrightarrow> c = CPredicate p"
  by (cases c) auto

lemma as_value_Inr_iff [simp]: "as_value c = Inr v \<longleftrightarrow> c = CValue v"
  by (cases c) auto

lemma as_column_Inr_iff [simp]: "as_column v = Inr c \<longleftrightarrow> v = Column c"
  by (cases v) auto

lemma as_literal_Inr_iff [simp]: "as_literal v = Inr l \<longleftrightarrow> v = Literal l"
  by (cases v) auto

lemma compiled_literal_Inr_iff [simp]: "compiled_literal c = Inr l \<longleftrightarrow> c = CValue (Literal l)"
  by (cases c) auto

lemma as_predicate_error: "as_predicate c = Inl e \<Longrightarrow> e = UnsupportedPredicateError"
  by (cases c) auto

lemma as_value_error: "as_value c = Inl e \<Longrightarrow> e = UnsupportedPredicateError"
  by (cases c) auto

lemma as_column_error: "as_column v = Inl e \<Longrightarrow> e = UnsupportedPredicateError"
  by (cases v) auto

lemma as_literal_error: "as_literal v = Inl e \<Longrightarrow> e = UnsupportedPredicateError"
  by (cases v) auto

lemma compiled_literal_error: "compiled_literal c = Inl e \<Longrightarrow> e = UnsupportedPredicateError"
  by (cases c) (auto dest: as_literal_error)

lemma compare_values_error: "compare_values op a b = Inl e \<Longrightarrow> e = UnsupportedPredicateError"
  by (auto simp: compare_values_def split: if_splits)

lemma mk_InValues_error: "mk_InValues c vs = Inl e \<Longrightarrow> e = UnsupportedPredicateError"
  by (auto simp: mk_InValues_def split: if_splits)

lemmas visit_errors = as_predicate_error as_value_error as_column_error as_literal_error
  compiled_literal_error compare_values_error mk_InValues_error mk_Literal_error

lemma wf_operand_of_value: "wf_value v \<Longrightarrow> v \<noteq> Literal PNone \<Longrightarrow> wf_operand v"
  by (cases v) (auto simp: wf_literal_def)

lemma compare_values_Inr_iff:
  "compare_values op l r = Inr p
     \<longleftrightarrow> l \<noteq> Literal PNone \<and> r \<noteq> Literal PNone \<and> p = Compare op l r"
  by (auto simp: compare_values_def)


lemma literals_of_values:
  assumes "list_all2 (\<lambda>x y. r_bind (visit x) as_value = Inr y) items vals"
    and "list_all2 (\<lambda>x y. as_literal x = Inr y) vals lits"
  shows "list_all2 (\<lambda>i l. visit i = Inr (CValue (Literal l))) items lits"
  using assms
proof (induction arbitrary: lits rule: list_all2_induct)
  case Nil
  then show ?case by simp
next
  case (Cons x xs y ys)
  then show ?case by (auto simp: list_all2_Cons1 r_bind_Inr_iff)
qed

lemma literals_of_compiled:
  assumes "list_all2 (\<lambda>x y. visit x = Inr y) items vals"
    and "list_all2 (\<lambda>x y. compiled_literal x = Inr y) vals lits"
  shows "list_all2 (\<lambda>i l. visit i = Inr (CValue (Literal l))) items lits"
  using assms
proof (induction arbitrary: lits rule: list_all2_induct)
  case Nil
  then show ?case by simp
next
  case (Cons x xs y ys)
  then show ?case by (auto simp: list_all2_Cons1)
qed

text \<open>What a successful visit of each node says of its children.\<close>

lemma visit_AndE:
  assumes "visit (EAnd l r) = Inr c"
  obtains p q where "visit l = Inr (CPredicate p)" "visit r = Inr (CPredicate q)"
    "c = CPredicate (And p q)"
  using assms by (auto simp: r_bind_Inr_iff)

lemma visit_OrE:
  assumes "visit (EOr l r) = Inr c"
  obtains p q where "visit l = Inr (CPredicate p)" "visit r = Inr (CPredicate q)"
    "c = CPredicate (Or p q)"
  using assms by (auto simp: r_bind_Inr_iff)

lemma visit_CompareE:
  assumes "visit (ECompare op l r) = Inr c"
  obtains a b where "visit l = Inr (CValue a)" "visit r = Inr (CValue b)"
    "a \<noteq> Literal PNone" "b \<noteq> Literal PNone" "c = CPredicate (Compare op a b)"
  using assms by (auto simp: r_bind_Inr_iff compare_values_Inr_iff)

lemma visit_BetweenE:
  assumes "visit (EBetween e l u) = Inr c"
  obtains a b d where "visit e = Inr (CValue a)" "visit l = Inr (CValue b)"
    "visit u = Inr (CValue d)" "a \<noteq> Literal PNone" "b \<noteq> Literal PNone" "d \<noteq> Literal PNone"
    "c = CPredicate (And (Compare OpGe a b) (Compare OpLe a d))"
  using assms by (auto simp: r_bind_Inr_iff compare_values_Inr_iff)

lemma visit_IsInE:
  assumes "visit (EIsIn e items) = Inr c"
  obtains n lits where "visit e = Inr (CValue (Column n))"
    "list_all2 (\<lambda>i l. visit i = Inr (CValue (Literal l))) items lits"
    "lits \<noteq> []" "PNone \<notin> set lits" "c = CPredicate (InValues n lits)"
proof -
  from assms obtain n vals lits where "visit e = Inr (CValue (Column n))"
    and "r_map (\<lambda>i. r_bind (visit i) as_value) items = Inr vals"
    and "r_map as_literal vals = Inr lits"
    and "mk_InValues n lits = Inr (InValues n lits)" and "c = CPredicate (InValues n lits)"
    by (auto simp: r_bind_Inr_iff mk_InValues_Inr_iff)
  then show ?thesis
    using that by (auto simp: r_map_Inr_iff mk_InValues_Inr_iff dest: literals_of_values)
qed

lemma visit_ListE:
  assumes "visit (EList items) = Inr c"
  obtains lits where "list_all2 (\<lambda>i l. visit i = Inr (CValue (Literal l))) items lits"
    "c = CLiterals lits"
  using assms by (auto simp: r_bind_Inr_iff r_map_Inr_iff dest: literals_of_compiled)

lemma visit_IsNullE:
  assumes "visit (EIsNull e) = Inr c"
  obtains n where "visit e = Inr (CValue (Column n))" "c = CPredicate (IsNull n False)"
  using assms by (auto simp: r_bind_Inr_iff)

lemma visit_NotNullE:
  assumes "visit (ENotNull e) = Inr c"
  obtains n where "visit e = Inr (CValue (Column n))" "c = CPredicate (IsNull n True)"
  using assms by (auto simp: r_bind_Inr_iff)

lemma visit_NotE:
  assumes "visit (ENot e) = Inr c"
  obtains p where "visit e = Inr (CPredicate p)" "c = CPredicate (Not p)"
  using assms by (auto simp: r_bind_Inr_iff)

lemma visit_ColE: "visit (ECol n) = Inr c \<Longrightarrow> valid_identifier n \<and> c = CValue (Column n)"
  by (auto simp: r_bind_Inr_iff mk_Column_Inr_iff)

lemma visit_LitE: "visit (ELit v) = Inr c \<Longrightarrow> wf_value (Literal v) \<and> c = CValue (Literal v)"
  by (auto simp: r_bind_Inr_iff mk_Literal_Inr_iff)

lemmas visitE = visit_AndE visit_OrE visit_CompareE visit_BetweenE visit_IsInE visit_ListE
  visit_IsNullE visit_NotNullE visit_NotE

text \<open>
  One induction principle for everything proved of a successful visit: \<open>P e c\<close> holds
  whenever each supported node has it from its children.
\<close>

lemma visit_induct [consumes 1, case_names Col Lit List And Or Not Compare Between IsIn IsNull NotNull]:
  assumes "visit e = Inr c"
    and "\<And>n. valid_identifier n \<Longrightarrow> P (ECol n) (CValue (Column n))"
    and "\<And>v. wf_value (Literal v) \<Longrightarrow> P (ELit v) (CValue (Literal v))"
    and "\<And>items lits. list_all2 (\<lambda>i l. P i (CValue (Literal l))) items lits \<Longrightarrow>
           P (EList items) (CLiterals lits)"
    and "\<And>l r p q. P l (CPredicate p) \<Longrightarrow> P r (CPredicate q) \<Longrightarrow> P (EAnd l r) (CPredicate (And p q))"
    and "\<And>l r p q. P l (CPredicate p) \<Longrightarrow> P r (CPredicate q) \<Longrightarrow> P (EOr l r) (CPredicate (Or p q))"
    and "\<And>d p. P d (CPredicate p) \<Longrightarrow> P (ENot d) (CPredicate (Not p))"
    and "\<And>op l r a b. P l (CValue a) \<Longrightarrow> P r (CValue b) \<Longrightarrow> a \<noteq> Literal PNone \<Longrightarrow>
           b \<noteq> Literal PNone \<Longrightarrow> P (ECompare op l r) (CPredicate (Compare op a b))"
    and "\<And>d l u a b f. P d (CValue a) \<Longrightarrow> P l (CValue b) \<Longrightarrow> P u (CValue f) \<Longrightarrow>
           a \<noteq> Literal PNone \<Longrightarrow> b \<noteq> Literal PNone \<Longrightarrow> f \<noteq> Literal PNone \<Longrightarrow>
           P (EBetween d l u) (CPredicate (And (Compare OpGe a b) (Compare OpLe a f)))"
    and "\<And>d items n lits. P d (CValue (Column n)) \<Longrightarrow>
           list_all2 (\<lambda>i l. P i (CValue (Literal l))) items lits \<Longrightarrow> lits \<noteq> [] \<Longrightarrow>
           PNone \<notin> set lits \<Longrightarrow> P (EIsIn d items) (CPredicate (InValues n lits))"
    and "\<And>d n. P d (CValue (Column n)) \<Longrightarrow> P (EIsNull d) (CPredicate (IsNull n False))"
    and "\<And>d n. P d (CValue (Column n)) \<Longrightarrow> P (ENotNull d) (CPredicate (IsNull n True))"
  shows "P e c"
  using assms(1)
proof (induction e arbitrary: c)
  case (EList items)
  from EList.prems obtain lits
    where l: "list_all2 (\<lambda>i l. visit i = Inr (CValue (Literal l))) items lits"
      and c: "c = CLiterals lits" by (rule visit_ListE)
  have "list_all2 (\<lambda>i l. P i (CValue (Literal l))) items lits"
    by (rule list.rel_mono_strong [OF l]) (rule EList.IH)
  then show ?case using assms(4) c by simp
next
  case (EIsIn d items)
  from EIsIn.prems obtain n lits where v: "visit d = Inr (CValue (Column n))"
    and l: "list_all2 (\<lambda>i l. visit i = Inr (CValue (Literal l))) items lits"
    and n: "lits \<noteq> []" "PNone \<notin> set lits" and c: "c = CPredicate (InValues n lits)"
    by (rule visit_IsInE)
  have "list_all2 (\<lambda>i l. P i (CValue (Literal l))) items lits"
    by (rule list.rel_mono_strong [OF l]) (rule EIsIn.IH(2))
  then show ?case using assms(10) EIsIn.IH(1) [OF v] n c by simp
next
  case (ECol n)
  then show ?case using assms(2) visit_ColE by blast
next
  case (ELit v)
  then show ?case using assms(3) visit_LitE by blast
next
  case (EAnd l r)
  from EAnd.prems show ?case by (rule visit_AndE) (use EAnd.IH assms(5) in simp)
next
  case (EOr l r)
  from EOr.prems show ?case by (rule visit_OrE) (use EOr.IH assms(6) in simp)
next
  case (ENot d)
  from ENot.prems show ?case by (rule visit_NotE) (use ENot.IH assms(7) in simp)
next
  case (ECompare op l r)
  from ECompare.prems show ?case by (rule visit_CompareE) (use ECompare.IH assms(8) in simp)
next
  case (EBetween d l u)
  from EBetween.prems show ?case by (rule visit_BetweenE) (use EBetween.IH assms(9) in simp)
next
  case (EIsNull d)
  from EIsNull.prems show ?case by (rule visit_IsNullE) (use EIsNull.IH assms(11) in simp)
next
  case (ENotNull d)
  from ENotNull.prems show ?case by (rule visit_NotNullE) (use ENotNull.IH assms(12) in simp)
qed simp_all

lemma visit_wf: "visit e = Inr c \<Longrightarrow> wf_compiled c"
proof (induction rule: visit_induct)
  case (List items lits)
  then show ?case by (auto simp: list_all_iff list_all2_conv_all_nth in_set_conv_nth)
next
  case (IsIn d items n lits)
  then show ?case
    by (auto simp: list_all_iff list_all2_conv_all_nth in_set_conv_nth wf_literal_def)
qed (auto intro: wf_operand_of_value)


text \<open>The columns an expression names.\<close>

fun expr_columns :: "expr \<Rightarrow> string set" where
  "expr_columns (ECol n) = {n}"
| "expr_columns (ELit _) = {}"
| "expr_columns (EAlias e _) = expr_columns e"
| "expr_columns (ECast e) = expr_columns e"
| "expr_columns (ETryCast e) = expr_columns e"
| "expr_columns (EFunction _ es) = (\<Union>e\<in>set es. expr_columns e)"
| "expr_columns (ECoalesce es) = (\<Union>e\<in>set es. expr_columns e)"
| "expr_columns (EList es) = (\<Union>e\<in>set es. expr_columns e)"
| "expr_columns (EAnd l r) = expr_columns l \<union> expr_columns r"
| "expr_columns (EOr l r) = expr_columns l \<union> expr_columns r"
| "expr_columns (ENot e) = expr_columns e"
| "expr_columns (ECompare _ l r) = expr_columns l \<union> expr_columns r"
| "expr_columns (EBetween e l u) = expr_columns e \<union> expr_columns l \<union> expr_columns u"
| "expr_columns (EIsIn e es) = expr_columns e \<union> (\<Union>i\<in>set es. expr_columns i)"
| "expr_columns (EIsNull e) = expr_columns e"
| "expr_columns (ENotNull e) = expr_columns e"

fun compiled_columns :: "compiled \<Rightarrow> string set" where
  "compiled_columns (CPredicate p) = referenced_columns p"
| "compiled_columns (CValue v) = value_columns v"
| "compiled_columns (CLiterals _) = {}"

lemma literal_items_no_columns:
  assumes "list_all2 (\<lambda>i l. compiled_columns (CValue (Literal l)) = expr_columns i) items lits"
  shows "(\<Union>i\<in>set items. expr_columns i) = {}"
  using assms by (auto simp: list_all2_conv_all_nth in_set_conv_nth)

lemma visit_columns: "visit e = Inr c \<Longrightarrow> compiled_columns c = expr_columns e"
proof (induction rule: visit_induct)
  case (List items lits)
  then show ?case using literal_items_no_columns by simp
next
  case (IsIn d items n lits)
  then show ?case using literal_items_no_columns by simp
qed auto

text \<open>Only an invalid column name raises anything but \<open>UnsupportedPredicateError\<close>.\<close>

lemma visit_error:
  "visit e = Inl exc \<Longrightarrow> exc = UnsupportedPredicateError
     \<or> exc = ConfigurationError \<and> (\<exists>n\<in>expr_columns e. \<not> valid_identifier n)"
proof (induction e)
  case (ECol n)
  then show ?case
    using mk_Column_error mk_Column_Inr_iff [of n "Column n"]
    by (auto simp: r_bind_Inl_iff)
next
  case (EList items)
  from EList.prems have "r_map visit items = Inl exc \<or> exc = UnsupportedPredicateError"
    by (auto simp: r_bind_Inl_iff dest!: r_map_Inl_ex dest: visit_errors)
  then show ?case using EList.IH by (fastforce dest: r_map_Inl_ex)
next
  case (EIsIn d items)
  from EIsIn.prems have "visit d = Inl exc \<or> exc = UnsupportedPredicateError
      \<or> (\<exists>i\<in>set items. r_bind (visit i) as_value = Inl exc)"
    by (auto simp: r_bind_Inl_iff dest!: r_map_Inl_ex dest: visit_errors)
  then show ?case using EIsIn.IH by (fastforce simp: r_bind_Inl_iff dest: visit_errors)
qed (auto simp: r_bind_Inl_iff dest: visit_errors)

section \<open>The compiled filter\<close>

lemma compile_filter_Some_iff:
  "compile_filter f = Inr (Some p) \<longleftrightarrow> (\<exists>e. f = Some e \<and> visit e = Inr (CPredicate p))"
  by (auto simp: compile_filter_def split: option.splits sum.splits compiled.splits exn.splits)

lemma compile_filter_wf: "compile_filter f = Inr (Some p) \<Longrightarrow> wf_predicate p"
  using visit_wf by (fastforce simp: compile_filter_Some_iff)

lemma compile_filter_total:
  assumes "\<And>e n. f = Some e \<Longrightarrow> n \<in> expr_columns e \<Longrightarrow> valid_identifier n"
  shows "\<exists>r. compile_filter f = Inr r"
proof (cases f)
  case None
  then show ?thesis by (simp add: compile_filter_def)
next
  case (Some e)
  have "exc = UnsupportedPredicateError" if "visit e = Inl exc" for exc
    using visit_error [OF that] assms Some by blast
  then show ?thesis
    using Some by (cases "visit e") (auto simp: compile_filter_def split: compiled.splits)
qed

text \<open>
  Daft's own meaning of the expressions the compiler supports: comparisons with NULL are
  unknown, the connectives are three-valued. \<open>operand\<close> and \<open>truth\<close> give every other
  expression whatever value Daft computes for it.
\<close>

type_synonym row = "string \<Rightarrow> pyobj"

fun operand_value :: "(row \<Rightarrow> expr \<Rightarrow> pyobj) \<Rightarrow> row \<Rightarrow> expr \<Rightarrow> pyobj" where
  "operand_value operand row (ECol n) = row n"
| "operand_value operand row (ELit v) = v"
| "operand_value operand row e = operand row e"

fun daft_eval ::
    "comparison \<Rightarrow> (row \<Rightarrow> expr \<Rightarrow> pyobj) \<Rightarrow> (row \<Rightarrow> expr \<Rightarrow> bool option) \<Rightarrow> row \<Rightarrow> expr \<Rightarrow> bool option"
  where
  "daft_eval cmp operand truth row (EAnd l r) =
     and3 (daft_eval cmp operand truth row l) (daft_eval cmp operand truth row r)"
| "daft_eval cmp operand truth row (EOr l r) =
     or3 (daft_eval cmp operand truth row l) (daft_eval cmp operand truth row r)"
| "daft_eval cmp operand truth row (ENot e) = not3 (daft_eval cmp operand truth row e)"
| "daft_eval cmp operand truth row (ECompare op l r) =
     compare3 cmp op (operand_value operand row l) (operand_value operand row r)"
| "daft_eval cmp operand truth row (EBetween e l u) =
     and3 (compare3 cmp OpGe (operand_value operand row e) (operand_value operand row l))
          (compare3 cmp OpLe (operand_value operand row e) (operand_value operand row u))"
| "daft_eval cmp operand truth row (EIsIn e items) =
     in3 cmp (operand_value operand row e) (map (operand_value operand row) items)"
| "daft_eval cmp operand truth row (EIsNull e) = Some (operand_value operand row e = PNone)"
| "daft_eval cmp operand truth row (ENotNull e) = Some (operand_value operand row e \<noteq> PNone)"
| "daft_eval cmp operand truth row e = truth row e"

fun same_meaning ::
    "comparison \<Rightarrow> (row \<Rightarrow> expr \<Rightarrow> pyobj) \<Rightarrow> (row \<Rightarrow> expr \<Rightarrow> bool option) \<Rightarrow> row \<Rightarrow> expr \<Rightarrow> compiled \<Rightarrow> bool"
  where
  "same_meaning cmp operand truth row e (CPredicate p) =
     (eval_predicate cmp row p = daft_eval cmp operand truth row e)"
| "same_meaning cmp operand truth row e (CValue v) = (value_of row v = operand_value operand row e)"
| "same_meaning cmp operand truth row e (CLiterals _) = True"

lemma visit_same_meaning: "visit e = Inr c \<Longrightarrow> same_meaning cmp operand truth row e c"
proof (induction rule: visit_induct)
  case (IsIn d items n lits)
  have "map (operand_value operand row) items = lits"
    using IsIn(2) by (auto simp: list_all2_conv_all_nth intro: nth_equalityI)
  then show ?case using IsIn(1) by simp
qed auto

text \<open>The rows Daft keeps and the rows the database keeps: those whose filter is true.\<close>

definition daft_keeps where
  "daft_keeps cmp operand truth filt row \<longleftrightarrow>
     (case filt of None \<Rightarrow> True | Some e \<Rightarrow> daft_eval cmp operand truth row e = Some True)"

definition database_keeps :: "comparison \<Rightarrow> predicate option \<Rightarrow> row \<Rightarrow> bool" where
  "database_keeps cmp p row \<longleftrightarrow>
     (case p of None \<Rightarrow> True | Some q \<Rightarrow> eval_predicate cmp row q = Some True)"

definition take_limit :: "int option \<Rightarrow> 'a list \<Rightarrow> 'a list" where
  "take_limit limit xs = (case limit of None \<Rightarrow> xs | Some n \<Rightarrow> take (nat n) xs)"

lemma take_limit_simps [simp]:
  "take_limit None xs = xs" "take_limit (Some n) xs = take (nat n) xs"
  by (simp_all add: take_limit_def)

lemma pushed_filter_same_rows:
  assumes "compile_filter f = Inr (Some p)"
  shows "database_keeps cmp (Some p) row = daft_keeps cmp operand truth f row"
proof -
  from assms obtain e where f: "f = Some e" and v: "visit e = Inr (CPredicate p)"
    by (auto simp: compile_filter_Some_iff)
  from visit_same_meaning [OF v] have "eval_predicate cmp row p = daft_eval cmp operand truth row e"
    by simp
  with f show ?thesis by (simp add: database_keeps_def daft_keeps_def)
qed

lemma database_keeps_more:
  assumes "compile_filter f = Inr p" and "daft_keeps cmp operand truth f row"
  shows "database_keeps cmp p row"
  using assms pushed_filter_same_rows by (cases p) (auto simp: database_keeps_def)

lemma filter_take_filter_idem:
  "List.filter P (take n (List.filter P xs)) = take n (List.filter P xs)"
  by (auto simp: filter_id_conv dest: in_set_takeD)

lemma take_concat_take:
  "take n (concat (map (take n) xss)) = take n (concat xss)"
proof (induction xss arbitrary: n)
  case (Cons xs xss)
  have "take k (concat (map (take n) xss)) = take k (concat xss)" if "k \<le> n" for k
    using Cons.IH [of n] that by (metis min.absorb1 take_take)
  then show ?case by (simp add: min_def)
qed simp

text \<open>The scan of one task: the pushed filter, then the pushed limit.\<close>

definition database_scan :: "comparison \<Rightarrow> predicate option \<Rightarrow> int option \<Rightarrow> row list \<Rightarrow> row list" where
  "database_scan cmp p limit rows = take_limit limit (List.filter (database_keeps cmp p) rows)"

lemma scan_limit_cases:
  assumes "compile_filter (pd_filters pd) = Inr p"
    and "safe_database_limit pd p = Some n" and "n \<noteq> 0"
  shows "pd_limit pd = Some n \<and>
    (\<forall>row. database_keeps cmp p row = daft_keeps cmp operand truth (pd_filters pd) row)"
proof (cases p)
  case None
  then have "pd_filters pd = None"
    using assms(2,3) by (auto simp: safe_database_limit_def Let_def split: if_splits)
  then show ?thesis using None assms(2)
    by (auto simp: safe_database_limit_def Let_def database_keeps_def daft_keeps_def split: if_splits)
next
  case (Some q)
  then show ?thesis using assms pushed_filter_same_rows
    by (auto simp: safe_database_limit_def Let_def split: if_splits)
qed

lemma filter_scan:
  assumes "compile_filter (pd_filters pd) = Inr p"
  shows "List.filter (daft_keeps cmp operand truth (pd_filters pd))
           (database_scan cmp p (safe_database_limit pd p) rows) =
         take_limit (safe_database_limit pd p)
           (List.filter (daft_keeps cmp operand truth (pd_filters pd)) rows)"
proof (cases "safe_database_limit pd p")
  case None
  have "List.filter (daft_keeps cmp operand truth (pd_filters pd))
      (List.filter (database_keeps cmp p) rows)
    = List.filter (daft_keeps cmp operand truth (pd_filters pd)) rows"
    using database_keeps_more [OF assms] by (auto intro!: filter_cong)
  then show ?thesis using None by (simp add: database_scan_def)
next
  case (Some n)
  show ?thesis
  proof (cases "n = 0")
    case True
    then show ?thesis using Some by (simp add: database_scan_def)
  next
    case False
    then have "database_keeps cmp p = daft_keeps cmp operand truth (pd_filters pd)"
      using scan_limit_cases [OF assms Some] by blast
    then show ?thesis using Some by (simp add: database_scan_def filter_take_filter_idem)
  qed
qed

lemma safe_limit_is_limit: "safe_database_limit pd p = Some n \<Longrightarrow> pd_limit pd = Some n"
  by (auto simp: safe_database_limit_def Let_def split: if_splits)

text \<open>
  The rows of a whole scan, one list per task: filtering and limiting what the tasks
  return gives what filtering and limiting all rows gives.
\<close>

lemma scan_pushdown_sound:
  assumes "compile_filter (pd_filters pd) = Inr p"
  shows "take_limit (pd_limit pd)
           (List.filter (daft_keeps cmp operand truth (pd_filters pd))
             (concat (map (database_scan cmp p (safe_database_limit pd p)) tasks))) =
         take_limit (pd_limit pd)
           (List.filter (daft_keeps cmp operand truth (pd_filters pd)) (concat tasks))"
proof -
  let ?keep = "daft_keeps cmp operand truth (pd_filters pd)"
  let ?lim = "safe_database_limit pd p"
  have eq: "List.filter ?keep (concat (map (database_scan cmp p ?lim) tasks))
      = concat (map (take_limit ?lim) (map (List.filter ?keep) tasks))"
    by (simp add: filter_concat filter_scan [OF assms] comp_def)
  show ?thesis
  proof (cases ?lim)
    case None
    then have "map (take_limit ?lim) xss = xss" for xss :: "row list list"
      by (simp add: map_idI)
    then show ?thesis by (simp only: eq) (simp only: filter_concat)
  next
    case (Some n)
    then have "map (take_limit ?lim) xss = map (take (nat n)) xss" for xss :: "row list list"
      by simp
    then show ?thesis
      using safe_limit_is_limit [OF Some] 
      by (simp only: eq) (simp only: filter_concat take_limit_simps take_concat_take)
  qed
qed

section \<open>Columns and counts\<close>

lemma required_scan_columns_Inr_iff:
  "required_scan_columns pd sch = Inr cs \<longleftrightarrow>
     requested_columns pd sch \<subseteq> set (schema_names sch)
     \<and> cs = List.filter (\<lambda>n. n \<in> requested_columns pd sch) (schema_names sch)"
  by (auto simp: required_scan_columns_def Let_def)

lemma required_scan_columns_set:
  "required_scan_columns pd sch = Inr cs \<Longrightarrow> set cs = requested_columns pd sch"
  by (auto simp: required_scan_columns_Inr_iff)

lemma required_scan_columns_error:
  "required_scan_columns pd sch = Inl e \<Longrightarrow> e = CompatibilityError"
  by (auto simp: required_scan_columns_def Let_def split: if_splits)

lemma count_pushdown_Some_iff:
  "count_pushdown d pd = Inr (Some name) \<longleftrightarrow>
     (\<exists>agg mode. pd_aggregation pd = Some agg \<and> count_pushdown_available d
        \<and> instance_converter_callable d \<and> count_mode_all d = Some mode
        \<and> agg_count_mode agg = Some mode \<and> pd_filters pd = None \<and> name \<noteq> []
        \<and> (agg_required_columns agg = [name]
           \<or> agg_required_columns agg = [] \<and> agg_name agg = name))"
  by (auto simp: count_pushdown_def Let_def count_pushdown_available_def length_Suc_conv
      split: option.splits list.splits if_splits)

lemma count_pushdown_error: "count_pushdown d pd = Inl e \<Longrightarrow> e = CompatibilityError"
  by (auto simp: count_pushdown_def Let_def split: option.splits if_splits)

end
