(* ===== verification/CH_Schema.thy ===== *)
theory CH_Schema
  imports Contracts
begin

text \<open>
  \<^verbatim>\<open>clickhouse/schema.py\<close>: the scanner of ClickHouse type expressions, the fail-closed
  validation of a declared type, the type it is transported as, the columns of a
  \<open>DESCRIBE\<close> result, and the projection that casts to the transport types.

  Recursion depth is not bounded in the model; the interpreter's own limit on nested calls
  is outside it.
\<close>

section \<open>Types and columns\<close>

definition SIMPLE_TYPES :: "string list" where
  "SIMPLE_TYPES =
     [''Bool'', ''Date'', ''Date32'', ''Float32'', ''Float64'', ''IPv4'', ''IPv6'', ''Int8'', ''Int16'',
      ''Int32'', ''Int64'', ''Int128'', ''Int256'', ''Nothing'', ''String'', ''UInt8'', ''UInt16'',
      ''UInt32'', ''UInt64'', ''UInt128'', ''UInt256'', ''UUID'']"

definition UNSUPPORTED_SIMPLE :: "string list" where
  "UNSUPPORTED_SIMPLE = [''Nothing'', ''Int128'', ''Int256'', ''UInt128'', ''UInt256'']"

definition WRAPPER_TYPES :: "string list" where
  "WRAPPER_TYPES = [''Nullable'', ''LowCardinality'', ''Array'']"

definition DECIMAL_SCALE_LIMITS :: "(string \<times> int) list" where
  "DECIMAL_SCALE_LIMITS = [(''Decimal32'', 9), (''Decimal64'', 18), (''Decimal128'', 38)]"

definition SINGLE_INTEGER_TYPES :: "string list" where
  "SINGLE_INTEGER_TYPES = ''FixedString'' # map fst DECIMAL_SCALE_LIMITS"

definition MAX_DECIMAL_PRECISION :: int where
  "MAX_DECIMAL_PRECISION = 38"

definition MAX_DATETIME64_PRECISION :: int where
  "MAX_DATETIME64_PRECISION = 9"

definition TEXT_TRANSPORT_TYPES :: "string list" where
  "TEXT_TRANSPORT_TYPES = [''Enum8'', ''Enum16'', ''IPv4'', ''IPv6'', ''UUID'']"

record clickhouse_type =
  ct_name :: string
  ct_arguments :: "string list"

record clickhouse_column =
  col_name :: string
  declared_type :: string
  transport_type :: string

definition cast_type :: "clickhouse_column \<Rightarrow> string option" where
  "cast_type c = (if transport_type c \<noteq> declared_type c then Some (transport_type c) else None)"

record clickhouse_schema_plan =
  plan_schema :: arrow_schema
  plan_columns :: "clickhouse_column list"

definition passthrough :: "arrow_schema \<Rightarrow> clickhouse_schema_plan" where
  "passthrough sch =
     \<lparr>plan_schema = sch,
      plan_columns = map (\<lambda>n. \<lparr>col_name = n, declared_type = [], transport_type = []\<rparr>) (schema_names sch)\<rparr>"

definition projection_for ::
    "clickhouse_schema_plan \<Rightarrow> string list \<Rightarrow> (string \<times> string option) list result" where
  "projection_for plan names =
     (let by_name = py_dict (map (\<lambda>c. (col_name c, c)) (plan_columns plan))
      in r_map (\<lambda>n. case map_of by_name n of
                  None \<Rightarrow> Inl SchemaError
                | Some c \<Rightarrow> Inr (n, cast_type c)) names)"

section \<open>The scanner\<close>

text \<open>
  The loop of \<open>split_type_arguments\<close>: the parts so far, the text since the last split
  (\<open>value[start:index]\<close>), the depth, the open quote and the escape flag. The source
  decrements the depth and then raises when it is negative, that is when it was 0.
\<close>

record scan_state =
  parts :: "string list"
  current :: string
  depth :: nat
  quote :: "char option"
  escaped :: bool

definition QUOTES :: "char list" where
  "QUOTES = [CHR 0x27, CHR 0x22, CHR 0x60]"

definition BACKSLASH :: char where
  "BACKSLASH = CHR 0x5C"

definition scan_step :: "scan_state \<Rightarrow> char \<Rightarrow> scan_state result" where
  "scan_step st c =
     (let keep = st\<lparr>current := current st @ [c]\<rparr>
      in case quote st of
           Some q \<Rightarrow>
             Inr (if escaped st then keep\<lparr>escaped := False\<rparr>
                  else if c = BACKSLASH then keep\<lparr>escaped := True\<rparr>
                  else if c = q then keep\<lparr>quote := None\<rparr>
                  else keep)
         | None \<Rightarrow>
             (if c \<in> set QUOTES then Inr (keep\<lparr>quote := Some c\<rparr>)
              else if c = CHR ''('' then Inr (keep\<lparr>depth := depth st + 1\<rparr>)
              else if c = CHR '')'' then
                (if depth st = 0 then Inl SchemaError else Inr (keep\<lparr>depth := depth st - 1\<rparr>))
              else if c = CHR '','' \<and> depth st = 0 then
                (let part = py_strip (current st)
                 in if part = [] then Inl SchemaError
                    else Inr (st\<lparr>parts := parts st @ [part], current := []\<rparr>))
              else Inr keep))"

fun scan :: "scan_state \<Rightarrow> string \<Rightarrow> scan_state result" where
  "scan st [] = Inr st"
| "scan st (c # cs) = r_bind (scan_step st c) (\<lambda>st'. scan st' cs)"

definition scan_start :: scan_state where
  "scan_start = \<lparr>parts = [], current = [], depth = 0, quote = None, escaped = False\<rparr>"

definition scan_finish :: "scan_state \<Rightarrow> string list result" where
  "scan_finish st =
     (if quote st \<noteq> None \<or> depth st \<noteq> 0 then Inl SchemaError
      else let final = py_strip (current st)
           in if final = [] then Inl SchemaError else Inr (parts st @ [final]))"

definition split_type_arguments :: "string \<Rightarrow> string list result" where
  "split_type_arguments v = r_bind (scan scan_start v) scan_finish"

section \<open>The parser\<close>

fun is_type_name :: "string \<Rightarrow> bool" where
  "is_type_name [] = False"
| "is_type_name (c # cs) = (is_letter c \<and> list_all is_name_char cs)"

definition is_integer_text :: "string \<Rightarrow> bool" where
  "is_integer_text s \<longleftrightarrow> s \<noteq> [] \<and> list_all is_ascii_digit s"

definition is_zone_char :: "char \<Rightarrow> bool" where
  "is_zone_char c \<longleftrightarrow> is_name_char c \<or> c \<in> set ''+./:-''"

text \<open>\<open>_TIME_ZONE\<close>: a nonempty zone name between apostrophes.\<close>

definition is_time_zone :: "string \<Rightarrow> bool" where
  "is_time_zone s \<longleftrightarrow>
     3 \<le> length s \<and> hd s = CHR 0x27 \<and> last s = CHR 0x27
     \<and> list_all is_zone_char (butlast (tl s))"

definition parse_clickhouse_type :: "string \<Rightarrow> clickhouse_type result" where
  "parse_clickhouse_type v =
     (let t = py_strip v
      in if t = [] then Inl SchemaError
         else if CHR ''('' \<notin> set t then
           (if \<not> is_type_name t then Inl SchemaError
            else Inr \<lparr>ct_name = t, ct_arguments = []\<rparr>)
         else if \<not> py_endswith t '')'' then Inl SchemaError
         else
           (let name = py_strip (takeWhile (\<lambda>c. c \<noteq> CHR ''('') t);
                inner = butlast (tl (dropWhile (\<lambda>c. c \<noteq> CHR ''('') t))
            in if \<not> is_type_name name then Inl SchemaError
               else r_bind (split_type_arguments inner) (\<lambda>args.
                    Inr \<lparr>ct_name = name, ct_arguments = args\<rparr>)))"

definition validate_single_integer_type :: "clickhouse_type \<Rightarrow> unit result" where
  "validate_single_integer_type p =
     (case ct_arguments p of
        [a] \<Rightarrow>
          (if \<not> is_integer_text a then Inl SchemaError
           else r_bind (py_int a) (\<lambda>argument.
             if ct_name p = ''FixedString'' then raise_if (argument < 1) SchemaError
             else (case map_of DECIMAL_SCALE_LIMITS (ct_name p) of
                     None \<Rightarrow> Inl KeyError
                   | Some limit \<Rightarrow> raise_if (limit < argument) SchemaError)))
      | _ \<Rightarrow> Inl SchemaError)"

text \<open>
  \<open>_TUPLE_FIELD\<close>: a name, white space, and a type without newline. A plain name is the
  longest run of name characters, as white space must follow it. A quoted name is read
  greedily: a doubled backtick continues it, because white space must follow the closing
  one. The type part starts at the first character that is not white space; when there is
  none the pattern gives back the last white-space character.
\<close>

definition tuple_type_part :: "string \<Rightarrow> string option" where
  "tuple_type_part s =
     (let ws = takeWhile py_isspace s; t = dropWhile py_isspace s
      in if ws = [] then None
         else if t \<noteq> [] then (if CHR 0x0A \<in> set t then None else Some t)
         else if 2 \<le> length ws \<and> last ws \<noteq> CHR 0x0A then Some [last ws]
         else None)"

text \<open>The units of a quoted name and the closing backtick; the result is what was read and the rest.\<close>

fun quoted_units :: "string \<Rightarrow> (string \<times> string) option" where
  "quoted_units [] = None"
| "quoted_units [c] = (if c = CHR 0x60 then Some ([c], []) else None)"
| "quoted_units (c # d # s) =
     (if c = CHR 0x60 then
        (if d = CHR 0x60 then map_option (\<lambda>(u, r). (c # d # u, r)) (quoted_units s)
         else Some ([c], d # s))
      else if c = BACKSLASH then
        (if d = CHR 0x0A then None
         else map_option (\<lambda>(u, r). (c # d # u, r)) (quoted_units s))
      else map_option (\<lambda>(u, r). (c # u, r)) (quoted_units (d # s)))"

definition tuple_field_name :: "string \<Rightarrow> (string \<times> string) option" where
  "tuple_field_name s =
     (case s of
        [] \<Rightarrow> None
      | c # cs \<Rightarrow>
          (if is_name_start c then Some (c # takeWhile is_name_char cs, dropWhile is_name_char cs)
           else if c = CHR 0x60 then
             (case quoted_units cs of
                Some (u, r) \<Rightarrow> if length u < 2 then None else Some (c # u, r)
              | None \<Rightarrow> None)
           else None))"

definition tuple_field :: "string \<Rightarrow> (string \<times> string) option" where
  "tuple_field a =
     (case tuple_field_name a of
        None \<Rightarrow> None
      | Some (n, r) \<Rightarrow> map_option (\<lambda>t. (n, t)) (tuple_type_part r))"

section \<open>The scanner's pieces\<close>

abbreviation scan_at :: "string list \<Rightarrow> string \<Rightarrow> nat \<Rightarrow> char option \<Rightarrow> bool \<Rightarrow> scan_state" where
  "scan_at ps cur d q e \<equiv> \<lparr>parts = ps, current = cur, depth = d, quote = q, escaped = e\<rparr>"

lemma scan_append: "scan st (s @ t) = r_bind (scan st s) (\<lambda>st'. scan st' t)"
proof (induction s arbitrary: st)
  case (Cons c s)
  then show ?case by (cases "scan_step st c") auto
qed simp

text \<open>What one step does: it keeps the character, or it ends a piece at a comma.\<close>

lemma scan_step_cases:
  assumes "scan_step st c = Inr st'"
  obtains (keep) "parts st' = parts st" "current st' = current st @ [c]"
  | (split) "parts st' = parts st @ [py_strip (current st)]" "current st' = []"
      "py_strip (current st) \<noteq> []" "c = CHR '',''"
  using assms by (auto simp: scan_step_def Let_def split: option.splits if_splits)

lemma scan_step_error: "scan_step st c = Inl e \<Longrightarrow> e = SchemaError"
  by (auto simp: scan_step_def Let_def split: option.splits if_splits)

lemma scan_error: "scan st s = Inl e \<Longrightarrow> e = SchemaError"
  by (induction s arbitrary: st) (auto simp: r_bind_Inl_iff dest: scan_step_error)

lemma split_type_arguments_error: "split_type_arguments v = Inl e \<Longrightarrow> e = SchemaError"
  by (auto simp: split_type_arguments_def r_bind_Inl_iff scan_finish_def Let_def
      dest: scan_error split: if_splits)

lemma scan_pieces:
  assumes "scan st s = Inr st'"
  shows "\<exists>raws. parts st' = parts st @ map py_strip raws \<and> (\<forall>r\<in>set raws. py_strip r \<noteq> [])
    \<and> current st @ s = concat (map (\<lambda>r. r @ '','') raws) @ current st'"
  using assms
proof (induction s arbitrary: st)
  case Nil
  then show ?case by (auto intro: exI [of _ "[]"])
next
  case (Cons c s)
  then obtain st1 where step: "scan_step st c = Inr st1" and rest: "scan st1 s = Inr st'" by auto
  from Cons.IH [OF rest] obtain raws where
    r: "parts st' = parts st1 @ map py_strip raws" "\<forall>r\<in>set raws. py_strip r \<noteq> []"
       "current st1 @ s = concat (map (\<lambda>r. r @ '','') raws) @ current st'" by blast
  from step show ?case
  proof (cases rule: scan_step_cases)
    case keep
    then show ?thesis using r by (intro exI [of _ raws]) simp
  next
    case split
    then show ?thesis using r by (intro exI [of _ "current st # raws"]) simp
  qed
qed

lemma concat_comma_pieces:
  "concat (map (\<lambda>r. r @ '','') raws) @ final = py_join '','' (raws @ [final])"
  by (induction raws) (simp_all add: py_join_Cons)

text \<open>The parts are the stripped pieces between the splitting commas, none of them empty.\<close>

lemma split_type_arguments_pieces:
  assumes "split_type_arguments v = Inr ps"
  shows "\<exists>raws. v = py_join '','' raws \<and> raws \<noteq> [] \<and> ps = map py_strip raws \<and> [] \<notin> set ps"
proof -
  from assms obtain st where sc: "scan scan_start v = Inr st" and fin: "scan_finish st = Inr ps"
    by (auto simp: split_type_arguments_def r_bind_Inr_iff)
  from scan_pieces [OF sc] obtain raws where
    r: "parts st = map py_strip raws" "\<forall>r\<in>set raws. py_strip r \<noteq> []"
       "v = concat (map (\<lambda>r. r @ '','') raws) @ current st"
    by (auto simp: scan_start_def)
  from fin have f: "ps = parts st @ [py_strip (current st)]" "py_strip (current st) \<noteq> []"
    by (auto simp: scan_finish_def Let_def split: if_splits)
  show ?thesis
    using r f by (intro exI [of _ "raws @ [current st]"]) (auto simp: concat_comma_pieces)
qed

lemma length_piece_le: "r \<in> set raws \<Longrightarrow> length r \<le> length (py_join sep raws)"
  by (induction raws) (auto simp: py_join_Cons)

lemma set_piece_subset: "r \<in> set raws \<Longrightarrow> set r \<subseteq> set (py_join sep raws)"
  by (induction raws) (auto simp: py_join_Cons split: if_splits)

lemma split_type_arguments_part:
  assumes "split_type_arguments v = Inr ps" and "p \<in> set ps"
  shows "length p \<le> length v" and "set p \<subseteq> set v" and "stripped p" and "p \<noteq> []"
proof -
  from split_type_arguments_pieces [OF assms(1)] obtain raws where
    r: "v = py_join '','' raws" "ps = map py_strip raws" "[] \<notin> set ps" by blast
  from assms(2) r obtain w where w: "w \<in> set raws" "p = py_strip w" by auto
  show "length p \<le> length v"
    using w r length_piece_le [OF w(1)] length_py_strip [of w] by (metis order_trans)
  show "set p \<subseteq> set v"
    using w r set_piece_subset [OF w(1)] set_py_strip [of w] by (metis order_trans)
  show "stripped p" using w stripped_py_strip by simp
  show "p \<noteq> []" using assms(2) r by metis
qed

lemma split_type_arguments_nonempty: "split_type_arguments v = Inr ps \<Longrightarrow> ps \<noteq> []"
  by (auto dest: split_type_arguments_pieces)

section \<open>The parsed text\<close>

text \<open>A parsed type is a bare name, or a name with its arguments between parentheses.\<close>

lemma dropWhile_paren:
  assumes "CHR ''('' \<in> set t"
  shows "dropWhile (\<lambda>c. c \<noteq> CHR ''('') t = CHR ''('' # tl (dropWhile (\<lambda>c. c \<noteq> CHR ''('') t)"
proof -
  from assms have "dropWhile (\<lambda>c. c \<noteq> CHR ''('') t \<noteq> []" by (simp add: dropWhile_eq_Nil_conv)
  moreover from this have "hd (dropWhile (\<lambda>c. c \<noteq> CHR ''('') t) = CHR ''(''"
    using hd_dropWhile [of "\<lambda>c. c \<noteq> CHR ''(''" t] by simp
  ultimately show ?thesis by (metis list.collapse)
qed

lemma py_endswith_paren: "py_endswith t '')'' \<longleftrightarrow> t \<noteq> [] \<and> last t = CHR '')''"
  by (cases t rule: rev_cases) (auto simp: py_endswith_def py_startswith_def)

lemma paren_text:
  assumes "CHR ''('' \<in> set t" and "py_endswith t '')''"
  shows "t = takeWhile (\<lambda>c. c \<noteq> CHR ''('') t @ ''(''
      @ butlast (tl (dropWhile (\<lambda>c. c \<noteq> CHR ''('') t)) @ '')''"
proof -
  let ?d = "dropWhile (\<lambda>c. c \<noteq> CHR ''('') t"
  have d: "?d = CHR ''('' # tl ?d" by (rule dropWhile_paren) (rule assms(1))
  have l: "last ?d = CHR '')''"
    using assms(2) d dropWhile_last [of _ t] py_endswith_paren by (metis list.distinct(1))
  have "tl ?d \<noteq> []"
  proof
    assume "tl ?d = []"
    then have "last ?d = CHR ''(''" by (subst d) simp
    with l show False by simp
  qed
  moreover from this have "last (tl ?d) = CHR '')''" using l by (metis d last_ConsR)
  ultimately have "tl ?d = butlast (tl ?d) @ '')''" by (metis append_butlast_last_id)
  then show ?thesis using d by (metis append_Cons append_Nil takeWhile_dropWhile_id)
qed

lemma parse_clickhouse_type_cases:
  assumes "parse_clickhouse_type v = Inr p"
  obtains (simple) "py_strip v = ct_name p" "ct_arguments p = []" "is_type_name (ct_name p)"
  | (args) n inner where "py_strip v = n @ ''('' @ inner @ '')''" "CHR ''('' \<notin> set n"
      "py_strip n = ct_name p" "is_type_name (ct_name p)"
      "split_type_arguments inner = Inr (ct_arguments p)"
proof (cases "CHR ''('' \<in> set (py_strip v)")
  case False
  with assms have "py_strip v = ct_name p" "ct_arguments p = []" "is_type_name (ct_name p)"
    by (auto simp: parse_clickhouse_type_def Let_def split: if_splits)
  then show ?thesis by (rule simple)
next
  case True
  let ?t = "py_strip v"
  let ?n = "takeWhile (\<lambda>c. c \<noteq> CHR ''('') ?t"
  let ?i = "butlast (tl (dropWhile (\<lambda>c. c \<noteq> CHR ''('') ?t))"
  from assms True have e: "py_endswith ?t '')''" "is_type_name (py_strip ?n)"
      "split_type_arguments ?i = Inr (ct_arguments p)" "py_strip ?n = ct_name p"
    by (auto simp: parse_clickhouse_type_def Let_def r_bind_Inr_iff split: if_splits)
  have "CHR ''('' \<notin> set ?n" by (auto dest: set_takeWhileD)
  then show ?thesis using args [of ?n ?i] paren_text [OF True e(1)] e by simp
qed

lemma parse_clickhouse_type_error: "parse_clickhouse_type v = Inl e \<Longrightarrow> e = SchemaError"
  by (auto simp: parse_clickhouse_type_def Let_def r_bind_Inl_iff
      dest: split_type_arguments_error split: if_splits)

lemma parse_argument:
  assumes "parse_clickhouse_type v = Inr p" and "a \<in> set (ct_arguments p)"
  shows "length a < length v" and "set a \<subseteq> set v" and "stripped a" and "a \<noteq> []"
proof -
  from assms(1) have "length a < length v \<and> set a \<subseteq> set v \<and> stripped a \<and> a \<noteq> []"
  proof (cases rule: parse_clickhouse_type_cases)
    case simple
    then show ?thesis using assms(2) by simp
  next
    case (args n inner)
    have "length inner < length (py_strip v)" "set inner \<subseteq> set (py_strip v)" by (auto simp: args(1))
    then have "length inner < length v" "set inner \<subseteq> set v"
      using length_py_strip [of v] set_py_strip [of v] by auto
    then show ?thesis
      using split_type_arguments_part [OF args(5) assms(2)] by auto
  qed
  then show "length a < length v" "set a \<subseteq> set v" "stripped a" "a \<noteq> []" by auto
qed

lemma quoted_units_append: "quoted_units s = Some (u, r) \<Longrightarrow> s = u @ r"
  by (induction s arbitrary: u r rule: quoted_units.induct)
    (auto split: if_splits)

lemma tuple_field_name_append: "tuple_field_name a = Some (n, r) \<Longrightarrow> a = n @ r \<and> n \<noteq> []"
  by (auto simp: tuple_field_name_def dest: quoted_units_append split: list.splits if_splits option.splits)

lemma tuple_type_part_suffix:
  "tuple_type_part s = Some t \<Longrightarrow> \<exists>ws. s = ws @ t \<and> ws \<noteq> [] \<and> CHR 0x0A \<notin> set t"
proof -
  assume a: "tuple_type_part s = Some t"
  show ?thesis
  proof (cases "dropWhile py_isspace s = []")
    case True
    then have s: "takeWhile py_isspace s = s" using takeWhile_dropWhile_id [of py_isspace s] by simp
    with a True have "t = [last s]" "2 \<le> length s" "last s \<noteq> CHR 0x0A"
      by (auto simp: tuple_type_part_def Let_def split: if_splits)
    moreover from this have "s = butlast s @ [last s]" by (cases s rule: rev_cases) auto
    ultimately show ?thesis
      by (intro exI [of _ "butlast s"]) (cases s rule: rev_cases; auto)
  next
    case False
    with a have "t = dropWhile py_isspace s" "takeWhile py_isspace s \<noteq> []" "CHR 0x0A \<notin> set t"
      by (auto simp: tuple_type_part_def Let_def split: if_splits)
    then show ?thesis by (intro exI [of _ "takeWhile py_isspace s"]) simp
  qed
qed

lemma tuple_field_text:
  assumes "tuple_field a = Some (n, t)"
  shows "length t < length a" and "set t \<subseteq> set a" and "set n \<subseteq> set a" and "CHR 0x0A \<notin> set t"
proof -
  from assms obtain r where n: "tuple_field_name a = Some (n, r)" and t: "tuple_type_part r = Some t"
    by (auto simp: tuple_field_def split: option.splits)
  from tuple_field_name_append [OF n] tuple_type_part_suffix [OF t] obtain ws where
    "a = n @ ws @ t" "n \<noteq> []" "CHR 0x0A \<notin> set t" by auto
  then show "length t < length a" "set t \<subseteq> set a" "set n \<subseteq> set a" "CHR 0x0A \<notin> set t" by auto
qed


section \<open>Validation\<close>

text \<open>The constructors without nested types.\<close>

definition validate_scalar_type :: "clickhouse_type \<Rightarrow> unit result" where
  "validate_scalar_type p =
     (let name = ct_name p; args = ct_arguments p
      in if name = ''Decimal256'' then Inl SchemaError
         else if name \<in> set SINGLE_INTEGER_TYPES then validate_single_integer_type p
         else if name = ''Decimal'' then
           (case args of
              [a, b] \<Rightarrow>
                (if \<not> (is_integer_text a \<and> is_integer_text b) then Inl SchemaError
                 else r_bind (py_int a) (\<lambda>precision.
                      r_bind (py_int b) (\<lambda>scale.
                      if MAX_DECIMAL_PRECISION < precision then Inl SchemaError
                      else raise_if (precision < 1 \<or> scale < 0 \<or> precision < scale) SchemaError)))
            | _ \<Rightarrow> Inl SchemaError)
         else if name = ''DateTime'' then
           (case args of
              [] \<Rightarrow> Inr ()
            | [zone] \<Rightarrow> raise_if (\<not> is_time_zone zone) SchemaError
            | _ \<Rightarrow> Inl SchemaError)
         else if name = ''DateTime64'' then
           (if \<not> (1 \<le> length args \<and> length args \<le> 2) \<or> \<not> is_integer_text (hd args) then Inl SchemaError
            else r_bind (py_int (hd args)) (\<lambda>precision.
                 if \<not> (0 \<le> precision \<and> precision \<le> MAX_DATETIME64_PRECISION) then Inl SchemaError
                 else raise_if (length args = 2 \<and> \<not> is_time_zone (args ! 1)) SchemaError))
         else if (name = ''Enum8'' \<or> name = ''Enum16'') \<and> args \<noteq> [] then Inr ()
         else Inl SchemaError)"

abbreviation is_schema_error :: "exn \<Rightarrow> bool" where
  "is_schema_error e \<equiv> e = SchemaError"

function (sequential) validate_type_expression :: "string \<Rightarrow> unit result" where
  "validate_type_expression v =
     r_bind (parse_clickhouse_type v) (\<lambda>p.
       if ct_name p \<in> set SIMPLE_TYPES then
         raise_if (ct_arguments p \<noteq> [] \<or> ct_name p \<in> set UNSUPPORTED_SIMPLE) SchemaError
       else if ct_name p \<in> set WRAPPER_TYPES then
         (if length (ct_arguments p) \<noteq> 1 then Inl SchemaError
          else r_all validate_type_expression (ct_arguments p))
       else if ct_name p = ''Map'' then
         (if length (ct_arguments p) \<noteq> 2 then Inl SchemaError
          else r_all validate_type_expression (ct_arguments p))
       else if ct_name p = ''Tuple'' then
         (if ct_arguments p = [] then Inl SchemaError
          else r_all (\<lambda>a. r_catch (validate_type_expression a) is_schema_error (\<lambda>e.
                 case tuple_field a of
                   None \<Rightarrow> Inl e
                 | Some (_, t) \<Rightarrow> validate_type_expression t)) (ct_arguments p))
       else validate_scalar_type p)"
  by pat_completeness auto
termination
  by (relation "measure length")
    (auto dest: parse_argument(1) tuple_field_text(1) intro: less_trans)

declare validate_type_expression.simps [simp del]

definition validate_clickhouse_type :: "string \<Rightarrow> unit result" where
  "validate_clickhouse_type v = validate_type_expression v"

section \<open>Transport types\<close>

definition transport_scalar_type :: "string \<Rightarrow> clickhouse_type \<Rightarrow> string result" where
  "transport_scalar_type v p =
     (if ct_name p = ''DateTime'' then
        (case ct_arguments p of
           [] \<Rightarrow> Inr ''DateTime64(0)''
         | zone # _ \<Rightarrow>
             (if \<not> is_time_zone zone then Inl SchemaError
              else Inr (''DateTime64(0, '' @ zone @ '')'')))
      else if ct_name p \<in> set TEXT_TRANSPORT_TYPES then Inr ''String''
      else Inr (py_strip v))"

function (sequential) transport_type_expression :: "string \<Rightarrow> string result" where
  "transport_type_expression v =
     r_bind (validate_type_expression v) (\<lambda>_.
     r_bind (parse_clickhouse_type v) (\<lambda>p.
       if ct_name p \<in> set SIMPLE_TYPES then
         Inr (if ct_name p = ''Date'' then ''Date32''
              else if ct_name p \<in> set TEXT_TRANSPORT_TYPES then ''String''
              else ct_name p)
       else if ct_name p \<in> set WRAPPER_TYPES then
         (case ct_arguments p of
            a # _ \<Rightarrow> r_bind (transport_type_expression a) (\<lambda>t. Inr (ct_name p @ ''('' @ t @ '')''))
          | [] \<Rightarrow> Inl IndexError)
       else if ct_name p = ''Map'' then
         r_bind (r_map transport_type_expression (ct_arguments p)) (\<lambda>ts.
           Inr (''Map('' @ py_join '', '' ts @ '')''))
       else if ct_name p = ''Tuple'' then
         r_bind (r_map (\<lambda>a. r_catch (transport_type_expression a) is_schema_error (\<lambda>e.
                   case tuple_field a of
                     None \<Rightarrow> Inl e
                   | Some (n, t) \<Rightarrow>
                       r_bind (transport_type_expression t) (\<lambda>u. Inr (n @ '' '' @ u)))) (ct_arguments p))
           (\<lambda>ts. Inr (''Tuple('' @ py_join '', '' ts @ '')''))
       else transport_scalar_type v p))"
  by pat_completeness auto
termination
  by (relation "measure length")
    (auto dest: parse_argument(1) tuple_field_text(1) intro: less_trans)

declare transport_type_expression.simps [simp del]


lemma validate_parses: "validate_type_expression v = Inr u \<Longrightarrow> \<exists>p. parse_clickhouse_type v = Inr p"
  by (subst (asm) validate_type_expression.simps) auto

lemma transport_validates: "transport_type_expression v = Inr t \<Longrightarrow> validate_type_expression v = Inr ()"
  by (subst (asm) transport_type_expression.simps) auto

lemma transport_of_invalid: "validate_type_expression v = Inl e \<Longrightarrow> transport_type_expression v = Inl e"
  by (subst transport_type_expression.simps) simp

text \<open>A validated type always has a transport type: no branch of the second pass raises.\<close>

lemma transport_scalar_total:
  "validate_scalar_type p = Inr () \<Longrightarrow> \<exists>t. transport_scalar_type v p = Inr t"
  by (auto simp: validate_scalar_type_def transport_scalar_type_def raise_if_def SINGLE_INTEGER_TYPES_def
      DECIMAL_SCALE_LIMITS_def Let_def split: list.splits if_splits)

lemma tuple_member_total:
  assumes "r_catch (validate_type_expression a) is_schema_error (\<lambda>e.
             case tuple_field a of None \<Rightarrow> Inl e | Some (_, t) \<Rightarrow> validate_type_expression t) = Inr ()"
    and "\<And>w. length w \<le> length a \<Longrightarrow> validate_type_expression w = Inr () \<Longrightarrow> \<exists>t. transport_type_expression w = Inr t"
  shows "\<exists>t. r_catch (transport_type_expression a) is_schema_error (\<lambda>e.
             case tuple_field a of None \<Rightarrow> Inl e
             | Some (n, t) \<Rightarrow> r_bind (transport_type_expression t) (\<lambda>u. Inr (n @ '' '' @ u))) = Inr t"
proof -
  from assms(1) consider "validate_type_expression a = Inr ()"
    | n t where "validate_type_expression a = Inl SchemaError" "tuple_field a = Some (n, t)"
        "validate_type_expression t = Inr ()"
    by (auto simp: r_catch_Inr_iff split: option.splits)
  then show ?thesis
  proof cases
    case 1
    then show ?thesis using assms(2) by fastforce
  next
    case (2 n t)
    then obtain u where "transport_type_expression t = Inr u"
      using assms(2) [of t] tuple_field_text(1) [of a n t] by force
    then show ?thesis using 2 transport_of_invalid [of a] by simp
  qed
qed

lemma transport_total: "validate_type_expression v = Inr () \<Longrightarrow> \<exists>t. transport_type_expression v = Inr t"
proof (induction v rule: length_induct)
  case (1 v)
  then have IH: "\<exists>t. transport_type_expression w = Inr t"
    if "length w < length v" "validate_type_expression w = Inr ()" for w
    using that by blast
  from validate_parses [OF 1(2)] obtain p where p: "parse_clickhouse_type v = Inr p" by blast
  have short: "length a < length v" if "a \<in> set (ct_arguments p)" for a
    using parse_argument(1) [OF p that] .
  have valid: "validate_type_expression v = Inr ()" by (rule 1(2))
  note unfold = transport_type_expression.simps [of v] p valid r_bind_simps
  note valid' = valid [unfolded validate_type_expression.simps [of v] p r_bind_simps]
  consider (simple) "ct_name p \<in> set SIMPLE_TYPES"
    | (wrapper) "ct_name p \<notin> set SIMPLE_TYPES" "ct_name p \<in> set WRAPPER_TYPES"
    | (map) "ct_name p \<notin> set SIMPLE_TYPES" "ct_name p \<notin> set WRAPPER_TYPES" "ct_name p = ''Map''"
    | (tuple) "ct_name p \<notin> set SIMPLE_TYPES" "ct_name p \<notin> set WRAPPER_TYPES"
        "ct_name p \<noteq> ''Map''" "ct_name p = ''Tuple''"
    | (scalar) "ct_name p \<notin> set SIMPLE_TYPES" "ct_name p \<notin> set WRAPPER_TYPES"
        "ct_name p \<noteq> ''Map''" "ct_name p \<noteq> ''Tuple''" by blast
  then show ?case
  proof cases
    case simple
    then show ?thesis by (simp add: unfold)
  next
    case wrapper
    then have "length (ct_arguments p) = 1" "r_all validate_type_expression (ct_arguments p) = Inr ()"
      using valid' by (simp_all split: if_splits)
    then obtain a where a: "ct_arguments p = [a]" "validate_type_expression a = Inr ()"
      by (auto simp: length_Suc_conv)
    with IH short obtain t where "transport_type_expression a = Inr t" by force
    then show ?thesis using wrapper a by (simp add: unfold)
  next
    case map
    then have "r_all validate_type_expression (ct_arguments p) = Inr ()"
      using valid' by (simp split: if_splits)
    then have "\<exists>ts. r_map transport_type_expression (ct_arguments p) = Inr ts"
      using IH short by (intro r_map_total) (simp add: r_all_Inr_iff)
    then show ?thesis using map by (auto simp: unfold)
  next
    case tuple
    let ?conv = "\<lambda>a. r_catch (transport_type_expression a) is_schema_error (\<lambda>e.
                   case tuple_field a of None \<Rightarrow> Inl e
                   | Some (n, t) \<Rightarrow> r_bind (transport_type_expression t) (\<lambda>u. Inr (n @ '' '' @ u)))"
    have "\<exists>t. ?conv a = Inr t" if a: "a \<in> set (ct_arguments p)" for a
    proof (rule tuple_member_total)
      show "r_catch (validate_type_expression a) is_schema_error (\<lambda>e.
          case tuple_field a of None \<Rightarrow> Inl e | Some (_, t) \<Rightarrow> validate_type_expression t) = Inr ()"
        using valid' tuple a by (simp add: r_all_Inr_iff split: if_splits)
      show "\<exists>t. transport_type_expression w = Inr t" if "length w \<le> length a" "validate_type_expression w = Inr ()" for w
        using IH [OF _ that(2)] that(1) short [OF a] by simp
    qed
    then have "\<exists>ts. r_map ?conv (ct_arguments p) = Inr ts" by (rule r_map_total)
    then show ?thesis using tuple by (auto simp: unfold)
  next
    case scalar
    then have "validate_scalar_type p = Inr ()" using valid' by simp
    then show ?thesis using scalar transport_scalar_total by (simp add: unfold)
  qed
qed

lemma transport_Inl_iff: "transport_type_expression v = Inl e \<longleftrightarrow> validate_type_expression v = Inl e"
proof (cases "validate_type_expression v")
  case (Inl e')
  then show ?thesis using transport_of_invalid by simp
next
  case (Inr u)
  then show ?thesis using transport_total [of v] by auto
qed


section \<open>Transport types are their own transport types\<close>

text \<open>
  Text the scanner passes over as a whole: from any depth outside quotes it ends where it
  began. Parsed types are such text, so a type built from transported arguments parses
  back to exactly these arguments.
\<close>

definition neutral :: "string \<Rightarrow> bool" where
  "neutral t \<longleftrightarrow> (\<forall>ps cur d. scan (scan_at ps cur d None False) t = Inr (scan_at ps (cur @ t) d None False))"

lemma neutral_append: "neutral s \<Longrightarrow> neutral t \<Longrightarrow> neutral (s @ t)"
  by (simp add: neutral_def scan_append)

definition plain :: "char \<Rightarrow> bool" where
  "plain c \<longleftrightarrow> c \<notin> set QUOTES \<and> c \<noteq> CHR ''('' \<and> c \<noteq> CHR '')'' \<and> c \<noteq> CHR '',''"

lemma scan_step_plain: "plain c \<Longrightarrow> scan_step (scan_at ps cur d None e) c = Inr (scan_at ps (cur @ [c]) d None e)"
  by (simp add: scan_step_def plain_def)

lemma neutral_plain: "list_all plain s \<Longrightarrow> neutral s"
proof -
  assume "list_all plain s"
  then have "scan (scan_at ps cur d None False) s = Inr (scan_at ps (cur @ s) d None False)" for ps cur d
    by (induction s arbitrary: cur) (simp_all add: scan_step_plain)
  then show ?thesis by (simp add: neutral_def)
qed

lemma plain_name_char: "is_name_char c \<Longrightarrow> plain c"
  by (auto simp: plain_def QUOTES_def char_class_defs)

lemma plain_space: "py_isspace c \<Longrightarrow> plain c"
  by (auto simp: plain_def QUOTES_def char_class_defs)

lemma letter_name_char: "is_letter c \<Longrightarrow> is_name_char c"
  by (simp add: is_name_char_def is_name_start_def)

lemma type_name_chars: "is_type_name n \<Longrightarrow> list_all is_name_char n"
  by (cases n) (auto intro: letter_name_char)

lemma name_char_not_space: "is_name_char c \<Longrightarrow> \<not> py_isspace c"
  by (auto simp: char_class_defs)

lemma type_name_stripped: "is_type_name n \<Longrightarrow> stripped n"
  by (rule stripped_no_space) (auto dest!: type_name_chars name_char_not_space simp: list_all_iff)

text \<open>Text that scans at one depth scans at every greater depth, where no comma splits.\<close>

lemma scan_step_deeper:
  assumes "scan_step (scan_at ps cur d q e) c = Inr (scan_at ps' cur' d' q' e')"
  shows "scan_step (scan_at ps0 cur0 (d + Suc k) q e) c = Inr (scan_at ps0 (cur0 @ [c]) (d' + Suc k) q' e')"
  using assms by (auto simp: scan_step_def Let_def BACKSLASH_def split: option.splits if_splits)

lemma scan_deeper:
  assumes "scan (scan_at ps cur d q e) s = Inr (scan_at ps' cur' d' q' e')"
  shows "scan (scan_at ps0 cur0 (d + Suc k) q e) s = Inr (scan_at ps0 (cur0 @ s) (d' + Suc k) q' e')"
  using assms
proof (induction s arbitrary: ps cur d q e cur0)
  case Nil
  then show ?case by simp
next
  case (Cons c s)
  then obtain st where st: "scan_step (scan_at ps cur d q e) c = Inr st"
    and rest: "scan st s = Inr (scan_at ps' cur' d' q' e')" by auto
  obtain ps1 cur1 d1 q1 e1 where "st = scan_at ps1 cur1 d1 q1 e1" by (cases st) auto
  then show ?case
    using scan_step_deeper st Cons.IH [of ps1 cur1 d1 q1 e1 "cur0 @ [c]"] rest by simp
qed

lemma scan_step_not_escaped:
  assumes "scan_step st c = Inr st'" and "quote st = None \<longrightarrow> \<not> escaped st"
  shows "quote st' = None \<longrightarrow> \<not> escaped st'"
  using assms by (auto simp: scan_step_def Let_def split: option.splits if_splits)

lemma scan_not_escaped:
  assumes "scan st s = Inr st'" and "quote st = None \<longrightarrow> \<not> escaped st"
  shows "quote st' = None \<longrightarrow> \<not> escaped st'"
  using assms
proof (induction s arbitrary: st)
  case (Cons c s)
  then obtain st1 where "scan_step st c = Inr st1" "scan st1 s = Inr st'" by auto
  moreover from this have "quote st1 = None \<longrightarrow> \<not> escaped st1"
    using scan_step_not_escaped Cons.prems(2) by metis
  ultimately show ?case using Cons.IH [of st1] by simp
qed simp

lemma split_scans_deeper:
  assumes "split_type_arguments inner = Inr args"
  shows "scan (scan_at ps cur (Suc d) None False) inner = Inr (scan_at ps (cur @ inner) (Suc d) None False)"
proof -
  from assms obtain st where sc: "scan scan_start inner = Inr st" and fin: "scan_finish st = Inr args"
    by (auto simp: split_type_arguments_def r_bind_Inr_iff)
  have "quote st = None" "depth st = 0"
    using fin by (auto simp: scan_finish_def split: if_splits)
  moreover have "\<not> escaped st"
    using scan_not_escaped [OF sc] calculation by (simp add: scan_start_def)
  ultimately obtain ps' cur' where "st = scan_at ps' cur' 0 None False" by (cases st) auto
  then show ?thesis
    using scan_deeper [of "[]" "[]" 0 None False inner ps' cur' 0 None False ps cur d] sc
    by (simp add: scan_start_def)
qed

lemma neutral_parens:
  assumes "split_type_arguments inner = Inr args"
  shows "neutral (''('' @ inner @ '')'')"
proof -
  have open_step: "scan_step (scan_at ps cur d None False) (CHR ''('') =
      Inr (scan_at ps (cur @ ''('') (Suc d) None False)" for ps cur d
    by (simp add: scan_step_def QUOTES_def)
  have close_step: "scan_step (scan_at ps cur (Suc d) None False) (CHR '')'') =
      Inr (scan_at ps (cur @ '')'') d None False)" for ps cur d
    by (simp add: scan_step_def QUOTES_def)
  show ?thesis
    by (simp add: neutral_def scan_append open_step close_step split_scans_deeper [OF assms])
qed

lemma neutral_strip_name:
  assumes "is_type_name (py_strip n)"
  shows "neutral n"
proof (rule neutral_plain)
  have "plain c" if "c \<in> set n" for c
    using set_strip_or_space [OF that] type_name_chars [OF assms] plain_space plain_name_char
    by (auto simp: list_all_iff)
  then show "list_all plain n" by (simp add: list_all_iff)
qed

lemma parsed_neutral:
  assumes "parse_clickhouse_type v = Inr p"
  shows "neutral (py_strip v)"
  using assms
proof (cases rule: parse_clickhouse_type_cases)
  case simple
  then show ?thesis using neutral_strip_name [of "ct_name p"] by (simp add: py_strip_id type_name_stripped)
next
  case (args n inner)
  then have "neutral n" by (intro neutral_strip_name) simp
  then show ?thesis
    using neutral_append [OF _ neutral_parens [OF args(5)]] args(1) by simp
qed

lemma parsed_not_empty: "parse_clickhouse_type v = Inr p \<Longrightarrow> py_strip v \<noteq> []"
  by (auto simp: parse_clickhouse_type_def Let_def split: if_splits)

text \<open>Joining neutral stripped texts and splitting again gives them back.\<close>

definition argument_text :: "string \<Rightarrow> bool" where
  "argument_text t \<longleftrightarrow> t \<noteq> [] \<and> stripped t \<and> neutral t"

lemma scan_comma:
  assumes "stripped t" "t \<noteq> []" "list_all py_isspace w"
  shows "scan_step (scan_at ps (w @ t) 0 None False) (CHR '','') = Inr (scan_at (ps @ [t]) [] 0 None False)"
  using assms by (simp add: scan_step_def QUOTES_def py_strip_space_prefix)

lemma neutral_scan: "neutral t \<Longrightarrow> scan (scan_at ps cur d None False) (t @ s) = scan (scan_at ps (cur @ t) d None False) s"
  by (simp add: neutral_def scan_append)

lemma space_blank: "py_isspace (CHR '' '')"
  by (simp add: py_isspace_def)

lemma scan_join:
  assumes "list_all argument_text ts" and "ts \<noteq> []" and "list_all py_isspace w"
  shows "r_bind (scan (scan_at ps w 0 None False) (py_join '', '' ts)) scan_finish = Inr (ps @ ts)"
  using assms
proof (induction ts arbitrary: ps w)
  case (Cons t ts)
  then have t: "neutral t" "stripped t" "t \<noteq> []" by (auto simp: argument_text_def)
  show ?case
  proof (cases "ts = []")
    case True
    then show ?thesis
      using t Cons.prems(3) neutral_scan [OF t(1), of ps w 0 "[]"]
      by (simp add: scan_finish_def Let_def py_strip_space_prefix)
  next
    case False
    have blank: "scan_step (scan_at qs [] 0 None False) (CHR '' '') = Inr (scan_at qs '' '' 0 None False)" for qs
      using scan_step_plain [of "CHR '' ''" qs "[]"] by (simp add: plain_def QUOTES_def)
    have "py_join '', '' (t # ts) = t @ CHR '','' # CHR '' '' # py_join '', '' ts"
      using False by (simp add: py_join_Cons)
    then show ?thesis
      using Cons.IH [of "'' ''" "ps @ [t]"] Cons.prems False t space_blank
      by (simp add: neutral_scan scan_comma blank)
  qed
qed simp

lemma split_join: "list_all argument_text ts \<Longrightarrow> ts \<noteq> [] \<Longrightarrow> split_type_arguments (py_join '', '' ts) = Inr ts"
  using scan_join [of ts "[]" "[]"] by (simp add: split_type_arguments_def scan_start_def)

lemma stripped_parens: "is_type_name n \<Longrightarrow> stripped (n @ ''('' @ inner @ '')'')"
  using type_name_chars [of n] name_char_not_space
  by (cases n) (auto simp: stripped_def char_class_defs)

lemma parse_built:
  assumes "is_type_name n" and "split_type_arguments inner = Inr args"
  shows "parse_clickhouse_type (n @ ''('' @ inner @ '')'') = Inr \<lparr>ct_name = n, ct_arguments = args\<rparr>"
proof -
  let ?t = "n @ ''('' @ inner @ '')''"
  have st: "py_strip ?t = ?t" by (rule py_strip_id) (rule stripped_parens [OF assms(1)])
  have np: "CHR ''('' \<notin> set n"
    using type_name_chars [OF assms(1)] plain_name_char by (auto simp: list_all_iff plain_def)
  have ne: "x \<noteq> CHR ''(''" if "x \<in> set n" for x using np that by auto
  have "takeWhile (\<lambda>c. c \<noteq> CHR ''('') ?t = n" by (subst takeWhile_append2) (auto dest: ne)
  moreover have "dropWhile (\<lambda>c. c \<noteq> CHR ''('') ?t = ''('' @ inner @ '')''"
    by (subst dropWhile_append2) (auto dest: ne)
  moreover have "py_endswith ?t '')''" by (simp add: py_endswith_paren)
  moreover have "py_strip n = n" using type_name_stripped [OF assms(1)] by (rule py_strip_id)
  ultimately show ?thesis
    using assms by (simp only: parse_clickhouse_type_def Let_def st) (simp add: butlast_append)
qed

lemma type_name_no_paren: "is_type_name n \<Longrightarrow> CHR ''('' \<notin> set n"
  using type_name_chars [of n] plain_name_char by (fastforce simp: list_all_iff plain_def)

lemma parse_name:
  assumes "is_type_name n"
  shows "parse_clickhouse_type n = Inr \<lparr>ct_name = n, ct_arguments = []\<rparr>"
proof -
  have "n \<noteq> []" using assms by auto
  then show ?thesis
    using assms type_name_no_paren [OF assms] py_strip_id [OF type_name_stripped [OF assms]]
    by (simp add: parse_clickhouse_type_def)
qed


text \<open>The forms of a transported type.\<close>

definition transported_field :: "string \<Rightarrow> string \<Rightarrow> bool" where
  "transported_field a u \<longleftrightarrow>
     transport_type_expression a = Inr u
     \<or> (\<exists>n d w. tuple_field a = Some (n, d) \<and> transport_type_expression d = Inr w \<and> u = n @ '' '' @ w)"

lemma transport_cases:
  assumes "transport_type_expression v = Inr t"
  obtains (simple) p where "parse_clickhouse_type v = Inr p" "ct_name p \<in> set SIMPLE_TYPES"
      "ct_name p \<notin> set UNSUPPORTED_SIMPLE"
      "t = (if ct_name p = ''Date'' then ''Date32''
            else if ct_name p \<in> set TEXT_TRANSPORT_TYPES then ''String'' else ct_name p)"
  | (wrapper) n a u where "n \<in> set WRAPPER_TYPES" "n \<notin> set SIMPLE_TYPES"
      "parse_clickhouse_type v = Inr \<lparr>ct_name = n, ct_arguments = [a]\<rparr>"
      "transport_type_expression a = Inr u" "t = n @ ''('' @ u @ '')''"
  | (map) args us where "parse_clickhouse_type v = Inr \<lparr>ct_name = ''Map'', ct_arguments = args\<rparr>"
      "length args = 2" "list_all2 (\<lambda>a u. transport_type_expression a = Inr u) args us"
      "t = ''Map'' @ ''('' @ py_join '', '' us @ '')''"
  | (tuple) args us where "parse_clickhouse_type v = Inr \<lparr>ct_name = ''Tuple'', ct_arguments = args\<rparr>"
      "args \<noteq> []" "list_all2 transported_field args us"
      "t = ''Tuple'' @ ''('' @ py_join '', '' us @ '')''"
  | (scalar) p where "parse_clickhouse_type v = Inr p" "ct_name p \<notin> set SIMPLE_TYPES"
      "ct_name p \<notin> set WRAPPER_TYPES" "ct_name p \<noteq> ''Map''" "ct_name p \<noteq> ''Tuple''"
      "validate_scalar_type p = Inr ()" "transport_scalar_type v p = Inr t"
proof -
  have valid: "validate_type_expression v = Inr ()" by (rule transport_validates) (rule assms)
  from validate_parses [OF valid] obtain p where p: "parse_clickhouse_type v = Inr p" by blast
  obtain n args where na: "p = \<lparr>ct_name = n, ct_arguments = args\<rparr>" by (cases p) auto
  note valid' = valid [unfolded validate_type_expression.simps [of v] p na r_bind_simps]
  note trans' = assms [unfolded transport_type_expression.simps [of v] valid p na r_bind_simps]
  consider (s) "n \<in> set SIMPLE_TYPES"
    | (w) "n \<notin> set SIMPLE_TYPES" "n \<in> set WRAPPER_TYPES"
    | (m) "n \<notin> set SIMPLE_TYPES" "n \<notin> set WRAPPER_TYPES" "n = ''Map''"
    | (t) "n \<notin> set SIMPLE_TYPES" "n \<notin> set WRAPPER_TYPES" "n \<noteq> ''Map''" "n = ''Tuple''"
    | (o) "n \<notin> set SIMPLE_TYPES" "n \<notin> set WRAPPER_TYPES" "n \<noteq> ''Map''" "n \<noteq> ''Tuple''" by blast
  then show thesis
  proof cases
    case s
    have "n \<notin> set UNSUPPORTED_SIMPLE" using s valid' by (simp add: raise_if_def split: if_splits)
    then show ?thesis using simple [of p] s p na trans' by (simp cong: if_cong)
  next
    case w
    then obtain a where a: "args = [a]" using valid' by (auto simp: length_Suc_conv split: if_splits)
    with trans' w obtain u where "transport_type_expression a = Inr u" "t = n @ ''('' @ u @ '')''" by auto
    then show ?thesis using wrapper [of n a u] w a p na by simp
  next
    case m
    then have l: "length args = 2" using valid' by (auto split: if_splits)
    from m trans' obtain us where "r_map transport_type_expression args = Inr us"
        "t = ''Map('' @ py_join '', '' us @ '')''" by auto
    then show ?thesis using map [of args us] m l p na by (simp add: r_map_Inr_iff)
  next
    case t
    then have ne: "args \<noteq> []" using valid' by (auto split: if_splits)
    from t trans' obtain us where us: "r_map (\<lambda>a. r_catch (transport_type_expression a) is_schema_error (\<lambda>e.
                   case tuple_field a of None \<Rightarrow> Inl e
                   | Some (n, t) \<Rightarrow> r_bind (transport_type_expression t) (\<lambda>u. Inr (n @ '' '' @ u)))) args = Inr us"
        "t = ''Tuple('' @ py_join '', '' us @ '')''" by auto
    have "list_all2 transported_field args us"
      using us(1) unfolding r_map_Inr_iff
      by (rule list_all2_mono)
        (auto simp: transported_field_def r_catch_Inr_iff r_bind_Inr_iff split: option.splits)
    then show ?thesis using tuple [of args us] t ne p na us(2) by simp
  next
    case o
    then show ?thesis using scalar [of p] valid' trans' p na by simp
  qed
qed

lemma transport_unfold:
  assumes "validate_type_expression v = Inr ()" and "parse_clickhouse_type v = Inr p"
  shows "transport_type_expression v =
      (if ct_name p \<in> set SIMPLE_TYPES then
         Inr (if ct_name p = ''Date'' then ''Date32''
              else if ct_name p \<in> set TEXT_TRANSPORT_TYPES then ''String''
              else ct_name p)
       else if ct_name p \<in> set WRAPPER_TYPES then
         (case ct_arguments p of
            a # _ \<Rightarrow> r_bind (transport_type_expression a) (\<lambda>t. Inr (ct_name p @ ''('' @ t @ '')''))
          | [] \<Rightarrow> Inl IndexError)
       else if ct_name p = ''Map'' then
         r_bind (r_map transport_type_expression (ct_arguments p)) (\<lambda>ts.
           Inr (''Map('' @ py_join '', '' ts @ '')''))
       else if ct_name p = ''Tuple'' then
         r_bind (r_map (\<lambda>a. r_catch (transport_type_expression a) is_schema_error (\<lambda>e.
                   case tuple_field a of
                     None \<Rightarrow> Inl e
                   | Some (n, t) \<Rightarrow>
                       r_bind (transport_type_expression t) (\<lambda>u. Inr (n @ '' '' @ u)))) (ct_arguments p))
           (\<lambda>ts. Inr (''Tuple('' @ py_join '', '' ts @ '')''))
       else transport_scalar_type v p)"
  using assms by (simp add: transport_type_expression.simps [of v])

text \<open>What the fixpoint argument carries: the transport type is stripped, maps to itself, and has no new newline.\<close>

definition transport_fixpoint :: "string \<Rightarrow> bool" where
  "transport_fixpoint t \<longleftrightarrow> stripped t \<and> transport_type_expression t = Inr t"

lemma fixpoint_parses: "transport_fixpoint t \<Longrightarrow> \<exists>p. parse_clickhouse_type t = Inr p"
  using transport_validates validate_parses by (auto simp: transport_fixpoint_def)

lemma fixpoint_argument_text: "transport_fixpoint t \<Longrightarrow> argument_text t"
proof -
  assume t: "transport_fixpoint t"
  obtain p where p: "parse_clickhouse_type t = Inr p" using fixpoint_parses [OF t] by blast
  have "py_strip t = t" using t by (simp add: transport_fixpoint_def py_strip_id)
  then show ?thesis
    using parsed_neutral [OF p] parsed_not_empty [OF p] t
    by (simp add: argument_text_def transport_fixpoint_def)
qed

lemma fixpoint_valid: "transport_fixpoint t \<Longrightarrow> validate_type_expression t = Inr ()"
  by (auto simp: transport_fixpoint_def dest: transport_validates)

lemma fixpoint_simple:
  assumes "is_type_name n" "n \<in> set SIMPLE_TYPES" "n \<notin> set UNSUPPORTED_SIMPLE" "n \<noteq> ''Date''"
    "n \<notin> set TEXT_TRANSPORT_TYPES"
  shows "transport_fixpoint n"
proof -
  have "validate_type_expression n = Inr ()"
    using assms by (simp add: validate_type_expression.simps [of n] parse_name raise_if_def)
  then show ?thesis
    using assms
    by (simp add: transport_fixpoint_def transport_type_expression.simps [of n] parse_name type_name_stripped)
qed

lemma fixpoint_wrapper:
  assumes "n \<in> set WRAPPER_TYPES" "n \<notin> set SIMPLE_TYPES" "transport_fixpoint u"
  shows "transport_fixpoint (n @ ''('' @ u @ '')'')"
proof -
  let ?t = "n @ ''('' @ u @ '')''"
  have n: "is_type_name n" using assms(1) by (auto simp: WRAPPER_TYPES_def char_class_defs)
  have "split_type_arguments u = Inr [u]"
    using split_join [of "[u]"] fixpoint_argument_text [OF assms(3)] by simp
  note p = parse_built [OF n this]
  have "validate_type_expression ?t = Inr ()"
    using assms fixpoint_valid [OF assms(3)] p
    by (subst validate_type_expression.simps) (simp del: append_Cons append.simps append_Nil)
  then have "transport_type_expression ?t = Inr ?t"
    using assms p
    by (subst transport_type_expression.simps)
      (simp del: append_Cons append.simps append_Nil add: transport_fixpoint_def)
  then show ?thesis using stripped_parens [OF n, of u] unfolding transport_fixpoint_def by blast
qed


lemma fixpoint_map:
  assumes "list_all transport_fixpoint us" "length us = 2"
  shows "transport_fixpoint (''Map'' @ ''('' @ py_join '', '' us @ '')'')"
proof -
  let ?t = "''Map'' @ ''('' @ py_join '', '' us @ '')''"
  have n: "is_type_name ''Map''" by (simp add: char_class_defs)
  have k: "''Map'' \<notin> set SIMPLE_TYPES" "''Map'' \<notin> set WRAPPER_TYPES"
    by (simp_all add: SIMPLE_TYPES_def WRAPPER_TYPES_def)
  have "split_type_arguments (py_join '', '' us) = Inr us"
    using assms fixpoint_argument_text by (intro split_join) (auto simp: list_all_iff)
  note p = parse_built [OF n this]
  have "r_all validate_type_expression us = Inr ()"
    using assms(1) fixpoint_valid by (simp add: r_all_Inr_iff list_all_iff)
  then have valid: "validate_type_expression ?t = Inr ()"
    using assms(2) k p
    by (subst validate_type_expression.simps) (simp del: append_Cons append.simps append_Nil)
  have "r_map transport_type_expression us = Inr us"
    using assms(1) r_map_Inr_map [of us transport_type_expression "\<lambda>t. t"]
    by (simp add: list_all_iff transport_fixpoint_def)
  then have "transport_type_expression ?t = Inr ?t"
    using k unfolding transport_unfold [OF valid p] by simp
  then show ?thesis using stripped_parens [OF n] unfolding transport_fixpoint_def by blast
qed

text \<open>Named tuple fields: the name is read again, and the field is not itself a type.\<close>

lemma strip_keeps_hd: "\<not> py_isspace c \<Longrightarrow> \<exists>r. py_strip (c # s) = c # r"
proof -
  assume c: "\<not> py_isspace c"
  obtain a b where d: "c # s = a @ py_strip (c # s) @ b" and sp: "list_all py_isspace a" "list_all py_isspace b"
    using py_strip_decomp by blast
  have "a = []" using d c sp(1) by (cases a) auto
  then show ?thesis using d c sp(2) by (cases "py_strip (c # s)"; cases b) auto
qed

lemma dropWhile_keeps: "\<not> P x \<Longrightarrow> \<exists>r'. dropWhile P (r @ x # q) = r' @ x # q"
  by (induction r) auto

lemma strip_keeps_inner:
  assumes "\<not> py_isspace c" and "\<not> py_isspace d"
  shows "set y \<subseteq> set (py_strip (c # y @ d # z))"
proof -
  have l: "py_lstrip (c # y @ d # z) = c # y @ d # z" using assms(1) by (simp add: py_lstrip_def)
  obtain r where "dropWhile py_isspace (rev z @ d # (rev y @ [c])) = r @ d # (rev y @ [c])"
    using dropWhile_keeps [of py_isspace d "rev z" "rev y @ [c]"] assms(2) by blast
  then have "py_lstrip (rev (c # y @ d # z)) = r @ d # rev y @ [c]" by (simp add: py_lstrip_def)
  then have "py_strip (c # y @ d # z) = c # y @ d # rev r" unfolding py_strip_def l by simp
  then show ?thesis by auto
qed

lemma type_name_no_space: "is_type_name n \<Longrightarrow> CHR '' '' \<notin> set n"
  using type_name_chars [of n] name_char_not_space [of "CHR '' ''"]
  by (auto simp: list_all_iff py_isspace_def)

lemma quoted_units_extend:
  "quoted_units s = Some (u, r) \<Longrightarrow> r' = [] \<or> hd r' \<noteq> CHR 0x60 \<Longrightarrow>
     quoted_units (u @ r') = Some (u, r') \<and> u \<noteq> []"
proof (induction s arbitrary: u r rule: quoted_units.induct)
  case (2 c)
  then show ?case by (cases r') (auto split: if_splits)
next
  case (3 c d s)
  consider (close) "c = CHR 0x60" "d \<noteq> CHR 0x60"
    | (pair) u' where "c = CHR 0x60 \<and> d = CHR 0x60 \<or> c = BACKSLASH \<and> d \<noteq> CHR 0x0A"
        "quoted_units s = Some (u', r)" "u = c # d # u'"
    | (plain) u' where "c \<noteq> CHR 0x60" "c \<noteq> BACKSLASH" "quoted_units (d # s) = Some (u', r)" "u = c # u'"
    using 3(4) by (auto split: if_splits)
  then show ?case
  proof cases
    case close
    then show ?thesis using 3(4,5) by (cases r') auto
  next
    case (pair u')
    then show ?thesis using 3(1,2) 3(5) by (auto simp: BACKSLASH_def)
  next
    case (plain u')
    then have "quoted_units (u' @ r') = Some (u', r') \<and> u' \<noteq> []" using 3(3,5) by blast
    then show ?thesis using plain by (cases u') auto
  qed
qed simp

lemma quoted_units_scan:
  "quoted_units s = Some (u, r) \<Longrightarrow>
     scan (scan_at ps cur d (Some (CHR 0x60)) False) u = Inr (scan_at ps (cur @ u) d None False)"
proof (induction s arbitrary: u r cur rule: quoted_units.induct)
  case (2 c)
  then show ?case by (auto simp: scan_step_def BACKSLASH_def split: if_splits)
next
  case (3 c e s)
  then show ?case
    by (auto simp: scan_step_def BACKSLASH_def QUOTES_def split: if_splits)
qed simp

definition field_name_text :: "string \<Rightarrow> bool" where
  "field_name_text n \<longleftrightarrow>
     (\<exists>c cs. n = c # cs \<and> is_name_start c \<and> list_all is_name_char cs)
     \<or> (\<exists>u. n = CHR 0x60 # u \<and> 2 \<le> length u \<and> quoted_units u = Some (u, []))"

lemma tuple_field_name_text: "tuple_field_name a = Some (n, r) \<Longrightarrow> field_name_text n"
proof -
  assume a: "tuple_field_name a = Some (n, r)"
  then obtain c cs where cs: "a = c # cs" by (auto simp: tuple_field_name_def split: list.splits)
  show ?thesis
  proof (cases "is_name_start c")
    case True
    then have "n = c # takeWhile is_name_char cs" using a cs by (simp add: tuple_field_name_def)
    then show ?thesis using True by (auto simp: field_name_text_def list_all_iff dest: set_takeWhileD)
  next
    case False
    then obtain u where u: "c = CHR 0x60" "quoted_units cs = Some (u, r)" "2 \<le> length u" "n = c # u"
      using a cs by (auto simp: tuple_field_name_def split: if_splits option.splits)
    then show ?thesis using quoted_units_extend [OF u(2), of "[]"] by (auto simp: field_name_text_def)
  qed
qed


lemma field_name_again:
  assumes "field_name_text n"
  shows "tuple_field_name (n @ CHR '' '' # w) = Some (n, CHR '' '' # w)"
proof -
  have sp: "\<not> is_name_char (CHR '' '')" by (simp add: char_class_defs)
  consider (name) c cs where "n = c # cs" "is_name_start c" "list_all is_name_char cs"
    | (quoted) u where "n = CHR 0x60 # u" "2 \<le> length u" "quoted_units u = Some (u, [])"
    using assms by (auto simp: field_name_text_def)
  then show ?thesis
  proof cases
    case name
    have "takeWhile is_name_char (cs @ CHR '' '' # w) = cs"
      "dropWhile is_name_char (cs @ CHR '' '' # w) = CHR '' '' # w"
      using name(3) sp by (induction cs) auto
    then show ?thesis using name by (simp add: tuple_field_name_def)
  next
    case quoted
    have "quoted_units (u @ CHR '' '' # w) = Some (u, CHR '' '' # w)"
      using quoted_units_extend [OF quoted(3), of "CHR '' '' # w"] by simp
    moreover have "\<not> is_name_start (CHR 0x60)" by (simp add: char_class_defs)
    ultimately show ?thesis using quoted by (simp add: tuple_field_name_def)
  qed
qed

lemma field_name_hd: "field_name_text n \<Longrightarrow> \<exists>c cs. n = c # cs \<and> \<not> py_isspace c"
proof -
  assume "field_name_text n"
  then consider c cs where "n = c # cs" "is_name_start c" | u where "n = CHR 0x60 # u"
    by (auto simp: field_name_text_def)
  then show ?thesis
  proof cases
    case 1
    then show ?thesis using name_char_not_space [of c] by (simp add: is_name_char_def)
  next
    case 2
    then show ?thesis by (simp add: py_isspace_def)
  qed
qed

lemma field_name_neutral: "field_name_text n \<Longrightarrow> neutral n"
proof -
  assume "field_name_text n"
  then consider (name) "list_all is_name_char n"
    | (quoted) u where "n = CHR 0x60 # u" "quoted_units u = Some (u, [])"
    by (auto simp: field_name_text_def is_name_char_def)
  then show ?thesis
  proof cases
    case name
    then show ?thesis by (intro neutral_plain) (auto simp: list_all_iff plain_name_char)
  next
    case quoted
    have "scan_step (scan_at ps cur d None False) (CHR 0x60) =
        Inr (scan_at ps (cur @ [CHR 0x60]) d (Some (CHR 0x60)) False)" for ps cur d
      by (simp add: scan_step_def QUOTES_def)
    then show ?thesis using quoted_units_scan [OF quoted(2)] quoted(1) by (simp add: neutral_def)
  qed
qed

lemma parsed_hd:
  assumes "parse_clickhouse_type w = Inr p" and "stripped w"
  obtains c cs where "w = c # cs" "\<not> py_isspace c" "c \<noteq> CHR ''(''"
proof -
  have w: "py_strip w = w" using assms(2) by (rule py_strip_id)
  then have "w \<noteq> []" using parsed_not_empty [OF assms(1)] by simp
  then obtain c cs where c: "w = c # cs" by (cases w) auto
  have "\<not> py_isspace c" using assms(2) c by (simp add: stripped_def)
  moreover from assms(1) have "c \<noteq> CHR ''(''"
  proof (cases rule: parse_clickhouse_type_cases)
    case simple
    then have "CHR ''('' \<notin> set w" using w type_name_no_paren [of w] by simp
    then show ?thesis using c by auto
  next
    case (args n inner)
    then have "n \<noteq> []" by (auto simp: py_strip_def py_lstrip_def)
    then show ?thesis using args(1,2) w c by (cases n) auto
  qed
  ultimately show ?thesis using that c by blast
qed

text \<open>A name, a blank and a type never parse as one type.\<close>

lemma named_field_not_type:
  assumes "field_name_text n" "parse_clickhouse_type w = Inr p" "stripped w"
  shows "parse_clickhouse_type (n @ CHR '' '' # w) = Inl SchemaError"
proof -
  let ?u = "n @ CHR '' '' # w"
  obtain c cs where n: "n = c # cs" "\<not> py_isspace c" using field_name_hd [OF assms(1)] by blast
  obtain d ds where w: "w = d # ds" "\<not> py_isspace d" "d \<noteq> CHR ''(''"
    by (rule parsed_hd [OF assms(2,3)])
  have st: "py_strip ?u = ?u"
    using assms(3) n w by (intro py_strip_id) (auto simp: stripped_def)
  have inner: "CHR '' '' \<in> set (py_strip (n @ CHR '' '' # d # z))" for z
    using strip_keeps_inner [OF n(2) w(2), of "cs @ '' ''" z] n(1) by auto
  have "parse_clickhouse_type ?u \<noteq> Inr q" for q
  proof
    assume q: "parse_clickhouse_type ?u = Inr q"
    then show False
    proof (cases rule: parse_clickhouse_type_cases)
      case simple
      then have "is_type_name (py_strip (n @ CHR '' '' # d # ds))" using w by simp
      then show ?thesis using inner type_name_no_space by blast
    next
      case (args m tx)
      then have m: "n @ CHR '' '' # w = m @ CHR ''('' # tx @ '')''" "is_type_name (py_strip m)" using st by auto
      have "m \<noteq> []" using m(2) by (auto simp: py_strip_def py_lstrip_def)
      then obtain m' where m': "m = c # m'" using m(1) n by (cases m) auto
      have letter: "is_letter c" using m(2) strip_keeps_hd [OF n(2), of m'] m' by auto
      then have "c \<noteq> CHR 0x60" by (auto simp: char_class_defs)
      then have nc: "list_all is_name_char n"
        using assms(1) n(1) by (auto simp: field_name_text_def is_name_char_def)
      have np: "CHR ''('' \<notin> set n" using nc plain_name_char by (fastforce simp: list_all_iff plain_def)
      obtain z where "m = n @ CHR '' '' # d # z"
      proof -
        have "takeWhile (\<lambda>x. x \<noteq> CHR ''('') ?u = n @ CHR '' '' # takeWhile (\<lambda>x. x \<noteq> CHR ''('') w"
          using np by (subst takeWhile_append2) auto
        moreover have "takeWhile (\<lambda>x. x \<noteq> CHR ''('') (m @ CHR ''('' # tx @ '')'') = m"
          using args(2) by (subst takeWhile_append2) auto
        ultimately have "m = n @ CHR '' '' # takeWhile (\<lambda>x. x \<noteq> CHR ''('') w" using m(1) by simp
        then show ?thesis using that w by simp
      qed
      then show ?thesis using inner m(2) type_name_no_space by blast
    qed
  qed
  then show ?thesis using parse_clickhouse_type_error by (cases "parse_clickhouse_type ?u") auto
qed

lemma named_field_argument:
  assumes "field_name_text n" "transport_fixpoint w" "CHR 0x0A \<notin> set w"
  shows "argument_text (n @ CHR '' '' # w)" and "tuple_field (n @ CHR '' '' # w) = Some (n, w)"
    and "transport_type_expression (n @ CHR '' '' # w) = Inl SchemaError"
proof -
  obtain p where p: "parse_clickhouse_type w = Inr p" using fixpoint_parses [OF assms(2)] by blast
  have sw: "stripped w" using assms(2) by (simp add: transport_fixpoint_def)
  obtain c cs where n: "n = c # cs" "\<not> py_isspace c" using field_name_hd [OF assms(1)] by blast
  obtain d ds where w: "w = d # ds" "\<not> py_isspace d" by (rule parsed_hd [OF p sw])
  have "neutral '' ''" by (rule neutral_plain) (simp add: plain_def QUOTES_def)
  then have "neutral (n @ CHR '' '' # w)"
    using neutral_append [OF field_name_neutral [OF assms(1)] neutral_append [of "'' ''" w]]
      fixpoint_argument_text [OF assms(2)] by (simp add: argument_text_def)
  then show "argument_text (n @ CHR '' '' # w)"
    using n w sw by (auto simp: argument_text_def stripped_def)
  have "tuple_type_part (CHR '' '' # w) = Some w"
    using w assms(3) space_blank by (simp add: tuple_type_part_def)
  then show "tuple_field (n @ CHR '' '' # w) = Some (n, w)"
    using field_name_again [OF assms(1)] by (simp add: tuple_field_def)
  show "transport_type_expression (n @ CHR '' '' # w) = Inl SchemaError"
    using named_field_not_type [OF assms(1) p sw]
    by (intro transport_of_invalid) (simp add: validate_type_expression.simps)
qed


text \<open>A tuple argument of a transport type: itself a fixpoint, or a name with one.\<close>

definition fixpoint_field :: "string \<Rightarrow> bool" where
  "fixpoint_field u \<longleftrightarrow>
     transport_fixpoint u
     \<or> (\<exists>n w. field_name_text n \<and> transport_fixpoint w \<and> CHR 0x0A \<notin> set w \<and> u = n @ '' '' @ w)"

lemma fixpoint_field_argument: "fixpoint_field u \<Longrightarrow> argument_text u"
  using fixpoint_argument_text named_field_argument(1) by (auto simp: fixpoint_field_def)

lemma fixpoint_field_transport:
  assumes "fixpoint_field u"
  shows "r_catch (transport_type_expression u) is_schema_error (\<lambda>e.
           case tuple_field u of None \<Rightarrow> Inl e
           | Some (n, t) \<Rightarrow> r_bind (transport_type_expression t) (\<lambda>w. Inr (n @ '' '' @ w))) = Inr u"
proof -
  consider "transport_fixpoint u"
    | n w where "field_name_text n" "transport_fixpoint w" "CHR 0x0A \<notin> set w" "u = n @ CHR '' '' # w"
    using assms by (auto simp: fixpoint_field_def)
  then show ?thesis
  proof cases
    case 1
    then show ?thesis by (simp add: transport_fixpoint_def)
  next
    case (2 n w)
    then have "transport_type_expression w = Inr w" by (simp add: transport_fixpoint_def)
    then show ?thesis using named_field_argument(2,3) [OF 2(1-3)] 2(4) by simp
  qed
qed

lemma fixpoint_field_valid:
  assumes "fixpoint_field u"
  shows "r_catch (validate_type_expression u) is_schema_error (\<lambda>e.
           case tuple_field u of None \<Rightarrow> Inl e | Some (_, t) \<Rightarrow> validate_type_expression t) = Inr ()"
proof -
  consider "transport_fixpoint u"
    | n w where "field_name_text n" "transport_fixpoint w" "CHR 0x0A \<notin> set w" "u = n @ CHR '' '' # w"
    using assms by (auto simp: fixpoint_field_def)
  then show ?thesis
  proof cases
    case 1
    then show ?thesis by (simp add: fixpoint_valid)
  next
    case (2 n w)
    then have "validate_type_expression u = Inl SchemaError"
      using named_field_argument(3) [OF 2(1-3)] transport_Inl_iff by simp
    then show ?thesis using named_field_argument(2) [OF 2(1-3)] 2 by (simp add: fixpoint_valid)
  qed
qed

lemma fixpoint_tuple:
  assumes "list_all fixpoint_field us" "us \<noteq> []"
  shows "transport_fixpoint (''Tuple'' @ ''('' @ py_join '', '' us @ '')'')"
proof -
  let ?t = "''Tuple'' @ ''('' @ py_join '', '' us @ '')''"
  have n: "is_type_name ''Tuple''" by (simp add: char_class_defs)
  have k: "''Tuple'' \<notin> set SIMPLE_TYPES" "''Tuple'' \<notin> set WRAPPER_TYPES"
    by (simp_all add: SIMPLE_TYPES_def WRAPPER_TYPES_def)
  have "split_type_arguments (py_join '', '' us) = Inr us"
    using assms fixpoint_field_argument by (intro split_join) (auto simp: list_all_iff)
  note p = parse_built [OF n this]
  have "r_all (\<lambda>a. r_catch (validate_type_expression a) is_schema_error (\<lambda>e.
           case tuple_field a of None \<Rightarrow> Inl e | Some (_, t) \<Rightarrow> validate_type_expression t)) us = Inr ()"
    using assms(1) fixpoint_field_valid by (simp add: r_all_Inr_iff list_all_iff)
  then have valid: "validate_type_expression ?t = Inr ()"
    using assms(2) k p
    by (subst validate_type_expression.simps) (simp del: append_Cons append.simps append_Nil)
  have "r_map (\<lambda>u. r_catch (transport_type_expression u) is_schema_error (\<lambda>e.
           case tuple_field u of None \<Rightarrow> Inl e
           | Some (n, t) \<Rightarrow> r_bind (transport_type_expression t) (\<lambda>w. Inr (n @ '' '' @ w)))) us = Inr us"
    using r_map_Inr_map [of us _ "\<lambda>t. t"] assms(1) fixpoint_field_transport
    by (simp add: list_all_iff)
  then have "transport_type_expression ?t = Inr ?t"
    using k unfolding transport_unfold [OF valid p] by simp
  then show ?thesis using stripped_parens [OF n] unfolding transport_fixpoint_def by blast
qed

lemma parse_strip: "parse_clickhouse_type (py_strip v) = parse_clickhouse_type v"
  by (simp add: parse_clickhouse_type_def)

lemma fixpoint_strip:
  assumes "parse_clickhouse_type v = Inr p" "ct_name p \<notin> set SIMPLE_TYPES" "ct_name p \<notin> set WRAPPER_TYPES"
    "ct_name p \<noteq> ''Map''" "ct_name p \<noteq> ''Tuple''" "validate_scalar_type p = Inr ()"
    "ct_name p \<noteq> ''DateTime''" "ct_name p \<notin> set TEXT_TRANSPORT_TYPES"
  shows "transport_fixpoint (py_strip v)"
proof -
  have p: "parse_clickhouse_type (py_strip v) = Inr p" using assms(1) by (simp add: parse_strip)
  have valid: "validate_type_expression (py_strip v) = Inr ()"
    using assms p by (simp add: validate_type_expression.simps [of "py_strip v"])
  show ?thesis
    using assms transport_unfold [OF valid p]
    by (simp add: transport_fixpoint_def transport_scalar_type_def stripped_py_strip)
qed

lemma zone_char_inert: "is_zone_char c \<Longrightarrow> c \<noteq> CHR 0x27 \<and> c \<noteq> BACKSLASH"
  using plain_name_char [of c]
  by (auto simp: is_zone_char_def plain_def QUOTES_def BACKSLASH_def) (simp_all add: char_class_defs)

lemma zone_char_step:
  "is_zone_char c \<Longrightarrow> scan_step (scan_at ps cur d (Some (CHR 0x27)) False) c =
     Inr (scan_at ps (cur @ [c]) d (Some (CHR 0x27)) False)"
  using zone_char_inert [of c] by (simp add: scan_step_def)

lemma zone_close_step:
  "scan_step (scan_at ps cur d (Some (CHR 0x27)) False) (CHR 0x27) =
     Inr (scan_at ps (cur @ [CHR 0x27]) d None False)"
  by (simp add: scan_step_def BACKSLASH_def)

lemma zone_argument_text:
  assumes "is_time_zone z"
  shows "argument_text z"
proof -
  obtain m where z: "z = CHR 0x27 # m @ [CHR 0x27]"
  proof -
    obtain q w where qw: "z = q # w" using assms by (cases z) (auto simp: is_time_zone_def)
    then have "w \<noteq> []" "q = CHR 0x27" "last w = CHR 0x27"
      using assms by (auto simp: is_time_zone_def split: if_splits)
    then show ?thesis using that [of "butlast w"] qw append_butlast_last_id [of w] by simp
  qed
  have m: "list_all is_zone_char m" using assms z by (simp add: is_time_zone_def)
  have "scan (scan_at ps cur d (Some (CHR 0x27)) False) (s @ [CHR 0x27]) =
      Inr (scan_at ps (cur @ s @ [CHR 0x27]) d None False)" if "list_all is_zone_char s" for ps cur d s
    using that by (induction s arbitrary: cur) (simp_all add: zone_char_step zone_close_step)
  then have "neutral z"
    using z m by (simp add: neutral_def scan_step_def QUOTES_def)
  moreover have "stripped z" using z by (simp add: stripped_def py_isspace_def)
  ultimately show ?thesis using z by (simp add: argument_text_def)
qed


lemma datetime64_fixpoint:
  assumes "list_all is_time_zone zs" "length zs \<le> 1"
  shows "transport_fixpoint (''DateTime64'' @ ''('' @ py_join '', '' (''0'' # zs) @ '')'')"
proof -
  let ?t = "''DateTime64'' @ ''('' @ py_join '', '' (''0'' # zs) @ '')''"
  have n: "is_type_name ''DateTime64''" by (simp add: char_class_defs)
  have k: "''DateTime64'' \<notin> set SIMPLE_TYPES" "''DateTime64'' \<notin> set WRAPPER_TYPES"
    "''DateTime64'' \<notin> set SINGLE_INTEGER_TYPES" "''DateTime64'' \<notin> set TEXT_TRANSPORT_TYPES"
    by (simp_all add: SIMPLE_TYPES_def WRAPPER_TYPES_def SINGLE_INTEGER_TYPES_def
        DECIMAL_SCALE_LIMITS_def TEXT_TRANSPORT_TYPES_def)
  have zero: "argument_text ''0''"
    by (auto simp: argument_text_def stripped_def py_isspace_def plain_def QUOTES_def intro!: neutral_plain)
  have "split_type_arguments (py_join '', '' (''0'' # zs)) = Inr (''0'' # zs)"
    using assms zero zone_argument_text by (intro split_join) (auto simp: list_all_iff)
  note p = parse_built [OF n this]
  have digit: "is_integer_text ''0''" "py_int ''0'' = Inr 0"
    using py_int_all_digits [of "''0''"]
    by (simp_all add: is_integer_text_def is_ascii_digit_def max_str_digits_def digits_val_def digit_val_def)
  have "validate_scalar_type \<lparr>ct_name = ''DateTime64'', ct_arguments = ''0'' # zs\<rparr> = Inr ()"
    using assms digit k(3)
    by (cases zs) (simp_all add: validate_scalar_type_def MAX_DATETIME64_PRECISION_def)
  then have valid: "validate_type_expression ?t = Inr ()"
    using k p by (subst validate_type_expression.simps) (simp del: append_Cons append.simps append_Nil)
  have "py_strip ?t = ?t" by (rule py_strip_id) (rule stripped_parens [OF n])
  then have "transport_type_expression ?t = Inr ?t"
    using k unfolding transport_unfold [OF valid p] transport_scalar_type_def by simp
  then show ?thesis using stripped_parens [OF n] unfolding transport_fixpoint_def by blast
qed

lemma scalar_fixpoint:
  assumes "parse_clickhouse_type v = Inr p" "ct_name p \<notin> set SIMPLE_TYPES" "ct_name p \<notin> set WRAPPER_TYPES"
    "ct_name p \<noteq> ''Map''" "ct_name p \<noteq> ''Tuple''" "validate_scalar_type p = Inr ()"
    "transport_scalar_type v p = Inr t"
  shows "transport_fixpoint t"
proof -
  consider (plain) "ct_name p = ''DateTime''" "ct_arguments p = []" "t = ''DateTime64(0)''"
    | (zone) z where "is_time_zone z" "t = ''DateTime64(0, '' @ z @ '')''"
    | (string) "t = ''String''"
    | (strip) "ct_name p \<noteq> ''DateTime''" "ct_name p \<notin> set TEXT_TRANSPORT_TYPES" "t = py_strip v"
    using assms(7) by (auto simp: transport_scalar_type_def split: if_splits list.splits)
  then show ?thesis
  proof cases
    case plain
    then show ?thesis using datetime64_fixpoint [of "[]"] by simp
  next
    case (zone z)
    then show ?thesis using datetime64_fixpoint [of "[z]"] by simp
  next
    case string
    then show ?thesis
      using fixpoint_simple [of "''String''"]
      by (simp add: char_class_defs SIMPLE_TYPES_def UNSUPPORTED_SIMPLE_def TEXT_TRANSPORT_TYPES_def)
  next
    case strip
    then show ?thesis using fixpoint_strip assms by blast
  qed
qed

lemma simple_fixpoint:
  assumes "n \<in> set SIMPLE_TYPES" "n \<notin> set UNSUPPORTED_SIMPLE"
  shows "transport_fixpoint (if n = ''Date'' then ''Date32''
            else if n \<in> set TEXT_TRANSPORT_TYPES then ''String'' else n)"
proof -
  have names: "\<forall>m \<in> set SIMPLE_TYPES. is_type_name m" by (simp add: SIMPLE_TYPES_def char_class_defs)
  have c: "''Date32'' \<in> set SIMPLE_TYPES" "''String'' \<in> set SIMPLE_TYPES" by (simp_all add: SIMPLE_TYPES_def)
  have u: "''Date32'' \<notin> set UNSUPPORTED_SIMPLE" "''String'' \<notin> set UNSUPPORTED_SIMPLE"
    by (simp_all add: UNSUPPORTED_SIMPLE_def)
  have t: "''Date32'' \<notin> set TEXT_TRANSPORT_TYPES" "''String'' \<notin> set TEXT_TRANSPORT_TYPES"
    by (simp_all add: TEXT_TRANSPORT_TYPES_def)
  show ?thesis using fixpoint_simple names assms c u t by auto
qed


text \<open>The newline the tuple-field pattern rejects is never introduced.\<close>

lemma transport_scalar_newline:
  assumes "transport_scalar_type v p = Inr t" "CHR 0x0A \<notin> set v" "\<And>a. a \<in> set (ct_arguments p) \<Longrightarrow> set a \<subseteq> set v"
  shows "CHR 0x0A \<notin> set t"
  using assms set_py_strip [of v]
  by (fastforce simp: transport_scalar_type_def split: if_splits list.splits)

lemma py_join_newline:
  "CHR 0x0A \<in> set (py_join '', '' us) \<Longrightarrow> \<exists>u\<in>set us. CHR 0x0A \<in> set u"
  using set_py_join [of "'', ''" us] by auto

lemma simple_types_newline: "n \<in> set SIMPLE_TYPES \<Longrightarrow> CHR 0x0A \<notin> set n"
  by (auto simp: SIMPLE_TYPES_def)

lemma wrapper_types_newline: "n \<in> set WRAPPER_TYPES \<Longrightarrow> CHR 0x0A \<notin> set n"
  by (auto simp: WRAPPER_TYPES_def)

lemma list_all2_ballI:
  "list_all2 P xs ys \<Longrightarrow> (\<And>x y. x \<in> set xs \<Longrightarrow> P x y \<Longrightarrow> Q y) \<Longrightarrow> list_all Q ys"
  by (induction rule: list_all2_induct) auto

lemma transport_newline: "transport_type_expression v = Inr t \<Longrightarrow> CHR 0x0A \<notin> set v \<Longrightarrow> CHR 0x0A \<notin> set t"
proof (induction v arbitrary: t rule: length_induct)
  case (1 v)
  then have IH: "CHR 0x0A \<notin> set u"
    if "length w < length v" "transport_type_expression w = Inr u" "CHR 0x0A \<notin> set w" for w u
    using that by blast
  have arg: "CHR 0x0A \<notin> set u"
    if "parse_clickhouse_type v = Inr p" "a \<in> set (ct_arguments p)" "transport_type_expression a = Inr u" for p a u
    using IH [of a u] parse_argument [OF that(1,2)] that(3) 1(3) by blast
  from 1(2) show ?case
  proof (cases rule: transport_cases)
    case (simple p)
    then show ?thesis using simple_types_newline by simp
  next
    case (wrapper n a u)
    then show ?thesis using arg [OF wrapper(3), of a u] wrapper_types_newline by simp
  next
    case (map args us)
    have "list_all (\<lambda>u. CHR 0x0A \<notin> set u) us"
      by (rule list_all2_ballI [OF map(3)]) (use arg [OF map(1)] in simp)
    then show ?thesis using map(4) py_join_newline [of us] by (auto simp: list_all_iff)
  next
    case (tuple args us)
    have "list_all (\<lambda>u. CHR 0x0A \<notin> set u) us"
    proof (rule list_all2_ballI [OF tuple(3)])
      fix a u
      assume a: "a \<in> set args" and f: "transported_field a u"
      note pa = parse_argument [OF tuple(1), simplified, OF a]
      from f consider "transport_type_expression a = Inr u"
        | n d w where "tuple_field a = Some (n, d)" "transport_type_expression d = Inr w" "u = n @ '' '' @ w"
        by (auto simp: transported_field_def)
      then show "CHR 0x0A \<notin> set u"
      proof cases
        case 1
        then show ?thesis using arg [OF tuple(1)] a by simp
      next
        case (2 n d w)
        note tf = tuple_field_text [OF 2(1)]
        have "CHR 0x0A \<notin> set w" using IH [OF _ 2(2)] tf pa(1) by simp
        moreover have "CHR 0x0A \<notin> set n" using tf(3) pa(2) 1(3) by blast
        ultimately show ?thesis using 2(3) by simp
      qed
    qed
    then show ?thesis using tuple(4) py_join_newline [of us] by (auto simp: list_all_iff)
  next
    case (scalar p)
    then show ?thesis using transport_scalar_newline 1(3) parse_argument(2) by metis
  qed
qed

lemma transport_is_fixpoint: "transport_type_expression v = Inr t \<Longrightarrow> transport_fixpoint t"
proof (induction v arbitrary: t rule: length_induct)
  case (1 v)
  then have IH: "transport_fixpoint u" if "length w < length v" "transport_type_expression w = Inr u" for w u
    using that by blast
  have arg: "transport_fixpoint u"
    if "parse_clickhouse_type v = Inr p" "a \<in> set (ct_arguments p)" "transport_type_expression a = Inr u" for p a u
    using IH [of a u] parse_argument(1) [OF that(1,2)] that(3) by blast
  from 1(2) show ?case
  proof (cases rule: transport_cases)
    case (simple p)
    then show ?thesis using simple_fixpoint by blast
  next
    case (wrapper n a u)
    then show ?thesis using arg [OF wrapper(3), of a u] fixpoint_wrapper by simp
  next
    case (map args us)
    have "list_all transport_fixpoint us"
      by (rule list_all2_ballI [OF map(3)]) (use arg [OF map(1)] in simp)
    moreover have "length us = 2" using map(2,3) by (simp add: list_all2_lengthD [symmetric])
    ultimately show ?thesis using map(4) fixpoint_map by blast
  next
    case (tuple args us)
    have "list_all fixpoint_field us"
    proof (rule list_all2_ballI [OF tuple(3)])
      fix a u
      assume a: "a \<in> set args" and "transported_field a u"
      then consider "transport_type_expression a = Inr u"
        | n d w where "tuple_field a = Some (n, d)" "transport_type_expression d = Inr w" "u = n @ '' '' @ w"
        by (auto simp: transported_field_def)
      then show "fixpoint_field u"
      proof cases
        case 1
        then show ?thesis using arg [OF tuple(1)] a by (simp add: fixpoint_field_def)
      next
        case (2 n d w)
        note tf = tuple_field_text [OF 2(1)]
        have "transport_fixpoint w"
          using IH [OF _ 2(2)] tf(1) parse_argument(1) [OF tuple(1), of a] a by simp
        moreover have "CHR 0x0A \<notin> set w" using transport_newline [OF 2(2) tf(4)] .
        moreover have "field_name_text n"
          using 2(1) tuple_field_name_text by (auto simp: tuple_field_def split: option.splits)
        ultimately show ?thesis using 2(3) by (auto simp: fixpoint_field_def)
      qed
    qed
    moreover have "us \<noteq> []" using tuple(2,3) by auto
    ultimately show ?thesis using tuple(4) fixpoint_tuple by blast
  next
    case (scalar p)
    then show ?thesis using scalar_fixpoint by blast
  qed
qed


section \<open>Described columns\<close>

text \<open>One row of \<open>DESCRIBE\<close>, as the driver returns it.\<close>

fun describe_row :: "pyobj list \<Rightarrow> (string \<times> string) result" where
  "describe_row (PStr n # PStr t # _) = (if n = [] then Inl SchemaError else Inr (n, t))"
| "describe_row _ = Inl SchemaError"

definition describe_column :: "pyobj list \<Rightarrow> clickhouse_column result" where
  "describe_column row =
     r_bind (describe_row row) (\<lambda>(n, t).
     let declared = py_strip t
     in r_bind (transport_type_expression declared) (\<lambda>transport.
        Inr \<lparr>col_name = n, declared_type = declared, transport_type = transport\<rparr>))"

definition parse_describe_columns :: "pyobj list list \<Rightarrow> clickhouse_column list result" where
  "parse_describe_columns rows =
     r_bind (r_map describe_column rows) (\<lambda>columns.
     if columns = [] then Inl SchemaError
     else let names = map col_name columns
          in if card (set names) \<noteq> length names then Inl SchemaError else Inr columns)"

definition render_schema_column :: "clickhouse_column \<Rightarrow> string result" where
  "render_schema_column c =
     r_bind (quote_identifier (col_name c)) (\<lambda>identifier.
     Inr (case cast_type c of
            None \<Rightarrow> identifier
          | Some t \<Rightarrow> ''CAST('' @ identifier @ '' AS '' @ t @ '') AS '' @ identifier))"

definition render_schema_projection :: "clickhouse_column list \<Rightarrow> string result" where
  "render_schema_projection columns =
     r_bind (r_map render_schema_column columns) (\<lambda>projection. Inr (py_join '', '' projection))"

text \<open>
  \<open>serialize\<close> is Arrow's serialisation of a one-field schema: nothing raised, one of the two
  Arrow errors the source converts, or another exception, of which it converts \<open>TypeError\<close>.
\<close>

datatype arrow_error = ArrowInvalid | ArrowNotImplementedError | ArrowRaises exn

definition serialize_field :: "(arrow_field \<Rightarrow> arrow_error option) \<Rightarrow> arrow_field \<Rightarrow> unit result" where
  "serialize_field serialize f =
     (case serialize f of
        None \<Rightarrow> Inr ()
      | Some (ArrowRaises e) \<Rightarrow> Inl (if e = TypeError then SchemaError else e)
      | Some _ \<Rightarrow> Inl SchemaError)"

definition canonical_schema ::
    "(arrow_field \<Rightarrow> arrow_error option) \<Rightarrow> pyobj list list \<Rightarrow> arrow_schema \<Rightarrow> arrow_schema result" where
  "canonical_schema serialize rows sch =
     r_bind (parse_describe_columns rows) (\<lambda>columns.
     if map col_name columns \<noteq> schema_names sch then Inl SchemaError
     else r_bind (r_all (serialize_field serialize) (schema_fields sch)) (\<lambda>_. Inr sch))"

lemma describe_column_Inr:
  assumes "describe_column row = Inr c"
  shows "transport_type_expression (declared_type c) = Inr (transport_type c)" "col_name c \<noteq> []"
    "stripped (declared_type c)"
  using assms
  by (auto simp: describe_column_def Let_def r_bind_Inr_iff stripped_py_strip
      elim!: describe_row.elims split: if_splits)

lemma parse_describe_columns_Inr_iff:
  "parse_describe_columns rows = Inr cs \<longleftrightarrow>
     list_all2 (\<lambda>r c. describe_column r = Inr c) rows cs \<and> rows \<noteq> [] \<and> distinct (map col_name cs)"
proof -
  have d: "card (set ns) = length ns \<longleftrightarrow> distinct ns" for ns :: "string list"
    using card_distinct distinct_card by blast
  show ?thesis
    unfolding parse_describe_columns_def
    using d [of "map col_name cs"]
    by (auto simp: r_bind_Inr_iff r_map_Inr_iff Let_def split: if_splits)
qed

text \<open>The casts are complete: a cast column has a transport type that needs no further cast.\<close>

lemma described_columns_fixpoint:
  assumes "parse_describe_columns rows = Inr cs" and "c \<in> set cs"
  shows "transport_type_expression (transport_type c) = Inr (transport_type c)"
proof -
  from assms obtain r where "describe_column r = Inr c"
    by (auto simp: parse_describe_columns_Inr_iff list_all2_conv_all_nth in_set_conv_nth)
  then have "transport_type_expression (declared_type c) = Inr (transport_type c)"
    by (rule describe_column_Inr)
  then show ?thesis using transport_is_fixpoint by (simp add: transport_fixpoint_def)
qed

end
