(* ===== verification/Error_Translation.thy ===== *)
theory Error_Translation
  imports Py_Values
begin

text \<open>
  \<^verbatim>\<open>clickhouse/errors.py\<close> and \<^verbatim>\<open>doris/errors.py\<close>: driver exceptions become connector
  exceptions by their structured codes only. The locale is the contract every caller relies
  on; in it, the pattern of exception handlers that discovery and transports share is shown
  to let nothing escape but connector errors and control-flow exceptions.
\<close>

section \<open>ClickHouse\<close>

definition getattr_of :: "exn \<Rightarrow> string \<Rightarrow> pyattr option" where
  "getattr_of e name = map_of (ex_attrs (attrs_of e)) name"

text \<open>An \<open>int\<close> that is not a \<open>bool\<close>.\<close>

definition attr_integer :: "pyattr option \<Rightarrow> int option" where
  "attr_integer a = (case a of Some (AInt i) \<Rightarrow> Some i | _ \<Rightarrow> None)"

fun integer_attribute :: "exn \<Rightarrow> string list \<Rightarrow> int option" where
  "integer_attribute e [] = None"
| "integer_attribute e (n # ns) =
     (case attr_integer (getattr_of e n) of Some i \<Rightarrow> Some i | None \<Rightarrow> integer_attribute e ns)"

definition symbolic_name :: "exn \<Rightarrow> string option" where
  "symbolic_name e = (case getattr_of e ''name'' of Some (AStr s) \<Rightarrow> Some (py_upper s) | _ \<Rightarrow> None)"

definition translate_clickhouse_error :: "exn \<Rightarrow> exn option" where
  "translate_clickhouse_error e =
     (let code = integer_attribute e [''code'', ''error_code'']; name = symbolic_name e
      in if code \<in> Some ` {192, 193, 194, 516}
            \<or> name \<in> Some ` {''AUTHENTICATION_FAILED'', ''REQUIRED_PASSWORD'', ''UNKNOWN_USER'', ''WRONG_PASSWORD''}
         then Some AuthenticationError
         else if code \<in> Some ` {497} \<or> name \<in> Some ` {''ACCESS_DENIED''} then Some DatabasePermissionError
         else if code \<in> Some ` {60} \<or> name \<in> Some ` {''UNKNOWN_TABLE''} then Some DatabaseObjectNotFoundError
         else None)"

section \<open>Doris\<close>

definition AUTHENTICATION_VENDOR_CODES :: "int set" where
  "AUTHENTICATION_VENDOR_CODES = {1045, 1698, 3955}"

definition PERMISSION_VENDOR_CODES :: "int set" where
  "PERMISSION_VENDOR_CODES = {1044, 1142, 1143, 1221, 1222, 1223, 1224, 1225, 1226, 1227, 1370, 5087}"

definition NOT_FOUND_VENDOR_CODES :: "int set" where
  "NOT_FOUND_VENDOR_CODES = {1049, 1051, 1109, 1146}"

definition GENERIC_VENDOR_ERROR :: int where
  "GENERIC_VENDOR_ERROR = 1105"

definition NOT_FOUND_MESSAGE_MARKERS :: "string list" where
  "NOT_FOUND_MESSAGE_MARKERS = [''unknown table'', ''unknown database'', ''does not exist'']"

definition vendor_code :: "exn \<Rightarrow> int option" where
  "vendor_code e =
     (case attr_integer (getattr_of e ''vendor_code'') of
        Some i \<Rightarrow> Some i
      | None \<Rightarrow> (case ex_args (attrs_of e) of [] \<Rightarrow> None | a # _ \<Rightarrow> attr_integer (Some a)))"

definition status_code :: "exn \<Rightarrow> int option" where
  "status_code e = attr_integer (getattr_of e ''status_code'')"

definition generic_error_is_not_found :: "exn \<Rightarrow> int option \<Rightarrow> bool" where
  "generic_error_is_not_found e vc =
     (if vc \<noteq> Some GENERIC_VENDOR_ERROR \<or> length (ex_args (attrs_of e)) \<le> 1 then False
      else case ex_args (attrs_of e) ! 1 of
             AStr detail \<Rightarrow>
               list_ex (py_contains (py_casefold detail)) NOT_FOUND_MESSAGE_MARKERS
           | _ \<Rightarrow> False)"

text \<open>\<open>decode("ascii")\<close> fails on a byte from 128 on.\<close>

definition sqlstate :: "exn \<Rightarrow> string option" where
  "sqlstate e =
     (case getattr_of e ''sqlstate'' of
        Some (ABytes b) \<Rightarrow> if list_all (\<lambda>c. code c < 128) b then Some (py_upper b) else None
      | Some (AStr s) \<Rightarrow> Some (py_upper s)
      | _ \<Rightarrow> None)"

definition translate_doris_error :: "exn \<Rightarrow> exn option" where
  "translate_doris_error e =
     (let vc = vendor_code e; sc = status_code e; st = sqlstate e
      in if vc \<in> Some ` AUTHENTICATION_VENDOR_CODES \<or> sc = Some 13 \<or> st = Some ''28000'' then Some AuthenticationError
         else if vc \<in> Some ` PERMISSION_VENDOR_CODES \<or> sc = Some 14
         then Some DatabasePermissionError
         else if vc \<in> Some ` NOT_FOUND_VENDOR_CODES \<or> sc = Some 3 \<or> generic_error_is_not_found e vc
         then Some DatabaseObjectNotFoundError
         else None)"

section \<open>Handlers\<close>

text \<open>
  The handlers around a driver call: exceptions in \<open>kept\<close> are re-raised; any other
  \<open>Exception\<close> is translated, or becomes the fallback; control-flow exceptions pass.
\<close>

definition handle_driver_errors ::
    "(exn \<Rightarrow> exn option) \<Rightarrow> (exn \<Rightarrow> bool) \<Rightarrow> exn \<Rightarrow> 'a result \<Rightarrow> 'a result" where
  "handle_driver_errors translate kept fallback m =
     r_catch m (\<lambda>e. is_exception e \<and> \<not> kept e) (\<lambda>e.
       case translate e of Some t \<Rightarrow> Inl t | None \<Rightarrow> Inl fallback)"

text \<open>
  \<open>_close_client\<close> and \<open>_close_resources\<close>: every resource is closed; an ordinary failure is
  reported, a control-flow exception ends the loop.
\<close>

fun close_all :: "unit result list \<Rightarrow> bool result" where
  "close_all [] = Inr False"
| "close_all (Inr _ # rs) = close_all rs"
| "close_all (Inl e # rs) = (if is_exception e then r_bind (close_all rs) (\<lambda>_. Inr True) else Inl e)"

text \<open>The \<open>finally\<close> clause: a failed close is an error only when nothing else failed.\<close>

definition finally_close :: "exn \<Rightarrow> unit result list \<Rightarrow> 'a result \<Rightarrow> 'a result" where
  "finally_close fallback closes m =
     r_bind (close_all closes) (\<lambda>failed.
       case m of Inl e \<Rightarrow> Inl e | Inr v \<Rightarrow> if failed then Inl fallback else Inr v)"

lemma close_all_error: "close_all rs = Inl e \<Longrightarrow> \<not> is_exception e"
  by (induction rs rule: close_all.induct) (auto simp: r_bind_Inl_iff split: if_splits)

lemma finally_close_Inr_iff: "finally_close f closes m = Inr v \<longleftrightarrow> m = Inr v \<and> close_all closes = Inr False"
  by (cases m; cases "close_all closes") (auto simp: finally_close_def)

text \<open>Errors a caller may see: connector errors and control flow.\<close>

definition contained :: "exn \<Rightarrow> bool" where
  "contained e \<longleftrightarrow> is_daft_olap_error e \<or> \<not> is_exception e"

lemma finally_close_contained:
  assumes "finally_close f closes m = Inl e" and "contained f" and "\<And>e'. m = Inl e' \<Longrightarrow> contained e'"
  shows "contained e"
proof (cases "close_all closes")
  case (Inl e')
  then show ?thesis using assms(1) close_all_error [OF Inl] by (simp add: finally_close_def contained_def)
next
  case (Inr b)
  then show ?thesis using assms by (cases m) (auto simp: finally_close_def split: if_splits)
qed

locale error_translator =
  fixes translate :: "exn \<Rightarrow> exn option"
  assumes translate_class:
      "translate e = Some t \<Longrightarrow> t \<in> {AuthenticationError, DatabasePermissionError, DatabaseObjectNotFoundError}"
    and translate_driver_only: "translate e = Some t \<Longrightarrow> \<exists>a. e = DriverException a"
begin

lemma translated_is_connector_error: "translate e = Some t \<Longrightarrow> is_daft_olap_error t \<and> t \<noteq> DiscoveryError"
  using translate_class [of e t] by auto

lemma own_errors_untranslated: "is_daft_olap_error e \<Longrightarrow> translate e = None"
  using translate_driver_only [of e] by (cases "translate e") auto

lemma handle_contained:
  assumes "handle_driver_errors translate kept fallback m = Inl e"
    and "\<And>x. kept x \<Longrightarrow> is_daft_olap_error x" and "is_daft_olap_error fallback"
  shows "contained e"
  using assms translated_is_connector_error
  by (cases m) (auto simp: handle_driver_errors_def contained_def split: if_splits option.splits)

text \<open>The class of the error a failed call ends with.\<close>

lemma handle_error_cases:
  assumes "handle_driver_errors translate kept fallback m = Inl e"
  obtains (kept) "m = Inl e" "kept e \<or> \<not> is_exception e"
  | (translated) d where "m = Inl d" "translate d = Some e"
  | (fallback) d where "m = Inl d" "translate d = None" "e = fallback"
  using assms by (cases m) (auto simp: handle_driver_errors_def split: if_splits option.splits)

lemma handle_Inr_iff: "handle_driver_errors translate kept fallback m = Inr v \<longleftrightarrow> m = Inr v"
  by (cases m) (auto simp: handle_driver_errors_def split: option.splits)

text \<open>One driver operation with its handlers and its cleanup.\<close>

lemma guarded_contained:
  assumes "finally_close f closes (handle_driver_errors translate kept fallback m) = Inl e"
    and "\<And>x. kept x \<Longrightarrow> is_daft_olap_error x" and "is_daft_olap_error fallback" and "is_daft_olap_error f"
  shows "contained e"
  using assms(1)
proof (rule finally_close_contained)
  show "contained f" using assms(4) by (simp add: contained_def)
qed (rule handle_contained [OF _ assms(2,3)])

lemma guarded_error_class:
  assumes "finally_close f closes (handle_driver_errors translate kept fallback m) = Inl e"
  shows "e \<in> {f, fallback, AuthenticationError, DatabasePermissionError, DatabaseObjectNotFoundError} \<or> kept e \<or> \<not> is_exception e"
proof (cases "close_all closes")
  case (Inl e')
  then show ?thesis using assms close_all_error [OF Inl] by (simp add: finally_close_def)
next
  case (Inr b)
  show ?thesis
  proof (cases "handle_driver_errors translate kept fallback m")
    case e: (Inl e')
    then have "e' = e" using assms Inr by (simp add: finally_close_def)
    with e have h: "handle_driver_errors translate kept fallback m = Inl e" by simp
    then show ?thesis by (cases rule: handle_error_cases) (auto dest: translate_class)
  qed (use assms Inr in \<open>auto simp: finally_close_def split: if_splits\<close>)
qed

lemma guarded_Inr_iff:
  "finally_close f closes (handle_driver_errors translate kept fallback m) = Inr v
     \<longleftrightarrow> m = Inr v \<and> close_all closes = Inr False"
  by (simp add: finally_close_Inr_iff handle_Inr_iff)

end

lemma attrs_of_own: "(\<And>a. e \<noteq> DriverException a) \<Longrightarrow> attrs_of e = \<lparr>ex_attrs = [], ex_args = [AOther]\<rparr>"
  by (cases e) auto

interpretation clickhouse_errors: error_translator translate_clickhouse_error
proof
  fix e t
  assume t: "translate_clickhouse_error e = Some t"
  then show "t \<in> {AuthenticationError, DatabasePermissionError, DatabaseObjectNotFoundError}"
    by (auto simp: translate_clickhouse_error_def Let_def split: if_splits)
  show "\<exists>a. e = DriverException a"
  proof (rule ccontr)
    assume "\<nexists>a. e = DriverException a"
    then have "attrs_of e = \<lparr>ex_attrs = [], ex_args = [AOther]\<rparr>" by (intro attrs_of_own) auto
    then show False
      using t by (auto simp: translate_clickhouse_error_def Let_def getattr_of_def attr_integer_def symbolic_name_def
          split: if_splits)
  qed
qed

interpretation doris_errors: error_translator translate_doris_error
proof
  fix e t
  assume t: "translate_doris_error e = Some t"
  then show "t \<in> {AuthenticationError, DatabasePermissionError, DatabaseObjectNotFoundError}"
    by (auto simp: translate_doris_error_def Let_def split: if_splits)
  show "\<exists>a. e = DriverException a"
  proof (rule ccontr)
    assume "\<nexists>a. e = DriverException a"
    then have "attrs_of e = \<lparr>ex_attrs = [], ex_args = [AOther]\<rparr>" by (intro attrs_of_own) auto
    then show False
      using t by (auto simp: translate_doris_error_def Let_def getattr_of_def attr_integer_def vendor_code_def
          status_code_def sqlstate_def generic_error_is_not_found_def split: if_splits)
  qed
qed

end
