(* ===== verification/Connection_Base.thy ===== *)
theory Connection_Base
  imports Error_Translation Redaction Contracts
begin

text \<open>
  What the two connection classes share: the checks of their arguments, and the contract that
  keeps caller options away from the arguments the connector manages itself.
\<close>

section \<open>Argument checks\<close>

definition MAX_PORT :: int where
  "MAX_PORT = 65535"

text \<open>Arguments that must be a nonempty \<open>str\<close>, an \<open>int\<close> that is a port, a \<open>bool\<close>.\<close>

fun nonempty_str :: "pyobj \<Rightarrow> string result" where
  "nonempty_str (PStr s) = (if s = [] then Inl ConfigurationError else Inr s)"
| "nonempty_str _ = Inl ConfigurationError"

fun bool_arg :: "pyobj \<Rightarrow> bool result" where
  "bool_arg (PBool b) = Inr b"
| "bool_arg _ = Inl ConfigurationError"

definition port_arg :: "pyobj \<Rightarrow> int result" where
  "port_arg v = bounded_int v MAX_PORT"

definition py_repr_bool :: "bool \<Rightarrow> string" where
  "py_repr_bool b = (if b then ''True'' else ''False'')"

section \<open>Options and managed arguments\<close>

lemma map_of_dict_update_notin: "k \<notin> set (map fst ps) \<Longrightarrow> map_of (dict_update d ps) k = map_of d k"
proof (induction ps arbitrary: d)
  case (Cons p ps)
  have "map_of (AList.update (fst p) (snd p) d) k = map_of d k"
    using Cons.prems by (simp add: update_conv')
  then show ?case using Cons by simp
qed simp

lemma thaw_options_keys:
  assumes "thaw_options h opts = Inr d"
  shows "set (map fst d) = set (map fst opts)"
proof -
  from assms obtain ps where r: "list_all2 (\<lambda>kv p. (case kv of (k, v) \<Rightarrow>
      r_bind (snapshot_serializable h v) (\<lambda>w. Inr (k, w))) = Inr p) opts ps" and d: "d = py_dict ps"
    by (auto simp: thaw_options_def r_bind_Inr_iff [of "r_map _ _"] r_map_Inr_iff)
  from r have ps: "list_all2 (\<lambda>kv p. fst p = fst kv) opts ps"
    by (rule list_all2_mono) (auto simp: r_bind_Inr_iff)
  from ps have "map fst ps = map fst opts"
    by (induction rule: list_all2_induct) auto
  then show ?thesis using d set_keys_dict_update [of "[]" ps] by simp
qed

lemma freeze_options_not_reserved:
  assumes "freeze_options h m R = Inr opts"
  shows "set (map fst opts) \<inter> R = {}"
proof (cases m)
  case (MappingItems items)
  then obtain ps where "opts = sort_key fst ps" "\<forall>(k, v)\<in>set ps. k \<noteq> [] \<and> k \<notin> R \<and> serializable h v"
    using assms unfolding MappingItems freeze_options_Inr_iff by blast
  then show ?thesis by auto
qed (use assms in auto)

text \<open>
  A connection class passes its managed arguments updated with the caller's options. When the
  options avoid the reserved names, every managed argument reaches the driver unchanged.
\<close>

locale managed_arguments =
  fixes reserved :: "string set"
    and managed :: "'c \<Rightarrow> string \<Rightarrow> resource_limits \<Rightarrow> (string \<times> pyobj) list"
    and options :: "'c \<Rightarrow> (string \<times> pyobj) list"
  assumes managed_reserved: "set (map fst (managed c password limits)) \<subseteq> reserved"
begin

lemma managed_kept:
  assumes "thaw_options h (options c) = Inr opts" and "set (map fst (options c)) \<inter> reserved = {}" and "k \<in> reserved"
  shows "map_of (dict_update (managed c password limits) opts) k = map_of (managed c password limits) k"
  using thaw_options_keys [OF assms(1)] assms(2,3) by (intro map_of_dict_update_notin) blast

lemma options_passed:
  assumes "thaw_options h (options c) = Inr opts" and "k \<in> set (map fst (options c))"
  shows "k \<in> set (map fst (dict_update (managed c password limits) opts))"
  using thaw_options_keys [OF assms(1)] assms(2) set_keys_dict_update [of "managed c password limits" opts] by auto

end

end
