(* ===== verification/CH_Discovery.thy ===== *)
theory CH_Discovery
  imports CH_Schema Compat Connection_Base
begin

text \<open>
  \<^verbatim>\<open>clickhouse/discovery.py\<close>: the connection with its checks, its driver arguments and its
  redacted representation, schema discovery, and partition discovery. The driver is a record
  of the calls the source makes, each with the value or the exception it ends with.
\<close>

section \<open>The connection\<close>

definition RESERVED_CLIENT_OPTIONS :: "string set" where
  "RESERVED_CLIENT_OPTIONS =
     {''access_token'', ''connect_timeout'', ''database'', ''dsn'', ''host'', ''interface'', ''password'', ''port'',
      ''secure'', ''send_receive_timeout'', ''settings'', ''username''}"

definition RESERVED_SETTINGS :: "string set" where
  "RESERVED_SETTINGS = {''max_block_size'', ''max_execution_time''}"

record clickhouse_connection =
  ch_host :: string
  ch_database :: string
  ch_username :: string
  ch_password :: secret
  ch_port :: int
  ch_secure :: bool
  ch_settings :: "(string \<times> pyobj) list"
  ch_client_options :: "(string \<times> pyobj) list"

text \<open>\<open>__post_init__\<close>.\<close>

definition ClickHouseConnection ::
    "pyobj \<Rightarrow> pyobj \<Rightarrow> pyobj \<Rightarrow> secret_arg \<Rightarrow> pyobj \<Rightarrow> pyobj \<Rightarrow> (string \<times> pyobj) list \<Rightarrow> (string \<times> pyobj) list
       \<Rightarrow> clickhouse_connection result" where
  "ClickHouseConnection host db username password port secure settings client_options =
     r_bind (nonempty_str host) (\<lambda>h.
     r_bind (nonempty_str db) (\<lambda>d.
     r_bind (nonempty_str username) (\<lambda>u.
     r_bind (port_arg port) (\<lambda>p.
     r_bind (bool_arg secure) (\<lambda>s.
     r_bind (validate_secret password) (\<lambda>pw.
     Inr \<lparr>ch_host = h, ch_database = d, ch_username = u, ch_password = pw, ch_port = p, ch_secure = s,
          ch_settings = settings, ch_client_options = client_options\<rparr>))))))"

record ch_args =
  a_host :: pyobj
  a_database :: pyobj
  a_username :: pyobj
  a_password :: secret_arg
  a_port :: pyobj
  a_secure :: pyobj
  a_settings :: mapping_arg
  a_client_options :: mapping_arg

definition from_options_ch :: "heap \<Rightarrow> ch_args \<Rightarrow> clickhouse_connection result" where
  "from_options_ch h a =
     r_bind (freeze_options h (a_settings a) RESERVED_SETTINGS) (\<lambda>settings.
     r_bind (freeze_options h (a_client_options a) RESERVED_CLIENT_OPTIONS) (\<lambda>client_options.
     ClickHouseConnection (a_host a) (a_database a) (a_username a) (a_password a) (a_port a) (a_secure a)
       settings client_options))"

text \<open>
  The keyword arguments for the driver: the connector's own, updated with the thawed options.
  \<open>environ\<close> is the process environment in which a secret is looked up.
\<close>

definition managed_kwargs_ch ::
    "clickhouse_connection \<Rightarrow> string \<Rightarrow> resource_limits \<Rightarrow> (string \<times> pyobj) list" where
  "managed_kwargs_ch c password limits =
     [(''host'', PStr (ch_host c)), (''port'', PInt (ch_port c)), (''username'', PStr (ch_username c)),
      (''password'', PStr password), (''database'', PStr (ch_database c)), (''secure'', PBool (ch_secure c)),
      (''connect_timeout'', connect_timeout_seconds limits),
      (''send_receive_timeout'', query_timeout_seconds limits)]"

definition client_kwargs ::
    "heap \<Rightarrow> (string \<times> string) list \<Rightarrow> clickhouse_connection \<Rightarrow> resource_limits \<Rightarrow> (string \<times> pyobj) list result" where
  "client_kwargs h environ c limits =
     r_bind (resolve_secret environ (ch_password c)) (\<lambda>password.
     r_bind (thaw_options h (ch_client_options c)) (\<lambda>options.
     Inr (dict_update (managed_kwargs_ch c password limits) options)))"

definition settings_kwargs :: "heap \<Rightarrow> clickhouse_connection \<Rightarrow> (string \<times> pyobj) list result" where
  "settings_kwargs h c = thaw_options h (ch_settings c)"

definition ClickHouseConnection_repr :: "clickhouse_connection \<Rightarrow> string" where
  "ClickHouseConnection_repr c =
     ''ClickHouseConnection('' @ ''host='' @ py_repr_str (ch_host c) @ '', database='' @ py_repr_str (ch_database c)
     @ '', username='' @ py_repr_str (ch_username c) @ '', '' @ ''password=<redacted>, ''
     @ ''port='' @ int_str (ch_port c) @ '', secure='' @ py_repr_bool (ch_secure c) @ '', ''
     @ ''settings='' @ py_repr_str_tuple (option_keys (ch_settings c)) @ '', ''
     @ ''client_options='' @ py_repr_str_tuple (option_keys (ch_client_options c)) @ '')''"

section \<open>The driver\<close>

datatype schema_probe = ArrowTable arrow_schema | NotArrow

record ch_driver =
  drv_installed :: bool
  drv_get_client :: "(string \<times> pyobj) list \<Rightarrow> unit result"
  drv_query :: "string \<Rightarrow> (string \<times> string) list \<Rightarrow> pyobj list list result"
  drv_query_arrow :: "string \<Rightarrow> (string \<times> pyobj) list \<Rightarrow> schema_probe result"
  drv_close :: "unit result"

definition driver_ch :: "ch_driver \<Rightarrow> unit result" where
  "driver_ch d = raise_if (\<not> drv_installed d) DependencyError"

text \<open>
  What Arrow and Daft contribute to discovery: serialisation of a field, and consuming it.
\<close>

record probes =
  pr_serialize :: "arrow_field \<Rightarrow> arrow_error option"
  pr_daft :: "arrow_field \<Rightarrow> unit result"

text \<open>Opening the client: the driver is imported, then the arguments are built.\<close>

definition open_client ::
    "heap \<Rightarrow> (string \<times> string) list \<Rightarrow> ch_driver \<Rightarrow> clickhouse_connection \<Rightarrow> resource_limits \<Rightarrow> unit result" where
  "open_client h environ d c limits =
     r_bind (driver_ch d) (\<lambda>_.
     r_bind (client_kwargs h environ c limits) (\<lambda>kwargs. drv_get_client d kwargs))"

text \<open>\<open>_close_client(client)\<close>: there is a client when opening succeeded.\<close>

definition client_closes :: "ch_driver \<Rightarrow> unit result \<Rightarrow> unit result list" where
  "client_closes d opened = (case opened of Inr _ \<Rightarrow> [drv_close d] | Inl _ \<Rightarrow> [])"

section \<open>Schema discovery\<close>

fun probe_schema :: "schema_probe \<Rightarrow> arrow_schema result" where
  "probe_schema (ArrowTable sch) = Inr sch"
| "probe_schema NotArrow = Inl SchemaError"

definition schema_body ::
    "heap \<Rightarrow> probes \<Rightarrow> ch_driver \<Rightarrow> clickhouse_connection \<Rightarrow> qualified_table \<Rightarrow> clickhouse_schema_plan result" where
  "schema_body h pr d c t =
     r_bind (table_sql t) (\<lambda>name.
     r_bind (drv_query d (''DESCRIBE TABLE '' @ name) []) (\<lambda>rows.
     r_bind (parse_describe_columns rows) (\<lambda>columns.
     r_bind (render_schema_projection columns) (\<lambda>projection.
     r_bind (settings_kwargs h c) (\<lambda>settings.
     r_bind (drv_query_arrow d (''SELECT '' @ projection @ '' FROM '' @ name @ '' LIMIT 0'') settings) (\<lambda>probe.
     r_bind (probe_schema probe) (\<lambda>sch.
     r_bind (canonical_schema (pr_serialize pr) rows sch) (\<lambda>arrow_schema.
     r_bind (validate_daft_arrow_schema (pr_daft pr) arrow_schema) (\<lambda>_.
     Inr \<lparr>plan_schema = arrow_schema, plan_columns = columns\<rparr>)))))))))"

definition kept_by_schema_discovery :: "exn \<Rightarrow> bool" where
  "kept_by_schema_discovery e \<longleftrightarrow> e = CompatibilityError \<or> e = DependencyError \<or> e = SchemaError"

definition discover_schema_ch ::
    "heap \<Rightarrow> (string \<times> string) list \<Rightarrow> probes \<Rightarrow> ch_driver \<Rightarrow> clickhouse_connection \<Rightarrow> qualified_table
       \<Rightarrow> resource_limits \<Rightarrow> clickhouse_schema_plan result" where
  "discover_schema_ch h environ pr d c t limits =
     (let opened = open_client h environ d c limits
      in finally_close SchemaError (client_closes d opened)
           (handle_driver_errors translate_clickhouse_error kept_by_schema_discovery SchemaError
             (r_bind opened (\<lambda>_. schema_body h pr d c t))))"

section \<open>Partition discovery\<close>

definition LOCAL_MERGETREE_ENGINES :: "string list" where
  "LOCAL_MERGETREE_ENGINES =
     [''AggregatingMergeTree'', ''CollapsingMergeTree'', ''GraphiteMergeTree'', ''MergeTree'',
      ''ReplacingMergeTree'', ''SummingMergeTree'', ''VersionedCollapsingMergeTree'']"

record partition_metadata =
  partition_id :: string
  bytes_on_disk :: int

record partition_discovery =
  pd_supported :: bool
  pd_partitions :: "partition_metadata list"

definition table_engine :: "pyobj list list \<Rightarrow> string result" where
  "table_engine rows =
     (case rows of
        [] \<Rightarrow> Inl DatabaseObjectNotFoundError
      | [row] \<Rightarrow> (case row of [PStr e] \<Rightarrow> Inr e | _ \<Rightarrow> Inl DiscoveryError)
      | _ \<Rightarrow> Inl DiscoveryError)"

definition has_physical_partition_column :: "pyobj list list \<Rightarrow> bool result" where
  "has_physical_partition_column rows =
     (case rows of
        [] \<Rightarrow> Inr False
      | [row] \<Rightarrow> if row = [PStr ''_partition_id''] then Inr True else Inl DiscoveryError
      | _ \<Rightarrow> Inl DiscoveryError)"

fun partition_row :: "pyobj list \<Rightarrow> partition_metadata result" where
  "partition_row [PStr i, PInt n] =
     (if i = [] \<or> n < 0 then Inl DiscoveryError else Inr \<lparr>partition_id = i, bytes_on_disk = n\<rparr>)"
| "partition_row _ = Inl DiscoveryError"

definition ENGINE_QUERY :: string where
  "ENGINE_QUERY = ''SELECT engine FROM system.tables WHERE database = %(database)s AND name = %(table)s''"

definition COLUMN_QUERY :: string where
  "COLUMN_QUERY =
     ''SELECT name FROM system.columns '' @ ''WHERE database = %(database)s AND table = %(table)s ''
     @ ''AND name = '' @ [CHR 0x27] @ ''_partition_id'' @ [CHR 0x27]"

definition PARTS_QUERY :: string where
  "PARTS_QUERY =
     ''SELECT partition_id, sum(bytes_on_disk) AS bytes_on_disk '' @ ''FROM system.parts ''
     @ ''WHERE active AND database = %(database)s AND table = %(table)s ''
     @ ''GROUP BY partition_id ORDER BY partition_id''"

definition parse_partitions :: "pyobj list list \<Rightarrow> partition_discovery result" where
  "parse_partitions rows =
     r_bind (r_map partition_row rows) (\<lambda>partitions.
     if card (set (map partition_id partitions)) \<noteq> length partitions then Inl DiscoveryError
     else Inr \<lparr>pd_supported = True, pd_partitions = partitions\<rparr>)"

definition unsupported_partitions :: partition_discovery where
  "unsupported_partitions = \<lparr>pd_supported = False, pd_partitions = []\<rparr>"

definition partitions_body :: "ch_driver \<Rightarrow> qualified_table \<Rightarrow> partition_discovery result" where
  "partitions_body d t =
     (let parameters = [(''database'', database t), (''table'', table t)]
      in r_bind (r_bind (drv_query d ENGINE_QUERY parameters) table_engine) (\<lambda>engine.
         if engine \<notin> set LOCAL_MERGETREE_ENGINES then Inr unsupported_partitions
         else r_bind (r_bind (drv_query d COLUMN_QUERY parameters) has_physical_partition_column) (\<lambda>physical.
              if physical then Inr unsupported_partitions
              else r_bind (drv_query d PARTS_QUERY parameters) parse_partitions)))"

definition discover_partitions ::
    "heap \<Rightarrow> (string \<times> string) list \<Rightarrow> ch_driver \<Rightarrow> clickhouse_connection \<Rightarrow> qualified_table
       \<Rightarrow> resource_limits \<Rightarrow> partition_discovery result" where
  "discover_partitions h environ d c t limits =
     (let opened = open_client h environ d c limits
      in finally_close DiscoveryError (client_closes d opened)
           (handle_driver_errors translate_clickhouse_error is_daft_olap_error DiscoveryError
             (r_bind opened (\<lambda>_. partitions_body d t))))"


section \<open>Options cannot override what the connector manages\<close>

lemma from_options_ch_Inr:
  assumes "from_options_ch h a = Inr c"
  shows "set (map fst (ch_settings c)) \<inter> RESERVED_SETTINGS = {}"
    and "set (map fst (ch_client_options c)) \<inter> RESERVED_CLIENT_OPTIONS = {}"
    and "1 \<le> ch_port c" "ch_port c \<le> MAX_PORT" "ch_host c \<noteq> []" "ch_database c \<noteq> []" "ch_username c \<noteq> []"
proof -
  from assms obtain se co where f: "freeze_options h (a_settings a) RESERVED_SETTINGS = Inr se"
      "freeze_options h (a_client_options a) RESERVED_CLIENT_OPTIONS = Inr co"
    and c: "ClickHouseConnection (a_host a) (a_database a) (a_username a) (a_password a) (a_port a) (a_secure a) se co = Inr c"
    by (auto simp: from_options_ch_def r_bind_Inr_iff)
  from c have e: "ch_settings c = se" "ch_client_options c = co" "nonempty_str (a_host a) = Inr (ch_host c)"
      "nonempty_str (a_database a) = Inr (ch_database c)" "nonempty_str (a_username a) = Inr (ch_username c)"
      "port_arg (a_port a) = Inr (ch_port c)"
    by (auto simp: ClickHouseConnection_def r_bind_Inr_iff)
  show "set (map fst (ch_settings c)) \<inter> RESERVED_SETTINGS = {}" "set (map fst (ch_client_options c)) \<inter> RESERVED_CLIENT_OPTIONS = {}"
    using freeze_options_not_reserved f e by auto
  show "1 \<le> ch_port c" "ch_port c \<le> MAX_PORT" using e(6) by (auto simp: port_arg_def bounded_int_Inr_iff)
  show "ch_host c \<noteq> []" "ch_database c \<noteq> []" "ch_username c \<noteq> []"
    using e(3-5) by (auto elim!: nonempty_str.elims split: if_splits)
qed

lemma managed_keys_reserved: "set (map fst (managed_kwargs_ch c p l)) \<subseteq> RESERVED_CLIENT_OPTIONS"
  by (simp add: managed_kwargs_ch_def RESERVED_CLIENT_OPTIONS_def)

interpretation clickhouse_arguments: managed_arguments RESERVED_CLIENT_OPTIONS managed_kwargs_ch ch_client_options
  by unfold_locales (rule managed_keys_reserved)

lemma client_kwargs_managed:
  assumes "from_options_ch h a = Inr c" and "client_kwargs h' environ c limits = Inr kw"
    and "k \<in> RESERVED_CLIENT_OPTIONS"
  shows "\<exists>p. resolve_secret environ (ch_password c) = Inr p \<and> map_of kw k = map_of (managed_kwargs_ch c p limits) k"
proof -
  from assms(2) obtain p o' where p: "resolve_secret environ (ch_password c) = Inr p"
    and t: "thaw_options h' (ch_client_options c) = Inr o'" and kw: "kw = dict_update (managed_kwargs_ch c p limits) o'"
    by (auto simp: client_kwargs_def r_bind_Inr_iff)
  have "map_of kw k = map_of (managed_kwargs_ch c p limits) k"
    unfolding kw by (rule clickhouse_arguments.managed_kept [OF t from_options_ch_Inr(2) [OF assms(1)] assms(3)])
  then show ?thesis using p by blast
qed

section \<open>Discovery\<close>

lemma discover_schema_ch_contained:
  assumes "discover_schema_ch h environ pr d c t limits = Inl e"
  shows "contained e"
  using assms unfolding discover_schema_ch_def Let_def
  by (rule clickhouse_errors.guarded_contained) (auto simp: kept_by_schema_discovery_def)

lemma discover_partitions_contained:
  assumes "discover_partitions h environ d c t limits = Inl e"
  shows "contained e"
  using assms unfolding discover_partitions_def Let_def
  by (rule clickhouse_errors.guarded_contained) auto

lemma canonical_schema_Inr:
  assumes "canonical_schema serialize rows sch = Inr sch'"
  shows "sch' = sch" and "\<exists>cs. parse_describe_columns rows = Inr cs \<and> schema_names sch = map col_name cs"
    and "distinct (schema_names sch)"
  using assms by (auto simp: canonical_schema_def r_bind_Inr_iff parse_describe_columns_Inr_iff split: if_splits)

lemma validate_daft_Inr_iff:
  "validate_daft_arrow_schema daft sch = Inr u \<longleftrightarrow> (\<forall>f \<in> set (schema_fields sch). daft f = Inr ())"
proof -
  have "(case r of Inl e \<Rightarrow> if is_exception e then Inl CompatibilityError else Inl e | Inr u \<Rightarrow> Inr u) = Inr ()
      \<longleftrightarrow> r = Inr ()" for r :: "unit result" by (cases r) auto
  then show ?thesis unfolding validate_daft_arrow_schema_def r_all_Inr_iff by simp
qed

text \<open>A discovered plan: the described columns and the probed schema agree, and Daft accepts every field.\<close>

lemma discover_schema_ch_Inr:
  assumes "discover_schema_ch h environ pr d c t limits = Inr plan"
  shows "map col_name (plan_columns plan) = schema_names (plan_schema plan)"
    and "distinct (schema_names (plan_schema plan))"
    and "\<forall>f \<in> set (schema_fields (plan_schema plan)). pr_daft pr f = Inr ()"
    and "\<forall>x \<in> set (plan_columns plan). transport_type_expression (transport_type x) = Inr (transport_type x)"
    and "\<forall>x \<in> set (plan_columns plan). valid_identifier (col_name x)"
proof -
  from assms have "schema_body h pr d c t = Inr plan"
    unfolding discover_schema_ch_def Let_def clickhouse_errors.guarded_Inr_iff by (auto simp: r_bind_Inr_iff)
  then obtain rows columns projection sch where
    cols: "parse_describe_columns rows = Inr columns" and proj: "render_schema_projection columns = Inr projection" and
    can: "canonical_schema (pr_serialize pr) rows sch = Inr (plan_schema plan)" and
    daft: "validate_daft_arrow_schema (pr_daft pr) (plan_schema plan) = Inr ()" and pc: "plan_columns plan = columns"
    by (auto simp: schema_body_def r_bind_Inr_iff)
  note cs = canonical_schema_Inr [OF can]
  show "map col_name (plan_columns plan) = schema_names (plan_schema plan)" using cs(1,2) cols pc by auto
  show "distinct (schema_names (plan_schema plan))" using cs by simp
  show "\<forall>f \<in> set (schema_fields (plan_schema plan)). pr_daft pr f = Inr ()"
    using daft by (simp add: validate_daft_Inr_iff)
  show "\<forall>x \<in> set (plan_columns plan). transport_type_expression (transport_type x) = Inr (transport_type x)"
    using described_columns_fixpoint [OF cols] pc by simp
  have "\<exists>s. render_schema_column x = Inr s" if "x \<in> set columns" for x
    using proj that by (auto simp: render_schema_projection_def r_bind_Inr_iff r_map_Inr_iff list_all2_conv_all_nth in_set_conv_nth)
  then show "\<forall>x \<in> set (plan_columns plan). valid_identifier (col_name x)"
    using pc by (auto simp: render_schema_column_def r_bind_Inr_iff quote_identifier_Inr_iff)
qed

text \<open>Discovered partitions: nonempty distinct identifiers and weights that are not negative.\<close>

lemma partition_row_Inr: "partition_row r = Inr m \<Longrightarrow> partition_id m \<noteq> [] \<and> 0 \<le> bytes_on_disk m"
  by (auto elim!: partition_row.elims split: if_splits)

lemma discover_partitions_Inr:
  assumes "discover_partitions h environ d c t limits = Inr pd"
  shows "distinct (map partition_id (pd_partitions pd))"
    and "\<forall>m \<in> set (pd_partitions pd). partition_id m \<noteq> [] \<and> 0 \<le> bytes_on_disk m"
    and "\<not> pd_supported pd \<Longrightarrow> pd_partitions pd = []"
proof -
  from assms have b: "partitions_body d t = Inr pd"
    unfolding discover_partitions_def Let_def clickhouse_errors.guarded_Inr_iff by (auto simp: r_bind_Inr_iff)
  consider (none) "pd = unsupported_partitions"
    | (parts) rows ms where "r_map partition_row rows = Inr ms" "card (set (map partition_id ms)) = length ms"
        "pd = \<lparr>pd_supported = True, pd_partitions = ms\<rparr>"
    using b by (auto simp: partitions_body_def Let_def r_bind_Inr_iff parse_partitions_def split: if_splits)
  then show "distinct (map partition_id (pd_partitions pd))"
    and "\<forall>m \<in> set (pd_partitions pd). partition_id m \<noteq> [] \<and> 0 \<le> bytes_on_disk m"
    and "\<not> pd_supported pd \<Longrightarrow> pd_partitions pd = []"
  proof (atomize (full), cases)
    case none
    then show "distinct (map partition_id (pd_partitions pd)) \<and>
      (\<forall>m\<in>set (pd_partitions pd). partition_id m \<noteq> [] \<and> 0 \<le> bytes_on_disk m) \<and>
      (\<not> pd_supported pd \<longrightarrow> pd_partitions pd = [])" by (simp add: unsupported_partitions_def)
  next
    case parts
    have "distinct (map partition_id ms)" using parts(2) by (intro card_distinct) simp
    moreover have "partition_id m \<noteq> [] \<and> 0 \<le> bytes_on_disk m" if "m \<in> set ms" for m
    proof -
      from parts(1) that obtain r where "partition_row r = Inr m"
        by (auto simp: r_map_Inr_iff list_all2_conv_all_nth in_set_conv_nth)
      then show ?thesis by (rule partition_row_Inr)
    qed
    ultimately show "distinct (map partition_id (pd_partitions pd)) \<and>
      (\<forall>m\<in>set (pd_partitions pd). partition_id m \<noteq> [] \<and> 0 \<le> bytes_on_disk m) \<and>
      (\<not> pd_supported pd \<longrightarrow> pd_partitions pd = [])" using parts(3) by simp
  qed
qed

end
