(* ===== verification/Doris_Schema.thy ===== *)
theory Doris_Schema
  imports Contracts
begin

text \<open>
  \<^verbatim>\<open>doris/schema.py\<close>: the rows of \<open>DESCRIBE\<close>, and the Arrow type of every Doris type the
  connector supports.
\<close>

section \<open>Operations\<close>

record doris_column =
  dc_name :: string
  dc_type :: string
  dc_nullable :: bool

text \<open>\<open>str(value).upper()\<close> is \<open>YES\<close> or \<open>NO\<close> only for text: no other driver value prints so.\<close>

fun nullable_text :: "pyobj \<Rightarrow> string" where
  "nullable_text (PStr s) = py_upper s"
| "nullable_text _ = []"

definition describe_row_doris :: "pyobj list \<Rightarrow> doris_column result" where
  "describe_row_doris row =
     (case row of
        n # t # nullable # _ \<Rightarrow>
          (case (n, t) of
             (PStr name, PStr type) \<Rightarrow>
               (if name = [] \<or> CHR 0x00 \<in> set name \<or> py_strip type = [] then Inl SchemaError
                else if nullable_text nullable \<noteq> ''YES'' \<and> nullable_text nullable \<noteq> ''NO'' then Inl SchemaError
                else Inr \<lparr>dc_name = name, dc_type = type, dc_nullable = (nullable_text nullable = ''YES'')\<rparr>)
           | _ \<Rightarrow> Inl SchemaError)
      | _ \<Rightarrow> Inl SchemaError)"

definition parse_describe_rows :: "pyobj list list \<Rightarrow> doris_column list result" where
  "parse_describe_rows rows =
     r_bind (r_map describe_row_doris rows) (\<lambda>columns.
     if columns = [] then Inl SchemaError
     else if card (set (map dc_name columns)) \<noteq> length columns then Inl SchemaError
     else Inr columns)"

definition bounded_integer_argument :: "string option \<Rightarrow> int \<Rightarrow> int \<Rightarrow> int result" where
  "bounded_integer_argument arguments minimum maximum =
     (case arguments of
        None \<Rightarrow> Inl SchemaError
      | Some a \<Rightarrow>
          (if \<not> py_isdigit (py_strip a) then Inl SchemaError
           else r_bind (py_int (py_strip a)) (\<lambda>v.
                if minimum \<le> v \<and> v \<le> maximum then Inr v else Inl SchemaError)))"

definition MAX_DECIMAL_PRECISION_DORIS :: int where
  "MAX_DECIMAL_PRECISION_DORIS = 38"

definition is_value_error :: "exn \<Rightarrow> bool" where
  "is_value_error e \<longleftrightarrow> e = ValueError"

definition decimal_to_arrow :: "string option \<Rightarrow> arrow_type result" where
  "decimal_to_arrow arguments =
     (case arguments of
        None \<Rightarrow> Inl SchemaError
      | Some a \<Rightarrow>
          (case map py_strip (py_split (CHR '','') a) of
             [p, s] \<Rightarrow>
               r_bind (r_catch (r_map py_int [p, s]) is_value_error (\<lambda>_. Inl SchemaError)) (\<lambda>values.
                 let precision = values ! 0; scale = values ! 1
                 in if precision \<le> 0 \<or> MAX_DECIMAL_PRECISION_DORIS < precision \<or> scale < 0 \<or> precision < scale
                    then Inl SchemaError
                    else Inr (ArrowDecimal128 precision scale))
           | _ \<Rightarrow> Inl SchemaError))"

definition UNSUPPORTED_PREFIXES :: "string list" where
  "UNSUPPORTED_PREFIXES = [''ARRAY<'', ''MAP<'', ''STRUCT<'']"

definition UNSUPPORTED_TYPES :: "string list" where
  "UNSUPPORTED_TYPES = [''AGG_STATE'', ''BITMAP'', ''HLL'', ''LARGEINT'', ''QUANTILE_STATE'', ''VARIANT'']"

definition STRING_LENGTH_LIMITS :: "(string \<times> int) list" where
  "STRING_LENGTH_LIMITS = [(''CHAR'', 255), (''VARCHAR'', 65533)]"

definition DORIS_SIMPLE :: "(string \<times> arrow_type) list" where
  "DORIS_SIMPLE =
     [(''BOOLEAN'', ArrowBool), (''TINYINT'', ArrowInt8), (''SMALLINT'', ArrowInt16), (''INT'', ArrowInt32),
      (''INTEGER'', ArrowInt32), (''BIGINT'', ArrowInt64), (''FLOAT'', ArrowFloat32), (''DOUBLE'', ArrowFloat64),
      (''STRING'', ArrowString), (''TEXT'', ArrowString), (''JSON'', ArrowString), (''JSONB'', ArrowString),
      (''DATE'', ArrowDate32), (''DATEV2'', ArrowDate32)]"

definition DORIS_DECIMALS :: "string list" where
  "DORIS_DECIMALS =
     [''DECIMAL'', ''DECIMALV2'', ''DECIMALV3'', ''DECIMAL32'', ''DECIMAL64'', ''DECIMAL128'', ''DECIMAL256'']"

text \<open>
  \<open>_TYPE_PATTERN.fullmatch\<close>: an upper-case name, white space, and an optional parenthesised
  text without closing parenthesis. The classes are disjoint, so the match is unique.
\<close>

definition is_base_char :: "char \<Rightarrow> bool" where
  "is_base_char c \<longleftrightarrow> is_upper_letter c \<or> is_ascii_digit c \<or> c = CHR ''_''"

definition match_doris_type :: "string \<Rightarrow> (string \<times> string option) option" where
  "match_doris_type s =
     (let base = takeWhile is_base_char s; r = py_lstrip (dropWhile is_base_char s)
      in if base = [] \<or> \<not> is_upper_letter (hd base) then None
         else if r = [] then Some (base, None)
         else if 2 \<le> length r \<and> hd r = CHR ''('' \<and> last r = CHR '')'' \<and> CHR '')'' \<notin> set (butlast (tl r))
         then Some (base, Some (butlast (tl r)))
         else None)"

definition doris_type_to_arrow :: "string \<Rightarrow> arrow_type result" where
  "doris_type_to_arrow doris_type =
     (let normalized = py_upper (py_strip doris_type)
      in if list_ex (py_startswith normalized) UNSUPPORTED_PREFIXES then Inl SchemaError
         else case match_doris_type normalized of
           None \<Rightarrow> Inl SchemaError
         | Some (base, arguments) \<Rightarrow>
             (if base \<in> set UNSUPPORTED_TYPES then Inl SchemaError
              else case map_of DORIS_SIMPLE base of
                Some t \<Rightarrow> if arguments \<noteq> None then Inl SchemaError else Inr t
              | None \<Rightarrow>
                  (case map_of STRING_LENGTH_LIMITS base of
                     Some hi \<Rightarrow> r_bind (bounded_integer_argument arguments 1 hi) (\<lambda>_. Inr ArrowString)
                   | None \<Rightarrow>
                       (if base = ''DATETIME'' \<or> base = ''DATETIMEV2'' then
                          (if arguments \<noteq> None
                           then r_bind (bounded_integer_argument arguments 0 6) (\<lambda>_. Inr ArrowTimestampUs)
                           else Inr ArrowTimestampUs)
                        else if base \<in> set DORIS_DECIMALS then decimal_to_arrow arguments
                        else Inl SchemaError))))"

definition canonical_schema_doris :: "doris_column list \<Rightarrow> arrow_schema result" where
  "canonical_schema_doris columns =
     r_bind (r_map (\<lambda>c. r_bind (doris_type_to_arrow (dc_type c)) (\<lambda>t.
               Inr \<lparr>field_name = dc_name c, field_type = t, field_nullable = dc_nullable c\<rparr>)) columns)
       (\<lambda>fs. Inr \<lparr>schema_fields = fs, schema_metadata = []\<rparr>)"

definition project_schema_doris :: "arrow_schema \<Rightarrow> string list \<Rightarrow> arrow_schema result" where
  "project_schema_doris sch columns =
     r_bind (r_map (schema_field sch) columns) (\<lambda>fs.
     Inr \<lparr>schema_fields = fs, schema_metadata = schema_metadata sch\<rparr>)"

lemma project_schema_doris_eq: "project_schema_doris = project_schema"
  by (intro ext) (simp add: project_schema_doris_def project_schema_def)

section \<open>What a supported type is\<close>

text \<open>The Arrow types a Doris table can have.\<close>

fun doris_arrow_type :: "arrow_type \<Rightarrow> bool" where
  "doris_arrow_type (ArrowDecimal128 p s) = (1 \<le> p \<and> p \<le> 38 \<and> 0 \<le> s \<and> s \<le> p)"
| "doris_arrow_type ArrowUInt64 = False"
| "doris_arrow_type (ArrowOther _) = False"
| "doris_arrow_type _ = True"

lemma decimal_to_arrow_ok: "decimal_to_arrow a = Inr t \<Longrightarrow> doris_arrow_type t"
  by (auto simp: decimal_to_arrow_def Let_def MAX_DECIMAL_PRECISION_DORIS_def split: option.splits list.splits if_splits)

lemma decimal_to_arrow_error: "decimal_to_arrow a = Inl e \<Longrightarrow> e = SchemaError"
  by (auto simp: decimal_to_arrow_def Let_def r_bind_Inl_iff r_catch_Inl_iff is_value_error_def
      dest: py_int_error split: option.splits list.splits if_splits)

lemma doris_simple_ok: "map_of DORIS_SIMPLE base = Some t \<Longrightarrow> doris_arrow_type t"
  by (auto simp: DORIS_SIMPLE_def split: if_splits)

lemma doris_type_to_arrow_ok:
  "doris_type_to_arrow s = Inr t \<Longrightarrow> doris_arrow_type t"
  using doris_simple_ok decimal_to_arrow_ok
  by (auto simp: doris_type_to_arrow_def Let_def split: option.splits if_splits)

text \<open>Errors: \<open>SchemaError\<close>, and \<open>ValueError\<close> when \<open>int\<close> rejects digits that \<open>isdigit\<close> accepts.\<close>

lemma bounded_integer_argument_error:
  "bounded_integer_argument a lo hi = Inl e \<Longrightarrow> e = SchemaError \<or> e = ValueError"
  by (auto simp: bounded_integer_argument_def r_bind_Inl_iff dest: py_int_error split: option.splits if_splits)

lemma doris_type_to_arrow_error:
  "doris_type_to_arrow s = Inl e \<Longrightarrow> e = SchemaError \<or> e = ValueError"
  by (auto simp: doris_type_to_arrow_def Let_def r_bind_Inl_iff dest: bounded_integer_argument_error decimal_to_arrow_error
      split: option.splits if_splits)

lemma parse_describe_rows_Inr_iff:
  "parse_describe_rows rows = Inr cs \<longleftrightarrow>
     list_all2 (\<lambda>r c. describe_row_doris r = Inr c) rows cs \<and> rows \<noteq> [] \<and> distinct (map dc_name cs)"
proof -
  have d: "card (set (map dc_name cs)) = length cs \<longleftrightarrow> distinct (map dc_name cs)"
    using card_distinct [of "map dc_name cs"] distinct_card [of "map dc_name cs"] by auto
  show ?thesis
    unfolding parse_describe_rows_def using d
    by (auto simp: r_bind_Inr_iff r_map_Inr_iff split: if_splits)
qed

lemma describe_row_doris_valid: "describe_row_doris r = Inr c \<Longrightarrow> valid_identifier (dc_name c)"
  by (auto simp: describe_row_doris_def valid_identifier_def split: list.splits pyobj.splits if_splits)

lemma describe_row_doris_error: "describe_row_doris r = Inl e \<Longrightarrow> e = SchemaError"
  by (auto simp: describe_row_doris_def split: list.splits pyobj.splits if_splits)

text \<open>A described table has a schema with the same names in the same order, all distinct and valid.\<close>

lemma doris_schema_of_rows:
  assumes "parse_describe_rows rows = Inr cs" and "canonical_schema_doris cs = Inr sch"
  shows "schema_names sch = map dc_name cs" and "distinct (schema_names sch)"
    and "\<forall>n \<in> set (schema_names sch). valid_identifier n"
    and "\<forall>f \<in> set (schema_fields sch). doris_arrow_type (field_type f)"
proof -
  from assms(2) have l: "list_all2 (\<lambda>c f. \<exists>t. doris_type_to_arrow (dc_type c) = Inr t
      \<and> f = \<lparr>field_name = dc_name c, field_type = t, field_nullable = dc_nullable c\<rparr>) cs (schema_fields sch)"
    by (auto simp: canonical_schema_doris_def r_bind_Inr_iff r_map_Inr_iff elim!: list_all2_mono)
  from l show names: "schema_names sch = map dc_name cs"
    unfolding schema_names_def by (induction rule: list_all2_induct) auto
  show "distinct (schema_names sch)" using assms(1) names by (simp add: parse_describe_rows_Inr_iff)
  have "valid_identifier (dc_name c)" if "c \<in> set cs" for c
    using assms(1) that describe_row_doris_valid
    by (auto simp: parse_describe_rows_Inr_iff list_all2_conv_all_nth in_set_conv_nth)
  then show "\<forall>n \<in> set (schema_names sch). valid_identifier n" unfolding names by auto
  show "\<forall>f \<in> set (schema_fields sch). doris_arrow_type (field_type f)"
    using l doris_type_to_arrow_ok by (fastforce simp: list_all2_conv_all_nth in_set_conv_nth)
qed

end
