(* ===== verification/Py_Format.thy ===== *)
theory Py_Format
  imports Identifiers
begin

text \<open>
  Python's \<open>%\<close> formatting, which both database drivers apply to a statement and the text of
  its bound values: with a mapping (\<open>%(name)s\<close>), as clickhouse-connect binds, and with a
  tuple (\<open>%s\<close>), as PyMySQL binds. Conversions other than \<open>%s\<close> and \<open>%%\<close> do
  not occur in the connector's statements and are errors here. The locale at the end is what the
  SQL builders rely on: text without percent signs is kept, and formatting is compositional.
\<close>

abbreviation percent :: char where
  "percent \<equiv> CHR ''%''"

section \<open>Formatting\<close>

fun format_positional :: "string list \<Rightarrow> string \<Rightarrow> string result" where
  "format_positional args [] = (if args = [] then Inr [] else Inl TypeError)"
| "format_positional args [c] =
     (if c = percent then Inl ValueError
      else r_bind (format_positional args []) (\<lambda>t. Inr (c # t)))"
| "format_positional args (c # d # s) =
     (if c \<noteq> percent then r_bind (format_positional args (d # s)) (\<lambda>t. Inr (c # t))
      else if d = percent then r_bind (format_positional args s) (\<lambda>t. Inr (percent # t))
      else if d = CHR ''s'' then
        (case args of
           [] \<Rightarrow> Inl TypeError
         | a # as \<Rightarrow> r_bind (format_positional as s) (\<lambda>t. Inr (a @ t)))
      else Inl ValueError)"

text \<open>The key between \<open>%(\<close> and the matching parenthesis.\<close>

fun read_key :: "nat \<Rightarrow> string \<Rightarrow> (string \<times> string) option" where
  "read_key d [] = None"
| "read_key d (c # s) =
     (if c = CHR '')'' then
        (if d = 0 then Some ([], s) else map_option (\<lambda>(k, r). (c # k, r)) (read_key (d - 1) s))
      else map_option (\<lambda>(k, r). (c # k, r)) (read_key (if c = CHR ''('' then Suc d else d) s))"

lemma read_key_length: "read_key d s = Some (k, r) \<Longrightarrow> length r < length s"
  by (induction d s arbitrary: k r rule: read_key.induct) (fastforce split: if_splits)+

function (sequential) format_named :: "(string \<rightharpoonup> string) \<Rightarrow> string \<Rightarrow> string result" where
  "format_named env [] = Inr []"
| "format_named env (c # s) =
     (if c \<noteq> percent then r_bind (format_named env s) (\<lambda>t. Inr (c # t))
      else (case s of
              [] \<Rightarrow> Inl ValueError
            | d # s' \<Rightarrow>
                (if d = percent then r_bind (format_named env s') (\<lambda>t. Inr (percent # t))
                 else if d = CHR ''('' then
                   (case read_key 0 s' of
                      None \<Rightarrow> Inl ValueError
                    | Some (k, r) \<Rightarrow>
                        (case env k of
                           None \<Rightarrow> Inl KeyError
                         | Some v \<Rightarrow>
                             (case r of
                                CHR ''s'' # r' \<Rightarrow> r_bind (format_named env r') (\<lambda>t. Inr (v @ t))
                              | _ \<Rightarrow> Inl ValueError)))
                 else Inl ValueError)))"
  by pat_completeness auto
termination
  by (relation "measure (\<lambda>(env, s). length s)") (auto dest!: read_key_length)

declare format_named.simps(2) [simp del]

lemma format_named_plain: "c \<noteq> percent \<Longrightarrow> format_named env (c # s) = r_bind (format_named env s) (\<lambda>t. Inr (c # t))"
  by (simp add: format_named.simps(2))

lemma format_named_double:
  "format_named env (percent # percent # s) = r_bind (format_named env s) (\<lambda>t. Inr (percent # t))"
  by (simp add: format_named.simps(2))

lemma read_key_name: "list_all is_name_char k \<Longrightarrow> read_key 0 (k @ CHR '')'' # s) = Some (k, s)"
  by (induction k) (auto simp: char_class_defs)

lemma format_named_key:
  assumes "list_all is_name_char k" and "env k = Some v"
  shows "format_named env (''%('' @ k @ '')s'' @ s) = r_bind (format_named env s) (\<lambda>t. Inr (v @ t))"
  using assms by (simp add: format_named.simps(2) read_key_name)

lemma format_positional_plain:
  "c \<noteq> percent \<Longrightarrow> format_positional args (c # s) = r_bind (format_positional args s) (\<lambda>t. Inr (c # t))"
  by (cases s) simp_all

section \<open>Compositional binding\<close>

text \<open>
  \<open>binds ps a x\<close>: in every statement that contains \<open>a\<close> and is bound with \<open>ps\<close> at this point,
  formatting turns \<open>a\<close> into \<open>x\<close>.
\<close>

definition binds_named :: "('v \<Rightarrow> string) \<Rightarrow> (string \<times> 'v) list \<Rightarrow> string \<Rightarrow> string \<Rightarrow> bool" where
  "binds_named lit ps a x \<longleftrightarrow>
     (\<forall>env. (\<forall>(k, v) \<in> set ps. env k = Some (lit v)) \<longrightarrow>
        (\<forall>s. format_named env (a @ s) = r_bind (format_named env s) (\<lambda>t. Inr (x @ t))))"

definition binds_positional :: "('v \<Rightarrow> string) \<Rightarrow> 'v list \<Rightarrow> string \<Rightarrow> string \<Rightarrow> bool" where
  "binds_positional lit ps a x \<longleftrightarrow>
     (\<forall>args s. format_positional (map lit ps @ args) (a @ s) =
        r_bind (format_positional args s) (\<lambda>t. Inr (x @ t)))"

text \<open>No driver binding at all: the text is sent as it is.\<close>

definition binds_verbatim :: "'v list \<Rightarrow> string \<Rightarrow> string \<Rightarrow> bool" where
  "binds_verbatim ps a x \<longleftrightarrow> ps = [] \<and> a = x"

lemma r_bind_assoc: "r_bind (r_bind m f) g = r_bind m (\<lambda>x. r_bind (f x) g)"
  by (cases m) auto

lemma r_bind_Inr_right [simp]: "r_bind m Inr = m"
  by (cases m) auto

locale statement_binding =
  fixes binds :: "'p list \<Rightarrow> string \<Rightarrow> string \<Rightarrow> bool"
  assumes binds_plain: "percent \<notin> set s \<Longrightarrow> binds [] s s"
    and binds_append: "binds ps a x \<Longrightarrow> binds qs b y \<Longrightarrow> binds (ps @ qs) (a @ b) (x @ y)"
begin

lemma binds_plain_left: "percent \<notin> set s \<Longrightarrow> binds ps a x \<Longrightarrow> binds ps (s @ a) (s @ x)"
  using binds_append [OF binds_plain] by (metis append_Nil)

lemma binds_plain_right: "percent \<notin> set s \<Longrightarrow> binds ps a x \<Longrightarrow> binds ps (a @ s) (x @ s)"
  using binds_append [OF _ binds_plain] by (metis append_Nil2)

lemma binds_enclosed:
  "percent \<notin> set l \<Longrightarrow> percent \<notin> set r \<Longrightarrow> binds ps a x \<Longrightarrow> binds ps (l @ a @ r) (l @ x @ r)"
  by (simp add: binds_plain_left binds_plain_right)

lemma binds_between:
  assumes "percent \<notin> set m" "binds ps a x" "binds qs b y"
  shows "binds (ps @ qs) (a @ m @ b) (x @ m @ y)"
  using binds_append [OF assms(2) binds_plain_left [OF assms(1,3)]] .

lemma binds_join:
  assumes "percent \<notin> set sep" "list_all2 (\<lambda>(ps, a) x. binds ps a x) pas xs"
  shows "binds (concat (map fst pas)) (py_join sep (map snd pas)) (py_join sep xs)"
  using assms(2)
proof (induction rule: list_all2_induct)
  case Nil
  then show ?case by (simp add: binds_plain)
next
  case (Cons pa pas x xs)
  obtain ps a where pa: "pa = (ps, a)" by (cases pa)
  show ?case
  proof (cases "xs = []")
    case True
    then have "pas = []" using Cons(2) by simp
    then show ?thesis using Cons True pa by simp
  next
    case False
    then have "pas \<noteq> []" using Cons(2) by auto
    then show ?thesis
      using binds_between [OF assms(1), of ps a x] Cons pa False by (simp add: py_join_Cons)
  qed
qed

end

interpretation named_binding: statement_binding "binds_named lit" for lit
proof
  fix s :: string
  assume "percent \<notin> set s"
  then have "format_named env (s @ t) = r_bind (format_named env t) (\<lambda>u. Inr (s @ u))" for env t
    by (induction s) (auto simp: format_named_plain r_bind_assoc)
  then show "binds_named lit [] s s" by (simp add: binds_named_def)
next
  fix ps qs :: "(string \<times> 'a) list" and a x b y :: string
  assume "binds_named lit ps a x" and "binds_named lit qs b y"
  then show "binds_named lit (ps @ qs) (a @ b) (x @ y)"
    by (simp add: binds_named_def ball_Un r_bind_assoc)
qed

interpretation positional_binding: statement_binding "binds_positional lit" for lit
proof
  fix s :: string
  assume "percent \<notin> set s"
  then have "format_positional args (s @ t) = r_bind (format_positional args t) (\<lambda>u. Inr (s @ u))" for args t
    by (induction s) (auto simp: format_positional_plain r_bind_assoc)
  then show "binds_positional lit [] s s" by (simp add: binds_positional_def)
next
  fix ps qs :: "'a list" and a x b y :: string
  assume "binds_positional lit ps a x" and "binds_positional lit qs b y"
  then show "binds_positional lit (ps @ qs) (a @ b) (x @ y)"
    by (simp add: binds_positional_def r_bind_assoc)
qed

interpretation verbatim_binding: statement_binding binds_verbatim
  by unfold_locales (auto simp: binds_verbatim_def)

text \<open>The same with text that binds nothing kept as it is, for statements that are not formatted at all.\<close>

definition exact :: "('p list \<Rightarrow> string \<Rightarrow> string \<Rightarrow> bool) \<Rightarrow> 'p list \<Rightarrow> string \<Rightarrow> string \<Rightarrow> bool" where
  "exact binds ps a x \<longleftrightarrow> binds ps a x \<and> (ps = [] \<longrightarrow> a = x)"

lemma exact_statement_binding: "statement_binding binds \<Longrightarrow> statement_binding (exact binds)"
  unfolding statement_binding_def exact_def by blast

text \<open>What a driver formats in the end: the whole statement.\<close>

lemma binds_named_format:
  assumes "binds_named lit ps a x" and "\<And>k v. (k, v) \<in> set ps \<Longrightarrow> env k = Some (lit v)"
  shows "format_named env a = Inr x"
proof -
  have "\<forall>s. format_named env (a @ s) = r_bind (format_named env s) (\<lambda>t. Inr (x @ t))"
    using assms unfolding binds_named_def by blast
  then have "format_named env (a @ []) = r_bind (format_named env []) (\<lambda>t. Inr (x @ t))" by blast
  then show ?thesis by simp
qed

lemma binds_positional_format:
  assumes "binds_positional lit ps a x"
  shows "format_positional (map lit ps) a = Inr x"
proof -
  have "format_positional (map lit ps @ []) (a @ []) = r_bind (format_positional [] []) (\<lambda>t. Inr (x @ t))"
    using assms unfolding binds_positional_def by blast
  then show ?thesis by simp
qed

end
