(* ===== verification/Sql_Common.thy ===== *)
theory Sql_Common
  imports Py_Format Predicate_IR
begin

text \<open>
  What the two SQL builders have in common. Both \<open>_Renderer\<close> classes walk the predicate tree
  in the same way and differ in \<open>_value\<close>, so the walk takes \<open>_value\<close> as an argument. The
  locale states what a \<open>_value\<close> must do for the walk to be right: after the driver has bound the
  parameters, the statement contains every literal's own text at its place, and nothing else
  has changed.
\<close>

section \<open>The walk\<close>

type_synonym 'p value_renderer = "'p list \<Rightarrow> ir_value \<Rightarrow> (string \<times> 'p list) result"

fun render_values :: "'p value_renderer \<Rightarrow> 'p list \<Rightarrow> ir_value list \<Rightarrow> (string list \<times> 'p list) result" where
  "render_values val ps [] = Inr ([], ps)"
| "render_values val ps (v # vs) =
     r_bind (val ps v) (\<lambda>(t, ps1).
     r_bind (render_values val ps1 vs) (\<lambda>(ts, ps2). Inr (t # ts, ps2)))"

fun render_with :: "'p value_renderer \<Rightarrow> 'p list \<Rightarrow> predicate \<Rightarrow> (string \<times> 'p list) result" where
  "render_with val ps (Compare op l r) =
     r_bind (val ps l) (\<lambda>(a, ps1).
     r_bind (val ps1 r) (\<lambda>(b, ps2).
     Inr (''('' @ a @ '' '' @ operator_sql op @ '' '' @ b @ '')'', ps2)))"
| "render_with val ps (And p q) =
     r_bind (render_with val ps p) (\<lambda>(a, ps1).
     r_bind (render_with val ps1 q) (\<lambda>(b, ps2).
     Inr (''('' @ a @ '' AND '' @ b @ '')'', ps2)))"
| "render_with val ps (Or p q) =
     r_bind (render_with val ps p) (\<lambda>(a, ps1).
     r_bind (render_with val ps1 q) (\<lambda>(b, ps2).
     Inr (''('' @ a @ '' OR '' @ b @ '')'', ps2)))"
| "render_with val ps (Not p) =
     r_bind (render_with val ps p) (\<lambda>(a, ps1). Inr (''(NOT '' @ a @ '')'', ps1))"
| "render_with val ps (IsNull c negated) =
     r_bind (quote_identifier c) (\<lambda>q.
     Inr (''('' @ q @ '' '' @ (if negated then ''IS NOT NULL'' else ''IS NULL'') @ '')'', ps))"
| "render_with val ps (InValues c vs) =
     r_bind (render_values val ps (map Literal vs)) (\<lambda>(ts, ps1).
     r_bind (quote_identifier c) (\<lambda>q.
     Inr (''('' @ q @ '' IN ('' @ py_join '', '' ts @ ''))'', ps1)))"

section \<open>The text it stands for\<close>

fun inline_value :: "(pyobj \<Rightarrow> string) \<Rightarrow> ir_value \<Rightarrow> string" where
  "inline_value lit (Column c) = quoted c"
| "inline_value lit (Literal v) = lit v"

fun inline_predicate :: "(pyobj \<Rightarrow> string) \<Rightarrow> predicate \<Rightarrow> string" where
  "inline_predicate lit (Compare op l r) =
     ''('' @ inline_value lit l @ '' '' @ operator_sql op @ '' '' @ inline_value lit r @ '')''"
| "inline_predicate lit (And p q) =
     ''('' @ inline_predicate lit p @ '' AND '' @ inline_predicate lit q @ '')''"
| "inline_predicate lit (Or p q) =
     ''('' @ inline_predicate lit p @ '' OR '' @ inline_predicate lit q @ '')''"
| "inline_predicate lit (Not p) = ''(NOT '' @ inline_predicate lit p @ '')''"
| "inline_predicate lit (IsNull c negated) =
     ''('' @ quoted c @ '' '' @ (if negated then ''IS NOT NULL'' else ''IS NULL'') @ '')''"
| "inline_predicate lit (InValues c vs) =
     ''('' @ quoted c @ '' IN ('' @ py_join '', '' (map lit vs) @ ''))''"

definition percent_free :: "string \<Rightarrow> bool" where
  "percent_free s \<longleftrightarrow> percent \<notin> set s"

lemma percent_free_quoted: "percent_free c \<Longrightarrow> percent_free (quoted c)"
  using set_py_replace [of backtick "[backtick, backtick]" c] by (auto simp: percent_free_def quoted_def)

lemma percent_free_operator: "percent_free (operator_sql op)"
  by (cases op) (simp_all add: percent_free_def)

lemma percent_free_append [simp]: "percent_free (a @ b) \<longleftrightarrow> percent_free a \<and> percent_free b"
  by (simp add: percent_free_def)

lemma percent_free_Cons [simp]: "percent_free (c # s) \<longleftrightarrow> c \<noteq> percent \<and> percent_free s"
  by (auto simp: percent_free_def)

lemma percent_free_Nil [simp]: "percent_free []"
  by (simp add: percent_free_def)

text \<open>An integer literal is printable when \<open>str\<close> accepts it.\<close>

fun printable :: "pyobj \<Rightarrow> bool" where
  "printable (PInt i) = str_limit_ok i"
| "printable _ = True"

fun value_printable :: "ir_value \<Rightarrow> bool" where
  "value_printable (Column _) = True"
| "value_printable (Literal v) = printable v"

fun predicate_printable :: "predicate \<Rightarrow> bool" where
  "predicate_printable (Compare _ l r) = (value_printable l \<and> value_printable r)"
| "predicate_printable (And p q) = (predicate_printable p \<and> predicate_printable q)"
| "predicate_printable (Or p q) = (predicate_printable p \<and> predicate_printable q)"
| "predicate_printable (Not p) = predicate_printable p"
| "predicate_printable (IsNull _ _) = True"
| "predicate_printable (InValues _ vs) = list_all printable vs"

section \<open>Invariants of the parameter list\<close>

lemma render_values_invariant:
  assumes "\<And>ps v t ps'. I ps \<Longrightarrow> val ps v = Inr (t, ps') \<Longrightarrow> I ps'"
    and "I ps" "render_values val ps vs = Inr (ts, ps')"
  shows "I ps'"
  using assms(2,3)
proof (induction vs arbitrary: ps ts)
  case (Cons v vs)
  from Cons.prems(2) obtain t ps1 ts' where "val ps v = Inr (t, ps1)" "render_values val ps1 vs = Inr (ts', ps')"
    by (auto simp: r_bind_Inr_iff)
  then show ?case using Cons.IH assms(1) Cons.prems(1) by blast
qed simp

lemma render_with_invariant:
  assumes "\<And>ps v t ps'. I ps \<Longrightarrow> val ps v = Inr (t, ps') \<Longrightarrow> I ps'"
    and "I ps" "render_with val ps p = Inr (s, ps')"
  shows "I ps'"
  using assms(2,3)
proof (induction p arbitrary: ps s ps')
  case (Compare op l r)
  from Compare.prems(2) obtain a ps1 b where "val ps l = Inr (a, ps1)" "val ps1 r = Inr (b, ps')"
    by (auto simp: r_bind_Inr_iff)
  then show ?case using assms(1) Compare.prems(1) by blast
next
  case (And p q)
  from And.prems(2) obtain a ps1 b where "render_with val ps p = Inr (a, ps1)" "render_with val ps1 q = Inr (b, ps')"
    by (auto simp: r_bind_Inr_iff)
  then show ?case using And.IH And.prems(1) by blast
next
  case (Or p q)
  from Or.prems(2) obtain a ps1 b where "render_with val ps p = Inr (a, ps1)" "render_with val ps1 q = Inr (b, ps')"
    by (auto simp: r_bind_Inr_iff)
  then show ?case using Or.IH Or.prems(1) by blast
next
  case (Not p)
  from Not.prems(2) obtain a where "render_with val ps p = Inr (a, ps')" by (auto simp: r_bind_Inr_iff)
  then show ?case using Not.IH Not.prems(1) by blast
next
  case (InValues c vs)
  from InValues.prems(2) obtain ts where r: "render_values val ps (map Literal vs) = Inr (ts, ps')"
    by (auto simp: r_bind_Inr_iff)
  show ?case by (rule render_values_invariant [where I = I, OF _ InValues.prems(1) r]) (rule assms(1))
qed (auto simp: r_bind_Inr_iff)

section \<open>Binding\<close>

locale predicate_rendering = statement_binding binds
  for binds :: "'p list \<Rightarrow> string \<Rightarrow> string \<Rightarrow> bool" +
  fixes val :: "'p value_renderer" and lit :: "pyobj \<Rightarrow> string" and ok_name :: "string \<Rightarrow> bool"
  assumes name_binds: "ok_name c \<Longrightarrow> binds [] (quoted c) (quoted c)"
    and val_column: "val ps (Column c) = r_bind (quote_identifier c) (\<lambda>q. Inr (q, ps))"
    and val_literal: "val ps (Literal v) = Inr (t, ps') \<Longrightarrow> \<exists>qs. ps' = ps @ qs \<and> binds qs t (lit v)"
    and val_total: "wf_literal v \<Longrightarrow> printable v \<Longrightarrow> \<exists>r. val ps (Literal v) = Inr r"
begin

lemma val_binds:
  assumes "val ps v = Inr (t, ps')" and "\<And>c. c \<in> value_columns v \<Longrightarrow> ok_name c"
  shows "\<exists>qs. ps' = ps @ qs \<and> binds qs t (inline_value lit v)"
proof (cases v)
  case (Column c)
  then have "t = quoted c" "ps' = ps"
    using assms(1) by (auto simp: val_column r_bind_Inr_iff quote_identifier_Inr_iff)
  then show ?thesis using Column assms(2) name_binds by simp
next
  case (Literal l)
  then show ?thesis using assms(1) val_literal by simp
qed

lemma render_values_binds:
  assumes "render_values val ps (map Literal vs) = Inr (ts, ps')"
  shows "\<exists>qs. ps' = ps @ qs \<and> binds qs (py_join '', '' ts) (py_join '', '' (map lit vs))
    \<and> length ts = length vs"
  using assms
proof (induction vs arbitrary: ps ts)
  case Nil
  then show ?case using binds_plain [of "[]"] by simp
next
  case (Cons v vs)
  from Cons.prems obtain t ps1 ts' where t: "val ps (Literal v) = Inr (t, ps1)"
    and r: "render_values val ps1 (map Literal vs) = Inr (ts', ps')" and ts: "ts = t # ts'"
    by (auto simp: r_bind_Inr_iff)
  from val_literal [OF t] obtain q1 where q1: "ps1 = ps @ q1" "binds q1 t (lit v)" by blast
  from Cons.IH [OF r] obtain q2 where q2: "ps' = ps1 @ q2"
    "binds q2 (py_join '', '' ts') (py_join '', '' (map lit vs))" "length ts' = length vs" by blast
  show ?case
  proof (cases vs)
    case Nil
    then show ?thesis using q1 q2 ts r by simp
  next
    case (Cons w ws)
    then have "ts' \<noteq> []" using q2(3) by auto
    then show ?thesis
      using binds_between [OF _ q1(2) q2(2), of "'', ''"] q1(1) q2(1,3) ts Cons by (simp add: py_join_Cons)
  qed
qed

lemma binds_infix:
  assumes "percent_free l" "percent_free m" "percent_free r" "binds ps a x" "binds qs b y"
  shows "binds (ps @ qs) (l @ a @ m @ b @ r) (l @ x @ m @ y @ r)"
  using binds_enclosed [of l r, OF _ _ binds_between [of m, OF _ assms(4,5)]] assms(1-3)
  by (simp add: percent_free_def)

text \<open>The rendered predicate, once bound, is the predicate with its literals in place.\<close>

lemma infix_binds:
  assumes "\<exists>qs. ps1 = ps @ qs \<and> binds qs a x" and "\<exists>qs. ps2 = ps1 @ qs \<and> binds qs b y" and "percent_free op"
  shows "\<exists>qs. ps2 = ps @ qs \<and> binds qs (''('' @ a @ op @ b @ '')'') (''('' @ x @ op @ y @ '')'')"
proof -
  from assms(1,2) obtain qa qb where q: "ps1 = ps @ qa" "binds qa a x" "ps2 = ps1 @ qb" "binds qb b y" by blast
  have "binds (qa @ qb) (''('' @ a @ op @ b @ '')'') (''('' @ x @ op @ y @ '')'')"
    using binds_infix [of "''(''" op "'')''", OF _ _ _ q(2,4)] assms(3) by (simp add: percent_free_def)
  then show ?thesis using q(1,3) by (intro exI [of _ "qa @ qb"]) simp
qed

lemma render_with_binds:
  assumes "render_with val ps p = Inr (s, ps')" and "\<And>c. c \<in> referenced_columns p \<Longrightarrow> ok_name c"
  shows "\<exists>qs. ps' = ps @ qs \<and> binds qs s (inline_predicate lit p)"
  using assms
proof (induction p arbitrary: ps s ps')
  case (Compare op l r)
  from Compare.prems(1) obtain a ps1 b where a: "val ps l = Inr (a, ps1)" and b: "val ps1 r = Inr (b, ps')"
    and s: "s = ''('' @ a @ ('' '' @ operator_sql op @ '' '') @ b @ '')''" by (auto simp: r_bind_Inr_iff)
  show ?case
    using infix_binds [OF val_binds [OF a] val_binds [OF b], of "'' '' @ operator_sql op @ '' ''"] Compare.prems(2)
      percent_free_operator s by (simp add: percent_free_def)
next
  case (And p q)
  from And.prems(1) obtain a ps1 b where a: "render_with val ps p = Inr (a, ps1)"
    and b: "render_with val ps1 q = Inr (b, ps')" and s: "s = ''('' @ a @ '' AND '' @ b @ '')''"
    by (auto simp: r_bind_Inr_iff)
  show ?case
    using infix_binds [OF And.IH(1) [OF a] And.IH(2) [OF b], of "'' AND ''"] And.prems(2) s by simp
next
  case (Or p q)
  from Or.prems(1) obtain a ps1 b where a: "render_with val ps p = Inr (a, ps1)"
    and b: "render_with val ps1 q = Inr (b, ps')" and s: "s = ''('' @ a @ '' OR '' @ b @ '')''"
    by (auto simp: r_bind_Inr_iff)
  show ?case
    using infix_binds [OF Or.IH(1) [OF a] Or.IH(2) [OF b], of "'' OR ''"] Or.prems(2) s by simp
next
  case (Not p)
  from Not.prems(1) obtain a where a: "render_with val ps p = Inr (a, ps')" and s: "s = ''(NOT '' @ a @ '')''"
    by (auto simp: r_bind_Inr_iff)
  obtain qs where qs: "ps' = ps @ qs" "binds qs a (inline_predicate lit p)"
    using Not.IH [OF a] Not.prems(2) by auto
  have "binds qs s (inline_predicate lit (Not p))"
    using binds_enclosed [of "''(NOT ''" "'')''", OF _ _ qs(2)] s by simp
  then show ?case using qs(1) by auto
next
  case (IsNull c negated)
  let ?suffix = "if negated then '' IS NOT NULL)'' else '' IS NULL)''"
  have "ps' = ps" "s = ''('' @ quoted c @ ?suffix" "inline_predicate lit (IsNull c negated) = ''('' @ quoted c @ ?suffix"
    using IsNull.prems(1) by (auto simp: r_bind_Inr_iff quote_identifier_Inr_iff)
  moreover have "binds [] (''('' @ quoted c @ ?suffix) (''('' @ quoted c @ ?suffix)"
    using IsNull.prems(2) by (intro binds_enclosed name_binds) auto
  ultimately show ?case by simp
next
  case (InValues c vs)
  from InValues.prems(1) obtain ts where r: "render_values val ps (map Literal vs) = Inr (ts, ps')"
    and s: "s = (''('' @ quoted c @ '' IN ('') @ py_join '', '' ts @ ''))''"
    by (auto simp: r_bind_Inr_iff quote_identifier_Inr_iff)
  from render_values_binds [OF r] obtain qs where "ps' = ps @ qs"
    "binds qs (py_join '', '' ts) (py_join '', '' (map lit vs))" by blast
  moreover have "binds [] (quoted c) (quoted c)" using InValues.prems(2) by (simp add: name_binds)
  ultimately show ?case
    using binds_infix [of "''(''" "'' IN (''" "''))''" "[]"] s by fastforce
qed

text \<open>Rendering a well-formed predicate never fails.\<close>

lemma val_operand_total: "wf_operand v \<Longrightarrow> value_printable v \<Longrightarrow> \<exists>r. val ps v = Inr r"
  using val_total by (cases v) (auto simp: val_column)

lemma render_values_total: "list_all wf_literal vs \<Longrightarrow> list_all printable vs \<Longrightarrow> \<exists>r. render_values val ps (map Literal vs) = Inr r"
proof (induction vs arbitrary: ps)
  case (Cons v vs)
  then obtain t ps1 where "val ps (Literal v) = Inr (t, ps1)" using val_total by fastforce
  moreover from Cons obtain ts ps2 where "render_values val ps1 (map Literal vs) = Inr (ts, ps2)" by fastforce
  ultimately show ?case by simp
qed simp

lemma render_with_total: "wf_predicate p \<Longrightarrow> predicate_printable p \<Longrightarrow> \<exists>r. render_with val ps p = Inr r"
proof (induction p arbitrary: ps)
  case (Compare op l r)
  then obtain a ps1 where "val ps l = Inr (a, ps1)" using val_operand_total by fastforce
  moreover obtain b ps2 where "val ps1 r = Inr (b, ps2)" using Compare val_operand_total by fastforce
  ultimately show ?case by simp
next
  case (And p q)
  then obtain a ps1 where "render_with val ps p = Inr (a, ps1)" by fastforce
  moreover from And obtain b ps2 where "render_with val ps1 q = Inr (b, ps2)" by fastforce
  ultimately show ?case by simp
next
  case (Or p q)
  then obtain a ps1 where "render_with val ps p = Inr (a, ps1)" by fastforce
  moreover from Or obtain b ps2 where "render_with val ps1 q = Inr (b, ps2)" by fastforce
  ultimately show ?case by simp
next
  case (Not p)
  then obtain a ps1 where "render_with val ps p = Inr (a, ps1)" by fastforce
  then show ?case by simp
next
  case (InValues c vs)
  then obtain ts ps1 where "render_values val ps (map Literal vs) = Inr (ts, ps1)"
    using render_values_total by fastforce
  then show ?case using InValues by simp
qed simp

end

text \<open>What is known of a rendering without parameters: nothing is formatted, so the text is the meant one.\<close>

definition unbound :: "'p list \<Rightarrow> string \<Rightarrow> string \<Rightarrow> bool" where
  "unbound ps a x \<longleftrightarrow> (ps = [] \<longrightarrow> a = x)"

section \<open>Clauses\<close>

definition option_list :: "'a option \<Rightarrow> 'a list" where
  "option_list x = (case x of None \<Rightarrow> [] | Some y \<Rightarrow> [y])"

text \<open>\<open>WHERE\<close> with the clauses joined by \<open>AND\<close>, and the checked \<open>LIMIT\<close>.\<close>

definition where_clause :: "string list \<Rightarrow> string" where
  "where_clause clauses = (if clauses = [] then [] else '' WHERE '' @ py_join '' AND '' clauses)"

definition limit_clause :: "pyobj \<Rightarrow> string option \<Rightarrow> string result" where
  "limit_clause limit count_output_name =
     (if limit \<noteq> PNone \<and> count_output_name = None then
        (case limit of
           PInt n \<Rightarrow>
             (if n < 0 then Inl ConfigurationError
              else r_bind (py_str_int n) (\<lambda>t. Inr ('' LIMIT '' @ t)))
         | _ \<Rightarrow> Inl ConfigurationError)
      else Inr [])"

lemma percent_free_nat_str: "percent_free (nat_str n)"
  using nat_str_digits [of n] by (auto simp: percent_free_def list_all_iff is_ascii_digit_def)

lemma limit_clause_percent_free: "limit_clause limit cn = Inr s \<Longrightarrow> percent_free s"
  by (auto simp: limit_clause_def int_str_def py_str_int_Inr_iff percent_free_nat_str
      split: if_splits pyobj.splits)

lemma limit_clause_error: "limit_clause limit cn = Inl e \<Longrightarrow> e = ConfigurationError \<or> e = ValueError"
  by (auto simp: limit_clause_def r_bind_Inl_iff dest: py_str_int_error split: if_splits pyobj.splits)

end
