(* ===== verification/Py_Encoding.thy ===== *)
theory Py_Encoding
  imports Py_Values
begin

text \<open>
  \<open>str.encode("utf-8")\<close> and \<open>base64.b64encode\<close>, with which the Doris Flight transport sends
  text values, and the decoders a database applies. A byte string is a list of characters
  read as bytes. Decoding is the inverse of encoding, and the encoded text has no character
  that could end a SQL string.
\<close>

section \<open>UTF-8\<close>

definition utf8_char :: "char \<Rightarrow> string" where
  "utf8_char c =
     (if code c < 128 then [c] else [char_of (192 + code c div 64), char_of (128 + code c mod 64)])"

definition utf8_encode :: "string \<Rightarrow> string" where
  "utf8_encode s = concat (map utf8_char s)"

text \<open>The decoder for code points below 256: one byte, or a lead byte 0xC2 or 0xC3 and a continuation.\<close>

fun utf8_decode :: "string \<Rightarrow> string option" where
  "utf8_decode [] = Some []"
| "utf8_decode [a] = (if code a < 128 then Some [a] else None)"
| "utf8_decode (a # b # s) =
     (if code a < 128 then map_option (Cons a) (utf8_decode (b # s))
      else if 194 \<le> code a \<and> code a \<le> 195 \<and> 128 \<le> code b \<and> code b < 192 then
        map_option (Cons (char_of ((code a - 192) * 64 + (code b - 128)))) (utf8_decode s)
      else None)"

lemma code_char_of: "n < 256 \<Longrightarrow> code (char_of n) = n"
  by (simp add: of_char_of)

lemma code_less: "code c < 256"
  by (metis of_char_mod_256 mod_less_divisor zero_less_numeral)

lemma char_of_code: "char_of (code c) = c"
  by simp

lemma utf8_decode_ascii: "code a < 128 \<Longrightarrow> utf8_decode (a # s) = map_option (Cons a) (utf8_decode s)"
  by (cases s) simp_all

lemma utf8_decode_encode: "utf8_decode (utf8_encode s) = Some s"
proof (induction s)
  case Nil
  then show ?case by (simp add: utf8_encode_def)
next
  case (Cons c s)
  have e: "utf8_encode (c # s) = utf8_char c @ utf8_encode s" by (simp add: utf8_encode_def)
  show ?case
  proof (cases "code c < 128")
    case True
    then show ?thesis using Cons e by (simp add: utf8_char_def utf8_decode_ascii)
  next
    case False
    have c: "code c < 256" by (rule code_less)
    have d: "code c div 64 = 2 \<or> code c div 64 = 3" using c False by linarith
    have a: "code (char_of (192 + code c div 64)) = 192 + code c div 64" using d by (intro code_char_of) auto
    have b: "code (char_of (128 + code c mod 64)) = 128 + code c mod 64" by (intro code_char_of) linarith
    have m: "code c mod 64 < 64" by simp
    have n: "(192 + code c div 64 - 192) * 64 + (128 + code c mod 64 - 128) = code c"
      using div_mult_mod_eq [of "code c" 64] by simp
    have guards: "\<not> 192 + code c div 64 < 128" "194 \<le> 192 + code c div 64" "192 + code c div 64 \<le> 195"
      "128 \<le> 128 + code c mod 64" "128 + code c mod 64 < 192" using d m by auto
    have "utf8_encode (c # s) = char_of (192 + code c div 64) # char_of (128 + code c mod 64) # utf8_encode s"
      using False e by (simp add: utf8_char_def)
    then show ?thesis
      using Cons guards by (simp only: utf8_decode.simps a b n char_of_code if_False if_True simp_thms option.map)
  qed
qed

section \<open>Base64\<close>

definition b64_alphabet :: string where
  "b64_alphabet = ''ABCDEFGHIJKLMNOPQRSTUVWXYZabcdefghijklmnopqrstuvwxyz0123456789+/''"

definition b64_char :: "nat \<Rightarrow> char" where
  "b64_char n = b64_alphabet ! n"

fun b64encode :: "string \<Rightarrow> string" where
  "b64encode [] = []"
| "b64encode [a] = [b64_char (code a div 4), b64_char (code a mod 4 * 16), CHR ''='', CHR ''='']"
| "b64encode [a, b] =
     [b64_char (code a div 4), b64_char (code a mod 4 * 16 + code b div 16),
      b64_char (code b mod 16 * 4), CHR ''='']"
| "b64encode (a # b # c # s) =
     [b64_char (code a div 4), b64_char (code a mod 4 * 16 + code b div 16),
      b64_char (code b mod 16 * 4 + code c div 64), b64_char (code c mod 64)] @ b64encode s"

fun index_of :: "char \<Rightarrow> string \<Rightarrow> nat option" where
  "index_of c [] = None"
| "index_of c (d # s) = (if c = d then Some 0 else map_option Suc (index_of c s))"

definition b64_value :: "char \<Rightarrow> nat option" where
  "b64_value c = index_of c b64_alphabet"

text \<open>One group of four characters.\<close>

definition b64_group :: "char \<Rightarrow> char \<Rightarrow> char \<Rightarrow> char \<Rightarrow> string option" where
  "b64_group a b c d =
     (case (b64_value a, b64_value b) of
        (Some w, Some x) \<Rightarrow>
          (if c = CHR ''='' \<and> d = CHR ''='' then Some [char_of (w * 4 + x div 16)]
           else (case b64_value c of
                   None \<Rightarrow> None
                 | Some y \<Rightarrow>
                     (if d = CHR ''='' then Some [char_of (w * 4 + x div 16), char_of (x mod 16 * 16 + y div 4)]
                      else (case b64_value d of
                              None \<Rightarrow> None
                            | Some z \<Rightarrow> Some [char_of (w * 4 + x div 16), char_of (x mod 16 * 16 + y div 4),
                                              char_of (y mod 4 * 64 + z)]))))
      | _ \<Rightarrow> None)"

fun b64decode :: "string \<Rightarrow> string option" where
  "b64decode [] = Some []"
| "b64decode (a # b # c # d # s) =
     (case b64_group a b c d of
        None \<Rightarrow> None
      | Some t \<Rightarrow> map_option (\<lambda>u. t @ u) (b64decode s))"
| "b64decode _ = None"

lemma index_of_nth: "distinct s \<Longrightarrow> n < length s \<Longrightarrow> index_of (s ! n) s = Some n"
proof (induction s arbitrary: n)
  case (Cons d s)
  then show ?case by (cases n) auto
qed simp

lemma b64_alphabet_facts: "distinct b64_alphabet" "length b64_alphabet = 64" "CHR ''='' \<notin> set b64_alphabet"
  by (simp_all add: b64_alphabet_def)

lemma b64_value_char: "n < 64 \<Longrightarrow> b64_value (b64_char n) = Some n"
  using index_of_nth [OF b64_alphabet_facts(1)] b64_alphabet_facts(2) by (simp add: b64_value_def b64_char_def)

lemma b64_char_not_pad: "n < 64 \<Longrightarrow> b64_char n \<noteq> CHR ''=''"
  using b64_alphabet_facts(2,3) nth_mem [of n b64_alphabet] by (metis b64_char_def)

lemma b64_bits:
  fixes a b c :: nat
  assumes "a < 256" "b < 256" "c < 256"
  shows "a div 4 < 64" "a mod 4 * 16 + b div 16 < 64" "b mod 16 * 4 + c div 64 < 64" "c mod 64 < 64"
    "a mod 4 * 16 < 64" "b mod 16 * 4 < 64"
    "a div 4 * 4 + (a mod 4 * 16 + b div 16) div 16 = a" "a div 4 * 4 + a mod 4 * 16 div 16 = a"
    "(a mod 4 * 16 + b div 16) mod 16 * 16 + (b mod 16 * 4 + c div 64) div 4 = b"
    "(a mod 4 * 16 + b div 16) mod 16 * 16 + b mod 16 * 4 div 4 = b"
    "(b mod 16 * 4 + c div 64) mod 4 * 64 + c mod 64 = c"
proof -
  have q: "b div 16 < 16" "c div 64 < 4" using assms by linarith+
  have r: "a mod 4 < 4" "b mod 16 < 16" by simp_all
  show "a div 4 < 64" using assms by linarith
  show "a mod 4 * 16 + b div 16 < 64" using q r by linarith
  show "b mod 16 * 4 + c div 64 < 64" using q r by linarith
  show "c mod 64 < 64" by simp
  show "a mod 4 * 16 < 64" "b mod 16 * 4 < 64" using r by linarith+
  have h: "(a mod 4 * 16 + b div 16) div 16 = a mod 4" "(a mod 4 * 16 + b div 16) mod 16 = b div 16"
    using q by simp_all
  have k: "(b mod 16 * 4 + c div 64) div 4 = b mod 16" "(b mod 16 * 4 + c div 64) mod 4 = c div 64"
    using q by simp_all
  show "a div 4 * 4 + (a mod 4 * 16 + b div 16) div 16 = a" unfolding h by (rule div_mult_mod_eq)
  show "a div 4 * 4 + a mod 4 * 16 div 16 = a" by (simp add: div_mult_mod_eq)
  show "(a mod 4 * 16 + b div 16) mod 16 * 16 + (b mod 16 * 4 + c div 64) div 4 = b"
    unfolding h k by (rule div_mult_mod_eq)
  show "(a mod 4 * 16 + b div 16) mod 16 * 16 + b mod 16 * 4 div 4 = b"
    unfolding h by (simp add: div_mult_mod_eq)
  show "(b mod 16 * 4 + c div 64) mod 4 * 64 + c mod 64 = c" unfolding k by (rule div_mult_mod_eq)
qed

lemmas b64_code_bits = b64_bits [OF code_less code_less code_less]

lemma b64decode_encode: "b64decode (b64encode s) = Some s"
proof (induction s rule: b64encode.induct)
  case (2 a)
  show ?case
    by (simp add: b64_group_def b64_value_char b64_code_bits(1,5) b64_code_bits(8) [simplified])
next
  case (3 a b)
  show ?case
    by (simp only: b64encode.simps b64decode.simps b64_group_def b64_value_char b64_code_bits(1,2,6)
        b64_char_not_pad b64_code_bits(7,10) char_of_code option.case prod.case if_False if_True
        refl simp_thms option.map append.simps)
next
  case (4 a b c s)
  then show ?case
    by (simp only: b64encode.simps b64decode.simps b64_group_def b64_value_char b64_code_bits
        b64_char_not_pad char_of_code option.case prod.case if_False if_True
        refl simp_thms option.map append.simps)
qed simp

text \<open>The characters of encoded text.\<close>

definition is_b64_text :: "string \<Rightarrow> bool" where
  "is_b64_text s \<longleftrightarrow> set s \<subseteq> set b64_alphabet \<union> {CHR ''=''}"

lemma b64_char_in: "n < 64 \<Longrightarrow> b64_char n \<in> set b64_alphabet"
  using b64_alphabet_facts(2) by (simp add: b64_char_def)

lemma b64encode_text: "is_b64_text (b64encode s)"
proof (induction s rule: b64encode.induct)
  case (4 a b c s)
  then show ?case using b64_char_in b64_code_bits by (simp add: is_b64_text_def)
qed (use b64_char_in b64_code_bits in \<open>simp_all add: is_b64_text_def\<close>)

end
