(* ===== verification/Doris_Sql.thy ===== *)
theory Doris_Sql
  imports Sql_Common Py_Encoding
begin

text \<open>
  \<^verbatim>\<open>doris/sql.py\<close>: literals for Flight SQL, the predicate renderer for both parameter
  styles, the scanner of the unsafe fragment with its \<open>:name\<close> markers, and the \<open>SELECT\<close> with
  its \<open>TABLET\<close> clause.
\<close>

datatype parameter_style = MySql | Flight

section \<open>Flight literals\<close>

text \<open>
  Code points below 256 always have a UTF-8 encoding, so the branch for
  \<open>UnicodeEncodeError\<close> (lone surrogates) is outside the model.
\<close>

definition flight_string_literal :: "string \<Rightarrow> string" where
  "flight_string_literal v = ''from_base64('' @ [CHR 0x27] @ b64encode (utf8_encode v) @ [CHR 0x27] @ '')''"

definition render_temporal_literal :: "pyobj \<Rightarrow> string result" where
  "render_temporal_literal v =
     (if tz_aware v then Inl ConfigurationError
      else case v of
             PDateTime _ d t \<Rightarrow> Inr (flight_string_literal (date_str d @ '' '' @ time_str t))
           | PDate d \<Rightarrow> Inr (flight_string_literal (date_str d))
           | PTime _ t \<Rightarrow> Inr (flight_string_literal (time_str t))
           | _ \<Rightarrow> Inl TypeError)"

fun render_flight_literal :: "pyobj \<Rightarrow> string result" where
  "render_flight_literal PNone = Inr ''NULL''"
| "render_flight_literal (PBool b) = Inr (if b then ''TRUE'' else ''FALSE'')"
| "render_flight_literal (PInt i) = py_str_int i"
| "render_flight_literal (PFloat (FFin _ r)) = Inr r"
| "render_flight_literal (PFloat _) = Inl ConfigurationError"
| "render_flight_literal (PDecimal (DFin s)) = Inr s"
| "render_flight_literal (PDecimal DNonFinite) = Inl ConfigurationError"
| "render_flight_literal (PBytes b) = Inr (''X'' @ [CHR 0x27] @ bytes_hex b @ [CHR 0x27])"
| "render_flight_literal (PDate d) = render_temporal_literal (PDate d)"
| "render_flight_literal (PDateTime a d t) = render_temporal_literal (PDateTime a d t)"
| "render_flight_literal (PTime a t) = render_temporal_literal (PTime a t)"
| "render_flight_literal (PStr s) = Inr (flight_string_literal s)"
| "render_flight_literal (PUUID n) = Inr (flight_string_literal (uuid_str n))"
| "render_flight_literal _ = Inl ConfigurationError"

section \<open>Predicates\<close>

definition value_doris :: "parameter_style \<Rightarrow> pyobj value_renderer" where
  "value_doris style ps v =
     (case v of
        Column c \<Rightarrow> r_bind (quote_identifier c) (\<lambda>q. Inr (q, ps))
      | Literal l \<Rightarrow>
          (if l = PNone then Inl UnsupportedPredicateError
           else if style = Flight then r_bind (render_flight_literal l) (\<lambda>t. Inr (t, ps))
           else Inr (''%s'', ps @ [l])))"

definition render_predicate_doris :: "predicate \<Rightarrow> parameter_style \<Rightarrow> (string \<times> pyobj list) result" where
  "render_predicate_doris p style = render_with (value_doris style) [] p"

section \<open>The unsafe fragment\<close>

definition raw_character :: "parameter_style \<Rightarrow> bool \<Rightarrow> char \<Rightarrow> string" where
  "raw_character style bind_required c =
     (if c = percent \<and> style = MySql \<and> bind_required then ''%%'' else [c])"

text \<open>\<open>_PARAMETER_NAME.match\<close>: the name and the text after it.\<close>

definition parameter_name :: "string \<Rightarrow> (string \<times> string) option" where
  "parameter_name s =
     (case s of
        [] \<Rightarrow> None
      | c # cs \<Rightarrow>
          (if is_name_start c then Some (c # takeWhile is_name_char cs, dropWhile is_name_char cs) else None))"

text \<open>
  \<open>_render_parameter_marker\<close> at a character, given the one before it: nothing, or the name and
  the rest of the fragment.
\<close>

definition marker_at :: "char option \<Rightarrow> char \<Rightarrow> string \<Rightarrow> (string \<times> string) option" where
  "marker_at prev c s = (if c \<noteq> CHR '':'' \<or> prev = Some (CHR '':'') then None else parameter_name s)"

definition render_marker ::
    "parameter_style \<Rightarrow> (string \<times> pyobj) list \<Rightarrow> string \<Rightarrow> (string \<times> pyobj list) result" where
  "render_marker style values_by_name name =
     (case map_of values_by_name name of
        None \<Rightarrow> Inl ConfigurationError
      | Some v \<Rightarrow>
          (if style = MySql then Inr (''%s'', [v])
           else r_bind (render_flight_literal v) (\<lambda>t. Inr (t, []))))"

lemma parameter_name_text: "parameter_name s = Some (n, r) \<Longrightarrow> s = n @ r \<and> n \<noteq> []"
  by (auto simp: parameter_name_def split: list.splits if_splits)

lemma marker_at_text: "marker_at prev c s = Some (n, r) \<Longrightarrow> c = CHR '':'' \<and> s = n @ r \<and> n \<noteq> []"
  by (auto simp: marker_at_def dest: parameter_name_text split: if_splits)

definition is_quote :: "char \<Rightarrow> bool" where
  "is_quote c \<longleftrightarrow> c = CHR 0x27 \<or> c = CHR 0x22 \<or> c = CHR 0x60"

text \<open>
  The scanning loop: inside a quote a backslash keeps the next character (not in backticks), a
  doubled quote continues; outside, a marker is replaced. The results are the text, the bound
  values in order and the names used. \<open>prev\<close> is the character before the current one.
\<close>

function (sequential) doris_fragment ::
    "parameter_style \<Rightarrow> (string \<times> pyobj) list \<Rightarrow> bool \<Rightarrow> char option \<Rightarrow> char option \<Rightarrow> string
       \<Rightarrow> (string \<times> pyobj list \<times> string list) result" where
  "doris_fragment style vals bind quote prev [] =
     (if quote \<noteq> None then Inl ConfigurationError else Inr ([], [], []))"
| "doris_fragment style vals bind quote prev (c # s) =
     (let raw = raw_character style bind
      in case quote of
           Some q \<Rightarrow>
             (case s of
                d # s' \<Rightarrow>
                  (if c = CHR 0x5C \<and> q \<noteq> CHR 0x60 then
                     r_bind (doris_fragment style vals bind quote (Some d) s') (\<lambda>(t, v, u).
                     Inr (raw c @ raw d @ t, v, u))
                   else if c = q \<and> d = q then
                     r_bind (doris_fragment style vals bind quote (Some d) s') (\<lambda>(t, v, u).
                     Inr (raw c @ raw d @ t, v, u))
                   else
                     r_bind (doris_fragment style vals bind (if c = q then None else quote) (Some c) s) (\<lambda>(t, v, u).
                     Inr (raw c @ t, v, u)))
              | [] \<Rightarrow>
                  r_bind (doris_fragment style vals bind (if c = q then None else quote) (Some c) s) (\<lambda>(t, v, u).
                  Inr (raw c @ t, v, u)))
         | None \<Rightarrow>
             (if is_quote c then
                r_bind (doris_fragment style vals bind (Some c) (Some c) s) (\<lambda>(t, v, u). Inr (raw c @ t, v, u))
              else (case marker_at prev c s of
                      Some (name, r) \<Rightarrow>
                        r_bind (render_marker style vals name) (\<lambda>(rep, vs).
                        r_bind (doris_fragment style vals bind None (Some (last name)) r) (\<lambda>(t, v, u).
                        Inr (rep @ t, vs @ v, name # u)))
                    | None \<Rightarrow>
                        r_bind (doris_fragment style vals bind None (Some c) s) (\<lambda>(t, v, u).
                        Inr (raw c @ t, v, u)))))"
  by pat_completeness auto
termination
  by (relation "measure (\<lambda>(_, _, _, _, _, s). length s)") (auto dest!: marker_at_text)

declare doris_fragment.simps(2) [simp del]

definition render_unsafe_fragment_doris ::
    "string \<Rightarrow> (string \<times> pyobj) list \<Rightarrow> parameter_style \<Rightarrow> bool \<Rightarrow> (string \<times> pyobj list) result" where
  "render_unsafe_fragment_doris fragment query_parameters style bind_required =
     (let values_by_name = py_dict query_parameters
      in if length values_by_name \<noteq> length query_parameters then Inl ConfigurationError
         else r_bind (doris_fragment style values_by_name bind_required None None fragment) (\<lambda>(t, vs, used).
              if set (map fst values_by_name) - set used \<noteq> {} then Inl ConfigurationError else Inr (t, vs)))"

section \<open>The statement\<close>

text \<open>A tablet identifier is a positive \<open>int\<close>; the clause lists the identifiers in decimal.\<close>

fun tablet_id_ok :: "pyobj \<Rightarrow> bool" where
  "tablet_id_ok (PInt i) = (0 < i)"
| "tablet_id_ok _ = False"

fun tablet_text :: "pyobj \<Rightarrow> string result" where
  "tablet_text (PInt i) = py_str_int i"
| "tablet_text _ = Inl TypeError"

definition tablet_clause :: "pyobj list option \<Rightarrow> string result" where
  "tablet_clause tablet_ids =
     (case tablet_ids of
        None \<Rightarrow> Inr []
      | Some ids \<Rightarrow>
          (if ids = [] then Inl ConfigurationError
           else if \<not> list_all tablet_id_ok ids then Inl ConfigurationError
           else r_bind (r_map tablet_text ids) (\<lambda>ts. Inr ('' TABLET('' @ py_join '', '' ts @ '')''))))"

record doris_select =
  ds_table :: qualified_table
  ds_columns :: "string list"
  ds_style :: parameter_style
  ds_predicate :: "predicate option"
  ds_unsafe_where_sql :: "string option"
  ds_query_parameters :: "(string \<times> pyobj) list"
  ds_tablet_ids :: "pyobj list option"
  ds_limit :: pyobj
  ds_count_output_name :: "string option"

definition projection_doris :: "doris_select \<Rightarrow> string result" where
  "projection_doris q =
     (case ds_count_output_name q of
        Some n \<Rightarrow> r_bind (quote_identifier n) (\<lambda>t. Inr (''count(*) AS '' @ t))
      | None \<Rightarrow> quote_columns (ds_columns q))"

definition build_select_doris :: "doris_select \<Rightarrow> (string \<times> pyobj list) result" where
  "build_select_doris q =
     r_bind (projection_doris q) (\<lambda>projection.
     r_bind (table_sql (ds_table q)) (\<lambda>table_text.
     r_bind (tablet_clause (ds_tablet_ids q)) (\<lambda>tablets.
     r_bind (case ds_predicate q of
               None \<Rightarrow> Inr (None, [])
             | Some p \<Rightarrow> r_bind (render_predicate_doris p (ds_style q)) (\<lambda>(s, ps). Inr (Some s, ps)))
       (\<lambda>(rendered_predicate, predicate_parameters).
     r_bind (case ds_unsafe_where_sql q of
               Some fragment \<Rightarrow>
                 r_bind (render_unsafe_fragment_doris fragment (ds_query_parameters q) (ds_style q)
                   (ds_style q = MySql \<and> (ds_query_parameters q \<noteq> [] \<or> predicate_parameters \<noteq> []))) (\<lambda>(t, vs).
                 Inr ([''('' @ t @ '')''], vs))
             | None \<Rightarrow>
                 if ds_query_parameters q \<noteq> [] then Inl ConfigurationError else Inr ([], []))
       (\<lambda>(unsafe_clauses, unsafe_parameters).
     r_bind (limit_clause (ds_limit q) (ds_count_output_name q)) (\<lambda>limit_text.
     Inr (''SELECT '' @ projection @ '' FROM '' @ table_text @ tablets
            @ where_clause (unsafe_clauses @ option_list rendered_predicate) @ limit_text,
          unsafe_parameters @ predicate_parameters)))))))"

definition build_describe :: "qualified_table \<Rightarrow> string result" where
  "build_describe t = r_bind (table_sql t) (\<lambda>s. Inr (''DESCRIBE '' @ s))"


section \<open>Literal text\<close>

definition flight_text :: "pyobj \<Rightarrow> string" where
  "flight_text v = (case render_flight_literal v of Inr t \<Rightarrow> t | Inl _ \<Rightarrow> [])"

lemma flight_literal_total:
  assumes "wf_literal v" and "printable v"
  shows "\<exists>t. render_flight_literal v = Inr t"
proof (cases v)
  case (PFloat f)
  then show ?thesis using assms by (cases f) (auto simp: wf_literal_def)
next
  case (PDecimal d)
  then show ?thesis using assms by (cases d) (auto simp: wf_literal_def)
qed (use assms in \<open>auto simp: wf_literal_def py_str_int_def render_temporal_literal_def\<close>)

lemma flight_literal_error:
  "render_flight_literal v = Inl e \<Longrightarrow> e = ConfigurationError \<or> (\<exists>i. v = PInt i \<and> e = ValueError)"
  by (cases v rule: render_flight_literal.cases)
    (auto simp: render_temporal_literal_def dest: py_str_int_error split: if_splits)

section \<open>Binding of predicates\<close>

interpretation mysql_rendering: predicate_rendering "exact (binds_positional lit)" "value_doris MySql" lit percent_free for lit
proof (unfold_locales, goal_cases)
  case (1 s)
  then show ?case using positional_binding.binds_plain by (simp add: exact_def)
next
  case (2 ps a x qs b y)
  then show ?case using positional_binding.binds_append [of lit ps a x qs b y] by (simp add: exact_def)
next
  case (3 c)
  then show ?case
    using positional_binding.binds_plain percent_free_quoted by (fastforce simp: exact_def percent_free_def)
next
  case (4 ps c)
  then show ?case by (simp add: value_doris_def)
next
  case (5 ps v t ps')
  then have "t = ''%s''" "ps' = ps @ [v]" by (auto simp: value_doris_def split: if_splits)
  moreover have "binds_positional lit [v] ''%s'' (lit v)" by (simp add: binds_positional_def)
  ultimately show ?case by (auto simp: exact_def)
next
  case (6 v ps)
  then show ?case by (auto simp: value_doris_def wf_literal_def)
qed

interpretation mysql_unbound: predicate_rendering unbound "value_doris MySql" lit "\<lambda>_. True" for lit
  by unfold_locales (auto simp: unbound_def value_doris_def wf_literal_def split: if_splits)

interpretation flight_rendering: predicate_rendering binds_verbatim "value_doris Flight" flight_text "\<lambda>_. True"
proof (unfold_locales, goal_cases)
  case (1 c)
  then show ?case by (simp add: binds_verbatim_def)
next
  case (2 ps c)
  then show ?case by (simp add: value_doris_def)
next
  case (3 ps v t ps')
  then show ?case
    by (auto simp: value_doris_def r_bind_Inr_iff binds_verbatim_def flight_text_def split: if_splits)
next
  case (4 v ps)
  then show ?case using flight_literal_total [of v] by (auto simp: value_doris_def wf_literal_def)
qed

section \<open>What an unsafe fragment means\<close>

text \<open>
  One lexical step of a fragment: a character, two characters inside a quote, or a marker. The
  scanning loop and the meaning of a fragment follow the same steps.
\<close>

datatype fragment_step = One "char option" | Two char string | Mark string string

definition fragment_step :: "char option \<Rightarrow> char option \<Rightarrow> char \<Rightarrow> string \<Rightarrow> fragment_step" where
  "fragment_step quote prev c s =
     (case quote of
        Some q \<Rightarrow>
          (case s of
             d # s' \<Rightarrow>
               if c = CHR 0x5C \<and> q \<noteq> CHR 0x60 \<or> c = q \<and> d = q then Two d s'
               else One (if c = q then None else quote)
           | [] \<Rightarrow> One (if c = q then None else quote))
      | None \<Rightarrow>
          if is_quote c then One (Some c)
          else case marker_at prev c s of Some (n, r) \<Rightarrow> Mark n r | None \<Rightarrow> One None)"

lemma fragment_step_length:
  "fragment_step quote prev c s = Two d s' \<Longrightarrow> length s' < length s"
  "fragment_step quote prev c s = Mark n r \<Longrightarrow> length r < Suc (length s)"
  by (auto simp: fragment_step_def dest!: marker_at_text split: option.splits list.splits if_splits)

lemma fragment_step_Two: "fragment_step quote prev c s = Two d s' \<Longrightarrow> s = d # s' \<and> quote \<noteq> None"
  by (auto simp: fragment_step_def split: option.splits list.splits if_splits)

lemma doris_fragment_step:
  "doris_fragment style vals bind quote prev (c # s) =
     (case fragment_step quote prev c s of
        One q' \<Rightarrow> r_bind (doris_fragment style vals bind q' (Some c) s) (\<lambda>(t, v, u).
                   Inr (raw_character style bind c @ t, v, u))
      | Two d s' \<Rightarrow> r_bind (doris_fragment style vals bind quote (Some d) s') (\<lambda>(t, v, u).
                   Inr (raw_character style bind c @ raw_character style bind d @ t, v, u))
      | Mark n r \<Rightarrow> r_bind (render_marker style vals n) (\<lambda>(rep, vs).
                   r_bind (doris_fragment style vals bind None (Some (last n)) r) (\<lambda>(t, v, u).
                   Inr (rep @ t, vs @ v, n # u))))"
proof (cases quote)
  case None
  show ?thesis
  proof (cases "is_quote c")
    case True
    then show ?thesis using None by (simp add: doris_fragment.simps(2) fragment_step_def)
  next
    case False
    then show ?thesis
      using None by (cases "marker_at prev c s") (simp_all add: doris_fragment.simps(2) fragment_step_def case_prod_beta)
  qed
next
  case (Some q)
  then show ?thesis
    by (subst doris_fragment.simps(2)) (cases s; auto simp: fragment_step_def Let_def)
qed

function (sequential) expand_doris :: "(string \<Rightarrow> string) \<Rightarrow> char option \<Rightarrow> char option \<Rightarrow> string \<Rightarrow> string" where
  "expand_doris text_of quote prev [] = []"
| "expand_doris text_of quote prev (c # s) =
     (case fragment_step quote prev c s of
        One q' \<Rightarrow> c # expand_doris text_of q' (Some c) s
      | Two d s' \<Rightarrow> c # d # expand_doris text_of quote (Some d) s'
      | Mark n r \<Rightarrow> text_of n @ expand_doris text_of None (Some (last n)) r)"
  by pat_completeness auto
termination
  by (relation "measure (\<lambda>(_, _, _, s). length s)") (auto dest: fragment_step_length)

text \<open>Induction over a successful run of the scanning loop.\<close>

lemma doris_fragment_success [consumes 1, case_names nil one two mark]:
  assumes "doris_fragment style vals bind quote prev s = Inr (t, v, u)"
    and nil: "\<And>prev. P None prev [] [] [] []"
    and one: "\<And>quote prev c s q' t v u. fragment_step quote prev c s = One q' \<Longrightarrow> P q' (Some c) s t v u \<Longrightarrow>
      P quote prev (c # s) (raw_character style bind c @ t) v u"
    and two: "\<And>quote prev c s d s' t v u. fragment_step quote prev c s = Two d s' \<Longrightarrow> P quote (Some d) s' t v u \<Longrightarrow>
      P quote prev (c # s) (raw_character style bind c @ raw_character style bind d @ t) v u"
    and mark: "\<And>quote prev c s n r rep vs t v u. fragment_step quote prev c s = Mark n r \<Longrightarrow>
      render_marker style vals n = Inr (rep, vs) \<Longrightarrow> P None (Some (last n)) r t v u \<Longrightarrow>
      P quote prev (c # s) (rep @ t) (vs @ v) (n # u)"
  shows "P quote prev s t v u"
  using assms(1)
proof (induction s arbitrary: quote prev t v u rule: length_induct)
  case (1 s)
  then have IH: "P q p x t' v' u'"
    if "length x < length s" "doris_fragment style vals bind q p x = Inr (t', v', u')" for x q p t' v' u'
    using that by blast
  show ?case
  proof (cases s)
    case Nil
    then show ?thesis using 1(2) nil by (simp split: if_splits)
  next
    case (Cons c s')
    note d = 1(2) [unfolded Cons doris_fragment_step]
    show ?thesis
    proof (cases "fragment_step quote prev c s'")
      case (One q')
      then obtain t' where r: "doris_fragment style vals bind q' (Some c) s' = Inr (t', v, u)"
        and t: "t = raw_character style bind c @ t'" using d by (auto simp: r_bind_Inr_iff)
      show ?thesis unfolding Cons t by (rule one [OF One IH [OF _ r]]) (simp add: Cons)
    next
      case (Two e s'')
      then obtain t' where r: "doris_fragment style vals bind quote (Some e) s'' = Inr (t', v, u)"
        and t: "t = raw_character style bind c @ raw_character style bind e @ t'"
        using d by (auto simp: r_bind_Inr_iff)
      show ?thesis unfolding Cons t
        by (rule two [OF Two IH [OF _ r]]) (use fragment_step_Two [OF Two] in \<open>simp add: Cons\<close>)
    next
      case (Mark n r)
      then obtain rep vs t' v' u' where m: "render_marker style vals n = Inr (rep, vs)"
        and r: "doris_fragment style vals bind None (Some (last n)) r = Inr (t', v', u')"
        and t: "t = rep @ t'" "v = vs @ v'" "u = n # u'" using d by (auto simp: r_bind_Inr_iff)
      show ?thesis unfolding Cons t
        by (rule mark [OF Mark m IH [OF _ r]]) (use fragment_step_length(2) [OF Mark] in \<open>simp add: Cons\<close>)
    qed
  qed
qed

text \<open>What binding has to do with a fragment.\<close>

locale fragment_rendering = statement_binding binds
  for binds :: "pyobj list \<Rightarrow> string \<Rightarrow> string \<Rightarrow> bool" +
  fixes style :: parameter_style and bind :: bool and vals :: "(string \<times> pyobj) list" and text_of :: "string \<Rightarrow> string"
  assumes raw_binds: "binds [] (raw_character style bind c) [c]"
    and marker_binds: "render_marker style vals n = Inr (rep, vs) \<Longrightarrow> binds vs rep (text_of n)"
begin

lemma fragment_binds:
  "doris_fragment style vals bind quote prev s = Inr (t, v, u) \<Longrightarrow> binds v t (expand_doris text_of quote prev s)"
proof (induction rule: doris_fragment_success)
  case (nil prev)
  then show ?case using binds_plain [of "[]"] by simp
next
  case (one quote prev c s q' t v u)
  from binds_append [OF raw_binds [of c] one(2)] show ?case using one(1) by simp
next
  case (two quote prev c s d s' t v u)
  from binds_append [OF raw_binds [of c] binds_append [OF raw_binds [of d] two(2)]]
  show ?case using two(1) by simp
next
  case (mark quote prev c s n r rep vs t v u)
  from binds_append [OF marker_binds [OF mark(2)] mark(3)] show ?case using mark(1) by simp
qed

end

interpretation mysql_fragment: fragment_rendering "binds_positional lit" MySql True vals "\<lambda>n. lit (the (map_of vals n))"
  for lit vals
proof (unfold_locales, goal_cases)
  case (1 c)
  then show ?case by (simp add: raw_character_def binds_positional_def format_positional_plain)
next
  case (2 n rep vs)
  then show ?case by (auto simp: render_marker_def binds_positional_def split: option.splits)
qed

interpretation plain_fragment: fragment_rendering binds_verbatim MySql False "[]" text_of for text_of
  by unfold_locales (simp_all add: raw_character_def binds_verbatim_def render_marker_def)

interpretation flight_fragment: fragment_rendering binds_verbatim Flight bind vals "\<lambda>n. flight_text (the (map_of vals n))"
  for bind vals
  by unfold_locales
    (auto simp: raw_character_def binds_verbatim_def render_marker_def flight_text_def r_bind_Inr_iff split: option.splits)


section \<open>The bound statement\<close>

text \<open>
  PyMySQL formats the statement when there are parameters; the Flight reader refuses parameters
  and sends the text as it is. The meant statement has every literal in its place.
\<close>

definition bound_statement_doris :: "(pyobj \<Rightarrow> string) \<Rightarrow> string \<Rightarrow> pyobj list \<Rightarrow> string result" where
  "bound_statement_doris lit stmt params =
     (if params = [] then Inr stmt else format_positional (map lit params) stmt)"

definition literal_text :: "(pyobj \<Rightarrow> string) \<Rightarrow> parameter_style \<Rightarrow> pyobj \<Rightarrow> string" where
  "literal_text lit style v = (if style = MySql then lit v else flight_text v)"

definition select_text_doris :: "(pyobj \<Rightarrow> string) \<Rightarrow> doris_select \<Rightarrow> string \<Rightarrow> string \<Rightarrow> string \<Rightarrow> string" where
  "select_text_doris lit q proj tablets ltext =
     ''SELECT '' @ proj @ '' FROM '' @ (quoted (database (ds_table q)) @ ''.'' @ quoted (table (ds_table q))) @ tablets
       @ where_clause
           (map (\<lambda>f. ''('' @ expand_doris (\<lambda>n. literal_text lit (ds_style q) (the (map_of (ds_query_parameters q) n)))
                              None None f @ '')'') (option_list (ds_unsafe_where_sql q))
            @ map (inline_predicate (literal_text lit (ds_style q))) (option_list (ds_predicate q)))
       @ ltext"

definition doris_percent_free :: "doris_select \<Rightarrow> string \<Rightarrow> bool" where
  "doris_percent_free q proj \<longleftrightarrow>
     percent_free proj \<and> percent_free (database (ds_table q)) \<and> percent_free (table (ds_table q))
     \<and> (\<forall>p \<in> set (option_list (ds_predicate q)). \<forall>c \<in> referenced_columns p. percent_free c)"

definition doris_predicate :: "doris_select \<Rightarrow> (string option \<times> pyobj list) result" where
  "doris_predicate q =
     (case ds_predicate q of
        None \<Rightarrow> Inr (None, [])
      | Some p \<Rightarrow> r_bind (render_predicate_doris p (ds_style q)) (\<lambda>(s, ps). Inr (Some s, ps)))"

definition doris_unsafe :: "doris_select \<Rightarrow> pyobj list \<Rightarrow> (string list \<times> pyobj list) result" where
  "doris_unsafe q pps =
     (case ds_unsafe_where_sql q of
        Some fragment \<Rightarrow>
          r_bind (render_unsafe_fragment_doris fragment (ds_query_parameters q) (ds_style q)
            (ds_style q = MySql \<and> (ds_query_parameters q \<noteq> [] \<or> pps \<noteq> []))) (\<lambda>(t, vs).
          Inr ([''('' @ t @ '')''], vs))
      | None \<Rightarrow> if ds_query_parameters q \<noteq> [] then Inl ConfigurationError else Inr ([], []))"

lemma build_select_doris_parts:
  "build_select_doris q = Inr (stmt, params) \<longleftrightarrow>
     (\<exists>proj tablets pred pps unsafe ups ltext.
        projection_doris q = Inr proj \<and> valid_identifier (database (ds_table q)) \<and> valid_identifier (table (ds_table q))
        \<and> tablet_clause (ds_tablet_ids q) = Inr tablets \<and> doris_predicate q = Inr (pred, pps)
        \<and> doris_unsafe q pps = Inr (unsafe, ups) \<and> limit_clause (ds_limit q) (ds_count_output_name q) = Inr ltext
        \<and> stmt = ''SELECT '' @ proj @ '' FROM '' @ (quoted (database (ds_table q)) @ ''.'' @ quoted (table (ds_table q)))
            @ tablets @ where_clause (unsafe @ option_list pred) @ ltext
        \<and> params = ups @ pps)"
  unfolding build_select_doris_def doris_predicate_def [symmetric] doris_unsafe_def [symmetric] r_bind_Inr_iff
    table_sql_Inr_iff
  by auto

text \<open>Every query parameter is used, so parameters are bound exactly when there are any.\<close>

lemma doris_fragment_values:
  "doris_fragment style vals bind quote prev s = Inr (t, v, u) \<Longrightarrow> style = MySql \<Longrightarrow> (v = [] \<longleftrightarrow> u = [])"
  by (induction rule: doris_fragment_success) (auto simp: render_marker_def split: option.splits)

lemma doris_fragment_used:
  "doris_fragment style vals bind quote prev s = Inr (t, v, u) \<Longrightarrow> set u \<subseteq> set (map fst vals)"
  by (induction rule: doris_fragment_success)
    (auto simp: render_marker_def split: option.splits dest!: map_of_SomeD intro: image_eqI [rotated])

lemma unsafe_fragment_parts:
  assumes "render_unsafe_fragment_doris f qp style b = Inr (t, vs)"
  obtains u where "doris_fragment style qp b None None f = Inr (t, vs, u)" "set u = set (map fst qp)"
    "distinct (map fst qp)"
proof -
  have d: "distinct (map fst qp)"
    using assms by (auto simp: render_unsafe_fragment_doris_def Let_def length_py_dict_iff split: if_splits)
  then obtain u where "doris_fragment style qp b None None f = Inr (t, vs, u)" "set (map fst qp) \<subseteq> set u"
    using assms by (auto simp: render_unsafe_fragment_doris_def Let_def py_dict_distinct r_bind_Inr_iff split: if_splits)
  then show ?thesis using that doris_fragment_used d by blast
qed

lemma fragment_values_empty:
  assumes "render_unsafe_fragment_doris f qp MySql b = Inr (t, vs)"
  shows "vs = [] \<longleftrightarrow> qp = []"
  using assms by (rule unsafe_fragment_parts) (auto dest: doris_fragment_values)

text \<open>The predicate of a statement, in either style.\<close>

lemma doris_predicate_binds:
  assumes "doris_predicate q = Inr (pred, pps)"
    and "ds_style q = MySql \<Longrightarrow> \<forall>p \<in> set (option_list (ds_predicate q)). \<forall>c \<in> referenced_columns p. percent_free c"
  shows "list_all2 (if ds_style q = MySql then exact (binds_positional lit) pps else binds_verbatim pps) (option_list pred)
    (map (inline_predicate (literal_text lit (ds_style q))) (option_list (ds_predicate q)))"
proof (cases "ds_predicate q")
  case None
  then show ?thesis using assms(1) by (auto simp: doris_predicate_def option_list_def)
next
  case (Some p)
  then obtain s where s: "render_with (value_doris (ds_style q)) [] p = Inr (s, pps)" "pred = Some s"
    using assms(1) by (auto simp: doris_predicate_def r_bind_Inr_iff render_predicate_doris_def)
  show ?thesis
  proof (cases "ds_style q")
    case MySql
    have cols: "percent_free c" if "c \<in> referenced_columns p" for c
      using assms(2) [OF MySql] Some that by (simp add: option_list_def)
    have "literal_text lit MySql = lit" by (auto simp: literal_text_def)
    then show ?thesis
      using mysql_rendering.render_with_binds [OF s(1) [unfolded MySql] cols, of lit] Some s MySql
      by (simp add: option_list_def)
  next
    case Flight
    have "literal_text lit Flight = flight_text" by (auto simp: literal_text_def)
    then show ?thesis
      using flight_rendering.render_with_binds [OF s(1) [unfolded Flight]] Some s Flight
      by (simp add: option_list_def)
  qed
qed

lemma doris_predicate_verbatim:
  assumes "doris_predicate q = Inr (pred, [])"
  shows "option_list pred = map (inline_predicate (literal_text lit (ds_style q))) (option_list (ds_predicate q))"
proof (cases "ds_predicate q")
  case None
  then show ?thesis using assms by (auto simp: doris_predicate_def option_list_def)
next
  case (Some p)
  then obtain s where s: "render_with (value_doris (ds_style q)) [] p = Inr (s, [])" "pred = Some s"
    using assms by (auto simp: doris_predicate_def r_bind_Inr_iff render_predicate_doris_def)
  have "literal_text lit MySql = lit" "literal_text lit Flight = flight_text" by (auto simp: literal_text_def)
  then show ?thesis
    using mysql_unbound.render_with_binds [of "[]" p s "[]" lit] flight_rendering.render_with_binds [of "[]" p s "[]"] s Some
    by (cases "ds_style q") (auto simp: unbound_def binds_verbatim_def option_list_def)
qed

lemma doris_unsafe_binds:
  assumes "doris_unsafe q pps = Inr (unsafe, ups)"
  shows "list_all2
      (if ds_style q = MySql \<and> (ds_query_parameters q \<noteq> [] \<or> pps \<noteq> []) then binds_positional lit ups else binds_verbatim ups)
      unsafe
      (map (\<lambda>f. ''('' @ expand_doris (\<lambda>n. literal_text lit (ds_style q) (the (map_of (ds_query_parameters q) n)))
                              None None f @ '')'') (option_list (ds_unsafe_where_sql q)))"
    and "ds_unsafe_where_sql q = None \<Longrightarrow> ups = []"
    and "ds_style q = MySql \<Longrightarrow> ups = [] \<longleftrightarrow> ds_query_parameters q = []"
proof -
  let ?qp = "ds_query_parameters q" and ?st = "ds_style q"
  let ?b = "?st = MySql \<and> (?qp \<noteq> [] \<or> pps \<noteq> [])"
  show "ds_unsafe_where_sql q = None \<Longrightarrow> ups = []"
    using assms by (auto simp: doris_unsafe_def split: if_splits)
  show "?st = MySql \<Longrightarrow> ups = [] \<longleftrightarrow> ?qp = []"
    using assms
    by (auto simp: doris_unsafe_def r_bind_Inr_iff split: option.splits if_splits
        dest!: fragment_values_empty)
  show "list_all2 (if ?b then binds_positional lit ups else binds_verbatim ups) unsafe
      (map (\<lambda>f. ''('' @ expand_doris (\<lambda>n. literal_text lit ?st (the (map_of ?qp n))) None None f @ '')'')
        (option_list (ds_unsafe_where_sql q)))"
  proof (cases "ds_unsafe_where_sql q")
    case None
    then show ?thesis using assms by (auto simp: doris_unsafe_def option_list_def split: if_splits)
  next
    case (Some f)
    then obtain t where r: "render_unsafe_fragment_doris f ?qp ?st ?b = Inr (t, ups)" and u: "unsafe = [''('' @ t @ '')'']"
      using assms by (auto simp: doris_unsafe_def r_bind_Inr_iff)
    from r obtain w where fr: "doris_fragment ?st ?qp ?b None None f = Inr (t, ups, w)"
      by (rule unsafe_fragment_parts)
    let ?val = "\<lambda>n. literal_text lit ?st (the (map_of ?qp n))"
    consider (bound) "?st = MySql" "?b" | (plain) "?st = MySql" "\<not> ?b" | (flight) "?st = Flight" "\<not> ?b"
      by (cases ?st) auto
    then show ?thesis
    proof cases
      case bound
      have "binds_positional lit ups t (expand_doris ?val None None f)"
        using mysql_fragment.fragment_binds [of ?qp None None f t ups w lit] fr bound
        by (simp add: literal_text_def)
      from positional_binding.binds_enclosed [of "''(''" "'')''", OF _ _ this]
      show ?thesis using bound u Some by (simp add: option_list_def)
    next
      case plain
      then have "?qp = []" by simp
      then have "binds_verbatim ups t (expand_doris ?val None None f)"
        using plain_fragment.fragment_binds [of None None f t ups w] fr plain by simp
      then show ?thesis using plain u Some by (auto simp: option_list_def binds_verbatim_def)
    next
      case flight
      have "binds_verbatim ups t (expand_doris ?val None None f)"
        using flight_fragment.fragment_binds [of ?qp False None None f t ups w] fr flight
        by (simp add: literal_text_def)
      then show ?thesis using flight u Some by (auto simp: option_list_def binds_verbatim_def)
    qed
  qed
qed


lemma tablet_clause_percent_free: "tablet_clause ids = Inr s \<Longrightarrow> percent_free s"
proof (cases ids)
  case (Some xs)
  assume "tablet_clause ids = Inr s"
  then obtain ts where ts: "r_map tablet_text xs = Inr ts" and s: "s = '' TABLET('' @ py_join '', '' ts @ '')''"
    using Some by (auto simp: tablet_clause_def r_bind_Inr_iff split: if_splits)
  have "percent_free t" if "t \<in> set ts" for t
  proof -
    from ts that obtain v where "tablet_text v = Inr t"
      by (auto simp: r_map_Inr_iff list_all2_conv_all_nth in_set_conv_nth)
    then show ?thesis
      by (cases v) (auto simp: py_str_int_Inr_iff int_str_def percent_free_nat_str)
  qed
  then have "percent_free (py_join '', '' ts)"
    using set_py_join [of "'', ''" ts] by (auto simp: percent_free_def)
  then show ?thesis using s by simp
qed (auto simp: tablet_clause_def)

lemma where_clause_binds:
  assumes "list_all2 (binds_positional lit us) cs xs" "length cs \<le> 1" "cs = [] \<Longrightarrow> us = []"
    and "list_all2 (binds_positional lit ps) ds ys" "length ds \<le> 1" "ds = [] \<Longrightarrow> ps = []"
  shows "binds_positional lit (us @ ps) (where_clause (cs @ ds)) (where_clause (xs @ ys))"
proof -
  note enc = positional_binding.binds_plain_left [of "'' WHERE ''" lit]
  consider (none) "cs = []" "ds = []" | (left) c x where "cs = [c]" "xs = [x]" "binds_positional lit us c x" "ds = []"
    | (right) d y where "cs = []" "ds = [d]" "ys = [y]" "binds_positional lit ps d y"
    | (both) c x d y where "cs = [c]" "xs = [x]" "binds_positional lit us c x" "ds = [d]" "ys = [y]"
        "binds_positional lit ps d y"
    using assms(1,2,4,5) by (cases cs; cases ds) (auto simp: list_all2_Cons1)
  then show ?thesis
  proof cases
    case none
    then show ?thesis using assms positional_binding.binds_plain [of "[]" lit] by (simp add: where_clause_def)
  next
    case left
    then show ?thesis using assms(4,6) enc [of us c x] by (simp add: where_clause_def)
  next
    case right
    then show ?thesis using assms(1,3) enc [of ps d y] by (simp add: where_clause_def)
  next
    case both
    then show ?thesis
      using enc [OF _ positional_binding.binds_between [of "'' AND ''" lit us c x ps d y]] by (simp add: where_clause_def)
  qed
qed

definition fragment_texts_doris :: "(pyobj \<Rightarrow> string) \<Rightarrow> doris_select \<Rightarrow> string list" where
  "fragment_texts_doris lit q =
     map (\<lambda>f. ''('' @ expand_doris (\<lambda>n. literal_text lit (ds_style q) (the (map_of (ds_query_parameters q) n)))
                        None None f @ '')'') (option_list (ds_unsafe_where_sql q))"

definition predicate_texts_doris :: "(pyobj \<Rightarrow> string) \<Rightarrow> doris_select \<Rightarrow> string list" where
  "predicate_texts_doris lit q = map (inline_predicate (literal_text lit (ds_style q))) (option_list (ds_predicate q))"

text \<open>Without parameters the clauses are the texts themselves.\<close>

lemma doris_clauses_verbatim:
  assumes "doris_predicate q = Inr (pred, [])" and "doris_unsafe q [] = Inr (unsafe, [])"
  shows "unsafe @ option_list pred = fragment_texts_doris lit q @ predicate_texts_doris lit q"
proof -
  note ub = doris_unsafe_binds(1) [OF assms(2), of lit]
  have "option_list pred = predicate_texts_doris lit q"
    unfolding predicate_texts_doris_def by (rule doris_predicate_verbatim [OF assms(1)])
  moreover have "unsafe = fragment_texts_doris lit q"
  proof -
    have "\<not> (ds_style q = MySql \<and> (ds_query_parameters q \<noteq> [] \<or> [] \<noteq> ([] :: pyobj list)))"
      using doris_unsafe_binds(3) [OF assms(2)] by auto
    then have "list_all2 (binds_verbatim ([] :: pyobj list)) unsafe (fragment_texts_doris lit q)"
      unfolding fragment_texts_doris_def using ub by (simp only: if_False)
    then have "list_all2 (=) unsafe (fragment_texts_doris lit q)" by (rule list_all2_mono) (simp add: binds_verbatim_def)
    then show ?thesis by (simp only: list.rel_eq)
  qed
  ultimately show ?thesis by simp
qed

text \<open>With parameters, which only MySQL has, the clauses bind to the texts.\<close>

lemma doris_clauses_bind:
  assumes "doris_predicate q = Inr (pred, pps)" and "doris_unsafe q pps = Inr (unsafe, ups)"
    and "\<forall>p \<in> set (option_list (ds_predicate q)). \<forall>c \<in> referenced_columns p. percent_free c"
    and "ds_style q = MySql" and "ups @ pps \<noteq> []"
  shows "binds_positional lit (ups @ pps) (where_clause (unsafe @ option_list pred))
    (where_clause (fragment_texts_doris lit q @ predicate_texts_doris lit q))"
proof -
  note un = doris_unsafe_binds(2,3) [OF assms(2)]
  have "ds_query_parameters q \<noteq> [] \<or> pps \<noteq> []" using assms(5) un(2) [OF assms(4)] by auto
  then have ub: "list_all2 (binds_positional lit ups) unsafe (fragment_texts_doris lit q)"
    using doris_unsafe_binds(1) [OF assms(2), of lit] assms(4) by (simp add: fragment_texts_doris_def)
  have "list_all2 (exact (binds_positional lit) pps) (option_list pred) (predicate_texts_doris lit q)"
    using doris_predicate_binds [OF assms(1)] assms(3,4) by (simp add: predicate_texts_doris_def)
  then have pb: "list_all2 (binds_positional lit pps) (option_list pred) (predicate_texts_doris lit q)"
    by (rule list_all2_mono) (simp add: exact_def)
  show ?thesis
  proof (rule where_clause_binds [OF ub _ _ pb])
    show "length unsafe \<le> 1"
      using list_all2_lengthD [OF ub] by (simp add: fragment_texts_doris_def option_list_def split: option.split)
    show "unsafe = [] \<Longrightarrow> ups = []"
      using ub un(1) by (cases "ds_unsafe_where_sql q") (auto simp: option_list_def fragment_texts_doris_def)
    show "length (option_list pred) \<le> 1" by (simp add: option_list_def split: option.split)
    show "option_list pred = [] \<Longrightarrow> pps = []"
      using assms(1) by (auto simp: doris_predicate_def option_list_def r_bind_Inr_iff split: option.splits)
  qed
qed

lemma flight_no_parameters:
  fixes lit :: "pyobj \<Rightarrow> string"
  assumes "doris_predicate q = Inr (pred, pps)" and "doris_unsafe q pps = Inr (unsafe, ups)" and "ds_style q = Flight"
  shows "pps = [] \<and> ups = []"
  using doris_predicate_binds [OF assms(1), of lit] doris_unsafe_binds(1) [OF assms(2), of lit] doris_unsafe_binds(2) [OF assms(2)]
    assms(1,3)
  by (auto simp: binds_verbatim_def option_list_def doris_predicate_def list_all2_Cons2 split: option.splits)

text \<open>The statement the driver sends is the statement meant.\<close>

lemma doris_statement:
  assumes "build_select_doris q = Inr (stmt, params)" and "projection_doris q = Inr proj"
    and "tablet_clause (ds_tablet_ids q) = Inr tablets"
    and "limit_clause (ds_limit q) (ds_count_output_name q) = Inr ltext" and "params \<noteq> [] \<Longrightarrow> doris_percent_free q proj"
  shows "bound_statement_doris lit stmt params = Inr (select_text_doris lit q proj tablets ltext)"
    and "ds_style q = Flight \<Longrightarrow> params = []"
proof -
  from assms(1-4) obtain pred pps unsafe ups where
    dp: "doris_predicate q = Inr (pred, pps)" and du: "doris_unsafe q pps = Inr (unsafe, ups)" and
    st: "stmt = ''SELECT '' @ proj @ '' FROM '' @ (quoted (database (ds_table q)) @ ''.'' @ quoted (table (ds_table q)))
            @ tablets @ where_clause (unsafe @ option_list pred) @ ltext" and pa: "params = ups @ pps"
    unfolding build_select_doris_parts by auto
  have whole: "select_text_doris lit q proj tablets ltext = ''SELECT '' @ proj @ '' FROM '' @ (quoted (database (ds_table q)) @ ''.''
      @ quoted (table (ds_table q))) @ tablets @ where_clause (fragment_texts_doris lit q @ predicate_texts_doris lit q) @ ltext"
    by (simp add: select_text_doris_def fragment_texts_doris_def predicate_texts_doris_def)
  show "ds_style q = Flight \<Longrightarrow> params = []" using flight_no_parameters [OF dp du] pa by simp
  show "bound_statement_doris lit stmt params = Inr (select_text_doris lit q proj tablets ltext)"
  proof (cases "params = []")
    case True
    then have "unsafe @ option_list pred = fragment_texts_doris lit q @ predicate_texts_doris lit q"
      using doris_clauses_verbatim [of q pred unsafe lit] dp du pa by simp
    then show ?thesis using True st by (simp add: bound_statement_doris_def whole)
  next
    case False
    then have "ds_style q = MySql" using flight_no_parameters [OF dp du] pa by (cases "ds_style q") auto
    note names = assms(5) [OF False, unfolded doris_percent_free_def]
    then have pf: "\<forall>p \<in> set (option_list (ds_predicate q)). \<forall>c \<in> referenced_columns p. percent_free c" by simp
    from doris_clauses_bind [OF dp du pf \<open>ds_style q = MySql\<close>] False pa have
      w: "binds_positional lit params (where_clause (unsafe @ option_list pred))
        (where_clause (fragment_texts_doris lit q @ predicate_texts_doris lit q))" by simp
    have free: "percent_free (''SELECT '' @ proj @ '' FROM '' @ quoted (database (ds_table q)) @ ''.'' @ quoted (table (ds_table q)) @ tablets)"
      using names percent_free_quoted tablet_clause_percent_free [OF assms(3)] by simp
    have lf: "percent_free ltext" by (rule limit_clause_percent_free [OF assms(4)])
    have "binds_positional lit params stmt (select_text_doris lit q proj tablets ltext)"
      using positional_binding.binds_enclosed [OF free [unfolded percent_free_def] lf [unfolded percent_free_def] w]
      unfolding st whole by simp
    from binds_positional_format [OF this] show ?thesis using False by (simp add: bound_statement_doris_def)
  qed
qed

end
