(* ===== verification/Py_Net.thy ===== *)
theory Py_Net
  imports Py_Encoding Redaction
begin

text \<open>
  What \<^verbatim>\<open>doris/discovery.py\<close> uses of the standard library around the query-plan request:
  \<open>ipaddress.IPv6Address\<close> as a validity test, \<open>urllib.parse.quote\<close>, \<open>json.dumps\<close> of a string, and
  the values \<open>json.loads\<close> returns with their Python comparisons and text.
\<close>

section \<open>IPv6 addresses\<close>

definition is_hex_digit :: "char \<Rightarrow> bool" where
  "is_hex_digit c \<longleftrightarrow> is_ascii_digit c \<or> (65 \<le> code c \<and> code c \<le> 70) \<or> (97 \<le> code c \<and> code c \<le> 102)"

definition hextet_ok :: "string \<Rightarrow> bool" where
  "hextet_ok s \<longleftrightarrow> s \<noteq> [] \<and> length s \<le> 4 \<and> list_all is_hex_digit s"

definition octet_ok :: "string \<Rightarrow> bool" where
  "octet_ok s \<longleftrightarrow>
     s \<noteq> [] \<and> list_all is_ascii_digit s \<and> length s \<le> 3 \<and> \<not> (1 < length s \<and> hd s = CHR ''0'') \<and> digits_val s \<le> 255"

definition ipv4_ok :: "string \<Rightarrow> bool" where
  "ipv4_ok s \<longleftrightarrow> (let os = py_split (CHR ''.'') s in length os = 4 \<and> list_all octet_ok os)"

text \<open>
  The groups between colons, a trailing dotted quad counting as two of them. At most one inner
  group may be empty and stands for the omitted zeros; an empty first or last group must touch it.
\<close>

definition ipv6_groups :: "string \<Rightarrow> string list option" where
  "ipv6_groups s =
     (let ps = py_split (CHR '':'') s
      in if length ps < 3 then None
         else if CHR ''.'' \<in> set (last ps) then
           (if ipv4_ok (last ps) then Some (butlast ps @ [''0'', ''0'']) else None)
         else Some ps)"

definition inner_gaps :: "string list \<Rightarrow> nat list" where
  "inner_gaps ps = List.filter (\<lambda>i. ps ! i = []) [1..<length ps - 1]"

definition ipv6_groups_ok :: "string list \<Rightarrow> bool" where
  "ipv6_groups_ok ps =
     (if 9 < length ps then False
      else case inner_gaps ps of
        [] \<Rightarrow> length ps = 8 \<and> list_all hextet_ok ps
      | [k] \<Rightarrow>
          (let hi = (if hd ps = [] then k - 1 else k);
               lo = (if last ps = [] then length ps - k - 2 else length ps - k - 1)
           in \<not> (hd ps = [] \<and> hi \<noteq> 0) \<and> \<not> (last ps = [] \<and> lo \<noteq> 0) \<and> hi + lo < 8
              \<and> list_all hextet_ok (take hi ps) \<and> list_all hextet_ok (drop (length ps - lo) ps))
      | _ \<Rightarrow> False)"

definition ipv6_ok :: "string \<Rightarrow> bool" where
  "ipv6_ok s =
     (let addr = takeWhile (\<lambda>c. c \<noteq> CHR ''%'') s; scope = dropWhile (\<lambda>c. c \<noteq> CHR ''%'') s
      in (scope = [] \<or> tl scope \<noteq> [] \<and> CHR ''%'' \<notin> set (tl scope))
         \<and> (case ipv6_groups addr of None \<Rightarrow> False | Some ps \<Rightarrow> ipv6_groups_ok ps))"

section \<open>URL quoting\<close>

text \<open>\<open>quote(text, safe="")\<close>: the UTF-8 bytes, each unreserved or as two hexadecimal digits.\<close>

definition url_unreserved :: "char \<Rightarrow> bool" where
  "url_unreserved c \<longleftrightarrow> is_name_char c \<or> c = CHR ''.'' \<or> c = CHR ''-'' \<or> c = CHR ''~''"

definition upper_hex :: "nat \<Rightarrow> char" where
  "upper_hex n = (if n < 10 then char_of (48 + n) else char_of (55 + n))"

definition url_quote_byte :: "char \<Rightarrow> string" where
  "url_quote_byte b =
     (if url_unreserved b then [b] else [CHR ''%'', upper_hex (code b div 16), upper_hex (code b mod 16)])"

definition url_quote :: "string \<Rightarrow> string" where
  "url_quote s = concat (map url_quote_byte (utf8_encode s))"

text \<open>The server's side: percent decoding to bytes.\<close>

definition hex_value :: "char \<Rightarrow> nat" where
  "hex_value c = (if code c \<le> 57 then code c - 48 else code c - 55)"

fun url_unquote :: "string \<Rightarrow> string" where
  "url_unquote (c # a # b # s) =
     (if c = CHR ''%'' then char_of (hex_value a * 16 + hex_value b) # url_unquote s else c # url_unquote (a # b # s))"
| "url_unquote s = s"

lemma upper_hex_value: "n < 16 \<Longrightarrow> hex_value (upper_hex n) = n"
  by (auto simp: hex_value_def upper_hex_def code_char_of)

lemma url_unquote_plain: "c \<noteq> CHR ''%'' \<Longrightarrow> url_unquote (c # s) = c # url_unquote s"
  by (cases s rule: url_unquote.cases) auto

lemma code_nibbles: "code b div 16 < 16" "code b mod 16 < 16"
  using code_less [of b] by (simp_all add: less_mult_imp_div_less)

lemma url_unquote_quote_bytes: "url_unquote (concat (map url_quote_byte bs)) = bs"
proof (induction bs)
  case (Cons b bs)
  show ?case
  proof (cases "url_unreserved b")
    case True
    moreover have "\<not> url_unreserved (CHR ''%'')" by (simp add: url_unreserved_def char_class_defs)
    ultimately have "b \<noteq> CHR ''%''" by auto
    then show ?thesis using Cons True by (simp add: url_quote_byte_def url_unquote_plain)
  next
    case False
    note b = code_nibbles [of b]
    have "char_of (code b div 16 * 16 + code b mod 16) = b" by (simp add: div_mult_mod_eq)
    then show ?thesis using Cons False b by (simp add: url_quote_byte_def upper_hex_value)
  qed
qed simp

lemma url_quote_inverse: "utf8_decode (url_unquote (url_quote s)) = Some s"
  by (simp add: url_quote_def url_unquote_quote_bytes utf8_decode_encode)

lemma upper_hex_unreserved: "n < 16 \<Longrightarrow> url_unreserved (upper_hex n)"
  by (auto simp: upper_hex_def url_unreserved_def char_class_defs code_char_of)

lemma url_quote_chars: "c \<in> set (url_quote s) \<Longrightarrow> url_unreserved c \<or> c = CHR ''%''"
proof -
  have "url_unreserved c \<or> c = CHR ''%''" if "c \<in> set (url_quote_byte b)" for b
    using that upper_hex_unreserved [OF code_nibbles(1)] upper_hex_unreserved [OF code_nibbles(2)]
    by (auto simp: url_quote_byte_def split: if_splits)
  then show "c \<in> set (url_quote s) \<Longrightarrow> url_unreserved c \<or> c = CHR ''%''" by (auto simp: url_quote_def)
qed

section \<open>JSON\<close>

text \<open>The values \<open>json.loads\<close> returns; an object is a \<open>dict\<close> with string keys.\<close>

datatype json =
    JNull
  | JBool bool
  | JInt int
  | JFloat rat string
  | JStr string
  | JList "json list"
  | JDict "(string \<times> json) list"

text \<open>\<open>value == n\<close> for an integer \<open>n\<close>: Python's booleans and floats compare with integers by value.\<close>

fun json_eq_int :: "json \<Rightarrow> int \<Rightarrow> bool" where
  "json_eq_int (JBool b) n = ((if b then 1 else 0) = n)"
| "json_eq_int (JInt i) n = (i = n)"
| "json_eq_int (JFloat q _) n = (q = of_int n)"
| "json_eq_int _ n = False"

text \<open>\<open>d.get(key)\<close>: \<open>None\<close> when absent.\<close>

definition json_get :: "(string \<times> json) list \<Rightarrow> string \<Rightarrow> json" where
  "json_get d k = (case map_of d k of None \<Rightarrow> JNull | Some v \<Rightarrow> v)"

fun json_truthy :: "json \<Rightarrow> bool" where
  "json_truthy JNull = False"
| "json_truthy (JBool b) = b"
| "json_truthy (JInt i) = (i \<noteq> 0)"
| "json_truthy (JFloat q _) = (q \<noteq> 0)"
| "json_truthy (JStr s) = (s \<noteq> [])"
| "json_truthy (JList xs) = (xs \<noteq> [])"
| "json_truthy (JDict d) = (d \<noteq> [])"

fun json_repr :: "json \<Rightarrow> string" where
  "json_repr JNull = ''None''"
| "json_repr (JBool b) = (if b then ''True'' else ''False'')"
| "json_repr (JInt i) = int_str i"
| "json_repr (JFloat _ r) = r"
| "json_repr (JStr s) = py_repr_str s"
| "json_repr (JList xs) = ''['' @ py_join '', '' (map json_repr xs) @ '']''"
| "json_repr (JDict d) =
     ''{'' @ py_join '', '' (map (\<lambda>kv. py_repr_str (fst kv) @ '': '' @ json_repr (snd kv)) d) @ ''}''"

text \<open>\<open>str(value)\<close>: a string is itself.\<close>

fun json_str :: "json \<Rightarrow> string" where
  "json_str (JStr s) = s"
| "json_str v = json_repr v"

section \<open>Strings in JSON text\<close>

text \<open>\<open>json.dumps\<close> of a string with \<open>ensure_ascii\<close>: printable ASCII as it is, the rest escaped.\<close>

definition json_escape_char :: "char \<Rightarrow> string" where
  "json_escape_char c =
     (if c = dquote \<or> c = backslash then [backslash, c]
      else if code c = 10 then [backslash, CHR ''n'']
      else if code c = 13 then [backslash, CHR ''r'']
      else if code c = 9 then [backslash, CHR ''t'']
      else if code c = 12 then [backslash, CHR ''f'']
      else if code c = 8 then [backslash, CHR ''b'']
      else if 32 \<le> code c \<and> code c \<le> 126 then [c]
      else [backslash, CHR ''u'', CHR ''0'', CHR ''0'', hex_char (code c div 16), hex_char (code c mod 16)])"

definition json_dumps_str :: "string \<Rightarrow> string" where
  "json_dumps_str s = [dquote] @ concat (map json_escape_char s) @ [dquote]"

text \<open>The reader of such text: the value of a string token, and what follows it.\<close>

definition json_hex_value :: "char \<Rightarrow> nat" where
  "json_hex_value c = (if code c \<le> 57 then code c - 48 else code c - 87)"

definition json_short_escape :: "char \<Rightarrow> char" where
  "json_short_escape e =
     (if e = CHR ''n'' then char_of (10 :: nat)
      else if e = CHR ''r'' then char_of (13 :: nat)
      else if e = CHR ''t'' then char_of (9 :: nat)
      else if e = CHR ''f'' then char_of (12 :: nat)
      else if e = CHR ''b'' then char_of (8 :: nat)
      else e)"

fun json_read_chars :: "string \<Rightarrow> (string \<times> string) option" where
  "json_read_chars [] = None"
| "json_read_chars [c] = (if c = dquote then Some ([], []) else None)"
| "json_read_chars (c # e # s) =
     (if c = dquote then Some ([], e # s)
      else if c \<noteq> backslash then map_option (\<lambda>(v, r). (c # v, r)) (json_read_chars (e # s))
      else if e \<noteq> CHR ''u'' then map_option (\<lambda>(v, r). (json_short_escape e # v, r)) (json_read_chars s)
      else case s of
        z1 # z2 # a # b # t \<Rightarrow>
          map_option (\<lambda>(v, r). (char_of (json_hex_value a * 16 + json_hex_value b) # v, r)) (json_read_chars t)
      | _ \<Rightarrow> None)"

definition json_read_str :: "string \<Rightarrow> (string \<times> string) option" where
  "json_read_str s = (case s of c # t \<Rightarrow> if c = dquote then json_read_chars t else None | [] \<Rightarrow> None)"

lemma json_hex_value_char: "n < 16 \<Longrightarrow> json_hex_value (hex_char n) = n"
  by (auto simp: json_hex_value_def hex_char_def code_char_of)

lemma json_read_plain:
  "c \<noteq> dquote \<Longrightarrow> c \<noteq> backslash \<Longrightarrow> json_read_chars (c # s) = map_option (\<lambda>(v, r). (c # v, r)) (json_read_chars s)"
  by (cases s) auto

lemma json_read_escape:
  "json_read_chars (json_escape_char c @ s) = map_option (\<lambda>(v, r). (c # v, r)) (json_read_chars s)"
proof -
  have hex: "char_of (json_hex_value (hex_char (code c div 16)) * 16 + json_hex_value (hex_char (code c mod 16))) = c"
    by (simp add: json_hex_value_char code_nibbles div_mult_mod_eq)
  have eq: "c = char_of n" if "code c = n" for n using that by (metis char_of_char)
  consider "c = dquote \<or> c = backslash" | "code c \<in> {8, 9, 10, 12, 13}"
    | "c \<noteq> dquote" "c \<noteq> backslash" "code c \<notin> {8, 9, 10, 12, 13}" by blast
  then show ?thesis
  proof cases
    case 1
    then show ?thesis by (auto simp: json_escape_char_def json_short_escape_def)
  next
    case 2
    then show ?thesis by (auto simp: json_escape_char_def json_short_escape_def dest: eq)
  next
    case 3
    then show ?thesis by (auto simp: json_escape_char_def json_read_plain hex)
  qed
qed

text \<open>Escaped text reads back, whatever follows it.\<close>

lemma json_read_dumps: "json_read_str (json_dumps_str s @ rest) = Some (s, rest)"
proof -
  have "json_read_chars (concat (map json_escape_char s) @ dquote # rest) = Some (s, rest)"
    by (induction s) (auto simp: json_read_escape split: list.splits, cases rest, auto)
  then show ?thesis by (simp add: json_read_str_def json_dumps_str_def)
qed

end
