(* ===== verification/Doris_Discovery.thy ===== *)
theory Doris_Discovery
  imports Doris_Schema Doris_Sql Compat Connection_Base Py_Net
begin

text \<open>
  \<^verbatim>\<open>doris/discovery.py\<close>: the connection with its checks, its driver arguments, its URLs and its
  redacted representation; schema discovery over the MySQL protocol; and the query-plan
  request that yields tablet identifiers. The MySQL driver and the HTTP opener are records
  and functions that give the outcome of every call.
\<close>

section \<open>The connection\<close>

definition RESERVED_MYSQL_OPTIONS :: "string set" where
  "RESERVED_MYSQL_OPTIONS =
     {''autocommit'', ''binary_prefix'', ''charset'', ''connect_timeout'', ''conv'', ''cursorclass'', ''database'', ''db'',
      ''defer_connect'', ''host'', ''password'', ''passwd'', ''port'', ''read_default_file'', ''read_default_group'',
      ''read_timeout'', ''unix_socket'', ''use_unicode'', ''user'', ''write_timeout''}"

definition ADBC_FLIGHT_CONNECT_TIMEOUT_OPTION :: string where
  "ADBC_FLIGHT_CONNECT_TIMEOUT_OPTION = ''adbc.flight.sql.rpc.timeout_seconds.connect''"

definition RESERVED_FLIGHT_OPTIONS :: "string set" where
  "RESERVED_FLIGHT_OPTIONS =
     {ADBC_FLIGHT_CONNECT_TIMEOUT_OPTION, ''adbc.flight.sql.client_option.with_block'',
      ''adbc.flight.sql.rpc.timeout_seconds.fetch'', ''adbc.flight.sql.rpc.timeout_seconds.query'', ''password'', ''uri'',
      ''username''}"

record doris_connection =
  do_host :: string
  do_database :: string
  do_username :: string
  do_password :: secret
  do_mysql_port :: int
  do_http_port :: int
  do_flight_port :: int
  do_mysql_options :: "(string \<times> pyobj) list"
  do_flight_options :: "(string \<times> pyobj) list"
  do_http_secure :: bool
  do_flight_secure :: bool

definition host_ok :: "string \<Rightarrow> bool" where
  "host_ok h \<longleftrightarrow>
     \<not> list_ex py_isspace h \<and> \<not> list_ex (\<lambda>c. c \<in> set ''/?#@'') h \<and> (CHR '':'' \<in> set h \<longrightarrow> ipv6_ok h)"

record doris_args =
  da_host :: pyobj
  da_database :: pyobj
  da_username :: pyobj
  da_password :: secret_arg
  da_mysql_port :: pyobj
  da_http_port :: pyobj
  da_flight_port :: pyobj
  da_mysql_options :: mapping_arg
  da_flight_options :: mapping_arg
  da_http_secure :: pyobj
  da_flight_secure :: pyobj

text \<open>\<open>__post_init__\<close>, on options that are already frozen.\<close>

definition DorisConnection ::
    "doris_args \<Rightarrow> (string \<times> pyobj) list \<Rightarrow> (string \<times> pyobj) list \<Rightarrow> doris_connection result" where
  "DorisConnection a mysql_options flight_options =
     r_bind (nonempty_str (da_host a)) (\<lambda>h.
     r_bind (raise_if (\<not> host_ok h) ConfigurationError) (\<lambda>_.
     r_bind (nonempty_str (da_database a)) (\<lambda>d.
     r_bind (nonempty_str (da_username a)) (\<lambda>u.
     r_bind (validate_secret (da_password a)) (\<lambda>pw.
     r_bind (bool_arg (da_http_secure a)) (\<lambda>hs.
     r_bind (bool_arg (da_flight_secure a)) (\<lambda>fs.
     r_bind (port_arg (da_mysql_port a)) (\<lambda>mp.
     r_bind (port_arg (da_http_port a)) (\<lambda>hp.
     r_bind (port_arg (da_flight_port a)) (\<lambda>fp.
     Inr \<lparr>do_host = h, do_database = d, do_username = u, do_password = pw, do_mysql_port = mp, do_http_port = hp,
          do_flight_port = fp, do_mysql_options = mysql_options, do_flight_options = flight_options,
          do_http_secure = hs, do_flight_secure = fs\<rparr>))))))))))"

fun is_pystr :: "pyobj \<Rightarrow> bool" where
  "is_pystr (PStr _) = True"
| "is_pystr _ = False"

definition from_options_doris :: "heap \<Rightarrow> doris_args \<Rightarrow> doris_connection result" where
  "from_options_doris h a =
     r_bind (freeze_options h (da_flight_options a) RESERVED_FLIGHT_OPTIONS) (\<lambda>frozen_flight.
     r_bind (raise_if (list_ex (\<lambda>kv. \<not> is_pystr (snd kv)) frozen_flight) ConfigurationError) (\<lambda>_.
     r_bind (freeze_options h (da_mysql_options a) RESERVED_MYSQL_OPTIONS) (\<lambda>mysql_options.
     DorisConnection a mysql_options frozen_flight)))"

definition managed_kwargs_doris :: "doris_connection \<Rightarrow> string \<Rightarrow> resource_limits \<Rightarrow> (string \<times> pyobj) list" where
  "managed_kwargs_doris c password limits =
     [(''host'', PStr (do_host c)), (''port'', PInt (do_mysql_port c)), (''user'', PStr (do_username c)),
      (''password'', PStr password), (''database'', PStr (do_database c)), (''charset'', PStr ''utf8mb4''),
      (''autocommit'', PBool True), (''connect_timeout'', connect_timeout_seconds limits),
      (''read_timeout'', query_timeout_seconds limits), (''write_timeout'', query_timeout_seconds limits)]"

definition mysql_kwargs ::
    "heap \<Rightarrow> (string \<times> string) list \<Rightarrow> doris_connection \<Rightarrow> resource_limits \<Rightarrow> (string \<times> pyobj) list result" where
  "mysql_kwargs h environ c limits =
     r_bind (resolve_secret environ (do_password c)) (\<lambda>password.
     r_bind (thaw_options h (do_mysql_options c)) (\<lambda>options.
     Inr (dict_update (managed_kwargs_doris c password limits) options)))"

definition authority :: "doris_connection \<Rightarrow> int \<Rightarrow> string" where
  "authority c port =
     (if CHR '':'' \<in> set (do_host c) then ''['' @ do_host c @ '']'' else do_host c) @ '':'' @ int_str port"

definition query_plan_origin :: "doris_connection \<Rightarrow> string" where
  "query_plan_origin c =
     (if do_http_secure c then ''https'' else ''http'') @ ''://'' @ authority c (do_http_port c)"

definition flight_uri :: "doris_connection \<Rightarrow> string" where
  "flight_uri c =
     (if do_flight_secure c then ''grpc+tls'' else ''grpc'') @ ''://'' @ authority c (do_flight_port c)"

definition DorisConnection_repr :: "doris_connection \<Rightarrow> string" where
  "DorisConnection_repr c =
     ''DorisConnection('' @ ''host='' @ py_repr_str (do_host c) @ '', database='' @ py_repr_str (do_database c)
     @ '', username='' @ py_repr_str (do_username c) @ '', '' @ ''password=<redacted>, ''
     @ ''mysql_port='' @ int_str (do_mysql_port c) @ '', http_port='' @ int_str (do_http_port c) @ '', ''
     @ ''flight_port='' @ int_str (do_flight_port c) @ '', http_secure='' @ py_repr_bool (do_http_secure c) @ '', ''
     @ ''flight_secure='' @ py_repr_bool (do_flight_secure c) @ '', ''
     @ ''mysql_options='' @ py_repr_str_tuple (option_keys (do_mysql_options c)) @ '', ''
     @ ''flight_options='' @ py_repr_str_tuple (option_keys (do_flight_options c)) @ '')''"

section \<open>The MySQL driver\<close>

text \<open>
  Every call with the value or the exception it ends with. \<open>my_fetches\<close> are the outcomes of
  the successive \<open>fetchmany\<close> calls, after which the cursor is exhausted.
\<close>

datatype mogrified = MogrifiedBytes string | MogrifiedText string

record mysql_pkg =
  my_installed :: bool
  my_connect :: "(string \<times> pyobj) list \<Rightarrow> unit result"
  my_cursor :: "unit result"
  my_execute :: "string \<Rightarrow> unit result"
  my_fetches :: "pyobj list list result list"
  my_mogrify :: "string \<Rightarrow> pyobj list \<Rightarrow> mogrified result"
  my_cursor_close :: "unit result"
  my_connection_close :: "unit result"

definition mysql_driver :: "mysql_pkg \<Rightarrow> unit result" where
  "mysql_driver d = raise_if (\<not> my_installed d) DependencyError"

definition open_mysql ::
    "heap \<Rightarrow> (string \<times> string) list \<Rightarrow> mysql_pkg \<Rightarrow> doris_connection \<Rightarrow> resource_limits \<Rightarrow> unit result" where
  "open_mysql h environ d c limits =
     r_bind (mysql_driver d) (\<lambda>_.
     r_bind (mysql_kwargs h environ c limits) (\<lambda>kwargs. my_connect d kwargs))"

text \<open>\<open>_close_resources(cursor, database_connection)\<close>: those of the two that exist, in this order.\<close>

definition mysql_closes :: "mysql_pkg \<Rightarrow> unit result \<Rightarrow> unit result list" where
  "mysql_closes d opened =
     (case opened of
        Inl _ \<Rightarrow> []
      | Inr _ \<Rightarrow> (case my_cursor d of Inl _ \<Rightarrow> [] | Inr _ \<Rightarrow> [my_cursor_close d]) @ [my_connection_close d])"

section \<open>Schema discovery\<close>

fun fetch_all :: "pyobj list list result list \<Rightarrow> pyobj list list result" where
  "fetch_all [] = Inr []"
| "fetch_all (Inl e # _) = Inl e"
| "fetch_all (Inr batch # bs) =
     (if batch = [] then Inr [] else r_bind (fetch_all bs) (\<lambda>rows. Inr (batch @ rows)))"

definition schema_body_doris ::
    "(arrow_field \<Rightarrow> unit result) \<Rightarrow> mysql_pkg \<Rightarrow> qualified_table \<Rightarrow> arrow_schema result" where
  "schema_body_doris daft d t =
     r_bind (my_cursor d) (\<lambda>_.
     r_bind (build_describe t) (\<lambda>statement.
     r_bind (my_execute d statement) (\<lambda>_.
     r_bind (fetch_all (my_fetches d)) (\<lambda>rows.
     r_bind (parse_describe_rows rows) (\<lambda>columns.
     r_bind (canonical_schema_doris columns) (\<lambda>sch.
     r_bind (validate_daft_arrow_schema daft sch) (\<lambda>_.
     Inr sch)))))))"

definition kept_by_schema_discovery_doris :: "exn \<Rightarrow> bool" where
  "kept_by_schema_discovery_doris e \<longleftrightarrow> e = CompatibilityError \<or> e = DependencyError \<or> e = SchemaError"

definition discover_schema_doris ::
    "heap \<Rightarrow> (string \<times> string) list \<Rightarrow> (arrow_field \<Rightarrow> unit result) \<Rightarrow> mysql_pkg \<Rightarrow> doris_connection
       \<Rightarrow> qualified_table \<Rightarrow> resource_limits \<Rightarrow> arrow_schema result" where
  "discover_schema_doris h environ daft d c t limits =
     (let opened = open_mysql h environ d c limits
      in finally_close SchemaError (mysql_closes d opened)
           (handle_driver_errors translate_doris_error kept_by_schema_discovery_doris SchemaError
             (r_bind opened (\<lambda>_. schema_body_doris daft d t))))"

section \<open>The statement of the planning request\<close>

text \<open>Decoding invalid UTF-8 raises \<open>UnicodeDecodeError\<close>, a \<open>ValueError\<close>.\<close>

fun mogrified_text :: "mogrified \<Rightarrow> string result" where
  "mogrified_text (MogrifiedText s) = Inr s"
| "mogrified_text (MogrifiedBytes b) = (case utf8_decode b of Some s \<Rightarrow> Inr s | None \<Rightarrow> Inl ValueError)"

definition materialize_plan_sql ::
    "heap \<Rightarrow> (string \<times> string) list \<Rightarrow> mysql_pkg \<Rightarrow> doris_connection \<Rightarrow> string \<Rightarrow> pyobj list \<Rightarrow> resource_limits
       \<Rightarrow> string result" where
  "materialize_plan_sql h environ d c statement parameters limits =
     (if parameters = [] then Inr statement
      else let opened = open_mysql h environ d c limits
           in r_bind
                (finally_close DiscoveryError (mysql_closes d opened)
                  (handle_driver_errors translate_doris_error is_daft_olap_error DiscoveryError
                    (r_bind opened (\<lambda>_. r_bind (my_cursor d) (\<lambda>_. my_mogrify d statement parameters)))))
                mogrified_text)"

section \<open>The response\<close>

fun is_json_dict :: "json \<Rightarrow> bool" where
  "is_json_dict (JDict _) = True"
| "is_json_dict _ = False"

fun json_items :: "json \<Rightarrow> (string \<times> json) list" where
  "json_items (JDict d) = d"
| "json_items _ = []"

definition query_plan_rejection :: "json \<Rightarrow> exn" where
  "query_plan_rejection exception =
     (let normalized = py_casefold (if json_truthy exception then json_str exception else [])
      in if py_startswith normalized ''access denied'' then DatabasePermissionError
         else if py_contains normalized ''unknown table'' \<or> py_contains normalized ''does not exist''
         then DatabaseObjectNotFoundError
         else DiscoveryError)"

definition parse_tablet_id :: "string \<Rightarrow> int result" where
  "parse_tablet_id raw =
     r_bind (r_catch (py_int raw) (\<lambda>e. e = TypeError \<or> e = ValueError) (\<lambda>_. Inl DiscoveryError)) (\<lambda>i.
     if i \<le> 0 then Inl DiscoveryError else Inr i)"

definition parse_partitions_object :: "json \<Rightarrow> int list result" where
  "parse_partitions_object partitions =
     (if \<not> is_json_dict partitions then Inl DiscoveryError
      else r_bind (r_map parse_tablet_id (map fst (json_items partitions))) (\<lambda>tablet_ids.
           if card (set tablet_ids) \<noteq> length tablet_ids then Inl DiscoveryError
           else Inr (sort tablet_ids)))"

definition parse_query_plan_response :: "json \<Rightarrow> int list result" where
  "parse_query_plan_response payload =
     (if \<not> is_json_dict payload then Inl DiscoveryError
      else let outer_code = json_get (json_items payload) ''code''
           in if json_eq_int outer_code 401 then Inl AuthenticationError
              else if \<not> json_eq_int outer_code 0 then Inl DiscoveryError
              else let data = json_get (json_items payload) ''data''
                   in if \<not> is_json_dict data then Inl DiscoveryError
                      else let status = json_get (json_items data) ''status''
                           in if status = JStr ''1''
                              then Inl (query_plan_rejection (json_get (json_items data) ''exception''))
                              else if \<not> json_eq_int status 200 then Inl DiscoveryError
                              else parse_partitions_object (json_get (json_items data) ''partitions''))"

section \<open>The request\<close>

record http_request =
  req_method :: string
  req_url :: string
  req_body :: string
  req_headers :: "(string \<times> string) list"
  req_unredirected :: "(string \<times> string) list"

text \<open>
  How opening or reading can fail: \<open>urllib\<close>'s errors, other \<open>OSError\<close>s, and anything else
  (\<open>http.client.HTTPException\<close> is not an \<open>OSError\<close>).
\<close>

datatype http_error = HTTPError int | HttpTimeout | URLError (reason_is_timeout: bool) | OSErr | OtherHttp exn

record http_response =
  resp_status :: int
  resp_read :: "int \<Rightarrow> http_error + string"

definition MAX_QUERY_PLAN_RESPONSE_BYTES :: int where
  "MAX_QUERY_PLAN_RESPONSE_BYTES = 16 * 1024 * 1024"

definition query_plan_url :: "doris_connection \<Rightarrow> qualified_table \<Rightarrow> string" where
  "query_plan_url c t =
     query_plan_origin c @ ''/api/'' @ url_quote (database t) @ ''/'' @ url_quote (table t) @ ''/_query_plan''"

definition query_plan_request :: "doris_connection \<Rightarrow> qualified_table \<Rightarrow> string \<Rightarrow> string \<Rightarrow> http_request" where
  "query_plan_request c t password rendered =
     \<lparr>req_method = ''POST'', req_url = query_plan_url c t,
      req_body = utf8_encode (''{'' @ json_dumps_str ''sql'' @ '': '' @ json_dumps_str rendered @ ''}''),
      req_headers = [(''Content-Type'', ''application/json'')],
      req_unredirected =
        [(''Authorization'', ''Basic '' @ b64encode (utf8_encode (do_username c @ '':'' @ password)))]\<rparr>"

fun http_failure :: "http_error \<Rightarrow> exn" where
  "http_failure (HTTPError n) =
     (if n = 401 then AuthenticationError else if n = 403 then DatabasePermissionError else DiscoveryError)"
| "http_failure HttpTimeout = DiscoveryError"
| "http_failure (URLError _) = DiscoveryError"
| "http_failure OSErr = DiscoveryError"
| "http_failure (OtherHttp e) = e"

definition read_response :: "http_response \<Rightarrow> string result" where
  "read_response r =
     (if resp_status r \<noteq> 200 then Inl DiscoveryError
      else case resp_read r (MAX_QUERY_PLAN_RESPONSE_BYTES + 1) of
        Inl f \<Rightarrow> Inl (http_failure f)
      | Inr body \<Rightarrow> if MAX_QUERY_PLAN_RESPONSE_BYTES < int (length body) then Inl DiscoveryError else Inr body)"

definition send_request :: "(http_request \<Rightarrow> http_error + http_response) \<Rightarrow> http_request \<Rightarrow> string result" where
  "send_request opener req = (case opener req of Inl f \<Rightarrow> Inl (http_failure f) | Inr r \<Rightarrow> read_response r)"

text \<open>
  \<open>json_loads\<close> is the standard library's decoder. Besides \<open>JSONDecodeError\<close> it can end with
  another exception, such as the \<open>ValueError\<close> for an integer of more than 4300 digits.
\<close>

datatype json_error = JSONDecodeError | OtherJson exn

fun json_failure :: "json_error \<Rightarrow> exn" where
  "json_failure JSONDecodeError = DiscoveryError"
| "json_failure (OtherJson e) = e"

definition parse_body :: "(string \<Rightarrow> json_error + json) \<Rightarrow> string \<Rightarrow> int list result" where
  "parse_body json_loads body =
     (case utf8_decode body of
        None \<Rightarrow> Inl DiscoveryError
      | Some s \<Rightarrow>
          (case json_loads s of
             Inl f \<Rightarrow> Inl (json_failure f)
           | Inr payload \<Rightarrow> parse_query_plan_response payload))"

record doris_world =
  dw_environ :: "(string \<times> string) list"
  dw_mysql :: mysql_pkg
  dw_open :: "rat \<Rightarrow> http_request \<Rightarrow> http_error + http_response"
  dw_json_loads :: "string \<Rightarrow> json_error + json"

definition discover_tablets ::
    "heap \<Rightarrow> doris_world \<Rightarrow> doris_connection \<Rightarrow> qualified_table \<Rightarrow> string \<Rightarrow> pyobj list \<Rightarrow> resource_limits \<Rightarrow> pyobj
       \<Rightarrow> int list result" where
  "discover_tablets h w c t statement parameters limits planning_timeout =
     r_bind (validate_timeout_seconds planning_timeout) (\<lambda>timeout.
     r_bind (materialize_plan_sql h (dw_environ w) (dw_mysql w) c statement parameters limits) (\<lambda>rendered.
     r_bind (resolve_secret (dw_environ w) (do_password c)) (\<lambda>password.
     r_bind (send_request (dw_open w timeout) (query_plan_request c t password rendered)) (\<lambda>body.
     parse_body (dw_json_loads w) body))))"

section \<open>Options cannot override what the connector manages\<close>

lemma managed_keys_reserved_doris: "set (map fst (managed_kwargs_doris c p l)) \<subseteq> RESERVED_MYSQL_OPTIONS"
  by (simp add: managed_kwargs_doris_def RESERVED_MYSQL_OPTIONS_def)

interpretation doris_arguments: managed_arguments RESERVED_MYSQL_OPTIONS managed_kwargs_doris do_mysql_options
  by unfold_locales (rule managed_keys_reserved_doris)

lemma from_options_doris_Inr:
  assumes "from_options_doris h a = Inr c"
  shows "set (map fst (do_mysql_options c)) \<inter> RESERVED_MYSQL_OPTIONS = {}"
    and "set (map fst (do_flight_options c)) \<inter> RESERVED_FLIGHT_OPTIONS = {}"
    and "\<forall>(k, v) \<in> set (do_flight_options c). is_pystr v"
    and "do_host c \<noteq> []" "host_ok (do_host c)" "do_database c \<noteq> []" "do_username c \<noteq> []"
    and "\<forall>p \<in> {do_mysql_port c, do_http_port c, do_flight_port c}. 1 \<le> p \<and> p \<le> MAX_PORT"
proof -
  from assms obtain fo mo where f: "freeze_options h (da_flight_options a) RESERVED_FLIGHT_OPTIONS = Inr fo"
      "freeze_options h (da_mysql_options a) RESERVED_MYSQL_OPTIONS = Inr mo"
    and str: "\<not> list_ex (\<lambda>kv. \<not> is_pystr (snd kv)) fo" and c: "DorisConnection a mo fo = Inr c"
    by (auto simp: from_options_doris_def r_bind_Inr_iff raise_if_def split: if_splits)
  from c have e: "do_mysql_options c = mo" "do_flight_options c = fo" "nonempty_str (da_host a) = Inr (do_host c)"
      "nonempty_str (da_database a) = Inr (do_database c)" "nonempty_str (da_username a) = Inr (do_username c)"
      "port_arg (da_mysql_port a) = Inr (do_mysql_port c)" "port_arg (da_http_port a) = Inr (do_http_port c)"
      "port_arg (da_flight_port a) = Inr (do_flight_port c)" and ok: "host_ok (do_host c)"
    by (auto simp: DorisConnection_def r_bind_Inr_iff raise_if_def split: if_splits)
  show "set (map fst (do_mysql_options c)) \<inter> RESERVED_MYSQL_OPTIONS = {}"
      "set (map fst (do_flight_options c)) \<inter> RESERVED_FLIGHT_OPTIONS = {}"
    using freeze_options_not_reserved f e by auto
  show "\<forall>(k, v) \<in> set (do_flight_options c). is_pystr v" using str e(2) by (auto simp: list_ex_iff)
  show "do_host c \<noteq> []" "do_database c \<noteq> []" "do_username c \<noteq> []"
    using e(3-5) by (auto elim!: nonempty_str.elims split: if_splits)
  show "host_ok (do_host c)" by (rule ok)
  show "\<forall>p \<in> {do_mysql_port c, do_http_port c, do_flight_port c}. 1 \<le> p \<and> p \<le> MAX_PORT"
    using e(6-8) by (auto simp: port_arg_def bounded_int_Inr_iff)
qed

lemma mysql_kwargs_managed:
  assumes "from_options_doris h a = Inr c" and "mysql_kwargs h' environ c limits = Inr kw"
    and "k \<in> RESERVED_MYSQL_OPTIONS"
  shows "\<exists>p. resolve_secret environ (do_password c) = Inr p \<and> map_of kw k = map_of (managed_kwargs_doris c p limits) k"
proof -
  from assms(2) obtain p o' where p: "resolve_secret environ (do_password c) = Inr p"
    and t: "thaw_options h' (do_mysql_options c) = Inr o'" and kw: "kw = dict_update (managed_kwargs_doris c p limits) o'"
    by (auto simp: mysql_kwargs_def r_bind_Inr_iff)
  have "map_of kw k = map_of (managed_kwargs_doris c p limits) k"
    unfolding kw by (rule doris_arguments.managed_kept [OF t from_options_doris_Inr(1) [OF assms(1)] assms(3)])
  then show ?thesis using p by blast
qed

section \<open>Schema discovery\<close>

lemma discover_schema_doris_contained:
  assumes "discover_schema_doris h environ daft d c t limits = Inl e"
  shows "contained e"
  using assms unfolding discover_schema_doris_def Let_def
  by (rule doris_errors.guarded_contained) (auto simp: kept_by_schema_discovery_doris_def)

lemma discover_schema_doris_Inr:
  assumes "discover_schema_doris h environ daft d c t limits = Inr sch"
  shows "\<exists>rows. fetch_all (my_fetches d) = Inr rows \<and> r_bind (parse_describe_rows rows) canonical_schema_doris = Inr sch"
    and "validate_daft_arrow_schema daft sch = Inr ()"
proof -
  from assms have "schema_body_doris daft d t = Inr sch"
    unfolding discover_schema_doris_def Let_def doris_errors.guarded_Inr_iff by (auto simp: r_bind_Inr_iff)
  then show "\<exists>rows. fetch_all (my_fetches d) = Inr rows \<and> r_bind (parse_describe_rows rows) canonical_schema_doris = Inr sch"
    "validate_daft_arrow_schema daft sch = Inr ()"
    by (auto simp: schema_body_doris_def r_bind_Inr_iff)
qed

text \<open>All rows of all batches, whatever their sizes.\<close>

lemma fetch_all_batches: "[] \<notin> set bs \<Longrightarrow> fetch_all (map Inr bs) = Inr (concat bs)"
  by (induction bs) auto

section \<open>The request\<close>

lemma utf8_printable_ascii: "list_all (\<lambda>c. code c < 128) s \<Longrightarrow> utf8_encode s = s"
  by (induction s) (auto simp: utf8_encode_def utf8_char_def)

lemma hex_char_ascii: "n < 16 \<Longrightarrow> code (hex_char n) < 128"
  by (auto simp: hex_char_def code_char_of)

lemma json_escape_ascii: "list_all (\<lambda>c. code c < 128) (json_escape_char c)"
  using hex_char_ascii [OF code_nibbles(1) [of c]] hex_char_ascii [OF code_nibbles(2) [of c]]
  by (auto simp: json_escape_char_def)

lemma json_dumps_ascii: "list_all (\<lambda>c. code c < 128) (json_dumps_str s)"
  using json_escape_ascii by (auto simp: json_dumps_str_def list_all_iff)

lemma request_body_ascii:
  "req_body (query_plan_request c t password rendered)
     = ''{'' @ json_dumps_str ''sql'' @ '': '' @ json_dumps_str rendered @ ''}''"
proof -
  have "list_all (\<lambda>c. code c < 128) (''{'' @ json_dumps_str ''sql'' @ '': '' @ json_dumps_str rendered @ ''}'')"
    using json_dumps_ascii [of "''sql''"] json_dumps_ascii [of rendered] by simp
  then show ?thesis by (simp only: query_plan_request_def http_request.simps utf8_printable_ascii)
qed

section \<open>Tablets\<close>

lemma parse_tablet_id_Inr_iff: "parse_tablet_id raw = Inr i \<longleftrightarrow> py_int raw = Inr i \<and> 0 < i"
  using py_int_error [of raw] by (cases "py_int raw") (auto simp: parse_tablet_id_def r_catch_def)

lemma parse_tablet_id_error: "parse_tablet_id raw = Inl e \<Longrightarrow> e = DiscoveryError"
  using py_int_error [of raw] by (cases "py_int raw") (auto simp: parse_tablet_id_def r_catch_def split: if_splits)

definition query_plan_errors :: "exn set" where
  "query_plan_errors = {DiscoveryError, AuthenticationError, DatabasePermissionError, DatabaseObjectNotFoundError}"

lemma parse_partitions_object_error: "parse_partitions_object j = Inl e \<Longrightarrow> e = DiscoveryError"
  by (auto simp: parse_partitions_object_def r_bind_Inl_iff dest!: r_map_Inl_ex dest: parse_tablet_id_error split: if_splits)

lemma parse_query_plan_error: "parse_query_plan_response j = Inl e \<Longrightarrow> e \<in> query_plan_errors"
  by (auto simp: parse_query_plan_response_def query_plan_errors_def query_plan_rejection_def Let_def
      dest: parse_partitions_object_error split: if_splits)

text \<open>Accepted responses: the keys of \<open>partitions\<close>, each an integer, positive, once, in order.\<close>

lemma parse_partitions_object_Inr:
  assumes "parse_partitions_object j = Inr ids"
  shows "sorted ids" and "distinct ids" and "\<forall>i \<in> set ids. 0 < i"
    and "Inr ` set ids = py_int ` set (map fst (json_items j))"
proof -
  from assms obtain raw where r: "r_map parse_tablet_id (map fst (json_items j)) = Inr raw"
    and card: "card (set raw) = length raw" and ids: "ids = sort raw"
    by (auto simp: parse_partitions_object_def r_bind_Inr_iff split: if_splits)
  have l: "list_all2 (\<lambda>s i. py_int s = Inr i \<and> 0 < i) (map fst (json_items j)) raw"
    using r unfolding r_map_Inr_iff parse_tablet_id_Inr_iff .
  show "sorted ids" "distinct ids" using ids card by (auto intro: card_distinct)
  show "\<forall>i \<in> set ids. 0 < i" using l ids by (auto simp: list_all2_conv_all_nth in_set_conv_nth)
  have "map Inr raw = map py_int (map fst (json_items j))"
    using l by (induction rule: list_all2_induct) auto
  then show "Inr ` set ids = py_int ` set (map fst (json_items j))"
    using ids by (metis list.set_map set_sort)
qed

lemma parse_query_plan_Inr:
  assumes "parse_query_plan_response j = Inr ids"
  shows "parse_partitions_object (json_get (json_items (json_get (json_items j) ''data'')) ''partitions'') = Inr ids"
  using assms by (auto simp: parse_query_plan_response_def Let_def split: if_splits)

lemma parse_body_Inr:
  assumes "parse_body loads body = Inr ids"
  obtains s j where "utf8_decode body = Some s" "loads s = Inr j" "parse_query_plan_response j = Inr ids"
proof (cases "utf8_decode body")
  case (Some s)
  then show ?thesis using assms that by (cases "loads s") (auto simp: parse_body_def)
qed (use assms in \<open>simp add: parse_body_def\<close>)

lemma discover_tablets_Inr:
  assumes "discover_tablets h w c t statement parameters limits timeout = Inr ids"
  shows "sorted ids" and "distinct ids" and "\<forall>i \<in> set ids. 0 < i"
proof -
  from assms obtain body where "parse_body (dw_json_loads w) body = Inr ids"
    by (auto simp: discover_tablets_def r_bind_Inr_iff)
  then obtain j where "parse_query_plan_response j = Inr ids" by (rule parse_body_Inr)
  note p = parse_partitions_object_Inr [OF parse_query_plan_Inr [OF this]]
  show "sorted ids" "distinct ids" "\<forall>i \<in> set ids. 0 < i" using p by auto
qed

text \<open>
  Which errors planning can end with. Outside the connector's own there are three ways out:
  a failure of the HTTP client that is no \<open>OSError\<close>, one of the JSON decoder that is no
  \<open>JSONDecodeError\<close>, and statement bytes that are not UTF-8.
\<close>

lemma http_failure_class: "http_failure f \<in> query_plan_errors \<or> f = OtherHttp (http_failure f)"
  by (cases f) (auto simp: query_plan_errors_def)

lemma send_request_error:
  assumes "send_request opener r = Inl e"
  shows "e \<in> query_plan_errors \<or> opener r = Inl (OtherHttp e)
    \<or> (\<exists>p. opener r = Inr p \<and> resp_read p (MAX_QUERY_PLAN_RESPONSE_BYTES + 1) = Inl (OtherHttp e))"
proof (cases "opener r")
  case (Inl f)
  then show ?thesis using assms http_failure_class [of f] by (auto simp: send_request_def)
next
  case (Inr p)
  then show ?thesis
  proof (cases "resp_read p (MAX_QUERY_PLAN_RESPONSE_BYTES + 1)")
    case (Inl f)
    then show ?thesis
      using assms Inr http_failure_class [of f]
      by (auto simp: send_request_def read_response_def query_plan_errors_def split: if_splits)
  qed (use assms Inr in \<open>auto simp: send_request_def read_response_def query_plan_errors_def split: if_splits\<close>)
qed

lemma materialize_error:
  assumes "materialize_plan_sql h environ d c statement ps limits = Inl e"
  shows "contained e \<or> (e = ValueError \<and> (\<exists>b. my_mogrify d statement ps = Inr (MogrifiedBytes b) \<and> utf8_decode b = None))"
proof (cases "ps = []")
  case False
  define opened where "opened = open_mysql h environ d c limits"
  define m where "m = r_bind opened (\<lambda>_. r_bind (my_cursor d) (\<lambda>_. my_mogrify d statement ps))"
  define g where "g = finally_close DiscoveryError (mysql_closes d opened)
    (handle_driver_errors translate_doris_error is_daft_olap_error DiscoveryError m)"
  have e: "r_bind g mogrified_text = Inl e"
    using assms False by (simp add: materialize_plan_sql_def g_def m_def opened_def Let_def)
  show ?thesis
  proof (cases g)
    case (Inl e')
    then have "contained e'" unfolding g_def by (rule doris_errors.guarded_contained) auto
    then show ?thesis using e Inl by simp
  next
    case (Inr x)
    then have "m = Inr x" unfolding g_def doris_errors.guarded_Inr_iff by simp
    then have "my_mogrify d statement ps = Inr x" by (auto simp: m_def r_bind_Inr_iff)
    then show ?thesis using e Inr by (cases x) (auto split: option.splits)
  qed
qed (use assms in \<open>simp add: materialize_plan_sql_def\<close>)

lemma parse_body_error:
  assumes "parse_body loads b = Inl e"
  shows "e \<in> query_plan_errors \<or> (\<exists>s. utf8_decode b = Some s \<and> loads s = Inl (OtherJson e))"
proof (cases "utf8_decode b")
  case None
  then show ?thesis using assms by (simp add: parse_body_def query_plan_errors_def)
next
  case (Some s)
  show ?thesis
  proof (cases "loads s")
    case (Inl f)
    then show ?thesis using assms Some by (cases f) (auto simp: parse_body_def query_plan_errors_def)
  next
    case (Inr j)
    then show ?thesis using assms Some parse_query_plan_error [of j e] by (simp add: parse_body_def)
  qed
qed

lemma discover_tablets_error:
  assumes "discover_tablets h w c t statement ps limits timeout = Inl e"
  obtains (contained) "contained e"
    | (http) q p r where "resolve_secret (dw_environ w) (do_password c) = Inr p"
        "dw_open w q (query_plan_request c t p r) = Inl (OtherHttp e)
         \<or> (\<exists>a. dw_open w q (query_plan_request c t p r) = Inr a \<and> resp_read a (MAX_QUERY_PLAN_RESPONSE_BYTES + 1) = Inl (OtherHttp e))"
    | (json) s where "dw_json_loads w s = Inl (OtherJson e)"
    | (bytes) b where "e = ValueError" "my_mogrify (dw_mysql w) statement ps = Inr (MogrifiedBytes b)" "utf8_decode b = None"
proof -
  have q: "x \<in> query_plan_errors \<Longrightarrow> contained x" for x by (auto simp: query_plan_errors_def contained_def)
  have c: "contained ConfigurationError" by (simp add: contained_def)
  from assms consider "validate_timeout_seconds timeout = Inl e"
    | "materialize_plan_sql h (dw_environ w) (dw_mysql w) c statement ps limits = Inl e"
    | "resolve_secret (dw_environ w) (do_password c) = Inl e"
    | x p r where "resolve_secret (dw_environ w) (do_password c) = Inr p" "send_request (dw_open w x) (query_plan_request c t p r) = Inl e"
    | b where "parse_body (dw_json_loads w) b = Inl e"
    unfolding discover_tablets_def r_bind_Inl_iff by blast
  then show thesis
  proof cases
    case 1
    then show thesis using validate_timeout_error c contained by blast
  next
    case 2
    then show thesis using materialize_error contained bytes by blast
  next
    case 3
    then show thesis using resolve_secret_error c contained by blast
  next
    case (4 x p r)
    from send_request_error [OF 4(2)] consider "e \<in> query_plan_errors"
      | "dw_open w x (query_plan_request c t p r) = Inl (OtherHttp e)
         \<or> (\<exists>a. dw_open w x (query_plan_request c t p r) = Inr a \<and> resp_read a (MAX_QUERY_PLAN_RESPONSE_BYTES + 1) = Inl (OtherHttp e))"
      by blast
    then show thesis using q contained http [OF 4(1)] by cases blast+
  next
    case (5 b)
    from parse_body_error [OF this] show thesis using q contained json by blast
  qed
qed

end
