(* ===== verification/Source_Base.thy ===== *)
theory Source_Base
  imports Batching Compat CH_Discovery Doris_Discovery
begin

text \<open>
  What the two data sources share: the checks of the mode arguments, the shape of a task
  generator (the tasks it yields, and the exception that may end it), and why splitting a
  scan by groups of keys returns the rows of the unsplit scan.
\<close>

section \<open>Arguments\<close>

text \<open>
  \<open>value not in {...}\<close>: a set lookup, which raises \<open>TypeError\<close> for what cannot be hashed: a mapping, a
  list, a set, or a tuple that holds one of these at any depth. Tuples nest without cycles, so no
  chain of them is longer than the heap.
\<close>

primrec unhashable_within :: "nat \<Rightarrow> heap \<Rightarrow> pyobj \<Rightarrow> bool" where
  "unhashable_within 0 h v = False"
| "unhashable_within (Suc n) h v =
     (case deref h v of
        Some (CMapping _) \<Rightarrow> True
      | Some (CList _) \<Rightarrow> True
      | Some (CSet _) \<Rightarrow> True
      | Some (CTuple xs) \<Rightarrow> list_ex (unhashable_within n h) xs
      | _ \<Rightarrow> False)"

definition unhashable :: "heap \<Rightarrow> pyobj \<Rightarrow> bool" where
  "unhashable h v \<longleftrightarrow> unhashable_within (Suc (length h)) h v"

definition choice_arg :: "heap \<Rightarrow> string list \<Rightarrow> pyobj \<Rightarrow> string result" where
  "choice_arg h choices v =
     (if unhashable h v then Inl TypeError
      else case v of
        PStr s \<Rightarrow> if s \<in> set choices then Inr s else Inl ConfigurationError
      | _ \<Rightarrow> Inl ConfigurationError)"

fun unsafe_where_arg :: "pyobj \<Rightarrow> string option result" where
  "unsafe_where_arg PNone = Inr None"
| "unsafe_where_arg (PStr s) = (if py_strip s = [] then Inl ConfigurationError else Inr (Some (py_strip s)))"
| "unsafe_where_arg _ = Inl ConfigurationError"

lemma choice_arg_Inr_iff: "choice_arg h cs v = Inr s \<longleftrightarrow> v = PStr s \<and> s \<in> set cs"
  by (cases v) (auto simp: choice_arg_def unhashable_def split: option.splits container.splits)

lemma unsafe_where_Inr: "unsafe_where_arg v = Inr (Some s) \<Longrightarrow> s \<noteq> []"
  by (cases v) (auto split: if_splits)

lemma QualifiedTable_valid:
  "QualifiedTable db tb = Inr t \<Longrightarrow> valid_identifier (database t) \<and> valid_identifier (table t)"
  by (cases t) (auto simp: QualifiedTable_def simp del: validate_identifier.simps)

record limit_args =
  la_batch_rows :: pyobj
  la_batch_bytes :: pyobj
  la_target_tasks :: pyobj
  la_max_tasks :: pyobj
  la_connect_timeout :: pyobj
  la_query_timeout :: pyobj

definition limits_of_args :: "limit_args \<Rightarrow> resource_limits result" where
  "limits_of_args a =
     ResourceLimits (la_batch_rows a) (la_batch_bytes a) (la_target_tasks a) (la_max_tasks a)
       (la_connect_timeout a) (la_query_timeout a)"

lemma valid_limits_tasks: "valid_limits l \<Longrightarrow> 1 \<le> target_tasks l \<and> target_tasks l \<le> max_tasks l \<and> max_tasks l \<le> MAX_TASKS"
  by (simp add: valid_limits_def)

definition limit_obj :: "int option \<Rightarrow> pyobj" where
  "limit_obj limit = (case limit of None \<Rightarrow> PNone | Some n \<Rightarrow> PInt n)"

section \<open>Generators\<close>

type_synonym 'a generated = "'a list \<times> exn option"

text \<open>\<open>for g in groups: yield build(g)\<close>: an exception ends the generator after the tasks already yielded.\<close>

fun emit :: "('g \<Rightarrow> 'a result) \<Rightarrow> 'g list \<Rightarrow> 'a generated" where
  "emit build [] = ([], None)"
| "emit build (g # gs) =
     (case build g of
        Inl e \<Rightarrow> ([], Some e)
      | Inr x \<Rightarrow> (x # fst (emit build gs), snd (emit build gs)))"

lemma emit_complete_iff: "emit build gs = (xs, None) \<longleftrightarrow> r_map build gs = Inr xs"
proof (induction gs arbitrary: xs)
  case (Cons g gs)
  show ?case
  proof (cases "build g")
    case (Inr x)
    have "snd (emit build gs) = None \<and> xs = x # fst (emit build gs)
        \<longleftrightarrow> (\<exists>ys. r_map build gs = Inr ys \<and> xs = x # ys)"
      using Cons.IH by (metis prod.collapse prod.inject)
    then show ?thesis using Inr by (auto simp: r_bind_Inr_iff)
  qed simp
qed auto

lemma emit_bounded: "length (fst (emit build gs)) \<le> length gs"
  by (induction gs) (auto split: sum.splits)

lemma emit_prefix: "emit build gs = (xs, e) \<Longrightarrow> list_all2 (\<lambda>g x. build g = Inr x) (take (length xs) gs) xs"
proof (induction gs arbitrary: xs e)
  case (Cons g gs)
  then show ?case using Cons.IH [OF surjective_pairing] by (cases "build g") auto
qed simp

lemma emit_failed:
  assumes "emit build gs = (xs, Some e)"
  shows "length xs < length gs \<and> build (gs ! length xs) = Inl e"
  using assms
proof (induction gs arbitrary: xs)
  case (Cons g gs)
  show ?case
  proof (cases "build g")
    case (Inr x)
    then have "emit build gs = (tl xs, Some e)" "xs = x # tl xs"
      using Cons.prems by (auto simp: prod_eq_iff)
    then show ?thesis using Cons.IH [of "tl xs"] by (metis length_Cons less_Suc_eq_le linorder_not_le nth_Cons_Suc)
  qed (use Cons.prems in auto)
qed simp

section \<open>Splitting a scan\<close>

text \<open>
  Every group reads the rows whose key is in it. When the groups hold every key exactly once,
  the groups together read every row exactly once.
\<close>

definition group_rows :: "('r \<Rightarrow> 'k) \<Rightarrow> 'r list \<Rightarrow> 'k list option \<Rightarrow> 'r list" where
  "group_rows key rows g = (case g of None \<Rightarrow> rows | Some ks \<Rightarrow> filter (\<lambda>r. key r \<in> set ks) rows)"

lemma mset_filter_disjoint:
  assumes "\<And>x. x \<in> set xs \<Longrightarrow> \<not> (P x \<and> Q x)"
  shows "mset (filter (\<lambda>x. P x \<or> Q x) xs) = mset (filter P xs) + mset (filter Q xs)"
  using assms by (induction xs) auto

lemma group_rows_mset:
  assumes "distinct (concat gs)"
  shows "mset (concat (map (\<lambda>g. group_rows key rows (Some g)) gs))
    = mset (filter (\<lambda>r. key r \<in> set (concat gs)) rows)"
  using assms
proof (induction gs)
  case (Cons g gs)
  have "mset (filter (\<lambda>r. key r \<in> set g \<or> key r \<in> set (concat gs)) rows)
      = mset (filter (\<lambda>r. key r \<in> set g) rows) + mset (filter (\<lambda>r. key r \<in> set (concat gs)) rows)"
    using Cons.prems by (intro mset_filter_disjoint) auto
  moreover have "(\<lambda>r. key r \<in> set (concat (g # gs))) = (\<lambda>r. key r \<in> set g \<or> key r \<in> set (concat gs))" by auto
  ultimately show ?case using Cons by (simp add: group_rows_def)
qed (simp add: group_rows_def)

context splitter
begin

lemma split_rows:
  assumes "1 \<le> t" "1 \<le> m" "split_items xs t m = Inr gs" "distinct (map key xs)"
    and "\<forall>r \<in> set rows. row_key r \<in> set (map key xs)"
  shows "mset (concat (map (\<lambda>g. group_rows row_key rows (Some g)) gs)) = mset rows"
proof -
  have d: "distinct (concat gs)" using split_mset [OF assms(1-3)] assms(4) by (metis mset_eq_imp_distinct_iff)
  have "set (concat gs) = set (map key xs)" using split_mset [OF assms(1-3)] by (metis set_mset_mset)
  then have "filter (\<lambda>r. row_key r \<in> set (concat gs)) rows = rows"
    using assms(5) by (simp add: filter_id_conv)
  then show ?thesis using group_rows_mset [OF d, of row_key rows] by simp
qed

end

section \<open>Planned scans\<close>

definition count_schema :: "string \<Rightarrow> arrow_schema" where
  "count_schema name =
     \<lparr>schema_fields = [\<lparr>field_name = name, field_type = ArrowUInt64, field_nullable = False\<rparr>], schema_metadata = []\<rparr>"

record 'g scan_plan =
  sp_columns :: "string list"
  sp_schema :: arrow_schema
  sp_predicate :: "predicate option"
  sp_limit :: "int option"
  sp_groups :: "'g list"

definition obj_limit :: "pyobj \<Rightarrow> int option" where
  "obj_limit v = (case v of PInt n \<Rightarrow> Some n | _ \<Rightarrow> None)"

lemma obj_limit_obj [simp]: "obj_limit (limit_obj limit) = limit"
  by (simp add: obj_limit_def limit_obj_def split: option.split)

text \<open>The caller's fragment selects rows by the meaning the database gives it.\<close>

definition fragment_rows :: "(string \<Rightarrow> row \<Rightarrow> bool) \<Rightarrow> string option \<Rightarrow> row list \<Rightarrow> row list" where
  "fragment_rows fragment unsafe rows = (case unsafe of None \<Rightarrow> rows | Some f \<Rightarrow> filter (fragment f) rows)"

lemma fragment_rows_subset: "set (fragment_rows fragment unsafe rows) \<subseteq> set rows"
  by (auto simp: fragment_rows_def split: option.splits)

lemma group_rows_filter: "filter P (group_rows key rows g) = group_rows key (filter P rows) g"
  by (simp add: group_rows_def filter_filter conj_commute split: option.split)

lemma database_scan_matching:
  "database_scan cmp p limit (group_rows key (filter (database_keeps cmp p) rows) g)
     = database_scan cmp p limit (group_rows key rows g)"
  by (simp add: database_scan_def group_rows_filter filter_filter)

text \<open>
  A scan split by groups that hold every matching row exactly once: after Daft applies filter
  and limit again, the rows are those Daft keeps of the whole table, in some order.
\<close>

lemma split_scan_rows:
  assumes "compile_filter (pd_filters pd) = Inr p"
    and "mset (concat (map (group_rows key (filter (database_keeps cmp p) rows)) groups))
           = mset (filter (database_keeps cmp p) rows)"
  shows "\<exists>kept. mset kept = mset (filter (daft_keeps cmp operand truth (pd_filters pd)) rows)
    \<and> take_limit (pd_limit pd) (filter (daft_keeps cmp operand truth (pd_filters pd))
        (concat (map (\<lambda>g. database_scan cmp p (safe_database_limit pd p) (group_rows key rows g)) groups)))
      = take_limit (pd_limit pd) kept"
proof (intro exI conjI)
  let ?keep = "daft_keeps cmp operand truth (pd_filters pd)"
  let ?matching = "filter (database_keeps cmp p) rows"
  let ?kept = "filter ?keep (concat (map (group_rows key ?matching) groups))"
  have "mset ?kept = mset (filter ?keep ?matching)" using assms(2) by (metis mset_filter)
  also have "filter ?keep ?matching = filter ?keep rows"
    using database_keeps_more [OF assms(1)] by (auto simp: filter_filter intro: filter_cong)
  finally show "mset ?kept = mset (filter ?keep rows)" .
  show "take_limit (pd_limit pd) (filter ?keep
      (concat (map (\<lambda>g. database_scan cmp p (safe_database_limit pd p) (group_rows key rows g)) groups)))
    = take_limit (pd_limit pd) ?kept"
    using scan_pushdown_sound [OF assms(1), of cmp operand truth "map (group_rows key ?matching) groups"]
    by (simp add: comp_def database_scan_matching)
qed

end
