(* ===== verification/CH_Sql.thy ===== *)
theory CH_Sql
  imports Sql_Common CH_Schema
begin

text \<open>
  \<^verbatim>\<open>clickhouse/sql.py\<close>: the predicate renderer with named parameters, the projection with
  its casts, the unsafe fragment with its percent signs protected, the partition clause, and
  the \<open>SELECT\<close> put together from them.
\<close>

section \<open>Operations\<close>

definition PARAMETER_PREFIX :: string where
  "PARAMETER_PREFIX = ''__daft_olap_''"

type_synonym named_params = "(string \<times> pyobj) list"

definition value_ch :: "(string \<times> pyobj) value_renderer" where
  "value_ch ps v =
     (case v of
        Column c \<Rightarrow> r_bind (quote_identifier c) (\<lambda>q. Inr (q, ps))
      | Literal l \<Rightarrow>
          (if l = PNone then Inl UnsupportedPredicateError
           else let name = PARAMETER_PREFIX @ nat_str (length ps)
                in Inr (''%('' @ name @ '')s'', ps @ [(name, l)])))"

definition render_predicate_ch :: "predicate \<Rightarrow> (string \<times> named_params) result" where
  "render_predicate_ch p = render_with value_ch [] p"

definition projection_expression :: "string \<times> string option \<Rightarrow> string result" where
  "projection_expression nc =
     r_bind (quote_identifier (fst nc)) (\<lambda>identifier.
       (case snd nc of
          None \<Rightarrow> Inr identifier
        | Some t \<Rightarrow>
            r_bind (validate_clickhouse_type t) (\<lambda>_.
            Inr (''CAST('' @ identifier @ '' AS '' @ t @ '') AS '' @ identifier))))"

definition render_projection ::
    "string list \<Rightarrow> string option \<Rightarrow> (string \<times> string option) list option \<Rightarrow> string result" where
  "render_projection columns count_output_name projection =
     (case count_output_name of
        Some n \<Rightarrow> r_bind (quote_identifier n) (\<lambda>q. Inr (''count() AS '' @ q))
      | None \<Rightarrow>
          (case projection of
             None \<Rightarrow> quote_columns columns
           | Some pr \<Rightarrow>
               (if map fst pr \<noteq> columns then Inl ConfigurationError
                else r_bind (r_map projection_expression pr) (\<lambda>es. Inr (py_join '', '' es)))))"

text \<open>\<open>_NAMED_PARAMETER.match\<close> at a percent sign: the name and the text after the placeholder.\<close>

fun named_parameter :: "string \<Rightarrow> (string \<times> string) option" where
  "named_parameter (c # d # s) =
     (let name = takeWhile is_name_char s; r = dropWhile is_name_char s
      in if c = percent \<and> d = CHR ''('' \<and> name \<noteq> [] \<and> is_name_start (hd name) \<and> take 2 r = '')s''
         then Some (name, drop 2 r) else None)"
| "named_parameter _ = None"

lemma named_parameter_text:
  assumes "named_parameter s = Some (n, r)"
  shows "s = ''%('' @ n @ '')s'' @ r" and "list_all is_name_char n"
proof -
  obtain t where t: "s = percent # CHR ''('' # t" "n = takeWhile is_name_char t"
      "take 2 (dropWhile is_name_char t) = '')s''" "r = drop 2 (dropWhile is_name_char t)"
    using assms by (cases s rule: named_parameter.cases) (auto simp: Let_def split: if_splits)
  have "t = n @ take 2 (dropWhile is_name_char t) @ r"
    unfolding t(2) t(4) append_take_drop_id takeWhile_dropWhile_id ..
  then show "s = ''%('' @ n @ '')s'' @ r" using t(1,3) by simp
  show "list_all is_name_char n" using t(2) by (auto simp: list_all_iff dest: set_takeWhileD)
qed

lemma named_parameter_length: "named_parameter s = Some (n, r) \<Longrightarrow> length r < length s"
  using named_parameter_text(1) [of s n r] by simp

text \<open>The scanning loop of \<open>_render_unsafe_fragment\<close>: the rendered text and the names used.\<close>

function (sequential) fragment_loop :: "string list \<Rightarrow> bool \<Rightarrow> string \<Rightarrow> (string \<times> string list) result" where
  "fragment_loop names bind_required [] = Inr ([], [])"
| "fragment_loop names bind_required (c # s) =
     (if c \<noteq> percent then
        r_bind (fragment_loop names bind_required s) (\<lambda>(t, used). Inr (c # t, used))
      else (case named_parameter (c # s) of
              Some (name, r) \<Rightarrow>
                (if name \<notin> set names then Inl ConfigurationError
                 else r_bind (fragment_loop names bind_required r) (\<lambda>(t, used).
                      Inr (''%('' @ name @ '')s'' @ t, name # used)))
            | None \<Rightarrow>
                r_bind (fragment_loop names bind_required s) (\<lambda>(t, used).
                Inr ((if bind_required then ''%%'' else ''%'') @ t, used))))"
  by pat_completeness auto
termination
  by (relation "measure (\<lambda>(names, b, s). length s)") (auto dest!: named_parameter_length)

definition render_unsafe_fragment_ch :: "string \<Rightarrow> named_params \<Rightarrow> bool \<Rightarrow> string result" where
  "render_unsafe_fragment_ch fragment query_parameters bind_required =
     (let values_by_name = py_dict query_parameters
      in if length values_by_name \<noteq> length query_parameters then Inl ConfigurationError
         else r_bind (fragment_loop (map fst values_by_name) bind_required fragment) (\<lambda>(t, used).
              if set (map fst values_by_name) - set used \<noteq> {} then Inl ConfigurationError else Inr t))"

definition partition_key :: "nat \<Rightarrow> string" where
  "partition_key i = PARAMETER_PREFIX @ ''partition_'' @ nat_str i"

fun partition_loop :: "nat \<Rightarrow> string list \<Rightarrow> named_params \<Rightarrow> string list \<times> named_params" where
  "partition_loop i [] parameters = ([], parameters)"
| "partition_loop i (partition_id # ids) parameters =
     (let key = partition_key i;
          (placeholders, parameters') = partition_loop (Suc i) ids (AList.update key (PStr partition_id) parameters)
      in ((''%('' @ key @ '')s'') # placeholders, parameters'))"

definition render_partition_clause ::
    "string list option \<Rightarrow> named_params \<Rightarrow> (string option \<times> named_params) result" where
  "render_partition_clause partition_ids parameters =
     (case partition_ids of
        None \<Rightarrow> Inr (None, parameters)
      | Some ids \<Rightarrow>
          (if ids = [] then Inl ConfigurationError
           else let (placeholders, parameters') = partition_loop 0 ids parameters
                in Inr (Some (''(_partition_id IN ('' @ py_join '', '' placeholders @ ''))''), parameters')))"

record ch_select =
  sel_table :: qualified_table
  sel_columns :: "string list"
  sel_predicate :: "predicate option"
  sel_unsafe_where_sql :: "string option"
  sel_query_parameters :: named_params
  sel_partition_ids :: "string list option"
  sel_limit :: pyobj
  sel_count_output_name :: "string option"
  sel_projection :: "(string \<times> string option) list option"

definition build_select_ch :: "ch_select \<Rightarrow> (string \<times> named_params) result" where
  "build_select_ch q =
     (let query_parameters = sel_query_parameters q;
          parameters = py_dict query_parameters
      in if length parameters \<noteq> length query_parameters then Inl ConfigurationError
         else if list_ex (\<lambda>key. py_startswith key PARAMETER_PREFIX) (map fst parameters)
         then Inl ConfigurationError
         else
           r_bind (render_projection (sel_columns q) (sel_count_output_name q) (sel_projection q)) (\<lambda>projection_sql.
           r_bind (case sel_predicate q of
                     None \<Rightarrow> Inr (None, parameters)
                   | Some p \<Rightarrow> r_bind (render_predicate_ch p) (\<lambda>(s, ps).
                       Inr (Some s, dict_update parameters ps))) (\<lambda>(rendered_predicate, parameters1).
           r_bind (render_partition_clause (sel_partition_ids q) parameters1) (\<lambda>(partition_clause, parameters2).
           r_bind (case sel_unsafe_where_sql q of
                     Some fragment \<Rightarrow>
                       r_bind (render_unsafe_fragment_ch fragment query_parameters (parameters2 \<noteq> [])) (\<lambda>t.
                       Inr [''('' @ t @ '')''])
                   | None \<Rightarrow> if query_parameters \<noteq> [] then Inl ConfigurationError else Inr []) (\<lambda>unsafe_clauses.
           r_bind (table_sql (sel_table q)) (\<lambda>table_text.
           r_bind (limit_clause (sel_limit q) (sel_count_output_name q)) (\<lambda>limit_text.
           Inr (''SELECT '' @ projection_sql @ '' FROM '' @ table_text
                  @ where_clause (unsafe_clauses @ option_list rendered_predicate @ option_list partition_clause)
                  @ limit_text,
                parameters2))))))))"


section \<open>Parameter names\<close>

definition predicate_key :: "nat \<Rightarrow> string" where
  "predicate_key i = PARAMETER_PREFIX @ nat_str i"

definition numbered :: "named_params \<Rightarrow> bool" where
  "numbered ps \<longleftrightarrow> map fst ps = map predicate_key [0..<length ps]"

lemma value_ch_numbered: "numbered ps \<Longrightarrow> value_ch ps v = Inr (t, ps') \<Longrightarrow> numbered ps'"
  by (auto simp: value_ch_def numbered_def predicate_key_def r_bind_Inr_iff Let_def
      split: ir_value.splits if_splits)

lemma render_predicate_ch_numbered:
  assumes "render_predicate_ch p = Inr (s, ps)"
  shows "numbered ps"
proof (rule render_with_invariant [where I = numbered])
  show "render_with value_ch [] p = Inr (s, ps)" using assms by (simp add: render_predicate_ch_def)
  show "numbered []" by (simp add: numbered_def)
qed (rule value_ch_numbered)

lemma predicate_key_inj: "predicate_key i = predicate_key j \<longleftrightarrow> i = j"
  by (simp add: predicate_key_def)

lemma partition_key_inj: "partition_key i = partition_key j \<longleftrightarrow> i = j"
  by (simp add: partition_key_def)

lemma predicate_key_not_partition: "predicate_key i \<noteq> partition_key j"
proof
  assume "predicate_key i = partition_key j"
  then have "nat_str i = ''partition_'' @ nat_str j" by (simp add: predicate_key_def partition_key_def)
  then have "list_all is_ascii_digit (''partition_'' @ nat_str j)" using nat_str_digits [of i] by simp
  then show False by (simp add: is_ascii_digit_def)
qed

lemma keys_have_prefix:
  "py_startswith (predicate_key i) PARAMETER_PREFIX" "py_startswith (partition_key i) PARAMETER_PREFIX"
  by (simp_all add: predicate_key_def partition_key_def py_startswith_def)

lemma digits_are_name_chars: "list_all is_ascii_digit s \<Longrightarrow> list_all is_name_char s"
  by (auto simp: list_all_iff is_name_char_def)

lemma key_chars: "list_all is_name_char (predicate_key i)" "list_all is_name_char (partition_key i)"
  using digits_are_name_chars [OF nat_str_digits [of i]]
  by (simp_all add: predicate_key_def partition_key_def PARAMETER_PREFIX_def char_class_defs)

text \<open>The partition parameters, when none of their names is taken.\<close>

definition partition_params :: "string list \<Rightarrow> named_params" where
  "partition_params ids = zip (map partition_key [0..<length ids]) (map PStr ids)"

lemma partition_loop_fresh:
  assumes "\<And>j. i \<le> j \<Longrightarrow> partition_key j \<notin> set (map fst ps)"
  shows "partition_loop i ids ps =
    (map (\<lambda>j. ''%('' @ partition_key j @ '')s'') [i..<i + length ids],
     ps @ zip (map partition_key [i..<i + length ids]) (map PStr ids))"
  using assms
proof (induction ids arbitrary: i ps)
  case Nil
  then show ?case by simp
next
  case (Cons x ids)
  let ?ps = "ps @ [(partition_key i, PStr x)]"
  have upd: "AList.update (partition_key i) (PStr x) ps = ?ps"
    using Cons.prems [of i] by (simp add: alist_update_fresh)
  have rng: "[i..<Suc (i + length ids)] = i # [Suc i..<Suc i + length ids]"
    using upt_rec [of i "Suc (i + length ids)"] by simp
  have "partition_loop (Suc i) ids ?ps =
    (map (\<lambda>j. ''%('' @ partition_key j @ '')s'') [Suc i..<Suc i + length ids],
     ?ps @ zip (map partition_key [Suc i..<Suc i + length ids]) (map PStr ids))"
    using Cons.prems by (intro Cons.IH) (auto simp: partition_key_inj)
  then show ?case by (simp add: upd rng Let_def del: upt_Suc)
qed

section \<open>Binding\<close>

interpretation ch_rendering: predicate_rendering "exact (binds_named lit)" value_ch lit percent_free for lit
proof (unfold_locales, goal_cases)
  case (1 s)
  then show ?case using named_binding.binds_plain by (simp add: exact_def)
next
  case (2 ps a x qs b y)
  then show ?case using named_binding.binds_append [of lit ps a x qs b y] by (simp add: exact_def)
next
  case (3 c)
  then show ?case
    using named_binding.binds_plain percent_free_quoted by (fastforce simp: exact_def percent_free_def)
next
  case (4 ps c)
  then show ?case by (simp add: value_ch_def)
next
  case (5 ps v t ps')
  let ?k = "predicate_key (length ps)"
  from 5 have "t = ''%('' @ ?k @ '')s''" "ps' = ps @ [(?k, v)]"
    by (auto simp: value_ch_def predicate_key_def Let_def split: if_splits)
  moreover have "binds_named lit [(?k, v)] (''%('' @ ?k @ '')s'') (lit v)"
    using format_named_key [OF key_chars(1)] by (simp add: binds_named_def)
  ultimately show ?case by (auto simp: exact_def)
next
  case (6 v ps)
  then show ?case by (auto simp: value_ch_def wf_literal_def Let_def)
qed

interpretation ch_unbound: predicate_rendering unbound value_ch lit "\<lambda>_. True" for lit
  by unfold_locales (auto simp: unbound_def value_ch_def wf_literal_def Let_def split: if_splits)

text \<open>What an unsafe fragment means: declared placeholders are values, every other character is itself.\<close>

function (sequential) expand_fragment :: "(string \<Rightarrow> string) \<Rightarrow> string \<Rightarrow> string" where
  "expand_fragment value [] = []"
| "expand_fragment value (c # s) =
     (case named_parameter (c # s) of
        Some (name, r) \<Rightarrow> value name @ expand_fragment value r
      | None \<Rightarrow> c # expand_fragment value s)"
  by pat_completeness auto
termination
  by (relation "measure (\<lambda>(v, s). length s)") (auto dest!: named_parameter_length)

lemma named_parameter_percent: "c \<noteq> percent \<Longrightarrow> named_parameter (c # s) = None"
  by (cases s) (simp_all add: Let_def)

lemma fragment_loop_verbatim: "fragment_loop names False s = Inr (t, used) \<Longrightarrow> t = s"
proof (induction names False s arbitrary: t used rule: fragment_loop.induct)
  case (2 names c s)
  show ?case
  proof (cases "c = percent")
    case False
    then show ?thesis using 2 by (auto simp: r_bind_Inr_iff)
  next
    case True
    show ?thesis
    proof (cases "named_parameter (c # s)")
      case None
      from 2(4) True None obtain t' where "fragment_loop names False s = Inr (t', used)" "t = percent # t'"
        by (auto simp: r_bind_Inr_iff)
      then show ?thesis using 2(2) [OF _ None] True by simp
    next
      case (Some nr)
      obtain n r where nr: "nr = (n, r)" by (cases nr)
      from 2(4) True Some nr obtain t' used' where n: "n \<in> set names"
        and l: "fragment_loop names False r = Inr (t', used')" and t: "t = ''%('' @ n @ '')s'' @ t'"
        by (auto simp: r_bind_Inr_iff split: if_splits)
      have "t' = r" using 2(3) [OF _ Some nr [symmetric]] True n l by blast
      then show ?thesis using t named_parameter_text(1) [of "c # s" n r] Some nr by simp
    qed
  qed
qed simp


lemma binds_named_mono: "binds_named lit ps a x \<Longrightarrow> set ps \<subseteq> set qs \<Longrightarrow> binds_named lit qs a x"
  unfolding binds_named_def by blast

lemma binds_named_append: "binds_named lit ps a x \<Longrightarrow> binds_named lit ps b y \<Longrightarrow> binds_named lit ps (a @ b) (x @ y)"
  using binds_named_mono [OF named_binding.binds_append] by fastforce

lemma binds_named_Nil: "binds_named lit ps [] []"
  by (simp add: binds_named_def)

lemma binds_named_percent_free: "percent_free s \<Longrightarrow> binds_named lit ps s s"
  using binds_named_mono [OF named_binding.binds_plain] by (fastforce simp: percent_free_def)

lemma binds_named_join:
  assumes "list_all2 (binds_named lit ps) as xs" and "percent_free sep"
  shows "binds_named lit ps (py_join sep as) (py_join sep xs)"
  using assms(1)
proof (induction rule: list_all2_induct)
  case Nil
  then show ?case by (simp add: binds_named_Nil)
next
  case (Cons a as x xs)
  show ?case
  proof (cases "as = []")
    case True
    then show ?thesis using Cons by simp
  next
    case False
    then have "xs \<noteq> []" using Cons(2) by auto
    then show ?thesis
      using False Cons binds_named_percent_free [OF assms(2), of lit ps]
      by (simp add: py_join_Cons binds_named_append)
  qed
qed

lemma binds_named_double: "binds_named lit ps ''%%'' ''%''"
  by (simp add: binds_named_def format_named_double)

lemma binds_named_placeholder:
  assumes "list_all is_name_char k" and "(k, v) \<in> set ps"
  shows "binds_named lit ps (''%('' @ k @ '')s'') (lit v)"
proof -
  have "format_named env ((''%('' @ k @ '')s'') @ s) = r_bind (format_named env s) (\<lambda>t. Inr (lit v @ t))"
    if "\<forall>(k, v)\<in>set ps. env k = Some (lit v)" for env s
    using format_named_key [OF assms(1), of env "lit v" s] that assms(2) by auto
  then show ?thesis unfolding binds_named_def by blast
qed

lemma fragment_loop_binds:
  assumes "fragment_loop names True s = Inr (t, used)" and "\<And>n. n \<in> set names \<Longrightarrow> (n, v n) \<in> set ps"
  shows "binds_named lit ps t (expand_fragment (\<lambda>n. lit (v n)) s)"
  using assms
proof (induction names True s arbitrary: t used rule: fragment_loop.induct)
  case (1 names)
  then show ?case by (simp add: binds_named_Nil)
next
  case (2 names c s)
  let ?val = "\<lambda>n. lit (v n)"
  show ?case
  proof (cases "named_parameter (c # s)")
    case None
    then obtain t' where f: "fragment_loop names True s = Inr (t', used)"
      and t: "t = (if c = percent then ''%%'' else [c]) @ t'"
      using 2(4) by (auto simp: r_bind_Inr_iff split: if_splits)
    have IH: "binds_named lit ps t' (expand_fragment ?val s)"
      using 2(1,2) None f 2(5) by (cases "c = percent") auto
    have "binds_named lit ps (if c = percent then ''%%'' else [c]) [c]"
      using binds_named_double [of lit ps] binds_named_percent_free [of "[c]" lit ps] by simp
    from binds_named_append [OF this IH] show ?thesis using None t by simp
  next
    case (Some nr)
    obtain n r where nr: "nr = (n, r)" by (cases nr)
    have c: "c = percent" using Some named_parameter_percent by fastforce
    from 2(4) c Some nr obtain t' used' where n: "n \<in> set names"
      and l: "fragment_loop names True r = Inr (t', used')" and t: "t = ''%('' @ n @ '')s'' @ t'"
      by (auto simp: r_bind_Inr_iff split: if_splits)
    have IH: "binds_named lit ps t' (expand_fragment ?val r)"
      using 2(3) [OF _ Some nr [symmetric]] c n l 2(5) by blast
    have "binds_named lit ps (''%('' @ n @ '')s'') (?val n)"
      using binds_named_placeholder [OF named_parameter_text(2) 2(5) [OF n], of "c # s" r] Some nr by simp
    from binds_named_append [OF this IH] show ?thesis using Some nr t by simp
  qed
qed

lemma fragment_loop_no_names: "fragment_loop [] b s = Inr (t, used) \<Longrightarrow> expand_fragment value s = s"
proof (induction "[] :: string list" b s arbitrary: t used rule: fragment_loop.induct)
  case (2 b c s)
  show ?case
  proof (cases "named_parameter (c # s)")
    case None
    then obtain t' used' where "fragment_loop [] b s = Inr (t', used')"
      using 2(4) by (auto simp: r_bind_Inr_iff split: if_splits)
    then have "expand_fragment value s = s" using 2(1,2) None by (cases "c = percent") auto
    then show ?thesis using None by simp
  next
    case (Some nr)
    then show ?thesis
      using 2(4) named_parameter_percent by (cases nr) (auto split: if_splits)
  qed
qed simp


section \<open>The statement\<close>

text \<open>The parameters a statement carries: the caller's, the predicate's, the partitions', in this order.\<close>

definition select_predicate :: "ch_select \<Rightarrow> (string option \<times> named_params) result" where
  "select_predicate q =
     (case sel_predicate q of
        None \<Rightarrow> Inr (None, [])
      | Some p \<Rightarrow> r_bind (render_predicate_ch p) (\<lambda>(s, ps). Inr (Some s, ps)))"

lemma select_predicate_numbered: "select_predicate q = Inr (s, ps) \<Longrightarrow> numbered ps"
  by (auto simp: select_predicate_def r_bind_Inr_iff numbered_def dest: render_predicate_ch_numbered
      split: option.splits)

lemma numbered_keys:
  assumes "numbered ps" and "k \<in> set (map fst ps)"
  shows "\<exists>i. k = predicate_key i"
  using assms unfolding numbered_def by (metis imageE list.set_map)

lemma numbered_distinct: "numbered ps \<Longrightarrow> distinct (map fst ps)"
  unfolding numbered_def by (simp add: distinct_map inj_on_def predicate_key_inj)

definition user_keys_ok :: "named_params \<Rightarrow> bool" where
  "user_keys_ok qp \<longleftrightarrow> distinct (map fst qp) \<and> (\<forall>k \<in> set (map fst qp). \<not> py_startswith k PARAMETER_PREFIX)"

lemma user_keys_ok_iff:
  "user_keys_ok qp \<longleftrightarrow> length (py_dict qp) = length qp
     \<and> \<not> list_ex (\<lambda>key. py_startswith key PARAMETER_PREFIX) (map fst (py_dict qp))"
  using py_dict_distinct [of qp]
  by (auto simp: user_keys_ok_def length_py_dict_iff list_ex_iff)

lemma predicate_params_fresh:
  assumes "user_keys_ok qp" and "numbered ps"
  shows "dict_update qp ps = qp @ ps"
proof (rule dict_update_fresh)
  show "set (map fst ps) \<inter> set (map fst qp) = {}"
    using numbered_keys [OF assms(2)] keys_have_prefix(1) assms(1) unfolding user_keys_ok_def by blast
qed (rule numbered_distinct [OF assms(2)])

lemma partition_keys_fresh:
  assumes "user_keys_ok qp" and "numbered ps"
  shows "partition_key j \<notin> set (map fst (qp @ ps))"
proof
  assume "partition_key j \<in> set (map fst (qp @ ps))"
  then consider "partition_key j \<in> set (map fst qp)" | "partition_key j \<in> set (map fst ps)" by auto
  then show False
  proof cases
    case 1
    then show ?thesis using assms(1) keys_have_prefix(2) unfolding user_keys_ok_def by blast
  next
    case 2
    then show ?thesis using numbered_keys [OF assms(2)] predicate_key_not_partition by metis
  qed
qed

definition partition_text :: "nat \<Rightarrow> string" where
  "partition_text n =
     ''(_partition_id IN ('' @ py_join '', '' (map (\<lambda>j. ''%('' @ partition_key j @ '')s'') [0..<n]) @ ''))''"

lemma render_partition_clause_fresh:
  assumes "user_keys_ok qp" and "numbered ps"
  shows "render_partition_clause ids (qp @ ps) = Inr (c, ps') \<longleftrightarrow>
    (case ids of None \<Rightarrow> c = None \<and> ps' = qp @ ps
     | Some xs \<Rightarrow> xs \<noteq> [] \<and> c = Some (partition_text (length xs)) \<and> ps' = qp @ ps @ partition_params xs)"
  using partition_loop_fresh [of 0 "qp @ ps"] partition_keys_fresh [OF assms]
  by (auto simp: render_partition_clause_def partition_text_def partition_params_def split: option.splits)

text \<open>The parts of a built statement.\<close>

lemma build_select_ch_parts:
  assumes "build_select_ch q = Inr (stmt, params)"
  obtains proj pred pps pclause unsafe lim where
    "user_keys_ok (sel_query_parameters q)"
    "render_projection (sel_columns q) (sel_count_output_name q) (sel_projection q) = Inr proj"
    "select_predicate q = Inr (pred, pps)"
    "render_partition_clause (sel_partition_ids q) (sel_query_parameters q @ pps) = Inr (pclause, params)"
    "(case sel_unsafe_where_sql q of
        Some f \<Rightarrow> \<exists>t. render_unsafe_fragment_ch f (sel_query_parameters q) (params \<noteq> []) = Inr t
          \<and> unsafe = [''('' @ t @ '')'']
      | None \<Rightarrow> sel_query_parameters q = [] \<and> unsafe = [])"
    "limit_clause (sel_limit q) (sel_count_output_name q) = Inr lim"
    "stmt = ''SELECT '' @ proj @ '' FROM '' @ (quoted (database (sel_table q)) @ ''.'' @ quoted (table (sel_table q)))
       @ where_clause (unsafe @ option_list pred @ option_list pclause) @ lim"
proof -
  let ?qp = "sel_query_parameters q"
  have ok: "user_keys_ok ?qp"
    using assms by (auto simp: user_keys_ok_iff build_select_ch_def Let_def split: if_splits)
  then have d: "py_dict ?qp = ?qp" by (simp add: user_keys_ok_def py_dict_distinct)
  have guards: "length ?qp = length ?qp" "\<not> list_ex (\<lambda>key. py_startswith key PARAMETER_PREFIX) (map fst ?qp)"
    using ok by (auto simp: user_keys_ok_def list_ex_iff)
  note b = assms [unfolded build_select_ch_def Let_def d]
  from b guards obtain proj pred params1 pclause unsafe tbl lim where
    proj: "render_projection (sel_columns q) (sel_count_output_name q) (sel_projection q) = Inr proj" and
    pr: "(case sel_predicate q of None \<Rightarrow> Inr (None, ?qp)
        | Some p \<Rightarrow> r_bind (render_predicate_ch p) (\<lambda>(s, ps). Inr (Some s, dict_update ?qp ps))) = Inr (pred, params1)" and
    pc: "render_partition_clause (sel_partition_ids q) params1 = Inr (pclause, params)" and
    un: "(case sel_unsafe_where_sql q of
            Some fragment \<Rightarrow> r_bind (render_unsafe_fragment_ch fragment ?qp (params \<noteq> [])) (\<lambda>t. Inr [''('' @ t @ '')''])
          | None \<Rightarrow> if ?qp \<noteq> [] then Inl ConfigurationError else Inr []) = Inr unsafe" and
    tb: "table_sql (sel_table q) = Inr tbl" and
    lim: "limit_clause (sel_limit q) (sel_count_output_name q) = Inr lim" and
    st: "stmt = ''SELECT '' @ proj @ '' FROM '' @ tbl
       @ where_clause (unsafe @ option_list pred @ option_list pclause) @ lim"
    by (auto simp: r_bind_Inr_iff split: if_splits)
  from pr obtain pps where sp: "select_predicate q = Inr (pred, pps)" and p1: "params1 = dict_update ?qp pps"
    by (auto simp: select_predicate_def r_bind_Inr_iff split: option.splits)
  have "params1 = ?qp @ pps"
    using p1 predicate_params_fresh [OF ok select_predicate_numbered [OF sp]] by simp
  moreover have "case sel_unsafe_where_sql q of
        Some f \<Rightarrow> \<exists>t. render_unsafe_fragment_ch f ?qp (params \<noteq> []) = Inr t \<and> unsafe = [''('' @ t @ '')'']
      | None \<Rightarrow> ?qp = [] \<and> unsafe = []"
    using un by (auto simp: r_bind_Inr_iff split: option.splits if_splits)
  moreover have "tbl = quoted (database (sel_table q)) @ ''.'' @ quoted (table (sel_table q))"
    using tb by (simp add: table_sql_Inr_iff)
  ultimately show ?thesis using that ok proj sp pc lim st by blast
qed


text \<open>
  The statement the driver sends: it formats with the text \<open>lit\<close> of every parameter value, and
  only when there are parameters.
\<close>

definition bound_statement_ch :: "(pyobj \<Rightarrow> string) \<Rightarrow> string \<Rightarrow> named_params \<Rightarrow> string result" where
  "bound_statement_ch lit stmt params =
     (if params = [] then Inr stmt else format_named (map_of (map (\<lambda>(k, v). (k, lit v)) params)) stmt)"

text \<open>The statement meant: every literal in its place.\<close>

definition select_text_ch :: "(pyobj \<Rightarrow> string) \<Rightarrow> ch_select \<Rightarrow> string \<Rightarrow> string \<Rightarrow> string" where
  "select_text_ch lit q proj ltext =
     ''SELECT '' @ proj @ '' FROM '' @ (quoted (database (sel_table q)) @ ''.'' @ quoted (table (sel_table q)))
       @ where_clause
           (map (\<lambda>f. ''('' @ expand_fragment (\<lambda>n. lit (the (map_of (sel_query_parameters q) n))) f @ '')'')
              (option_list (sel_unsafe_where_sql q))
            @ map (inline_predicate lit) (option_list (sel_predicate q))
            @ map (\<lambda>ids. ''(_partition_id IN ('' @ py_join '', '' (map (\<lambda>i. lit (PStr i)) ids) @ ''))'')
                (option_list (sel_partition_ids q)))
       @ ltext"

definition select_percent_free :: "ch_select \<Rightarrow> string \<Rightarrow> bool" where
  "select_percent_free q proj \<longleftrightarrow>
     percent_free proj \<and> percent_free (database (sel_table q)) \<and> percent_free (table (sel_table q))
     \<and> (\<forall>p \<in> set (option_list (sel_predicate q)). \<forall>c \<in> referenced_columns p. percent_free c)"

lemma select_predicate_binds:
  assumes "select_predicate q = Inr (pred, pps)"
    and "\<forall>p \<in> set (option_list (sel_predicate q)). \<forall>c \<in> referenced_columns p. percent_free c"
  shows "list_all2 (exact (binds_named lit) pps) (option_list pred)
    (map (inline_predicate lit) (option_list (sel_predicate q)))"
proof (cases "sel_predicate q")
  case None
  then show ?thesis using assms(1) by (auto simp: select_predicate_def option_list_def)
next
  case (Some p)
  then obtain s where s: "render_with value_ch [] p = Inr (s, pps)" "pred = Some s"
    using assms(1) by (auto simp: select_predicate_def r_bind_Inr_iff render_predicate_ch_def)
  have "\<exists>qs. pps = [] @ qs \<and> exact (binds_named lit) qs s (inline_predicate lit p)"
    using assms(2) Some by (intro ch_rendering.render_with_binds [OF s(1)]) (simp add: option_list_def)
  then show ?thesis using Some s by (simp add: option_list_def)
qed

lemma select_predicate_verbatim:
  assumes "select_predicate q = Inr (pred, [])"
  shows "option_list pred = map (inline_predicate lit) (option_list (sel_predicate q))"
proof (cases "sel_predicate q")
  case None
  then show ?thesis using assms by (auto simp: select_predicate_def option_list_def)
next
  case (Some p)
  then obtain s where s: "render_with value_ch [] p = Inr (s, [])" "pred = Some s"
    using assms by (auto simp: select_predicate_def r_bind_Inr_iff render_predicate_ch_def)
  from ch_unbound.render_with_binds [OF s(1), of lit] s(2) Some show ?thesis by (auto simp: unbound_def option_list_def)
qed

lemma partition_text_binds:
  assumes "set (partition_params ids) \<subseteq> set ps"
  shows "binds_named lit ps (partition_text (length ids))
     (''(_partition_id IN ('' @ py_join '', '' (map (\<lambda>i. lit (PStr i)) ids) @ ''))'')"
proof -
  have "list_all2 (binds_named lit ps) (map (\<lambda>j. ''%('' @ partition_key j @ '')s'') [0..<length ids])
      (map (\<lambda>i. lit (PStr i)) ids)"
  proof (rule list_all2_all_nthI)
    fix n
    assume "n < length (map (\<lambda>j. ''%('' @ partition_key j @ '')s'') [0..<length ids])"
    then have n: "n < length ids" by simp
    then have "(partition_key n, PStr (ids ! n)) \<in> set (partition_params ids)"
      unfolding partition_params_def set_zip by (auto intro!: exI [of _ n])
    then show "binds_named lit ps (map (\<lambda>j. ''%('' @ partition_key j @ '')s'') [0..<length ids] ! n)
        (map (\<lambda>i. lit (PStr i)) ids ! n)"
      using binds_named_placeholder [OF key_chars(2), of n "PStr (ids ! n)" ps lit] assms n by auto
  qed simp
  from binds_named_join [OF this, of "'', ''"]
  have "binds_named lit ps (py_join '', '' (map (\<lambda>j. ''%('' @ partition_key j @ '')s'') [0..<length ids]))
      (py_join '', '' (map (\<lambda>i. lit (PStr i)) ids))" by simp
  from binds_named_append [OF binds_named_percent_free [of "''(_partition_id IN (''"]
      binds_named_append [OF this binds_named_percent_free [of "''))''"]]]
  show ?thesis by (simp add: partition_text_def)
qed

lemma unsafe_fragment_text:
  assumes "render_unsafe_fragment_ch f qp b = Inr t" and "distinct (map fst qp)"
  shows "b \<Longrightarrow> set qp \<subseteq> set ps \<Longrightarrow> binds_named lit ps t (expand_fragment (\<lambda>n. lit (the (map_of qp n))) f)"
    and "\<not> b \<Longrightarrow> qp = [] \<Longrightarrow> t = expand_fragment v f"
proof -
  from assms obtain used where l: "fragment_loop (map fst qp) b f = Inr (t, used)"
    by (auto simp: render_unsafe_fragment_ch_def py_dict_distinct r_bind_Inr_iff split: if_splits)
  show "b \<Longrightarrow> set qp \<subseteq> set ps \<Longrightarrow> binds_named lit ps t (expand_fragment (\<lambda>n. lit (the (map_of qp n))) f)"
  proof (rule fragment_loop_binds)
    fix n
    assume "set qp \<subseteq> set ps" and "n \<in> set (map fst qp)"
    then obtain v where "map_of qp n = Some v" by (auto simp: map_of_eq_None_iff dest: weak_map_of_SomeI)
    then show "(n, the (map_of qp n)) \<in> set ps" using \<open>set qp \<subseteq> set ps\<close> map_of_SomeD by fastforce
  qed (use l in simp)
  show "\<not> b \<Longrightarrow> qp = [] \<Longrightarrow> t = expand_fragment v f"
    using l fragment_loop_verbatim fragment_loop_no_names by fastforce
qed


lemma build_select_ch_params:
  assumes "build_select_ch q = Inr (stmt, params)"
  shows "\<exists>pred pps. select_predicate q = Inr (pred, pps)
    \<and> params = sel_query_parameters q @ pps @ concat (map partition_params (option_list (sel_partition_ids q)))"
    and "distinct (map fst params)"
proof -
  from assms obtain proj pred pps pclause unsafe ltext where
    ok: "user_keys_ok (sel_query_parameters q)" and sp: "select_predicate q = Inr (pred, pps)" and
    pc: "render_partition_clause (sel_partition_ids q) (sel_query_parameters q @ pps) = Inr (pclause, params)"
    by (rule build_select_ch_parts)
  note num = select_predicate_numbered [OF sp]
  have params: "params = sel_query_parameters q @ pps @ concat (map partition_params (option_list (sel_partition_ids q)))"
    using pc unfolding render_partition_clause_fresh [OF ok num]
    by (auto simp: option_list_def split: option.splits)
  then show "\<exists>pred pps. select_predicate q = Inr (pred, pps)
    \<and> params = sel_query_parameters q @ pps @ concat (map partition_params (option_list (sel_partition_ids q)))"
    using sp by blast
  have keys: "map fst (partition_params ids) = map partition_key [0..<length ids]" for ids
    by (simp add: partition_params_def)
  have "distinct (map fst (sel_query_parameters q @ pps))"
    using ok numbered_distinct [OF num] numbered_keys [OF num] keys_have_prefix(1)
    unfolding user_keys_ok_def by (auto simp del: set_map)
  moreover have "set (map fst (partition_params ids)) \<inter> set (map fst (sel_query_parameters q @ pps)) = {}" for ids
    using partition_keys_fresh [OF ok num] unfolding keys by auto
  moreover have "distinct (map fst (partition_params ids))" for ids
    unfolding keys by (simp add: distinct_map inj_on_def partition_key_inj)
  ultimately show "distinct (map fst params)"
    unfolding params by (cases "sel_partition_ids q") (auto simp: option_list_def)
qed

definition unsafe_clause :: "string option \<Rightarrow> named_params \<Rightarrow> bool \<Rightarrow> string list \<Rightarrow> bool" where
  "unsafe_clause fragment qp bind clauses \<longleftrightarrow>
     (case fragment of
        Some f \<Rightarrow> \<exists>t. render_unsafe_fragment_ch f qp bind = Inr t \<and> clauses = [''('' @ t @ '')'']
      | None \<Rightarrow> qp = [] \<and> clauses = [])"

definition fragment_texts :: "(pyobj \<Rightarrow> string) \<Rightarrow> named_params \<Rightarrow> string option \<Rightarrow> string list" where
  "fragment_texts lit qp fragment =
     map (\<lambda>f. ''('' @ expand_fragment (\<lambda>n. lit (the (map_of qp n))) f @ '')'') (option_list fragment)"

definition partition_texts :: "(pyobj \<Rightarrow> string) \<Rightarrow> string list option \<Rightarrow> string list" where
  "partition_texts lit ids =
     map (\<lambda>is. ''(_partition_id IN ('' @ py_join '', '' (map (\<lambda>i. lit (PStr i)) is) @ ''))'') (option_list ids)"

lemma unsafe_clause_verbatim:
  assumes "unsafe_clause fragment [] False clauses"
  shows "clauses = fragment_texts lit [] fragment"
  using assms unsafe_fragment_text(2) [of _ "[]"]
  by (auto simp: unsafe_clause_def fragment_texts_def option_list_def split: option.splits)

lemma unsafe_clause_binds:
  assumes "unsafe_clause fragment qp True clauses" and "user_keys_ok qp" and "set qp \<subseteq> set params"
  shows "list_all2 (binds_named lit params) clauses (fragment_texts lit qp fragment)"
proof (cases fragment)
  case (Some f)
  then obtain t where t: "render_unsafe_fragment_ch f qp True = Inr t" "clauses = [''('' @ t @ '')'']"
    using assms(1) by (auto simp: unsafe_clause_def)
  have "binds_named lit params t (expand_fragment (\<lambda>n. lit (the (map_of qp n))) f)"
    using unsafe_fragment_text(1) [OF t(1)] assms(2,3) by (simp add: user_keys_ok_def)
  from binds_named_append [OF binds_named_percent_free [of "''(''"]
      binds_named_append [OF this binds_named_percent_free [of "'')''"]]]
  show ?thesis using Some t by (simp add: option_list_def fragment_texts_def)
qed (use assms(1) in \<open>simp add: unsafe_clause_def fragment_texts_def option_list_def\<close>)

lemma partition_clause_binds:
  assumes "pclause = map_option (\<lambda>is. partition_text (length is)) ids"
    and "set (concat (map partition_params (option_list ids))) \<subseteq> set params"
  shows "list_all2 (binds_named lit params) (option_list pclause) (partition_texts lit ids)"
  using assms partition_text_binds [of _ params lit]
  by (cases ids) (auto simp: option_list_def partition_texts_def)

lemma where_clause_binds_named:
  assumes "list_all2 (binds_named lit params) clauses texts"
  shows "binds_named lit params (where_clause clauses) (where_clause texts)"
  using assms binds_named_append [OF binds_named_percent_free [of "'' WHERE ''"] binds_named_join [of lit params _ _ "'' AND ''"]]
  by (auto simp: where_clause_def binds_named_Nil list_all2_Nil list_all2_Nil2)

lemma binds_named_format_params:
  assumes "binds_named lit params stmt text" and "distinct (map fst params)"
  shows "format_named (map_of (map (\<lambda>(k, v). (k, lit v)) params)) stmt = Inr text"
  using assms(1)
proof (rule binds_named_format)
  fix k v
  assume "(k, v) \<in> set params"
  then show "map_of (map (\<lambda>(k, v). (k, lit v)) params) k = Some (lit v)"
    using assms(2) by (intro map_of_is_SomeI) (force simp: comp_def case_prod_beta)+
qed

text \<open>The statement text, clause by clause.\<close>

lemma select_clauses:
  assumes "build_select_ch q = Inr (stmt, params)"
    and "render_projection (sel_columns q) (sel_count_output_name q) (sel_projection q) = Inr proj"
    and "limit_clause (sel_limit q) (sel_count_output_name q) = Inr ltext"
    and "params \<noteq> [] \<Longrightarrow> select_percent_free q proj"
  shows "bound_statement_ch lit stmt params = Inr (select_text_ch lit q proj ltext)"
proof -
  let ?qp = "sel_query_parameters q"
  from assms(1) obtain pred pps pclause unsafe where
    ok: "user_keys_ok ?qp" and sp: "select_predicate q = Inr (pred, pps)" and
    pc: "render_partition_clause (sel_partition_ids q) (?qp @ pps) = Inr (pclause, params)" and
    un: "unsafe_clause (sel_unsafe_where_sql q) ?qp (params \<noteq> []) unsafe" and
    st: "stmt = ''SELECT '' @ proj @ '' FROM '' @ (quoted (database (sel_table q)) @ ''.'' @ quoted (table (sel_table q)))
       @ where_clause (unsafe @ option_list pred @ option_list pclause) @ ltext"
    unfolding unsafe_clause_def by (rule build_select_ch_parts) (use assms(2,3) in auto)
  note part = pc [unfolded render_partition_clause_fresh [OF ok select_predicate_numbered [OF sp]]]
  let ?fragments = "fragment_texts lit ?qp (sel_unsafe_where_sql q)"
  let ?preds = "map (inline_predicate lit) (option_list (sel_predicate q))"
  let ?parts = "partition_texts lit (sel_partition_ids q)"
  have whole: "select_text_ch lit q proj ltext = ''SELECT '' @ proj @ '' FROM '' @ (quoted (database (sel_table q)) @ ''.''
      @ quoted (table (sel_table q))) @ where_clause (?fragments @ ?preds @ ?parts) @ ltext"
    by (simp add: select_text_ch_def fragment_texts_def partition_texts_def)
  have pclause: "pclause = map_option (\<lambda>is. partition_text (length is)) (sel_partition_ids q)"
    and ps: "set ?qp \<subseteq> set params" "set pps \<subseteq> set params"
      "set (concat (map partition_params (option_list (sel_partition_ids q)))) \<subseteq> set params"
      "params = [] \<Longrightarrow> sel_partition_ids q = None"
    using part by (auto simp: partition_params_def option_list_def split: option.splits)
  show ?thesis
  proof (cases "params = []")
    case True
    then have e: "?qp = []" "pps = []" "sel_partition_ids q = None" using ps by auto
    have "option_list pred = ?preds" using select_predicate_verbatim [OF sp [unfolded e(2)]] .
    moreover have "unsafe = ?fragments" using un unsafe_clause_verbatim True e(1) by simp
    ultimately show ?thesis
      using True e(3) st pclause by (simp add: bound_statement_ch_def whole option_list_def partition_texts_def)
  next
    case False
    note names = assms(4) [OF False, unfolded select_percent_free_def]
    have pb: "list_all2 (exact (binds_named lit) pps) (option_list pred) ?preds"
      using select_predicate_binds [OF sp] names by simp
    have "list_all2 (binds_named lit params) (option_list pred) ?preds"
      by (rule list_all2_mono [OF pb]) (use ps(2) binds_named_mono in \<open>auto simp: exact_def\<close>)
    then have "list_all2 (binds_named lit params) (unsafe @ option_list pred @ option_list pclause) (?fragments @ ?preds @ ?parts)"
      using unsafe_clause_binds [OF _ ok ps(1)] un False partition_clause_binds [OF pclause ps(3)]
      by (intro list_all2_appendI) auto
    note wb = where_clause_binds_named [OF this]
    have free: "percent_free (''SELECT '' @ proj @ '' FROM '' @ quoted (database (sel_table q)) @ ''.'' @ quoted (table (sel_table q)))"
      using names percent_free_quoted by simp
    have "binds_named lit params stmt (select_text_ch lit q proj ltext)"
      using binds_named_append [OF binds_named_percent_free [OF free]
          binds_named_append [OF wb binds_named_percent_free [OF limit_clause_percent_free [OF assms(3)]]]]
      unfolding st whole by simp
    from binds_named_format_params [OF this build_select_ch_params(2) [OF assms(1)]]
    show ?thesis using False by (simp add: bound_statement_ch_def)
  qed
qed

end
