(* ===== verification/CH_Source.thy ===== *)
theory CH_Source
  imports Source_Base CH_Sql
begin

text \<open>
  \<^verbatim>\<open>clickhouse/datasource.py\<close>: construction of the source, the groups of partitions a scan is
  split into, and the tasks it yields. The world holds what the process sees outside the
  connector: the environment, the driver, Arrow and Daft.
\<close>

section \<open>The source\<close>

record ch_world =
  cw_environ :: "(string \<times> string) list"
  cw_probes :: probes
  cw_driver :: ch_driver
  cw_daft :: daft_api

record ch_source_args =
  sa_split :: pyobj
  sa_policy :: pyobj
  sa_unsafe_where_sql :: pyobj
  sa_query_parameters :: mapping_arg
  sa_table :: pyobj
  sa_limits :: limit_args
  sa_connection :: ch_args
  sa_arrow_schema :: "arrow_schema option"
  sa_discoverer :: "partition_discovery result option"

record ch_source =
  cs_table :: qualified_table
  cs_limits :: resource_limits
  cs_connection :: clickhouse_connection
  cs_split :: string
  cs_policy :: string
  cs_unsafe_where_sql :: "string option"
  cs_query_parameters :: "(string \<times> pyobj) list"
  cs_plan :: clickhouse_schema_plan
  cs_discoverer :: "partition_discovery result option"

text \<open>\<open>__init__\<close>: a given schema is taken as it is, otherwise it is discovered.\<close>

definition schema_plan_of ::
    "heap \<Rightarrow> ch_world \<Rightarrow> clickhouse_connection \<Rightarrow> qualified_table \<Rightarrow> resource_limits \<Rightarrow> arrow_schema option
       \<Rightarrow> clickhouse_schema_plan result" where
  "schema_plan_of h w c t limits given =
     (case given of
        Some sch \<Rightarrow> Inr (passthrough sch)
      | None \<Rightarrow> discover_schema_ch h (cw_environ w) (cw_probes w) (cw_driver w) c t limits)"

definition ClickHouseDataSource :: "heap \<Rightarrow> ch_world \<Rightarrow> ch_source_args \<Rightarrow> ch_source result" where
  "ClickHouseDataSource h w a =
     r_bind (choice_arg h [''single'', ''auto''] (sa_split a)) (\<lambda>split.
     r_bind (choice_arg h [''single'', ''error''] (sa_policy a)) (\<lambda>policy.
     r_bind (unsafe_where_arg (sa_unsafe_where_sql a)) (\<lambda>unsafe.
     r_bind (freeze_query_parameters h (sa_query_parameters a)) (\<lambda>parameters.
     r_bind (QualifiedTable (a_database (sa_connection a)) (sa_table a)) (\<lambda>t.
     r_bind (limits_of_args (sa_limits a)) (\<lambda>limits.
     r_bind (from_options_ch h (sa_connection a)) (\<lambda>c.
     r_bind (schema_plan_of h w c t limits (sa_arrow_schema a)) (\<lambda>plan.
     Inr \<lparr>cs_table = t, cs_limits = limits, cs_connection = c, cs_split = split, cs_policy = policy,
          cs_unsafe_where_sql = unsafe, cs_query_parameters = parameters, cs_plan = plan,
          cs_discoverer = sa_discoverer a\<rparr>))))))))"

definition source_name_ch :: "ch_source \<Rightarrow> string" where
  "source_name_ch s = ''clickhouse:'' @ database (cs_table s) @ ''.'' @ table (cs_table s)"

definition source_repr_ch :: "(arrow_schema \<Rightarrow> string) \<Rightarrow> ch_source \<Rightarrow> string" where
  "source_repr_ch repr_schema s =
     ''ClickHouseDataSource('' @ ''name='' @ py_repr_str (source_name_ch s) @ '', connection=''
     @ ClickHouseConnection_repr (cs_connection s) @ '', split='' @ py_repr_str (cs_split s) @ '', ''
     @ ''schema='' @ repr_schema (plan_schema (cs_plan s)) @ '')''"

section \<open>Groups\<close>

definition run_discovery_ch :: "heap \<Rightarrow> ch_world \<Rightarrow> ch_source \<Rightarrow> partition_discovery result" where
  "run_discovery_ch h w s =
     (case cs_discoverer s of
        Some outcome \<Rightarrow> outcome
      | None \<Rightarrow> discover_partitions h (cw_environ w) (cw_driver w) (cs_connection s) (cs_table s) (cs_limits s))"

definition groups_of_discovery :: "resource_limits \<Rightarrow> partition_discovery \<Rightarrow> string list option list result" where
  "groups_of_discovery limits d =
     (if \<not> pd_supported d \<or> pd_partitions d = [] then Inr [None]
      else r_bind (group_weighted_items (map (\<lambda>i. (partition_id i, bytes_on_disk i)) (pd_partitions d))
                     (target_tasks limits) (max_tasks limits)) (\<lambda>groups.
           Inr (map Some groups)))"

definition partition_groups :: "heap \<Rightarrow> ch_world \<Rightarrow> ch_source \<Rightarrow> int option \<Rightarrow> string list option list result" where
  "partition_groups h w s limit =
     (if cs_split s = ''single'' \<or> limit = Some 0 then Inr [None]
      else if ''_partition_id'' \<in> set (schema_names (plan_schema (cs_plan s))) then Inr [None]
      else case run_discovery_ch h w s of
        Inr d \<Rightarrow> groups_of_discovery (cs_limits s) d
      | Inl e \<Rightarrow> if e = DiscoveryError \<and> cs_policy s \<noteq> ''error'' then Inr [None] else Inl e)"

section \<open>Tasks\<close>

record ch_task =
  ct_connection :: clickhouse_connection
  ct_query :: query_spec
  ct_limits :: resource_limits

definition task_of_select :: "heap \<Rightarrow> ch_source \<Rightarrow> arrow_schema \<Rightarrow> ch_select \<Rightarrow> ch_task result" where
  "task_of_select h s sch q =
     r_bind (build_select_ch q) (\<lambda>(text, parameters).
     r_bind (QuerySpec h text [] parameters sch) (\<lambda>spec.
     Inr \<lparr>ct_connection = cs_connection s, ct_query = spec, ct_limits = cs_limits s\<rparr>))"

definition count_select_ch :: "ch_source \<Rightarrow> string \<Rightarrow> ch_select" where
  "count_select_ch s name =
     \<lparr>sel_table = cs_table s, sel_columns = [name], sel_predicate = None,
      sel_unsafe_where_sql = cs_unsafe_where_sql s, sel_query_parameters = cs_query_parameters s,
      sel_partition_ids = None, sel_limit = PNone, sel_count_output_name = Some name, sel_projection = None\<rparr>"

definition scan_select_ch ::
    "ch_source \<Rightarrow> string list \<Rightarrow> predicate option \<Rightarrow> int option \<Rightarrow> (string \<times> string option) list
       \<Rightarrow> string list option \<Rightarrow> ch_select" where
  "scan_select_ch s columns predicate limit projection partition_ids =
     \<lparr>sel_table = cs_table s, sel_columns = columns, sel_predicate = predicate,
      sel_unsafe_where_sql = cs_unsafe_where_sql s, sel_query_parameters = cs_query_parameters s,
      sel_partition_ids = partition_ids, sel_limit = limit_obj limit, sel_count_output_name = None,
      sel_projection = Some projection\<rparr>"

definition scan_task_ch ::
    "heap \<Rightarrow> ch_source \<Rightarrow> arrow_schema \<Rightarrow> string list \<Rightarrow> predicate option \<Rightarrow> int option \<Rightarrow> string list option
       \<Rightarrow> ch_task result" where
  "scan_task_ch h s sch columns predicate limit partition_ids =
     r_bind (projection_for (cs_plan s) columns) (\<lambda>projection.
     task_of_select h s sch (scan_select_ch s columns predicate limit projection partition_ids))"

definition plan_scan_ch :: "heap \<Rightarrow> ch_world \<Rightarrow> ch_source \<Rightarrow> pushdowns \<Rightarrow> string list option scan_plan result" where
  "plan_scan_ch h w s pd =
     r_bind (required_scan_columns pd (plan_schema (cs_plan s))) (\<lambda>columns.
     r_bind (raise_if (columns = []) CompatibilityError) (\<lambda>_.
     r_bind (project_schema (plan_schema (cs_plan s)) columns) (\<lambda>sch.
     r_bind (compile_filter (pd_filters pd)) (\<lambda>predicate.
     let limit = safe_database_limit pd predicate
     in r_bind (partition_groups h w s limit) (\<lambda>groups.
     Inr \<lparr>sp_columns = columns, sp_schema = sch, sp_predicate = predicate, sp_limit = limit, sp_groups = groups\<rparr>)))))"

definition get_tasks_ch :: "heap \<Rightarrow> ch_world \<Rightarrow> ch_source \<Rightarrow> pushdowns \<Rightarrow> ch_task generated" where
  "get_tasks_ch h w s pd =
     (case count_pushdown (cw_daft w) pd of
        Inl e \<Rightarrow> ([], Some e)
      | Inr (Some name) \<Rightarrow>
          (if pd_limit pd \<noteq> None then ([], Some CompatibilityError)
           else emit (\<lambda>q. task_of_select h s (count_schema name) q) [count_select_ch s name])
      | Inr None \<Rightarrow>
          (case plan_scan_ch h w s pd of
             Inl e \<Rightarrow> ([], Some e)
           | Inr p \<Rightarrow>
               emit (scan_task_ch h s (sp_schema p) (sp_columns p) (sp_predicate p) (sp_limit p)) (sp_groups p)))"

section \<open>Validity\<close>

definition valid_ch_source :: "ch_source \<Rightarrow> bool" where
  "valid_ch_source s \<longleftrightarrow>
     valid_limits (cs_limits s) \<and> valid_identifier (database (cs_table s)) \<and> valid_identifier (table (cs_table s))
     \<and> cs_split s \<in> {''single'', ''auto''} \<and> cs_policy s \<in> {''single'', ''error''}
     \<and> cs_unsafe_where_sql s \<noteq> Some []
     \<and> 1 \<le> ch_port (cs_connection s) \<and> ch_port (cs_connection s) \<le> MAX_PORT
     \<and> set (map fst (ch_settings (cs_connection s))) \<inter> RESERVED_SETTINGS = {}
     \<and> set (map fst (ch_client_options (cs_connection s))) \<inter> RESERVED_CLIENT_OPTIONS = {}
     \<and> map col_name (plan_columns (cs_plan s)) = schema_names (plan_schema (cs_plan s))"

lemma schema_plan_names:
  assumes "schema_plan_of h w c t limits given = Inr plan"
  shows "map col_name (plan_columns plan) = schema_names (plan_schema plan)"
  using assms discover_schema_ch_Inr(1)
  by (cases given) (auto simp: schema_plan_of_def passthrough_def comp_def)

lemma ClickHouseDataSource_Inr:
  assumes "ClickHouseDataSource h w a = Inr s"
  shows "valid_ch_source s"
proof -
  from assms obtain sp po un pa where
    sp: "choice_arg h [''single'', ''auto''] (sa_split a) = Inr (cs_split s)" and
    po: "choice_arg h [''single'', ''error''] (sa_policy a) = Inr (cs_policy s)" and
    un: "unsafe_where_arg (sa_unsafe_where_sql a) = Inr (cs_unsafe_where_sql s)" and
    ta: "QualifiedTable (a_database (sa_connection a)) (sa_table a) = Inr (cs_table s)" and
    li: "limits_of_args (sa_limits a) = Inr (cs_limits s)" and
    co: "from_options_ch h (sa_connection a) = Inr (cs_connection s)" and
    pl: "schema_plan_of h w (cs_connection s) (cs_table s) (cs_limits s) (sa_arrow_schema a) = Inr (cs_plan s)"
    by (auto simp: ClickHouseDataSource_def r_bind_Inr_iff)
  have "cs_unsafe_where_sql s \<noteq> Some []" using unsafe_where_Inr un by metis
  moreover have "valid_limits (cs_limits s)" using li by (simp add: limits_of_args_def ResourceLimits_Inr)
  moreover have "valid_identifier (database (cs_table s))" "valid_identifier (table (cs_table s))"
    using QualifiedTable_valid [OF ta] by auto
  ultimately show ?thesis
    using sp po from_options_ch_Inr [OF co] schema_plan_names [OF pl]
    by (simp add: valid_ch_source_def choice_arg_Inr_iff)
qed

section \<open>Groups of a scan\<close>

lemma groups_of_discovery_cases:
  assumes "groups_of_discovery l d = Inr groups" and "valid_limits l"
  obtains (one) "groups = [None]"
  | (split) gs where "pd_supported d" "pd_partitions d \<noteq> []" "groups = map Some gs" "gs \<noteq> []"
      "group_weighted_items (map (\<lambda>i. (partition_id i, bytes_on_disk i)) (pd_partitions d)) (target_tasks l) (max_tasks l) = Inr gs"
proof -
  have tm: "1 \<le> target_tasks l" "1 \<le> max_tasks l" using valid_limits_tasks [OF assms(2)] by auto
  consider "groups = [None]"
    | gs where "pd_supported d" "pd_partitions d \<noteq> []" "groups = map Some gs"
      "group_weighted_items (map (\<lambda>i. (partition_id i, bytes_on_disk i)) (pd_partitions d)) (target_tasks l) (max_tasks l) = Inr gs"
    using assms(1) by (auto simp: groups_of_discovery_def r_bind_Inr_iff split: if_splits)
  then show thesis
  proof cases
    case (2 gs)
    then show ?thesis using weighted_split.split_no_groups [OF tm 2(4)] split by simp
  qed (rule one)
qed

lemma partition_groups_cases:
  assumes "partition_groups h w s limit = Inr groups" and "valid_limits (cs_limits s)"
  obtains (one) "groups = [None]"
  | (split) d gs where "cs_split s \<noteq> ''single''" "limit \<noteq> Some 0" "run_discovery_ch h w s = Inr d"
      "pd_supported d" "groups = map Some gs" "gs \<noteq> []"
      "group_weighted_items (map (\<lambda>i. (partition_id i, bytes_on_disk i)) (pd_partitions d))
         (target_tasks (cs_limits s)) (max_tasks (cs_limits s)) = Inr gs"
proof -
  consider "groups = [None]" | d where "cs_split s \<noteq> ''single''" "limit \<noteq> Some 0" "run_discovery_ch h w s = Inr d"
      "groups_of_discovery (cs_limits s) d = Inr groups"
    using assms(1) by (auto simp: partition_groups_def split: if_splits sum.splits)
  then show thesis
  proof cases
    case (2 d)
    from 2(4) assms(2) show ?thesis
    proof (cases rule: groups_of_discovery_cases)
      case parts: (split gs)
      then show ?thesis using split [OF 2(1-3)] by blast
    qed (rule that(1))
  qed (rule one)
qed

lemma partition_groups_count:
  assumes "partition_groups h w s limit = Inr groups" and "valid_limits (cs_limits s)"
  shows "1 \<le> length groups" and "int (length groups) \<le> target_tasks (cs_limits s)"
proof -
  note l = valid_limits_tasks [OF assms(2)]
  have "1 \<le> length groups \<and> int (length groups) \<le> target_tasks (cs_limits s)"
    using assms
  proof (cases rule: partition_groups_cases)
    case (split d gs)
    have tm: "1 \<le> target_tasks (cs_limits s)" "1 \<le> max_tasks (cs_limits s)" using l by auto
    show ?thesis using weighted_split.split_count [OF tm split(7)] split(5,6) by (cases gs) auto
  qed (use l in auto)
  then show "1 \<le> length groups" "int (length groups) \<le> target_tasks (cs_limits s)" by auto
qed

text \<open>With the policy \<open>single\<close> a failed discovery is no error; every other failure is passed on as it is.\<close>

lemma partition_groups_error:
  assumes "partition_groups h w s limit = Inl e" and "valid_limits (cs_limits s)"
  shows "run_discovery_ch h w s = Inl e" and "e = DiscoveryError \<Longrightarrow> cs_policy s = ''error''"
proof -
  have tm: "1 \<le> target_tasks (cs_limits s)" "1 \<le> max_tasks (cs_limits s)"
    using valid_limits_tasks [OF assms(2)] by auto
  have "groups_of_discovery (cs_limits s) d \<noteq> Inl e" for d
    using weighted_split.split_total [OF tm, of "map (\<lambda>i. (partition_id i, bytes_on_disk i)) (pd_partitions d)"]
    by (auto simp: groups_of_discovery_def)
  then show "run_discovery_ch h w s = Inl e" "e = DiscoveryError \<Longrightarrow> cs_policy s = ''error''"
    using assms(1) by (auto simp: partition_groups_def split: if_splits sum.splits)
qed

text \<open>
  What listing the partitions ends with when opening the client or one of its queries raises \<open>ex\<close>, and
  what becomes of the scan's groups then.
\<close>

definition listing :: "heap \<Rightarrow> ch_world \<Rightarrow> ch_source \<Rightarrow> partition_discovery result" where
  "listing h w s =
     r_bind (open_client h (cw_environ w) (cw_driver w) (cs_connection s) (cs_limits s))
       (\<lambda>_. partitions_body (cw_driver w) (cs_table s))"

lemma translate_clickhouse_class:
  "translate_clickhouse_error e = Some t \<Longrightarrow> t \<in> {AuthenticationError, DatabasePermissionError, DatabaseObjectNotFoundError}"
  by (auto simp: translate_clickhouse_error_def Let_def split: if_splits)

lemma discover_partitions_raises:
  assumes "listing h w s = Inl ex" and "\<And>e. drv_close (cw_driver w) = Inl e \<Longrightarrow> is_exception e"
  shows "discover_partitions h (cw_environ w) (cw_driver w) (cs_connection s) (cs_table s) (cs_limits s) =
    Inl (if is_exception ex \<and> \<not> is_daft_olap_error ex then
           (case translate_clickhouse_error ex of Some t \<Rightarrow> t | None \<Rightarrow> DiscoveryError) else ex)"
proof -
  let ?opened = "open_client h (cw_environ w) (cw_driver w) (cs_connection s) (cs_limits s)"
  have "\<exists>b. close_all (client_closes (cw_driver w) ?opened) = Inr b"
    using assms(2) by (cases ?opened; cases "drv_close (cw_driver w)") (auto simp: client_closes_def)
  then show ?thesis
    using assms(1) by (auto simp: discover_partitions_def listing_def Let_def finally_close_def handle_driver_errors_def split: option.splits)
qed

lemma partition_groups_raises:
  assumes "listing h w s = Inl ex" and "\<And>e. drv_close (cw_driver w) = Inl e \<Longrightarrow> is_exception e"
    and "cs_discoverer s = None" and "cs_split s \<noteq> ''single''" and "limit \<noteq> Some 0"
    and "''_partition_id'' \<notin> set (schema_names (plan_schema (cs_plan s)))"
  shows "is_exception ex \<Longrightarrow> \<not> is_daft_olap_error ex \<Longrightarrow> translate_clickhouse_error ex = Some t \<Longrightarrow>
      partition_groups h w s limit = Inl t"
    and "is_exception ex \<and> \<not> is_daft_olap_error ex \<and> translate_clickhouse_error ex = None \<or> ex = DiscoveryError \<Longrightarrow>
      partition_groups h w s limit = (if cs_policy s = ''error'' then Inl DiscoveryError else Inr [None])"
    and "\<not> is_exception ex \<or> is_daft_olap_error ex \<and> ex \<noteq> DiscoveryError \<Longrightarrow> partition_groups h w s limit = Inl ex"
  using translate_clickhouse_class [of ex t] assms(3-6)
  by (auto simp: partition_groups_def run_discovery_ch_def discover_partitions_raises [OF assms(1,2)])

section \<open>Rows of a scan\<close>

text \<open>
  What the database returns for a select: rows that satisfy the fragment and lie in the
  partitions, through the predicate and the limit. The fragment's meaning is the database's.
\<close>

definition select_rows_ch ::
    "comparison \<Rightarrow> (string \<Rightarrow> row \<Rightarrow> bool) \<Rightarrow> (row \<Rightarrow> string) \<Rightarrow> row list \<Rightarrow> ch_select \<Rightarrow> row list" where
  "select_rows_ch cmp fragment key rows q =
     database_scan cmp (sel_predicate q) (obj_limit (sel_limit q))
       (group_rows key (fragment_rows fragment (sel_unsafe_where_sql q) rows) (sel_partition_ids q))"

lemma groups_cover_rows:
  assumes "partition_groups h w s limit = Inr groups" and "valid_limits (cs_limits s)"
    and "cs_discoverer s = None"
    and "\<And>d. run_discovery_ch h w s = Inr d \<Longrightarrow> pd_supported d \<Longrightarrow>
           \<forall>r \<in> set rows. key r \<in> set (map partition_id (pd_partitions d))"
  shows "mset (concat (map (group_rows key rows) groups)) = mset rows"
  using assms(1,2)
proof (cases rule: partition_groups_cases)
  case one
  then show ?thesis by (simp add: group_rows_def)
next
  case (split d gs)
  have tm: "1 \<le> target_tasks (cs_limits s)" "1 \<le> max_tasks (cs_limits s)"
    using valid_limits_tasks [OF assms(2)] by auto
  have "distinct (map partition_id (pd_partitions d))"
    using split(3) assms(3) discover_partitions_Inr(1) by (auto simp: run_discovery_ch_def)
  then have "distinct (map fst (map (\<lambda>i. (partition_id i, bytes_on_disk i)) (pd_partitions d)))" by (simp add: comp_def)
  moreover have "\<forall>r \<in> set rows. key r \<in> set (map fst (map (\<lambda>i. (partition_id i, bytes_on_disk i)) (pd_partitions d)))"
    using assms(4) [OF split(3,4)] by (simp add: comp_def)
  ultimately show ?thesis
    using weighted_split.split_rows [OF tm split(7), of rows key] split(5) by (simp add: comp_def)
qed

lemma plan_scan_ch_Inr:
  assumes "plan_scan_ch h w s pd = Inr p"
  shows "required_scan_columns pd (plan_schema (cs_plan s)) = Inr (sp_columns p)" and "sp_columns p \<noteq> []"
    and "project_schema (plan_schema (cs_plan s)) (sp_columns p) = Inr (sp_schema p)"
    and "compile_filter (pd_filters pd) = Inr (sp_predicate p)"
    and "sp_limit p = safe_database_limit pd (sp_predicate p)"
    and "partition_groups h w s (sp_limit p) = Inr (sp_groups p)"
  using assms by (auto simp: plan_scan_ch_def r_bind_Inr_iff Let_def raise_if_def split: if_splits)

text \<open>The tasks of a split scan return what Daft would have kept of the unsplit table.\<close>

lemma split_scan_rows_ch:
  assumes "plan_scan_ch h w s pd = Inr p" and "valid_limits (cs_limits s)" and "cs_discoverer s = None"
    and "\<And>d. run_discovery_ch h w s = Inr d \<Longrightarrow> pd_supported d \<Longrightarrow>
           \<forall>r \<in> set rows. key r \<in> set (map partition_id (pd_partitions d))"
  shows "\<exists>kept. mset kept = mset (filter (daft_keeps cmp operand truth (pd_filters pd))
                                  (fragment_rows fragment (cs_unsafe_where_sql s) rows))
    \<and> take_limit (pd_limit pd) (filter (daft_keeps cmp operand truth (pd_filters pd))
        (concat (map (\<lambda>g. select_rows_ch cmp fragment key rows
                        (scan_select_ch s (sp_columns p) (sp_predicate p) (sp_limit p) projection g)) (sp_groups p))))
      = take_limit (pd_limit pd) kept"
proof -
  note pl = plan_scan_ch_Inr [OF assms(1)]
  let ?rows = "fragment_rows fragment (cs_unsafe_where_sql s) rows"
  let ?matching = "filter (database_keeps cmp (sp_predicate p)) ?rows"
  have "mset (concat (map (group_rows key ?matching) (sp_groups p))) = mset ?matching"
    by (rule groups_cover_rows [OF pl(6) assms(2,3)])
       (use assms(4) fragment_rows_subset [of fragment "cs_unsafe_where_sql s" rows] in force)
  from split_scan_rows [OF pl(4) this, of operand truth] show ?thesis
    by (simp add: select_rows_ch_def scan_select_ch_def pl(5) comp_def)
qed

section \<open>Tasks\<close>

lemma get_tasks_ch_bounded:
  assumes "valid_limits (cs_limits s)"
  shows "int (length (fst (get_tasks_ch h w s pd))) \<le> target_tasks (cs_limits s)"
proof -
  have one: "1 \<le> target_tasks (cs_limits s)" using valid_limits_tasks [OF assms] by simp
  have count: "int (length (fst (emit f [q]))) \<le> 1" for f :: "ch_select \<Rightarrow> ch_task result" and q
    using emit_bounded [of f "[q]"] by simp
  have scan: "int (length (fst (emit f (sp_groups p)))) \<le> target_tasks (cs_limits s)"
    if "plan_scan_ch h w s pd = Inr p" for f :: "string list option \<Rightarrow> ch_task result" and p
    using partition_groups_count(2) [OF plan_scan_ch_Inr(6) [OF that] assms] emit_bounded [of f "sp_groups p"]
    by linarith
  show ?thesis
    using one count scan unfolding get_tasks_ch_def
    by (auto split: sum.splits option.splits simp del: emit.simps intro: order_trans [OF count])
qed

lemma get_tasks_ch_scan:
  assumes "get_tasks_ch h w s pd = (tasks, None)" and "count_pushdown (cw_daft w) pd = Inr None"
  obtains p where "plan_scan_ch h w s pd = Inr p"
    and "list_all2 (\<lambda>g t. scan_task_ch h s (sp_schema p) (sp_columns p) (sp_predicate p) (sp_limit p) g = Inr t)
           (sp_groups p) tasks"
  using assms by (cases "plan_scan_ch h w s pd") (auto simp: get_tasks_ch_def emit_complete_iff r_map_Inr_iff)

lemma scan_task_ch_Inr:
  assumes "scan_task_ch h s sch columns predicate limit g = Inr t"
  shows "build_select_ch (scan_select_ch s columns predicate limit (projr (projection_for (cs_plan s) columns)) g)
      = Inr (sql (ct_query t), named_parameters (ct_query t))"
  using assms by (auto simp: scan_task_ch_def task_of_select_def r_bind_Inr_iff QuerySpec_Inr_iff)

end
