(* ===== verification/Doris_Source.thy ===== *)
theory Doris_Source
  imports Source_Base
begin

text \<open>
  \<^verbatim>\<open>doris/datasource.py\<close>: construction of the source, the tablet plan of a scan, and the tasks
  it yields for the selected transport.
\<close>

section \<open>The source\<close>

record doris_source_args =
  dsa_transport :: pyobj
  dsa_split :: pyobj
  dsa_policy :: pyobj
  dsa_unsafe_where_sql :: pyobj
  dsa_query_parameters :: mapping_arg
  dsa_table :: pyobj
  dsa_planning_timeout :: pyobj
  dsa_limits :: limit_args
  dsa_connection :: doris_args
  dsa_arrow_schema :: "arrow_schema option"
  dsa_discoverer :: "(string \<Rightarrow> pyobj list \<Rightarrow> rat \<Rightarrow> int list result) option"

record doris_source =
  dos_table :: qualified_table
  dos_transport :: parameter_style
  dos_split :: string
  dos_policy :: string
  dos_planning_timeout :: rat
  dos_limits :: resource_limits
  dos_connection :: doris_connection
  dos_unsafe_where_sql :: "string option"
  dos_query_parameters :: "(string \<times> pyobj) list"
  dos_schema :: arrow_schema
  dos_discoverer :: "(string \<Rightarrow> pyobj list \<Rightarrow> rat \<Rightarrow> int list result) option"

record doris_env =
  de_world :: doris_world
  de_consumes :: "arrow_field \<Rightarrow> unit result"
  de_daft :: daft_api

text \<open>The transport name selects the parameter style of the renderer.\<close>

definition transport_arg :: "heap \<Rightarrow> pyobj \<Rightarrow> parameter_style result" where
  "transport_arg h v =
     r_bind (choice_arg h [''mysql'', ''flight''] v) (\<lambda>t. Inr (if t = ''mysql'' then MySql else Flight))"

definition schema_of :: "heap \<Rightarrow> doris_env \<Rightarrow> doris_connection \<Rightarrow> qualified_table \<Rightarrow> resource_limits \<Rightarrow> arrow_schema option
       \<Rightarrow> arrow_schema result" where
  "schema_of h w c t limits given =
     (case given of
        Some sch \<Rightarrow> Inr sch
      | None \<Rightarrow>
          discover_schema_doris h (dw_environ (de_world w)) (de_consumes w) (dw_mysql (de_world w)) c t limits)"

definition DorisDataSource :: "heap \<Rightarrow> doris_env \<Rightarrow> doris_source_args \<Rightarrow> doris_source result" where
  "DorisDataSource h w a =
     r_bind (transport_arg h (dsa_transport a)) (\<lambda>transport.
     r_bind (choice_arg h [''single'', ''auto''] (dsa_split a)) (\<lambda>split.
     r_bind (choice_arg h [''single'', ''error''] (dsa_policy a)) (\<lambda>policy.
     r_bind (unsafe_where_arg (dsa_unsafe_where_sql a)) (\<lambda>unsafe.
     r_bind (freeze_query_parameters h (dsa_query_parameters a)) (\<lambda>parameters.
     r_bind (QualifiedTable (da_database (dsa_connection a)) (dsa_table a)) (\<lambda>t.
     r_bind (validate_timeout_seconds (dsa_planning_timeout a)) (\<lambda>timeout.
     r_bind (limits_of_args (dsa_limits a)) (\<lambda>limits.
     r_bind (from_options_doris h (dsa_connection a)) (\<lambda>c.
     r_bind (schema_of h w c t limits (dsa_arrow_schema a)) (\<lambda>sch.
     Inr \<lparr>dos_table = t, dos_transport = transport, dos_split = split, dos_policy = policy,
          dos_planning_timeout = timeout, dos_limits = limits, dos_connection = c, dos_unsafe_where_sql = unsafe,
          dos_query_parameters = parameters, dos_schema = sch, dos_discoverer = dsa_discoverer a\<rparr>))))))))))"

definition style_name :: "parameter_style \<Rightarrow> string" where
  "style_name t = (case t of MySql \<Rightarrow> ''mysql'' | Flight \<Rightarrow> ''flight'')"

definition source_name_doris :: "doris_source \<Rightarrow> string" where
  "source_name_doris s =
     ''doris:'' @ database (dos_table s) @ ''.'' @ table (dos_table s) @ '':'' @ style_name (dos_transport s)"

definition source_repr_doris :: "(arrow_schema \<Rightarrow> string) \<Rightarrow> doris_source \<Rightarrow> string" where
  "source_repr_doris repr_schema s =
     ''DorisDataSource('' @ ''name='' @ py_repr_str (source_name_doris s) @ '', connection=''
     @ DorisConnection_repr (dos_connection s) @ '', split='' @ py_repr_str (dos_split s) @ '', ''
     @ ''schema='' @ repr_schema (dos_schema s) @ '')''"

section \<open>The tablet plan\<close>

record tablet_plan =
  tp_groups :: "int list option list"
  tp_empty_result :: bool

definition whole_table_plan :: tablet_plan where
  "whole_table_plan = \<lparr>tp_groups = [None], tp_empty_result = False\<rparr>"

definition planning_select :: "doris_source \<Rightarrow> string list \<Rightarrow> predicate option \<Rightarrow> doris_select" where
  "planning_select s columns predicate =
     \<lparr>ds_table = dos_table s, ds_columns = columns, ds_style = MySql, ds_predicate = predicate,
      ds_unsafe_where_sql = dos_unsafe_where_sql s, ds_query_parameters = dos_query_parameters s,
      ds_tablet_ids = None, ds_limit = PNone, ds_count_output_name = None\<rparr>"

text \<open>
  A validated time-out is a finite number, so validating the \<open>float\<close> again in
  \<open>discover_tablets\<close> accepts it.
\<close>

definition timeout_obj :: "rat \<Rightarrow> pyobj" where
  "timeout_obj q = PFloat (FFin q [])"

definition run_discovery_doris ::
    "heap \<Rightarrow> doris_world \<Rightarrow> doris_source \<Rightarrow> string \<Rightarrow> pyobj list \<Rightarrow> int list result" where
  "run_discovery_doris h w s statement parameters =
     (case dos_discoverer s of
        Some f \<Rightarrow> f statement parameters (dos_planning_timeout s)
      | None \<Rightarrow>
          discover_tablets h w (dos_connection s) (dos_table s) statement parameters (dos_limits s)
            (timeout_obj (dos_planning_timeout s)))"

definition plan_of_tablets :: "resource_limits \<Rightarrow> int list \<Rightarrow> tablet_plan result" where
  "plan_of_tablets limits tablet_ids =
     (if tablet_ids = [] then Inr \<lparr>tp_groups = [None], tp_empty_result = True\<rparr>
      else r_bind (group_adjacent_ids tablet_ids (target_tasks limits) (max_tasks limits)) (\<lambda>groups.
           Inr \<lparr>tp_groups = map Some groups, tp_empty_result = False\<rparr>))"

definition make_tablet_plan ::
    "heap \<Rightarrow> doris_world \<Rightarrow> doris_source \<Rightarrow> string list \<Rightarrow> predicate option \<Rightarrow> int option \<Rightarrow> tablet_plan result" where
  "make_tablet_plan h w s columns predicate limit =
     (if dos_split s = ''single'' \<or> limit = Some 0 then Inr whole_table_plan
      else r_bind (build_select_doris (planning_select s columns predicate)) (\<lambda>(statement, parameters).
           case run_discovery_doris h w s statement parameters of
             Inr tablet_ids \<Rightarrow> plan_of_tablets (dos_limits s) tablet_ids
           | Inl e \<Rightarrow> if e = DiscoveryError \<and> dos_policy s \<noteq> ''error'' then Inr whole_table_plan else Inl e))"

section \<open>Tasks\<close>

record doris_task =
  dt_connection :: doris_connection
  dt_query :: query_spec
  dt_limits :: resource_limits
  dt_transport :: parameter_style

definition task_of_select_doris :: "heap \<Rightarrow> doris_source \<Rightarrow> arrow_schema \<Rightarrow> doris_select \<Rightarrow> doris_task result" where
  "task_of_select_doris h s sch q =
     r_bind (build_select_doris q) (\<lambda>(text, parameters).
     r_bind (QuerySpec h text parameters [] sch) (\<lambda>spec.
     Inr \<lparr>dt_connection = dos_connection s, dt_query = spec, dt_limits = dos_limits s,
          dt_transport = dos_transport s\<rparr>))"

definition count_select_doris :: "doris_source \<Rightarrow> string \<Rightarrow> doris_select" where
  "count_select_doris s name =
     \<lparr>ds_table = dos_table s, ds_columns = [name], ds_style = dos_transport s, ds_predicate = None,
      ds_unsafe_where_sql = dos_unsafe_where_sql s, ds_query_parameters = dos_query_parameters s,
      ds_tablet_ids = None, ds_limit = PNone, ds_count_output_name = Some name\<rparr>"

definition scan_select_doris ::
    "doris_source \<Rightarrow> string list \<Rightarrow> predicate option \<Rightarrow> int option \<Rightarrow> int list option \<Rightarrow> doris_select" where
  "scan_select_doris s columns predicate limit tablet_ids =
     \<lparr>ds_table = dos_table s, ds_columns = columns, ds_style = dos_transport s, ds_predicate = predicate,
      ds_unsafe_where_sql = dos_unsafe_where_sql s, ds_query_parameters = dos_query_parameters s,
      ds_tablet_ids = map_option (map PInt) tablet_ids, ds_limit = limit_obj limit, ds_count_output_name = None\<rparr>"

text \<open>A plan without tablets becomes one task with \<open>LIMIT 0\<close>.\<close>

definition plan_scan_doris ::
    "heap \<Rightarrow> doris_env \<Rightarrow> doris_source \<Rightarrow> pushdowns \<Rightarrow> int list option scan_plan result" where
  "plan_scan_doris h w s pd =
     r_bind (required_scan_columns pd (dos_schema s)) (\<lambda>columns.
     r_bind (raise_if (columns = []) CompatibilityError) (\<lambda>_.
     r_bind (project_schema_doris (dos_schema s) columns) (\<lambda>sch.
     r_bind (compile_filter (pd_filters pd)) (\<lambda>predicate.
     let database_limit = safe_database_limit pd predicate
     in r_bind (make_tablet_plan h (de_world w) s columns predicate database_limit) (\<lambda>plan.
     Inr \<lparr>sp_columns = columns, sp_schema = sch, sp_predicate = predicate,
          sp_limit = (if tp_empty_result plan then Some 0 else database_limit), sp_groups = tp_groups plan\<rparr>)))))"

definition get_tasks_doris :: "heap \<Rightarrow> doris_env \<Rightarrow> doris_source \<Rightarrow> pushdowns \<Rightarrow> doris_task generated" where
  "get_tasks_doris h w s pd =
     (case count_pushdown (de_daft w) pd of
        Inl e \<Rightarrow> ([], Some e)
      | Inr (Some name) \<Rightarrow>
          (if pd_limit pd \<noteq> None then ([], Some CompatibilityError)
           else emit (\<lambda>q. task_of_select_doris h s (count_schema name) q) [count_select_doris s name])
      | Inr None \<Rightarrow>
          (case plan_scan_doris h w s pd of
             Inl e \<Rightarrow> ([], Some e)
           | Inr p \<Rightarrow>
               emit (\<lambda>g. task_of_select_doris h s (sp_schema p)
                        (scan_select_doris s (sp_columns p) (sp_predicate p) (sp_limit p) g)) (sp_groups p)))"

section \<open>Validity\<close>

definition valid_doris_source :: "doris_source \<Rightarrow> bool" where
  "valid_doris_source s \<longleftrightarrow>
     valid_limits (dos_limits s) \<and> valid_identifier (database (dos_table s)) \<and> valid_identifier (table (dos_table s))
     \<and> dos_split s \<in> {''single'', ''auto''} \<and> dos_policy s \<in> {''single'', ''error''}
     \<and> dos_unsafe_where_sql s \<noteq> Some []
     \<and> 0 < dos_planning_timeout s \<and> dos_planning_timeout s \<le> MAX_TIMEOUT_SECONDS
     \<and> host_ok (do_host (dos_connection s))
     \<and> (\<forall>p \<in> {do_mysql_port (dos_connection s), do_http_port (dos_connection s), do_flight_port (dos_connection s)}.
          1 \<le> p \<and> p \<le> MAX_PORT)
     \<and> set (map fst (do_mysql_options (dos_connection s))) \<inter> RESERVED_MYSQL_OPTIONS = {}
     \<and> set (map fst (do_flight_options (dos_connection s))) \<inter> RESERVED_FLIGHT_OPTIONS = {}"

lemma DorisDataSource_Inr:
  assumes "DorisDataSource h w a = Inr s"
  shows "valid_doris_source s"
proof -
  from assms have
    sp: "choice_arg h [''single'', ''auto''] (dsa_split a) = Inr (dos_split s)" and
    po: "choice_arg h [''single'', ''error''] (dsa_policy a) = Inr (dos_policy s)" and
    un: "unsafe_where_arg (dsa_unsafe_where_sql a) = Inr (dos_unsafe_where_sql s)" and
    ta: "QualifiedTable (da_database (dsa_connection a)) (dsa_table a) = Inr (dos_table s)" and
    ti: "validate_timeout_seconds (dsa_planning_timeout a) = Inr (dos_planning_timeout s)" and
    li: "limits_of_args (dsa_limits a) = Inr (dos_limits s)" and
    co: "from_options_doris h (dsa_connection a) = Inr (dos_connection s)"
    by (auto simp: DorisDataSource_def r_bind_Inr_iff)
  have "dos_unsafe_where_sql s \<noteq> Some []" using unsafe_where_Inr un by metis
  moreover have "valid_limits (dos_limits s)" using li by (simp add: limits_of_args_def ResourceLimits_Inr)
  ultimately show ?thesis
    using sp po QualifiedTable_valid [OF ta] from_options_doris_Inr [OF co] ti
    by (simp add: valid_doris_source_def choice_arg_Inr_iff validate_timeout_Inr_iff)
qed

section \<open>The plan\<close>

lemma plan_of_tablets_cases:
  assumes "plan_of_tablets l ids = Inr plan" and "valid_limits l"
  obtains (empty) "ids = []" "tp_groups plan = [None]" "tp_empty_result plan"
  | (split) gs where "ids \<noteq> []" "tp_groups plan = map Some gs" "gs \<noteq> []" "\<not> tp_empty_result plan"
      "group_adjacent_ids ids (target_tasks l) (max_tasks l) = Inr gs"
proof -
  have tm: "1 \<le> target_tasks l" "1 \<le> max_tasks l" using valid_limits_tasks [OF assms(2)] by auto
  consider "ids = []" "tp_groups plan = [None]" "tp_empty_result plan"
    | gs where "ids \<noteq> []" "tp_groups plan = map Some gs" "\<not> tp_empty_result plan"
      "group_adjacent_ids ids (target_tasks l) (max_tasks l) = Inr gs"
    using assms(1) by (auto simp: plan_of_tablets_def r_bind_Inr_iff split: if_splits)
  then show thesis
  proof cases
    case (2 gs)
    then show ?thesis using adjacent_split.split_no_groups [OF tm 2(4)] split by simp
  qed (rule empty)
qed

lemma make_tablet_plan_cases:
  assumes "make_tablet_plan h w s columns predicate limit = Inr plan"
  obtains (whole) "plan = whole_table_plan"
  | (tablets) statement parameters ids where "dos_split s \<noteq> ''single''" "limit \<noteq> Some 0"
      "build_select_doris (planning_select s columns predicate) = Inr (statement, parameters)"
      "run_discovery_doris h w s statement parameters = Inr ids" "plan_of_tablets (dos_limits s) ids = Inr plan"
proof (cases "dos_split s = ''single'' \<or> limit = Some 0")
  case True
  then show ?thesis using assms whole by (simp add: make_tablet_plan_def)
next
  case False
  then obtain st ps where b: "build_select_doris (planning_select s columns predicate) = Inr (st, ps)"
    and r: "(case run_discovery_doris h w s st ps of
        Inr tablet_ids \<Rightarrow> plan_of_tablets (dos_limits s) tablet_ids
      | Inl e \<Rightarrow> if e = DiscoveryError \<and> dos_policy s \<noteq> ''error'' then Inr whole_table_plan else Inl e) = Inr plan"
    using assms by (auto simp: make_tablet_plan_def r_bind_Inr_iff)
  show ?thesis
  proof (cases "run_discovery_doris h w s st ps")
    case (Inl e)
    then show ?thesis using r whole by (simp split: if_splits)
  next
    case (Inr ids)
    then show ?thesis using r tablets [OF _ _ b] False by simp
  qed
qed

lemma make_tablet_plan_count:
  assumes "make_tablet_plan h w s columns predicate limit = Inr plan" and "valid_limits (dos_limits s)"
  shows "1 \<le> length (tp_groups plan)" and "int (length (tp_groups plan)) \<le> target_tasks (dos_limits s)"
proof -
  note l = valid_limits_tasks [OF assms(2)]
  have tm: "1 \<le> target_tasks (dos_limits s)" "1 \<le> max_tasks (dos_limits s)" using l by auto
  have "1 \<le> length (tp_groups plan) \<and> int (length (tp_groups plan)) \<le> target_tasks (dos_limits s)"
    using assms(1)
  proof (cases rule: make_tablet_plan_cases)
    case (tablets st ps ids)
    from tablets(5) assms(2) show ?thesis
    proof (cases rule: plan_of_tablets_cases)
      case (split gs)
      then show ?thesis using adjacent_split.split_count [OF tm split(5)] by (cases gs) auto
    qed (use l in simp)
  qed (use l in \<open>simp add: whole_table_plan_def\<close>)
  then show "1 \<le> length (tp_groups plan)" "int (length (tp_groups plan)) \<le> target_tasks (dos_limits s)" by auto
qed

section \<open>Rows of a scan\<close>

definition int_ids :: "pyobj list \<Rightarrow> int list" where
  "int_ids vs = [i. PInt i \<leftarrow> vs]"

lemma int_ids_PInt [simp]: "int_ids (map PInt ids) = ids"
  by (induction ids) (auto simp: int_ids_def)

definition select_rows_doris ::
    "comparison \<Rightarrow> (string \<Rightarrow> row \<Rightarrow> bool) \<Rightarrow> (row \<Rightarrow> int) \<Rightarrow> row list \<Rightarrow> doris_select \<Rightarrow> row list" where
  "select_rows_doris cmp fragment key rows q =
     database_scan cmp (ds_predicate q) (obj_limit (ds_limit q))
       (group_rows key (fragment_rows fragment (ds_unsafe_where_sql q) rows) (map_option int_ids (ds_tablet_ids q)))"

lemma plan_scan_doris_Inr:
  assumes "plan_scan_doris h w s pd = Inr p"
  obtains plan where "required_scan_columns pd (dos_schema s) = Inr (sp_columns p)" and "sp_columns p \<noteq> []"
    and "project_schema (dos_schema s) (sp_columns p) = Inr (sp_schema p)"
    and "compile_filter (pd_filters pd) = Inr (sp_predicate p)"
    and "make_tablet_plan h (de_world w) s (sp_columns p) (sp_predicate p) (safe_database_limit pd (sp_predicate p)) = Inr plan"
    and "sp_limit p = (if tp_empty_result plan then Some 0 else safe_database_limit pd (sp_predicate p))"
    and "sp_groups p = tp_groups plan"
  using assms that
  by (auto simp: plan_scan_doris_def r_bind_Inr_iff Let_def raise_if_def project_schema_doris_eq split: if_splits)

text \<open>
  What the planning answer promises: every row that the planned statement can return lies in
  one of the reported tablets. Rows outside them satisfy neither fragment nor predicate.
\<close>

definition tablets_cover ::
    "comparison \<Rightarrow> (string \<Rightarrow> row \<Rightarrow> bool) \<Rightarrow> (row \<Rightarrow> int) \<Rightarrow> doris_source \<Rightarrow> predicate option \<Rightarrow> row list \<Rightarrow> int list \<Rightarrow> bool"
  where
  "tablets_cover cmp fragment key s predicate rows ids \<longleftrightarrow>
     (\<forall>r \<in> set (fragment_rows fragment (dos_unsafe_where_sql s) rows). database_keeps cmp predicate r \<longrightarrow> key r \<in> set ids)"

lemma split_scan_rows_doris:
  assumes "plan_scan_doris h w s pd = Inr p" and "valid_limits (dos_limits s)" and "dos_discoverer s = None"
    and "\<And>statement parameters ids.
           build_select_doris (planning_select s (sp_columns p) (sp_predicate p)) = Inr (statement, parameters) \<Longrightarrow>
           run_discovery_doris h (de_world w) s statement parameters = Inr ids \<Longrightarrow>
           tablets_cover cmp fragment key s (sp_predicate p) rows ids"
  shows "\<exists>kept. mset kept = mset (filter (daft_keeps cmp operand truth (pd_filters pd))
                                  (fragment_rows fragment (dos_unsafe_where_sql s) rows))
    \<and> take_limit (pd_limit pd) (filter (daft_keeps cmp operand truth (pd_filters pd))
        (concat (map (\<lambda>g. select_rows_doris cmp fragment key rows
                        (scan_select_doris s (sp_columns p) (sp_predicate p) (sp_limit p) g)) (sp_groups p))))
      = take_limit (pd_limit pd) kept"
proof -
  let ?rows = "fragment_rows fragment (dos_unsafe_where_sql s) rows"
  let ?matching = "filter (database_keeps cmp (sp_predicate p)) ?rows"
  let ?keep = "daft_keeps cmp operand truth (pd_filters pd)"
  from assms(1) obtain plan where cf: "compile_filter (pd_filters pd) = Inr (sp_predicate p)"
    and mk: "make_tablet_plan h (de_world w) s (sp_columns p) (sp_predicate p) (safe_database_limit pd (sp_predicate p)) = Inr plan"
    and lm: "sp_limit p = (if tp_empty_result plan then Some 0 else safe_database_limit pd (sp_predicate p))"
    and gr: "sp_groups p = tp_groups plan"
    by (rule plan_scan_doris_Inr)
  have tm: "1 \<le> target_tasks (dos_limits s)" "1 \<le> max_tasks (dos_limits s)"
    using valid_limits_tasks [OF assms(2)] by auto
  consider (none) "tp_groups plan = [None]" "tp_empty_result plan" "?matching = []"
    | (cover) "\<not> tp_empty_result plan" "mset (concat (map (group_rows key ?matching) (tp_groups plan))) = mset ?matching"
    using mk
  proof (cases rule: make_tablet_plan_cases)
    case whole
    then show ?thesis using cover by (simp add: whole_table_plan_def group_rows_def)
  next
    case (tablets st ps ids)
    have cov: "\<forall>r \<in> set ?matching. key r \<in> set ids"
      using assms(4) [OF tablets(3,4)] by (auto simp: tablets_cover_def)
    have dis: "distinct ids" using tablets(4) assms(3) discover_tablets_Inr(2) by (auto simp: run_discovery_doris_def)
    from tablets(5) assms(2) show ?thesis
    proof (cases rule: plan_of_tablets_cases)
      case empty
      then have "set ?matching = {}" using cov by auto
      then show ?thesis using none empty by (metis set_empty)
    next
      case (split gs)
      then show ?thesis
        using adjacent_split.split_rows [OF tm split(5), of ?matching key] dis cov cover by (simp add: comp_def)
    qed
  qed
  then show ?thesis
  proof cases
    case none
    have "filter ?keep ?rows = filter ?keep ?matching"
      using database_keeps_more [OF cf] by (auto simp: filter_filter intro!: filter_cong)
    then show ?thesis
      using none gr lm by (simp add: select_rows_doris_def scan_select_doris_def database_scan_def)
  next
    case cover
    from split_scan_rows [OF cf cover(2), of operand truth] show ?thesis
      using cover(1) lm gr by (simp add: select_rows_doris_def scan_select_doris_def option.map_comp comp_def option.map_ident)
  qed
qed

section \<open>Tasks\<close>

lemma get_tasks_doris_bounded:
  assumes "valid_limits (dos_limits s)"
  shows "int (length (fst (get_tasks_doris h w s pd))) \<le> target_tasks (dos_limits s)"
proof -
  have one: "1 \<le> target_tasks (dos_limits s)" using valid_limits_tasks [OF assms] by simp
  have count: "int (length (fst (emit f [q]))) \<le> 1" for f :: "doris_select \<Rightarrow> doris_task result" and q
    using emit_bounded [of f "[q]"] by simp
  have scan: "int (length (fst (emit f (sp_groups p)))) \<le> target_tasks (dos_limits s)"
    if "plan_scan_doris h w s pd = Inr p" for f :: "int list option \<Rightarrow> doris_task result" and p
  proof -
    from that obtain plan where "make_tablet_plan h (de_world w) s (sp_columns p) (sp_predicate p)
        (safe_database_limit pd (sp_predicate p)) = Inr plan" "sp_groups p = tp_groups plan" by (rule plan_scan_doris_Inr)
    then show ?thesis
      using make_tablet_plan_count(2) [OF _ assms] emit_bounded [of f "sp_groups p"] by fastforce
  qed
  show ?thesis
    using one count scan unfolding get_tasks_doris_def
    by (auto split: sum.splits option.splits simp del: emit.simps intro: order_trans [OF count])
qed

lemma get_tasks_doris_scan:
  assumes "get_tasks_doris h w s pd = (tasks, None)" and "count_pushdown (de_daft w) pd = Inr None"
  obtains p where "plan_scan_doris h w s pd = Inr p"
    and "list_all2 (\<lambda>g t. task_of_select_doris h s (sp_schema p)
             (scan_select_doris s (sp_columns p) (sp_predicate p) (sp_limit p) g) = Inr t) (sp_groups p) tasks"
  using assms by (cases "plan_scan_doris h w s pd") (auto simp: get_tasks_doris_def emit_complete_iff r_map_Inr_iff)

lemma task_of_select_doris_Inr:
  assumes "task_of_select_doris h s sch q = Inr t"
  shows "build_select_doris q = Inr (sql (dt_query t), positional_parameters (dt_query t))"
    and "dt_transport t = dos_transport s" and "dt_limits t = dos_limits s"
  using assms by (auto simp: task_of_select_doris_def r_bind_Inr_iff QuerySpec_Inr_iff)

end
