(* ===== verification/Api.thy ===== *)
theory Api
  imports CH_Source Doris_Source
begin

text \<open>
  \<^verbatim>\<open>clickhouse/api.py\<close> and \<^verbatim>\<open>doris/api.py\<close>: the two functions a caller reads a table with. Data frames
  are Daft's: the methods the functions call are a record, and \<open>read\<close> is the source's own.
\<close>

section \<open>Frames\<close>

record 'f frame_ops =
  fr_filter :: "'f \<Rightarrow> expr \<Rightarrow> 'f result"
  fr_select :: "'f \<Rightarrow> string list \<Rightarrow> 'f result"

text \<open>\<open>if filter is not None: ...\<close>, \<open>if projection is not None: ...\<close>.\<close>

definition finish_frame :: "'f frame_ops \<Rightarrow> 'f \<Rightarrow> expr option \<Rightarrow> string list option \<Rightarrow> 'f result" where
  "finish_frame ops frame condition projection =
     r_bind (case condition of None \<Rightarrow> Inr frame | Some e \<Rightarrow> fr_filter ops frame e) (\<lambda>filtered.
     case projection of None \<Rightarrow> Inr filtered | Some columns \<Rightarrow> fr_select ops filtered columns)"

definition read_clickhouse ::
    "heap \<Rightarrow> ch_world \<Rightarrow> 'f frame_ops \<Rightarrow> (ch_source \<Rightarrow> 'f result) \<Rightarrow> columns_arg \<Rightarrow> expr option \<Rightarrow> ch_source_args
       \<Rightarrow> 'f result" where
  "read_clickhouse h w ops read columns condition a =
     r_bind (normalize_columns columns) (\<lambda>projection.
     r_bind (ClickHouseDataSource h w (a\<lparr>sa_arrow_schema := None, sa_discoverer := None\<rparr>)) (\<lambda>source.
     r_bind (read source) (\<lambda>frame. finish_frame ops frame condition projection)))"

definition read_doris ::
    "heap \<Rightarrow> doris_env \<Rightarrow> 'f frame_ops \<Rightarrow> (doris_source \<Rightarrow> 'f result) \<Rightarrow> columns_arg \<Rightarrow> expr option \<Rightarrow> doris_source_args
       \<Rightarrow> 'f result" where
  "read_doris h w ops read columns condition a =
     r_bind (normalize_columns columns) (\<lambda>projection.
     r_bind (DorisDataSource h w (a\<lparr>dsa_arrow_schema := None, dsa_discoverer := None\<rparr>)) (\<lambda>source.
     r_bind (read source) (\<lambda>frame. finish_frame ops frame condition projection)))"

section \<open>What a frame reads\<close>

lemma normalize_columns_valid:
  assumes "normalize_columns columns = Inr (Some ns)"
  shows "ns \<noteq> [] \<and> distinct ns \<and> list_all valid_identifier ns"
proof (cases columns)
  case (ColumnList vs)
  with assms show ?thesis by (simp only: normalize_columns_Inr_iff) blast
qed (use assms in auto)

lemma read_clickhouse_Inr:
  assumes "read_clickhouse h w ops read columns condition a = Inr f"
  obtains source frame projection where "valid_ch_source source" "cs_discoverer source = None" "read source = Inr frame"
    "normalize_columns columns = Inr projection" "finish_frame ops frame condition projection = Inr f"
proof -
  from assms obtain projection source frame where
    r: "normalize_columns columns = Inr projection" "read source = Inr frame" "finish_frame ops frame condition projection = Inr f" and
    s: "ClickHouseDataSource h w (a\<lparr>sa_arrow_schema := None, sa_discoverer := None\<rparr>) = Inr source"
    by (auto simp: read_clickhouse_def r_bind_Inr_iff)
  have "cs_discoverer source = None" using s by (auto simp: ClickHouseDataSource_def r_bind_Inr_iff)
  with r ClickHouseDataSource_Inr [OF s] show thesis using that by blast
qed

lemma read_doris_Inr:
  assumes "read_doris h w ops read columns condition a = Inr f"
  obtains source frame projection where "valid_doris_source source" "dos_discoverer source = None" "read source = Inr frame"
    "normalize_columns columns = Inr projection" "finish_frame ops frame condition projection = Inr f"
proof -
  from assms obtain projection source frame where
    r: "normalize_columns columns = Inr projection" "read source = Inr frame" "finish_frame ops frame condition projection = Inr f" and
    s: "DorisDataSource h w (a\<lparr>dsa_arrow_schema := None, dsa_discoverer := None\<rparr>) = Inr source"
    by (auto simp: read_doris_def r_bind_Inr_iff)
  have "dos_discoverer source = None" using s by (auto simp: DorisDataSource_def r_bind_Inr_iff)
  with r DorisDataSource_Inr [OF s] show thesis using that by blast
qed

end
