(* ===== verification/Transport_Base.thy ===== *)
theory Transport_Base
  imports Batching Connection_Base
begin

text \<open>
  What the streaming transports share: casting a batch to the planned schema, pulling batches
  from a source on demand and cutting them to the limits, and the handlers around a stream.
  Record batches belong to pyarrow: the operations the transports call are a record, and what
  the theorems need of them is the locale \<open>arrow_table_ops\<close>.
\<close>

section \<open>Operations of pyarrow\<close>

text \<open>
  How an Arrow operation fails: with one of the exceptions the transports expect
  (\<open>ArrowInvalid\<close>, \<open>ArrowTypeError\<close>, \<open>ValueError\<close> and the like), or with another.
\<close>

datatype arrow_failure = ArrowDataError | OtherFailure exn

record 'b arrow_ops =
  pa_schema :: "'b \<Rightarrow> arrow_schema"
  pa_num_rows :: "'b \<Rightarrow> nat"
  pa_nbytes :: "'b \<Rightarrow> nat"
  pa_slice :: "'b \<Rightarrow> nat \<Rightarrow> nat \<Rightarrow> 'b"
  pa_from_arrays :: "'b \<Rightarrow> arrow_schema \<Rightarrow> arrow_failure + 'b"
  pa_cast :: "'b \<Rightarrow> arrow_schema \<Rightarrow> arrow_failure + 'b"
  pa_empty :: "arrow_schema \<Rightarrow> arrow_failure + 'b"
  pa_to_batches :: "'b \<Rightarrow> nat \<Rightarrow> arrow_failure + 'b list"

text \<open>\<open>except (ArrowInvalid, ...): raise SchemaError\<close>.\<close>

fun arrow_raise :: "arrow_failure \<Rightarrow> exn" where
  "arrow_raise ArrowDataError = SchemaError"
| "arrow_raise (OtherFailure e) = e"

definition arrow_result :: "arrow_failure + 'a \<Rightarrow> 'a result" where
  "arrow_result m = (case m of Inl f \<Rightarrow> Inl (arrow_raise f) | Inr x \<Rightarrow> Inr x)"

lemma arrow_result_Inr_iff [simp]: "arrow_result m = Inr x \<longleftrightarrow> m = Inr x"
  by (cases m) (auto simp: arrow_result_def)

section \<open>Casting\<close>

fun single_batch :: "'b list \<Rightarrow> 'b result" where
  "single_batch [b] = Inr b"
| "single_batch _ = Inl SchemaError"

definition cast_batch :: "'b arrow_ops \<Rightarrow> 'b \<Rightarrow> arrow_schema \<Rightarrow> 'b result" where
  "cast_batch pa b sch =
     (if schema_names (pa_schema pa b) \<noteq> schema_names sch then Inl SchemaError
      else if schema_fields (pa_schema pa b) = schema_fields sch then arrow_result (pa_from_arrays pa b sch)
      else r_bind (arrow_result (pa_cast pa b sch)) (\<lambda>t.
           if pa_num_rows pa t = 0 then arrow_result (pa_empty pa sch)
           else r_bind (arrow_result (pa_to_batches pa t (max (pa_num_rows pa t) 1))) single_batch))"

section \<open>Pulling\<close>

text \<open>
  One pull from the driver: a record batch, a value that is none, or an exception. The end of
  the list is the end of the stream.
\<close>

datatype 'b pull = Batch 'b | NotBatch | PullRaises exn

text \<open>
  The body of the generator: every batch is prepared (cast and cut) and its pieces are
  yielded. The result is what is yielded and how the loop ends.
\<close>

fun pump :: "('b \<Rightarrow> 'c list result) \<Rightarrow> 'b pull list \<Rightarrow> 'c list \<times> unit result" where
  "pump prepare [] = ([], Inr ())"
| "pump prepare (PullRaises e # _) = ([], Inl e)"
| "pump prepare (NotBatch # _) = ([], Inl TransportError)"
| "pump prepare (Batch b # rest) =
     (case prepare b of
        Inl e \<Rightarrow> ([], Inl e)
      | Inr pieces \<Rightarrow> (pieces @ fst (pump prepare rest), snd (pump prepare rest)))"

text \<open>
  A consumer that leaves closes the generator at a \<open>yield\<close>, after \<open>Suc n\<close> values, and \<open>GeneratorExit\<close> is
  raised there; a consumer that stays sees the end of the loop. A generator that is closed before
  its first value was asked for has not run at all.
\<close>

definition consume :: "nat option \<Rightarrow> 'c list \<times> unit result \<Rightarrow> 'c list \<times> unit result" where
  "consume leave run =
     (case leave of
        None \<Rightarrow> run
      | Some n \<Rightarrow> if n < length (fst run) then (take (Suc n) (fst run), Inl GeneratorExit) else run)"

definition bounded_slices :: "'b arrow_ops \<Rightarrow> resource_limits \<Rightarrow> 'b \<Rightarrow> 'b list" where
  "bounded_slices pa limits b =
     the (iter_batch_slices (pa_num_rows pa) (pa_slice pa) (pa_nbytes pa) b limits)"

text \<open>The exception handlers of a stream, followed by its \<open>finally\<close> clause.\<close>

definition end_stream :: "(exn \<Rightarrow> exn option) \<Rightarrow> unit result list \<Rightarrow> unit result \<Rightarrow> unit result" where
  "end_stream translate closes m =
     finally_close TransportError closes (handle_driver_errors translate is_daft_olap_error TransportError m)"

lemma pump_yields:
  assumes "x \<in> set (fst (pump prepare items))"
  obtains b pieces where "Batch b \<in> set items" "prepare b = Inr pieces" "x \<in> set pieces"
  using assms
proof (induction prepare items rule: pump.induct)
  case (4 prepare b rest)
  show ?case
  proof (cases "prepare b")
    case (Inr pieces)
    show ?thesis
    proof (cases "x \<in> set pieces")
      case True
      then show ?thesis using "4.prems"(1) [of b pieces] Inr by simp
    next
      case False
      then have "x \<in> set (fst (pump prepare rest))" using "4.prems"(2) Inr by simp
      then show ?thesis using "4.IH" [OF Inr] "4.prems"(1) by (metis list.set_intros(2))
    qed
  qed (use "4.prems" in auto)
qed auto

lemma pump_complete:
  assumes "snd (pump prepare items) = Inr u"
  shows "\<exists>bs ps. items = map Batch bs \<and> list_all2 (\<lambda>b p. prepare b = Inr p) bs ps \<and> fst (pump prepare items) = concat ps"
  using assms
proof (induction prepare items rule: pump.induct)
  case (4 prepare b rest)
  then obtain p where p: "prepare b = Inr p" by (cases "prepare b") auto
  with 4 obtain bs ps where "rest = map Batch bs" "list_all2 (\<lambda>b p. prepare b = Inr p) bs ps"
      "fst (pump prepare rest) = concat ps" by auto
  with p show ?case by (intro exI [of _ "b # bs"] exI [of _ "p # ps"]) simp
qed auto

lemma consume_yields: "set (fst (consume leave run)) \<subseteq> set (fst run)"
  by (auto simp: consume_def dest: in_set_takeD split: option.splits)

lemma consume_Inr_iff: "snd (consume leave run) = Inr u \<longleftrightarrow> snd run = Inr u \<and> fst (consume leave run) = fst run
    \<and> (\<forall>n. leave = Some n \<longrightarrow> length (fst run) \<le> n)"
  by (auto simp: consume_def split: option.splits if_splits)

text \<open>Slices keep what slicing keeps, such as the schema.\<close>

lemma slices_from_keep:
  fixes b :: 'a
  assumes "slices_from num_rows slice nbytes b l off = Some ss" and "\<And>k n. f (slice b k n) = f b"
  shows "\<forall>s \<in> set ss. f s = f b"
proof -
  have "(\<forall>k n. f (slice b k n) = f b) \<longrightarrow> (\<forall>s \<in> set ss. f s = f b)"
    using assms(1)
  proof (rule slices_from.raw_induct [where P = "\<lambda>num_rows slice nbytes b l off ss.
      (\<forall>k n. f (slice b k n) = f b) \<longrightarrow> (\<forall>s \<in> set ss. f s = f b)", rotated])
    fix rec :: "('a \<Rightarrow> nat) \<Rightarrow> ('a \<Rightarrow> nat \<Rightarrow> nat \<Rightarrow> 'a) \<Rightarrow> ('a \<Rightarrow> nat) \<Rightarrow> 'a \<Rightarrow> resource_limits \<Rightarrow> int \<Rightarrow> 'a list option"
      and num_rows nbytes :: "'a \<Rightarrow> nat" and slice :: "'a \<Rightarrow> nat \<Rightarrow> nat \<Rightarrow> 'a" and batch :: 'a and limits offset y
    let ?n = "slice_size (\<lambda>n. nbytes (slice batch (nat offset) n)) limits (int (num_rows batch) - offset)"
    assume IH: "\<And>num_rows slice nbytes batch limits offset y. rec num_rows slice nbytes batch limits offset = Some y \<Longrightarrow>
        (\<forall>k n. f (slice batch k n) = f batch) \<longrightarrow> (\<forall>s \<in> set y. f s = f batch)"
      and step: "(if offset < int (num_rows batch)
        then Option.bind (rec num_rows slice nbytes batch limits (offset + ?n))
               (\<lambda>rest. Some (slice batch (nat offset) (nat ?n) # rest))
        else Some []) = Some y"
    show "(\<forall>k n. f (slice batch k n) = f batch) \<longrightarrow> (\<forall>s \<in> set y. f s = f batch)"
    proof (cases "offset < int (num_rows batch)")
      case True
      then obtain rest where r: "rec num_rows slice nbytes batch limits (offset + ?n) = Some rest"
        and y: "y = slice batch (nat offset) (nat ?n) # rest"
        using step unfolding if_P [OF True] bind_eq_Some_conv by blast
      show ?thesis
      proof (intro impI ballI)
        fix s assume k: "\<forall>k n. f (slice batch k n) = f batch" and "s \<in> set y"
        then consider "s = slice batch (nat offset) (nat ?n)" | "s \<in> set rest" unfolding y by force
        then show "f s = f batch" using k IH [OF r] by cases blast+
      qed
    next
      case False
      then have "y = []" using step by simp
      then show ?thesis by simp
    qed
  qed
  then show ?thesis using assms(2) by blast
qed

definition prepare_batch :: "'b arrow_ops \<Rightarrow> arrow_schema \<Rightarrow> resource_limits \<Rightarrow> 'b \<Rightarrow> 'b list result" where
  "prepare_batch pa sch limits b = r_bind (cast_batch pa b sch) (\<lambda>c. Inr (bounded_slices pa limits c))"

text \<open>A batch fit for delivery: of the planned schema, not empty, and within both limits.\<close>

definition delivered :: "'b arrow_ops \<Rightarrow> ('b \<Rightarrow> 'r list) \<Rightarrow> arrow_schema \<Rightarrow> resource_limits \<Rightarrow> 'b \<Rightarrow> bool" where
  "delivered pa rows sch limits s \<longleftrightarrow>
     rows s \<noteq> [] \<and> int (length (rows s)) \<le> batch_rows limits
     \<and> (length (rows s) = 1 \<or> int (pa_nbytes pa s) \<le> batch_bytes limits) \<and> pa_schema pa s = sch"

section \<open>The contract of pyarrow\<close>

locale arrow_table_ops = arrow_batches "pa_num_rows pa" "pa_slice pa" "pa_nbytes pa" rows
  for pa :: "'b arrow_ops" and rows :: "'b \<Rightarrow> 'r list" +
  assumes slice_schema: "pa_schema pa (pa_slice pa b off n) = pa_schema pa b"
    and from_arrays: "pa_from_arrays pa b sch = Inr b' \<Longrightarrow> pa_schema pa b' = sch \<and> rows b' = rows b"
    and cast: "pa_cast pa b sch = Inr b' \<Longrightarrow> pa_schema pa b' = sch \<and> length (rows b') = length (rows b)"
    and empty: "pa_empty pa sch = Inr b' \<Longrightarrow> pa_schema pa b' = sch \<and> rows b' = []"
    and to_batches: "pa_to_batches pa b n = Inr bs \<Longrightarrow> concat (map rows bs) = rows b \<and> (\<forall>x \<in> set bs. pa_schema pa x = pa_schema pa b)"
begin

lemma cast_batch_schema:
  assumes "cast_batch pa b sch = Inr b'"
  shows "pa_schema pa b' = sch" and "length (rows b') = length (rows b)"
    and "schema_fields (pa_schema pa b) = schema_fields sch \<Longrightarrow> rows b' = rows b"
proof -
  have one: "bs = [x]" if "single_batch bs = Inr x" for bs :: "'b list" and x
    using that by (cases bs rule: single_batch.cases) auto
  have "pa_schema pa b' = sch \<and> length (rows b') = length (rows b)
      \<and> (schema_fields (pa_schema pa b) = schema_fields sch \<longrightarrow> rows b' = rows b)"
  proof (cases "schema_fields (pa_schema pa b) = schema_fields sch")
    case True
    then show ?thesis using assms from_arrays by (auto simp: cast_batch_def split: if_splits)
  next
    case False
    then obtain t where t: "pa_cast pa b sch = Inr t"
      and r: "(if pa_num_rows pa t = 0 then arrow_result (pa_empty pa sch)
          else r_bind (arrow_result (pa_to_batches pa t (max (pa_num_rows pa t) 1))) single_batch) = Inr b'"
      using assms by (auto simp: cast_batch_def split: if_splits)
    from cast [OF t] num_rows_rows [of t] show ?thesis
      using r False empty to_batches by (fastforce split: if_splits dest!: one)
  qed
  then show "pa_schema pa b' = sch" "length (rows b') = length (rows b)"
    "schema_fields (pa_schema pa b) = schema_fields sch \<Longrightarrow> rows b' = rows b" by auto
qed

lemma bounded_slices_correct:
  assumes "valid_limits l"
  shows "concat (map rows (bounded_slices pa l b)) = rows b"
    and "s \<in> set (bounded_slices pa l b) \<Longrightarrow> rows s \<noteq> [] \<and> int (length (rows s)) \<le> batch_rows l
           \<and> (length (rows s) = 1 \<or> int (pa_nbytes pa s) \<le> batch_bytes l) \<and> pa_schema pa s = pa_schema pa b"
proof -
  from iter_batch_slices_correct [OF assms, of b] obtain ss where
    ss: "iter_batch_slices (pa_num_rows pa) (pa_slice pa) (pa_nbytes pa) b l = Some ss" "concat (map rows ss) = rows b"
      "\<forall>s\<in>set ss. rows s \<noteq> [] \<and> int (length (rows s)) \<le> batch_rows l \<and> (length (rows s) = 1 \<or> int (pa_nbytes pa s) \<le> batch_bytes l)"
    by blast
  then show "concat (map rows (bounded_slices pa l b)) = rows b"
    "s \<in> set (bounded_slices pa l b) \<Longrightarrow> rows s \<noteq> [] \<and> int (length (rows s)) \<le> batch_rows l
           \<and> (length (rows s) = 1 \<or> int (pa_nbytes pa s) \<le> batch_bytes l) \<and> pa_schema pa s = pa_schema pa b"
    using slices_from_keep [of "pa_num_rows pa" "pa_slice pa" "pa_nbytes pa" b l 0 ss "pa_schema pa", OF _ slice_schema]
    by (auto simp: bounded_slices_def iter_batch_slices_def)
qed

text \<open>Casting and cutting: what reaches the consumer, and that no row is lost or repeated.\<close>

lemma prepare_batch_delivers:
  assumes "prepare_batch pa sch l b = Inr pieces" and "valid_limits l"
  shows "\<forall>s \<in> set pieces. delivered pa rows sch l s"
    and "length (concat (map rows pieces)) = length (rows b)"
    and "schema_fields (pa_schema pa b) = schema_fields sch \<Longrightarrow> concat (map rows pieces) = rows b"
proof -
  from assms(1) obtain c where c: "cast_batch pa b sch = Inr c" and p: "pieces = bounded_slices pa l c"
    by (auto simp: prepare_batch_def)
  note cs = cast_batch_schema [OF c] and bs = bounded_slices_correct [OF assms(2)]
  show "\<forall>s \<in> set pieces. delivered pa rows sch l s" using bs(2) cs(1) p by (simp add: delivered_def)
  show "length (concat (map rows pieces)) = length (rows b)" unfolding p bs(1) by (rule cs(2))
  show "schema_fields (pa_schema pa b) = schema_fields sch \<Longrightarrow> concat (map rows pieces) = rows b"
    unfolding p bs(1) by (rule cs(3))
qed

lemma pump_delivers:
  assumes "valid_limits l" and "s \<in> set (fst (consume leave (pump (prepare_batch pa sch l) items)))"
  shows "delivered pa rows sch l s"
proof -
  have "s \<in> set (fst (pump (prepare_batch pa sch l) items))" by (rule subsetD [OF consume_yields assms(2)])
  then obtain b pieces where "prepare_batch pa sch l b = Inr pieces" "s \<in> set pieces" by (rule pump_yields)
  then show ?thesis using prepare_batch_delivers(1) assms(1) by blast
qed

lemma pump_rows:
  assumes "valid_limits l" and "snd (pump (prepare_batch pa sch l) items) = Inr ()"
  shows "\<exists>bs. items = map Batch bs
    \<and> length (concat (map rows (fst (pump (prepare_batch pa sch l) items)))) = length (concat (map rows bs))
    \<and> ((\<forall>b \<in> set bs. schema_fields (pa_schema pa b) = schema_fields sch) \<longrightarrow>
         concat (map rows (fst (pump (prepare_batch pa sch l) items))) = concat (map rows bs))"
proof -
  from pump_complete [OF assms(2)] obtain bs ps where b: "items = map Batch bs"
    and l: "list_all2 (\<lambda>b p. prepare_batch pa sch l b = Inr p) bs ps"
    and f: "fst (pump (prepare_batch pa sch l) items) = concat ps" by blast
  have "length (concat (map rows (concat ps))) = length (concat (map rows bs))"
    using l by (induction rule: list_all2_induct) (use prepare_batch_delivers(2) [OF _ assms(1)] in auto)
  moreover have "(\<forall>b \<in> set bs. schema_fields (pa_schema pa b) = schema_fields sch) \<longrightarrow>
      concat (map rows (concat ps)) = concat (map rows bs)"
    using l by (induction rule: list_all2_induct) (use prepare_batch_delivers(3) [OF _ assms(1)] in auto)
  ultimately show ?thesis using b f by auto
qed

end

section \<open>Tables as lists of rows\<close>

text \<open>
  The reference table: a schema and rows, every row of a given width. A cast converts value by
  value and fails when one does not fit.
\<close>

record arrow_table =
  at_schema :: arrow_schema
  at_rows :: "pyobj list list"

definition list_ops ::
    "(pyobj list \<Rightarrow> nat) \<Rightarrow> (arrow_type \<Rightarrow> pyobj \<Rightarrow> pyobj option) \<Rightarrow> arrow_table arrow_ops" where
  "list_ops width convert =
     \<lparr>pa_schema = at_schema, pa_num_rows = (\<lambda>t. length (at_rows t)),
      pa_nbytes = (\<lambda>t. sum_list (map width (at_rows t))),
      pa_slice = (\<lambda>t off n. t\<lparr>at_rows := take n (drop off (at_rows t))\<rparr>),
      pa_from_arrays = (\<lambda>t sch. Inr (t\<lparr>at_schema := sch\<rparr>)),
      pa_cast = (\<lambda>t sch.
        let cells = map (\<lambda>r. map (\<lambda>(f, v). convert (field_type f) v) (zip (schema_fields sch) r)) (at_rows t)
        in if list_all (\<lambda>r. None \<notin> set r) cells
           then Inr \<lparr>at_schema = sch, at_rows = map (map the) cells\<rparr> else Inl ArrowDataError),
      pa_empty = (\<lambda>sch. Inr \<lparr>at_schema = sch, at_rows = []\<rparr>),
      pa_to_batches = (\<lambda>t n. if length (at_rows t) \<le> n then Inr [t] else Inl ArrowDataError)\<rparr>"

interpretation list_table: arrow_table_ops "list_ops width convert" at_rows for width convert
  by unfold_locales (auto simp: list_ops_def Let_def split: if_splits)

end
