(* ===== verification/CH_Transport.thy ===== *)
theory CH_Transport
  imports Transport_Base CH_Source
begin

text \<open>
  \<^verbatim>\<open>clickhouse/transport.py\<close> and \<^verbatim>\<open>clickhouse/task.py\<close>: the asynchronous Arrow stream of one task.
  The asynchronous driver is a record of the calls the source makes with their outcomes.
\<close>

section \<open>Streaming\<close>

record 'b ch_async =
  as_installed :: bool
  as_get_client :: "(string \<times> pyobj) list \<Rightarrow> unit result"
  as_query_stream :: "string \<Rightarrow> (string \<times> pyobj) list \<Rightarrow> (string \<times> pyobj) list \<Rightarrow> unit result"
  as_enter :: "unit result"
  as_items :: "'b pull list"
  as_exit :: "unit result"
  as_close :: "unit result"

definition driver_async :: "'b ch_async \<Rightarrow> unit result" where
  "driver_async d = raise_if (\<not> as_installed d) DependencyError"

definition open_async ::
    "heap \<Rightarrow> (string \<times> string) list \<Rightarrow> 'b ch_async \<Rightarrow> clickhouse_connection \<Rightarrow> resource_limits \<Rightarrow> unit result" where
  "open_async h environ d c limits =
     r_bind (driver_async d) (\<lambda>_.
     r_bind (client_kwargs h environ c limits) (\<lambda>kwargs. as_get_client d kwargs))"

text \<open>\<open>max(1, math.ceil(limits.query_timeout_seconds))\<close>; \<open>ceil\<close> of what is no number is a \<open>TypeError\<close>.\<close>

definition execution_seconds :: "resource_limits \<Rightarrow> int result" where
  "execution_seconds limits =
     (case finite_number (query_timeout_seconds limits) of
        Some q \<Rightarrow> Inr (max 1 \<lceil>q\<rceil>)
      | None \<Rightarrow> Inl TypeError)"

definition stream_settings :: "heap \<Rightarrow> clickhouse_connection \<Rightarrow> resource_limits \<Rightarrow> (string \<times> pyobj) list result" where
  "stream_settings h c limits =
     r_bind (settings_kwargs h c) (\<lambda>settings.
     r_bind (execution_seconds limits) (\<lambda>seconds.
     Inr (dict_update settings
            [(''max_block_size'', PInt (batch_rows limits)), (''max_execution_time'', PInt seconds)])))"

definition start_stream ::
    "heap \<Rightarrow> 'b ch_async \<Rightarrow> clickhouse_connection \<Rightarrow> query_spec \<Rightarrow> resource_limits \<Rightarrow> unit result" where
  "start_stream h d c q limits =
     r_bind (stream_settings h c limits) (\<lambda>settings.
     r_bind (as_query_stream d (sql q) (named_parameter_dict q) settings) (\<lambda>_. as_enter d))"

text \<open>\<open>async with context as batches\<close>: leaving the context may itself fail, which replaces the outcome.\<close>

definition run_context :: "'b ch_async \<Rightarrow> 'c list \<times> unit result \<Rightarrow> 'c list \<times> unit result" where
  "run_context d run = (fst run, r_bind (as_exit d) (\<lambda>_. snd run))"

definition stream_query_ch ::
    "heap \<Rightarrow> (string \<times> string) list \<Rightarrow> 'b arrow_ops \<Rightarrow> 'b ch_async \<Rightarrow> clickhouse_connection \<Rightarrow> query_spec
       \<Rightarrow> resource_limits \<Rightarrow> nat option \<Rightarrow> 'b list \<times> unit result" where
  "stream_query_ch h environ pa d c q limits leave =
     (let opened = open_async h environ d c limits;
          closes = (case opened of Inr _ \<Rightarrow> [as_close d] | Inl _ \<Rightarrow> []);
          run = (case r_bind opened (\<lambda>_. start_stream h d c q limits) of
                   Inl e \<Rightarrow> ([], Inl e)
                 | Inr _ \<Rightarrow>
                     run_context d (consume leave (pump (prepare_batch pa (arrow_schema q) limits) (as_items d))))
      in (fst run, end_stream translate_clickhouse_error closes (snd run)))"

text \<open>
  \<open>ClickHouseTask.read\<close>: every batch becomes a Daft record batch; \<open>to_daft\<close> is Daft's
  constructor, and an exception it raises ends the generator where it is.
\<close>

definition read_task_ch ::
    "heap \<Rightarrow> (string \<times> string) list \<Rightarrow> 'b arrow_ops \<Rightarrow> 'b ch_async \<Rightarrow> ('b \<Rightarrow> 'd) \<Rightarrow> ch_task \<Rightarrow> nat option
       \<Rightarrow> 'd list \<times> unit result" where
  "read_task_ch h environ pa d to_daft t leave =
     (let run = stream_query_ch h environ pa d (ct_connection t) (ct_query t) (ct_limits t) leave
      in (map to_daft (fst run), snd run))"

definition task_repr_ch :: "(arrow_schema \<Rightarrow> string) \<Rightarrow> ch_task \<Rightarrow> string" where
  "task_repr_ch repr_schema t =
     ''ClickHouseTask(connection='' @ ClickHouseConnection_repr (ct_connection t) @ '', schema=''
     @ repr_schema (arrow_schema (ct_query t)) @ '')''"

section \<open>Properties of a stream\<close>

lemma end_stream_contained_ch: "end_stream translate_clickhouse_error closes m = Inl e \<Longrightarrow> contained e"
  unfolding end_stream_def by (rule clickhouse_errors.guarded_contained) auto

lemma end_stream_Inr_ch: "end_stream translate_clickhouse_error closes m = Inr u \<longleftrightarrow> m = Inr u \<and> close_all closes = Inr False"
  unfolding end_stream_def clickhouse_errors.guarded_Inr_iff ..

lemma stream_query_ch_cases:
  obtains (failed) e where "stream_query_ch h environ pa d c q l leave = ([], Inl e)"
  | (run) "fst (stream_query_ch h environ pa d c q l leave)
        = fst (consume leave (pump (prepare_batch pa (arrow_schema q) l) (as_items d)))"
      "open_async h environ d c l = Inr ()" "start_stream h d c q l = Inr ()"
      "snd (stream_query_ch h environ pa d c q l leave) = end_stream translate_clickhouse_error [as_close d]
        (r_bind (as_exit d) (\<lambda>_. snd (consume leave (pump (prepare_batch pa (arrow_schema q) l) (as_items d)))))"
proof (cases "r_bind (open_async h environ d c l) (\<lambda>_. start_stream h d c q l)")
  case (Inl e)
  define closes where "closes = (case open_async h environ d c l of Inr _ \<Rightarrow> [as_close d] | Inl _ \<Rightarrow> [])"
  have "end_stream translate_clickhouse_error closes (Inl e :: unit result) \<noteq> Inr ()"
    by (simp add: end_stream_Inr_ch)
  then obtain e' where "end_stream translate_clickhouse_error closes (Inl e :: unit result) = Inl e'"
    by (cases "end_stream translate_clickhouse_error closes (Inl e :: unit result)") auto
  then show ?thesis using failed Inl by (simp add: stream_query_ch_def Let_def closes_def)
next
  case (Inr u)
  then show ?thesis by (intro run) (auto simp: stream_query_ch_def Let_def run_context_def r_bind_Inr_iff)
qed

lemma stream_query_ch_contained:
  assumes "snd (stream_query_ch h environ pa d c q l leave) = Inl e"
  shows "contained e"
  using assms end_stream_contained_ch by (auto simp: stream_query_ch_def Let_def)

lemma stream_settings_managed:
  assumes "stream_settings h c l = Inr settings" and "valid_limits l"
  shows "map_of settings ''max_block_size'' = Some (PInt (batch_rows l))"
    and "\<exists>n q. map_of settings ''max_execution_time'' = Some (PInt n) \<and> finite_number (query_timeout_seconds l) = Some q
           \<and> 1 \<le> n \<and> q \<le> of_int n"
proof -
  from assms(1) obtain s q where "finite_number (query_timeout_seconds l) = Some q"
    and st: "settings = dict_update s [(''max_block_size'', PInt (batch_rows l)), (''max_execution_time'', PInt (max 1 \<lceil>q\<rceil>))]"
    by (auto simp: stream_settings_def execution_seconds_def r_bind_Inr_iff split: option.splits)
  moreover have "q \<le> of_int (max 1 \<lceil>q\<rceil>)" by (meson le_of_int_ceiling max.cobounded2 of_int_le_iff order_trans)
  ultimately show "map_of settings ''max_block_size'' = Some (PInt (batch_rows l))"
    "\<exists>n q. map_of settings ''max_execution_time'' = Some (PInt n) \<and> finite_number (query_timeout_seconds l) = Some q
           \<and> 1 \<le> n \<and> q \<le> of_int n"
    by (auto simp: update_conv' intro!: exI [of _ "max 1 \<lceil>q\<rceil>"])
qed

context arrow_table_ops
begin

lemma stream_query_ch_delivers:
  assumes "valid_limits l" and "s \<in> set (fst (stream_query_ch h environ pa d c q l leave))"
  shows "delivered pa rows (arrow_schema q) l s"
proof (cases rule: stream_query_ch_cases [of h environ pa d c q l leave])
  case run
  then show ?thesis using pump_delivers [OF assms(1)] assms(2) by simp
qed (use assms in simp)

lemma stream_query_ch_complete:
  assumes "valid_limits l" and "snd (stream_query_ch h environ pa d c q l leave) = Inr ()"
  shows "\<exists>bs. as_items d = map Batch bs
    \<and> length (concat (map rows (fst (stream_query_ch h environ pa d c q l leave)))) = length (concat (map rows bs))
    \<and> ((\<forall>b \<in> set bs. schema_fields (pa_schema pa b) = schema_fields (arrow_schema q)) \<longrightarrow>
         concat (map rows (fst (stream_query_ch h environ pa d c q l leave))) = concat (map rows bs))"
proof (cases rule: stream_query_ch_cases [of h environ pa d c q l leave])
  case run
  then have "snd (consume leave (pump (prepare_batch pa (arrow_schema q) l) (as_items d))) = Inr ()"
    using assms(2) unfolding run(4) end_stream_Inr_ch r_bind_Inr_iff by blast
  then show ?thesis using pump_rows [OF assms(1)] run(1) by (simp add: consume_Inr_iff)
qed (use assms in simp)

end

end
