(* ===== verification/SS_Cursor.thy ===== *)
theory SS_Cursor
  imports Py_Base "HOL-Library.Sublist"
begin

text \<open>
  \<^verbatim>\<open>doris/transports/_pymysql.py\<close>: the life cycle of PyMySQL's unbuffered cursor. Closing such a
  cursor while rows are unread would drain them, so an active or unknown cursor is closed
  connection first and detached before its own close.
\<close>

section \<open>Attributes\<close>

text \<open>
  What an attribute of the driver's objects can hold, as far as the checks distinguish it.
  Identity of objects is equality of these values.
\<close>

datatype aval = IsConnection | IsResult nat | IsNone | IsBool bool | IsOther nat

record ss_objects =
  ob_cursor_connection :: "aval result"
  ob_cursor_result :: "aval result"
  ob_connection_result :: "aval result"
  ob_active :: "aval \<Rightarrow> aval result"
  ob_result_connection :: "aval \<Rightarrow> aval result"

definition read_attribute :: "aval result \<Rightarrow> aval result" where
  "read_attribute r = r_catch r is_exception (\<lambda>_. Inl CompatibilityError)"

fun is_bool :: "aval \<Rightarrow> bool" where
  "is_bool (IsBool _) = True"
| "is_bool _ = False"

section \<open>Validation\<close>

record lifecycle =
  lc_result :: aval
  lc_validated_cursor :: bool
  lc_validated_result :: bool
  lc_closed :: bool

definition SSCursorLifecycle :: lifecycle where
  "SSCursorLifecycle =
     \<lparr>lc_result = IsNone, lc_validated_cursor = False, lc_validated_result = False, lc_closed = False\<rparr>"

definition validate_cursor :: "ss_objects \<Rightarrow> lifecycle \<Rightarrow> lifecycle result" where
  "validate_cursor obs lc =
     r_bind (read_attribute (ob_cursor_connection obs)) (\<lambda>cursor_connection.
     r_bind (raise_if (cursor_connection \<noteq> IsConnection) CompatibilityError) (\<lambda>_.
     r_bind (read_attribute (ob_cursor_result obs)) (\<lambda>_.
     r_bind (read_attribute (ob_connection_result obs)) (\<lambda>_.
     Inr (lc\<lparr>lc_validated_cursor := True\<rparr>)))))"

definition validate_result :: "ss_objects \<Rightarrow> lifecycle \<Rightarrow> lifecycle result" where
  "validate_result obs lc =
     r_bind (read_attribute (ob_cursor_result obs)) (\<lambda>result.
     r_bind (read_attribute (ob_connection_result obs)) (\<lambda>connection_result.
     r_bind (raise_if (result = IsNone \<or> result \<noteq> connection_result) CompatibilityError) (\<lambda>_.
     r_bind (read_attribute (ob_active obs result)) (\<lambda>active.
     r_bind (raise_if (\<not> is_bool active) CompatibilityError) (\<lambda>_.
     r_bind (read_attribute (ob_result_connection obs result)) (\<lambda>result_connection.
     r_bind (raise_if (result_connection \<noteq> IsConnection \<and> \<not> (active = IsBool False \<and> result_connection = IsNone))
               CompatibilityError) (\<lambda>_.
     Inr (lc\<lparr>lc_result := result, lc_validated_result := True\<rparr>))))))))"

section \<open>Closing\<close>

datatype action = CloseCursor | CloseConnection | Deactivate | DetachResult | DetachCursor

text \<open>
  What cleanup has done: the actions attempted in order, the first ordinary failure, and the
  control-flow exception that ended it, if any.
\<close>

record cleanup =
  cu_trace :: "action list"
  cu_failure :: "exn option"
  cu_escape :: "exn option"

definition perform :: "(action \<Rightarrow> unit result) \<Rightarrow> action \<Rightarrow> cleanup \<Rightarrow> cleanup" where
  "perform act a c =
     (if cu_escape c \<noteq> None then c
      else case act a of
        Inr _ \<Rightarrow> c\<lparr>cu_trace := cu_trace c @ [a]\<rparr>
      | Inl e \<Rightarrow>
          if is_exception e
          then c\<lparr>cu_trace := cu_trace c @ [a],
                 cu_failure := (case cu_failure c of Some f \<Rightarrow> Some f | None \<Rightarrow> Some e)\<rparr>
          else c\<lparr>cu_trace := cu_trace c @ [a], cu_escape := Some e\<rparr>)"

definition close_inactive :: "(action \<Rightarrow> unit result) \<Rightarrow> cleanup \<Rightarrow> cleanup" where
  "close_inactive act c = perform act CloseConnection (perform act CloseCursor c)"

definition abort_active_or_unvalidated :: "(action \<Rightarrow> unit result) \<Rightarrow> lifecycle \<Rightarrow> cleanup \<Rightarrow> cleanup" where
  "abort_active_or_unvalidated act lc c =
     (let c1 = perform act CloseConnection c;
          c2 = (if lc_validated_result lc then perform act DetachResult (perform act Deactivate c1) else c1)
      in if lc_validated_cursor lc then
           (let c3 = perform act DetachCursor c2
            in case act DetachCursor of Inr _ \<Rightarrow> perform act CloseCursor c3 | Inl _ \<Rightarrow> c3)
         else c2)"

text \<open>
  The state the cleanup reads first: whether the captured result is known to be inactive, and
  the failure of reading it.
\<close>

definition cleanup_state :: "ss_objects \<Rightarrow> lifecycle \<Rightarrow> bool \<times> cleanup" where
  "cleanup_state obs lc =
     (let c0 = \<lparr>cu_trace = [], cu_failure = None, cu_escape = None\<rparr>
      in if \<not> lc_validated_result lc then (False, c0)
         else case read_attribute (ob_active obs (lc_result lc)) of
           Inl e \<Rightarrow> if e = CompatibilityError then (False, c0\<lparr>cu_failure := Some e\<rparr>) else (False, c0\<lparr>cu_escape := Some e\<rparr>)
         | Inr active \<Rightarrow>
             if \<not> is_bool active then (False, c0\<lparr>cu_failure := Some CompatibilityError\<rparr>)
             else (active = IsBool False, c0))"

definition cleanup_outcome :: "cleanup \<Rightarrow> unit result" where
  "cleanup_outcome c =
     (case cu_escape c of
        Some e \<Rightarrow> Inl e
      | None \<Rightarrow> (case cu_failure c of Some e \<Rightarrow> Inl e | None \<Rightarrow> Inr ()))"

definition run_cleanup :: "ss_objects \<Rightarrow> (action \<Rightarrow> unit result) \<Rightarrow> lifecycle \<Rightarrow> cleanup" where
  "run_cleanup obs act lc =
     (let (inactive, c) = cleanup_state obs lc
      in if inactive then close_inactive act c else abort_active_or_unvalidated act lc c)"

definition lifecycle_close ::
    "ss_objects \<Rightarrow> (action \<Rightarrow> unit result) \<Rightarrow> lifecycle \<Rightarrow> lifecycle \<times> action list \<times> unit result" where
  "lifecycle_close obs act lc =
     (if lc_closed lc then (lc, [], Inr ())
      else let c = run_cleanup obs act lc
           in (lc\<lparr>lc_closed := True, lc_result := IsNone\<rparr>, cu_trace c, cleanup_outcome c))"

section \<open>What validation establishes\<close>

lemma read_attribute_Inr_iff [simp]: "read_attribute r = Inr v \<longleftrightarrow> r = Inr v"
  by (auto simp: read_attribute_def r_catch_Inr_iff)

lemma validate_result_Inr_iff:
  "validate_result obs lc = Inr lc' \<longleftrightarrow>
     (\<exists>r b. ob_cursor_result obs = Inr r \<and> ob_connection_result obs = Inr r \<and> r \<noteq> IsNone
        \<and> ob_active obs r = Inr (IsBool b)
        \<and> (ob_result_connection obs r = Inr IsConnection \<or> \<not> b \<and> ob_result_connection obs r = Inr IsNone)
        \<and> lc' = lc\<lparr>lc_result := r, lc_validated_result := True\<rparr>)"
proof -
  have bool: "is_bool a \<longleftrightarrow> (\<exists>b. a = IsBool b)" for a by (cases a) auto
  show ?thesis by (auto simp: validate_result_def r_bind_Inr_iff bool)
qed

lemma read_attribute_error: "read_attribute r = Inl e \<Longrightarrow> e = CompatibilityError \<or> \<not> is_exception e"
  by (auto simp: read_attribute_def r_catch_Inl_iff split: if_splits)

lemma validate_error:
  "validate_cursor obs lc = Inl e \<Longrightarrow> e = CompatibilityError \<or> \<not> is_exception e"
  "validate_result obs lc = Inl e \<Longrightarrow> e = CompatibilityError \<or> \<not> is_exception e"
  by (auto simp: validate_cursor_def validate_result_def r_bind_Inl_iff raise_if_def dest: read_attribute_error split: if_splits)

section \<open>What closing does\<close>

text \<open>The actions a cleanup attempts, in order, until a control-flow exception stops it.\<close>

definition cleanup_actions :: "(action \<Rightarrow> unit result) \<Rightarrow> bool \<Rightarrow> lifecycle \<Rightarrow> action list" where
  "cleanup_actions act inactive lc =
     (if inactive then [CloseCursor, CloseConnection]
      else [CloseConnection] @ (if lc_validated_result lc then [Deactivate, DetachResult] else [])
           @ (if lc_validated_cursor lc
              then DetachCursor # (case act DetachCursor of Inr _ \<Rightarrow> [CloseCursor] | Inl _ \<Rightarrow> []) else []))"

lemma run_cleanup_fold:
  "run_cleanup obs act lc
     = fold (perform act) (cleanup_actions act (fst (cleanup_state obs lc)) lc) (snd (cleanup_state obs lc))"
  by (simp add: run_cleanup_def case_prod_beta close_inactive_def abort_active_or_unvalidated_def cleanup_actions_def
      Let_def split: sum.split)

lemma fold_perform_escaped: "cu_escape c \<noteq> None \<Longrightarrow> fold (perform act) as c = c"
  by (induction as) (auto simp: perform_def)

lemma fold_perform_trace:
  "\<exists>done. cu_trace (fold (perform act) as c) = cu_trace c @ done \<and> prefix done as
     \<and> (cu_escape (fold (perform act) as c) = None \<longrightarrow> done = as)"
proof (induction as arbitrary: c)
  case (Cons a as)
  show ?case
  proof (cases "cu_escape c")
    case None
    then have t: "cu_trace (perform act a c) = cu_trace c @ [a]" by (auto simp: perform_def split: sum.splits)
    from Cons [of "perform act a c"] obtain ds where
      "cu_trace (fold (perform act) as (perform act a c)) = cu_trace c @ [a] @ ds" "prefix ds as"
      "cu_escape (fold (perform act) as (perform act a c)) = None \<longrightarrow> ds = as" unfolding t by auto
    then show ?thesis by (intro exI [of _ "a # ds"]) simp
  next
    case (Some e)
    then show ?thesis by (intro exI [of _ "[]"]) (simp add: fold_perform_escaped del: fold.simps)
  qed
qed simp

lemma fold_perform_escape_class:
  "cu_escape (fold (perform act) as c) = Some e \<Longrightarrow> (\<And>e. cu_escape c = Some e \<Longrightarrow> \<not> is_exception e) \<Longrightarrow> \<not> is_exception e"
proof (induction as arbitrary: c)
  case (Cons a as)
  have "\<not> is_exception e'" if "cu_escape (perform act a c) = Some e'" for e'
    using that Cons.prems(2) by (auto simp: perform_def split: if_splits sum.splits)
  then show ?case using Cons by simp
qed simp

text \<open>The failure that is reported is the first one.\<close>

lemma fold_perform_failure:
  assumes "cu_escape (fold (perform act) as c) = None"
  shows "cu_failure (fold (perform act) as c)
    = (case cu_failure c of Some f \<Rightarrow> Some f
       | None \<Rightarrow> map_option (\<lambda>a. projl (act a)) (find (\<lambda>a. isl (act a)) as))"
  using assms
proof (induction as arbitrary: c)
  case (Cons a as)
  have ne: "cu_escape c = None" "cu_escape (perform act a c) = None"
    using Cons.prems fold_perform_escaped [of "perform act a c" act as] fold_perform_escaped [of c act "a # as"]
    by (metis, metis fold.simps(2) comp_apply)
  then have "cu_failure (perform act a c)
      = (case cu_failure c of Some f \<Rightarrow> Some f | None \<Rightarrow> (case act a of Inl e \<Rightarrow> Some e | Inr _ \<Rightarrow> None))"
    by (auto simp: perform_def split: sum.splits if_splits option.splits)
  then show ?case using Cons.IH [of "perform act a c"] Cons.prems by (cases "act a") (auto split: option.splits)
qed (simp split: option.split)

definition known_inactive :: "ss_objects \<Rightarrow> lifecycle \<Rightarrow> bool" where
  "known_inactive obs lc \<longleftrightarrow> lc_validated_result lc \<and> ob_active obs (lc_result lc) = Inr (IsBool False)"

lemma cleanup_state_inactive: "fst (cleanup_state obs lc) \<longleftrightarrow> known_inactive obs lc"
  by (auto simp: cleanup_state_def known_inactive_def Let_def read_attribute_def r_catch_def split: sum.splits if_splits)

lemma cleanup_state_start: "cu_trace (snd (cleanup_state obs lc)) = []"
  by (auto simp: cleanup_state_def Let_def split: sum.splits)

lemma cleanup_state_escape: "cu_escape (snd (cleanup_state obs lc)) = Some e \<Longrightarrow> \<not> is_exception e"
  using read_attribute_error by (fastforce simp: cleanup_state_def Let_def split: if_splits sum.splits)

lemma lifecycle_close_trace:
  assumes "\<not> lc_closed lc" and "lifecycle_close obs act lc = (lc', trace, r)"
  shows "prefix trace (cleanup_actions act (known_inactive obs lc) lc)"
    and "(\<And>e. r = Inl e \<Longrightarrow> is_exception e) \<Longrightarrow> trace = cleanup_actions act (known_inactive obs lc) lc"
proof -
  let ?as = "cleanup_actions act (known_inactive obs lc) lc" and ?c0 = "snd (cleanup_state obs lc)"
  have run: "run_cleanup obs act lc = fold (perform act) ?as ?c0"
    by (simp only: run_cleanup_fold cleanup_state_inactive)
  have t: "trace = cu_trace (fold (perform act) ?as ?c0)" and r: "r = cleanup_outcome (fold (perform act) ?as ?c0)"
    using assms by (simp_all add: lifecycle_close_def Let_def run)
  from fold_perform_trace [of act ?as ?c0] obtain ds where
    ds: "trace = ds" "prefix ds ?as" "cu_escape (fold (perform act) ?as ?c0) = None \<longrightarrow> ds = ?as"
    unfolding t cleanup_state_start by auto
  then show "prefix trace ?as" by simp
  assume "\<And>e. r = Inl e \<Longrightarrow> is_exception e"
  then have "cu_escape (fold (perform act) ?as ?c0) = None"
    using fold_perform_escape_class [of act ?as ?c0] cleanup_state_escape
    by (cases "cu_escape (fold (perform act) ?as ?c0)") (auto simp: r cleanup_outcome_def)
  then show "trace = ?as" using ds by simp
qed

text \<open>
  A cursor may only be closed when its result is known to be inactive, or once its connection
  has been closed and it has been detached.
\<close>

definition safe_close :: "(action \<Rightarrow> unit result) \<Rightarrow> bool \<Rightarrow> action list \<Rightarrow> bool" where
  "safe_close act inactive trace \<longleftrightarrow>
     (\<forall>i < length trace. trace ! i = CloseCursor \<longrightarrow>
        inactive \<or> CloseConnection \<in> set (take i trace) \<and> DetachCursor \<in> set (take i trace) \<and> act DetachCursor = Inr ())"

lemma safe_close_prefix: "safe_close act b (xs @ ys) \<Longrightarrow> safe_close act b xs"
  unfolding safe_close_def
proof (intro allI impI)
  fix i
  assume all: "\<forall>i < length (xs @ ys). (xs @ ys) ! i = CloseCursor \<longrightarrow> b \<or> CloseConnection \<in> set (take i (xs @ ys))
      \<and> DetachCursor \<in> set (take i (xs @ ys)) \<and> act DetachCursor = Inr ()"
    and i: "i < length xs" "xs ! i = CloseCursor"
  then show "b \<or> CloseConnection \<in> set (take i xs) \<and> DetachCursor \<in> set (take i xs) \<and> act DetachCursor = Inr ()"
    using all [rule_format, of i] by (simp add: nth_append)
qed

lemma cleanup_actions_safe: "safe_close act inactive (cleanup_actions act inactive lc)"
  by (auto simp: safe_close_def cleanup_actions_def less_Suc_eq nth_Cons numeral_nat split: sum.splits nat.splits if_splits)

lemma lifecycle_close_safe: "safe_close act (known_inactive obs lc) (fst (snd (lifecycle_close obs act lc)))"
proof (cases "lc_closed lc")
  case True
  then show ?thesis by (simp add: lifecycle_close_def safe_close_def)
next
  case False
  obtain lc' trace r where c: "lifecycle_close obs act lc = (lc', trace, r)" by (cases "lifecycle_close obs act lc")
  from lifecycle_close_trace(1) [OF False c] obtain ys where
    "cleanup_actions act (known_inactive obs lc) lc = trace @ ys" by (auto simp: prefix_def)
  then have "safe_close act (known_inactive obs lc) trace"
    using cleanup_actions_safe [of act "known_inactive obs lc" lc] by (metis safe_close_prefix)
  then show ?thesis by (simp add: c)
qed

text \<open>Unless a control-flow exception ends the cleanup, the connection is closed; and once is enough.\<close>

lemma lifecycle_close_connection:
  assumes "\<not> lc_closed lc" and "lifecycle_close obs act lc = (lc', trace, r)" and "\<And>e. r = Inl e \<Longrightarrow> is_exception e"
  shows "CloseConnection \<in> set trace"
  using lifecycle_close_trace(2) [OF assms] by (simp add: cleanup_actions_def)

lemma lifecycle_close_again:
  "lifecycle_close obs' act' (fst (lifecycle_close obs act lc)) = (fst (lifecycle_close obs act lc), [], Inr ())"
  by (simp add: lifecycle_close_def Let_def)

end
