(* ===== verification/Task_Thread.thy ===== *)
theory Task_Thread
  imports Py_Base "HOL-Library.Sublist"
begin

text \<open>
  \<^verbatim>\<open>doris/transports/_thread.py\<close>: one worker thread owns a task's resources. Jobs run one at a
  time in the order of submission; closing is submitted once and, being shielded, survives
  the cancellation of the coroutine that waits for it. The thread is a step relation whose
  labels are the events: calls, cancellations, the worker's own steps and the shutdown.
\<close>

section \<open>States and steps\<close>

datatype job = Operation nat | CloseJob

text \<open>\<open>_close_future\<close>: none yet, not done, done with the outcome of the close operation.\<close>

datatype close_future = NotSubmitted | Pending | Done (failed: bool)

record task_thread =
  pending :: "job list"
  running :: "job option"
  finished :: "job list"
  close_state :: close_future
  shut_down :: bool

definition TaskThread :: task_thread where
  "TaskThread = \<lparr>pending = [], running = None, finished = [], close_state = NotSubmitted, shut_down = False\<rparr>"

text \<open>
  \<open>call\<close> submits an operation; an executor that is shut down refuses it. Cancelling the
  coroutine cancels the job only while it is queued.
\<close>

definition call :: "nat \<Rightarrow> task_thread \<Rightarrow> task_thread option" where
  "call n s = (if shut_down s then None else Some (s\<lparr>pending := pending s @ [Operation n]\<rparr>))"

definition cancel_call :: "nat \<Rightarrow> task_thread \<Rightarrow> task_thread" where
  "cancel_call n s = s\<lparr>pending := remove1 (Operation n) (pending s)\<rparr>"

text \<open>\<open>close\<close>: the first call submits, later ones wait for the same future.\<close>

definition close_thread :: "task_thread \<Rightarrow> task_thread option" where
  "close_thread s =
     (if close_state s \<noteq> NotSubmitted then Some s
      else if shut_down s then None
      else Some (s\<lparr>pending := pending s @ [CloseJob], close_state := Pending\<rparr>))"

text \<open>The worker takes the next job when it is idle, and completes the one it runs.\<close>

definition start_job :: "task_thread \<Rightarrow> task_thread option" where
  "start_job s =
     (case (running s, pending s) of
        (None, j # js) \<Rightarrow> Some (s\<lparr>pending := js, running := Some j\<rparr>)
      | _ \<Rightarrow> None)"

definition finish_job :: "bool \<Rightarrow> task_thread \<Rightarrow> task_thread option" where
  "finish_job fails s =
     (case running s of
        None \<Rightarrow> None
      | Some j \<Rightarrow>
          Some (s\<lparr>running := None, finished := finished s @ [j],
                  close_state := (if j = CloseJob then Done fails else close_state s)\<rparr>))"

text \<open>The done-callback of the close future.\<close>

definition shutdown :: "task_thread \<Rightarrow> task_thread option" where
  "shutdown s = (case close_state s of Done _ \<Rightarrow> Some (s\<lparr>shut_down := True\<rparr>) | _ \<Rightarrow> None)"

datatype event = Call nat | CancelCall nat | Close | CancelClose | Start | Finish bool | Shutdown

inductive step :: "task_thread \<Rightarrow> event \<Rightarrow> task_thread \<Rightarrow> bool" where
  step_call: "call n s = Some s' \<Longrightarrow> step s (Call n) s'"
| step_cancel_call: "cancel_call n s = s' \<Longrightarrow> step s (CancelCall n) s'"
| step_close: "close_thread s = Some s' \<Longrightarrow> step s Close s'"
| step_cancel_close: "step s CancelClose s"
| step_start: "start_job s = Some s' \<Longrightarrow> step s Start s'"
| step_finish: "finish_job b s = Some s' \<Longrightarrow> step s (Finish b) s'"
| step_shutdown: "shutdown s = Some s' \<Longrightarrow> step s Shutdown s'"

inductive_cases stepE: "step s ev s'"

inductive_simps step_simps:
  "step s (Call n) s'" "step s (CancelCall n) s'" "step s Close s'" "step s CancelClose s'" "step s Start s'"
  "step s (Finish b) s'" "step s Shutdown s'"

inductive reaches :: "task_thread \<Rightarrow> event list \<Rightarrow> task_thread \<Rightarrow> bool" where
  reaches_refl: "reaches s [] s"
| reaches_step: "reaches s evs s' \<Longrightarrow> step s' ev s'' \<Longrightarrow> reaches s (evs @ [ev]) s''"

section \<open>Invariant\<close>

definition jobs :: "task_thread \<Rightarrow> job list" where
  "jobs s = finished s @ (case running s of None \<Rightarrow> [] | Some j \<Rightarrow> [j]) @ pending s"

definition thread_inv :: "task_thread \<Rightarrow> bool" where
  "thread_inv s \<longleftrightarrow>
     count_list (jobs s) CloseJob = (if close_state s = NotSubmitted then 0 else 1)
     \<and> (close_state s = Pending \<longrightarrow> CloseJob \<notin> set (finished s))
     \<and> (\<forall>b. close_state s = Done b \<longrightarrow> CloseJob \<in> set (finished s))
     \<and> (shut_down s \<longrightarrow> (\<exists>b. close_state s = Done b))"

lemmas thread_defs = call_def cancel_call_def close_thread_def start_job_def finish_job_def shutdown_def

lemma count_list_remove1_other: "x \<noteq> y \<Longrightarrow> count_list (remove1 y xs) x = count_list xs x"
  by (induction xs) auto

lemma count_list_pos: "0 < count_list xs x \<longleftrightarrow> x \<in> set xs"
  by (induction xs) auto

lemma thread_inv_init: "thread_inv TaskThread"
  by (simp add: thread_inv_def TaskThread_def jobs_def)

lemma thread_inv_call: "thread_inv s \<Longrightarrow> call n s = Some s' \<Longrightarrow> thread_inv s'"
  by (cases s; cases s') (auto simp: call_def thread_inv_def jobs_def split: if_splits)

lemma thread_inv_cancel_call: "thread_inv s \<Longrightarrow> thread_inv (cancel_call n s)"
  by (simp add: cancel_call_def thread_inv_def jobs_def count_list_remove1_other)

lemma thread_inv_close: "thread_inv s \<Longrightarrow> close_thread s = Some s' \<Longrightarrow> thread_inv s'"
  by (cases s; cases s')
     (auto simp: close_thread_def thread_inv_def jobs_def count_list_0_iff split: if_splits)

lemma thread_inv_start: "thread_inv s \<Longrightarrow> start_job s = Some s' \<Longrightarrow> thread_inv s'"
  by (cases s; cases s') (auto simp: start_job_def thread_inv_def jobs_def split: option.splits list.splits)

lemma thread_inv_finish:
  assumes "thread_inv s" and "finish_job b s = Some s'"
  shows "thread_inv s'"
proof -
  from assms(2) obtain j where j: "running s = Some j"
    and s': "s' = s\<lparr>running := None, finished := finished s @ [j],
               close_state := (if j = CloseJob then Done b else close_state s)\<rparr>"
    by (auto simp: finish_job_def split: option.splits)
  have "close_state s \<noteq> NotSubmitted" "\<not> shut_down s" if "j = CloseJob"
    using assms(1) j that by (auto simp: thread_inv_def jobs_def count_list_0_iff split: if_splits)
  then show ?thesis
    using assms(1) j unfolding s' by (auto simp: thread_inv_def jobs_def)
qed

lemma thread_inv_shutdown: "thread_inv s \<Longrightarrow> shutdown s = Some s' \<Longrightarrow> thread_inv s'"
  by (cases s; cases s') (auto simp: shutdown_def thread_inv_def jobs_def split: close_future.splits)

lemma thread_inv_step: "step s ev s' \<Longrightarrow> thread_inv s \<Longrightarrow> thread_inv s'"
  by (induction rule: step.induct)
     (auto intro: thread_inv_call thread_inv_cancel_call thread_inv_close thread_inv_start thread_inv_finish
        thread_inv_shutdown)

lemma thread_inv_reaches: "reaches s evs s' \<Longrightarrow> thread_inv s \<Longrightarrow> thread_inv s'"
  by (induction rule: reaches.induct) (auto intro: thread_inv_step)

section \<open>Order\<close>

text \<open>The jobs submitted by a sequence of events: every call, and the first close.\<close>

fun submitted :: "bool \<Rightarrow> event list \<Rightarrow> job list" where
  "submitted seen [] = []"
| "submitted seen (Call n # evs) = Operation n # submitted seen evs"
| "submitted seen (Close # evs) = (if seen then submitted True evs else CloseJob # submitted True evs)"
| "submitted seen (_ # evs) = submitted seen evs"

lemma submitted_append: "submitted seen (xs @ ys) = submitted seen xs @ submitted (seen \<or> Close \<in> set xs) ys"
  by (induction seen xs rule: submitted.induct) auto

lemma close_submitted: "reaches TaskThread evs s \<Longrightarrow> close_state s \<noteq> NotSubmitted \<longleftrightarrow> Close \<in> set evs"
proof (induction TaskThread evs s rule: reaches.induct)
  case reaches_refl
  then show ?case by (simp add: TaskThread_def)
next
  case (reaches_step evs s' ev s'')
  have inv: "thread_inv s'" using thread_inv_reaches [OF reaches_step(1) thread_inv_init] .
  from reaches_step(3) show ?case
  proof (cases rule: step.cases)
    case (step_finish b)
    have "close_state s' \<noteq> NotSubmitted" if "running s' = Some CloseJob"
      using inv that by (auto simp: thread_inv_def jobs_def count_list_0_iff split: if_splits)
    then show ?thesis using step_finish reaches_step(2) by (auto simp: finish_job_def split: option.splits if_splits)
  qed (use reaches_step(2) in \<open>auto simp: call_def cancel_call_def close_thread_def start_job_def shutdown_def
         split: if_splits option.splits list.splits close_future.splits\<close>)
qed

lemma subseq_remove1: "subseq (remove1 x xs) xs"
  by (induction xs) auto

lemma jobs_in_order: "reaches TaskThread evs s \<Longrightarrow> subseq (jobs s) (submitted False evs)"
proof (induction TaskThread evs s rule: reaches.induct)
  case reaches_refl
  then show ?case by (simp add: TaskThread_def jobs_def)
next
  case (reaches_step evs s' ev s'')
  note IH = reaches_step(2) and cl = close_submitted [OF reaches_step(1)]
  from reaches_step(3) show ?case
  proof (cases rule: step.cases)
    case (step_call n)
    then have "jobs s'' = jobs s' @ [Operation n]" by (auto simp: call_def jobs_def split: if_splits)
    then show ?thesis using IH step_call by (simp add: submitted_append list_emb_append_mono)
  next
    case (step_cancel_call n)
    then have "subseq (jobs s'') (jobs s')"
      by (auto simp: cancel_call_def jobs_def subseq_remove1 intro!: list_emb_append_mono)
    then show ?thesis using IH step_cancel_call subseq_order.order_trans by (auto simp: submitted_append)
  next
    case step_close
    then consider "close_state s' \<noteq> NotSubmitted" "s'' = s'"
      | "close_state s' = NotSubmitted" "jobs s'' = jobs s' @ [CloseJob]"
      by (auto simp: close_thread_def jobs_def split: if_splits)
    then show ?thesis using IH cl step_close by cases (auto simp: submitted_append list_emb_append_mono)
  next
    case step_start
    then have "jobs s'' = jobs s'" by (auto simp: start_job_def jobs_def split: option.splits list.splits)
    then show ?thesis using IH step_start by (simp add: submitted_append)
  next
    case (step_finish b)
    then have "jobs s'' = jobs s'" by (auto simp: finish_job_def jobs_def split: option.splits)
    then show ?thesis using IH step_finish by (simp add: submitted_append)
  next
    case step_shutdown
    then have "jobs s'' = jobs s'" by (auto simp: shutdown_def jobs_def split: close_future.splits)
    then show ?thesis using IH step_shutdown by (simp add: submitted_append)
  qed (use IH in \<open>auto simp: submitted_append\<close>)
qed

section \<open>Closing happens\<close>

lemma reaches_trans: "reaches s' evs' s'' \<Longrightarrow> reaches s evs s' \<Longrightarrow> reaches s (evs @ evs') s''"
  by (induction rule: reaches.induct) (auto simp flip: append_assoc intro: reaches.intros)

lemma reaches_one: "step s ev s' \<Longrightarrow> reaches s [ev] s'"
  using reaches_step [OF reaches_refl] by fastforce

text \<open>
  From a state in which the close is pending, the worker alone reaches its completion, after at
  most two steps for every job that is queued before it and one for a job that is running.
\<close>

lemma worker_closes:
  assumes "thread_inv s" and "close_state s = Pending"
  shows "\<exists>evs s' b. reaches s evs s' \<and> set evs \<subseteq> {Start, Finish False} \<and> close_state s' = Done b
    \<and> length evs \<le> 2 * length (pending s) + (if running s = None then 0 else 1)"
  using assms
proof (induction "2 * length (pending s) + (if running s = None then 0 else 1 :: nat)" arbitrary: s rule: less_induct)
  case less
  show ?case
  proof (cases "running s")
    case None
    then have "CloseJob \<in> set (pending s)"
      using less.prems by (auto simp: thread_inv_def jobs_def simp flip: count_list_pos)
    then obtain j js where p: "pending s = j # js" by (cases "pending s") auto
    let ?s = "s\<lparr>pending := js, running := Some j\<rparr>"
    have st: "step s Start ?s" using None p by (simp add: step_simps start_job_def)
    have inv: "thread_inv ?s" by (rule thread_inv_step [OF st less.prems(1)])
    have "close_state ?s = Pending" using less.prems(2) by simp
    from less.hyps [OF _ inv this] p None obtain evs s' b where
      e: "reaches ?s evs s'" "set evs \<subseteq> {Start, Finish False}" "close_state s' = Done b" "length evs \<le> 2 * length js + 1"
      by auto
    then show ?thesis
      using reaches_trans [OF e(1) reaches_one [OF st]] p None by (intro exI [of _ "[Start] @ evs"]) auto
  next
    case (Some j)
    define s1 where "s1 = s\<lparr>running := None, finished := finished s @ [j],
                           close_state := (if j = CloseJob then Done False else close_state s)\<rparr>"
    have st: "step s (Finish False) s1" using Some by (simp add: step_simps finish_job_def s1_def)
    show ?thesis
    proof (cases "j = CloseJob")
      case True
      then have "close_state s1 = Done False" by (simp add: s1_def)
      then show ?thesis using reaches_one [OF st] Some by (intro exI [of _ "[Finish False]"]) auto
    next
      case False
      have inv: "thread_inv s1" by (rule thread_inv_step [OF st less.prems(1)])
      have "close_state s1 = Pending" "pending s1 = pending s" "running s1 = None"
        using less.prems(2) False by (simp_all add: s1_def)
      with less.hyps [OF _ inv] Some obtain evs s' b where
        e: "reaches s1 evs s'" "set evs \<subseteq> {Start, Finish False}" "close_state s' = Done b" "length evs \<le> 2 * length (pending s)"
        by auto
      then show ?thesis
        using reaches_trans [OF e(1) reaches_one [OF st]] Some by (intro exI [of _ "[Finish False] @ evs"]) auto
    qed
  qed
qed

section \<open>Execution\<close>

text \<open>The step relation as a function on a list of events; a list that is no run gives \<open>None\<close>.\<close>

fun run_events :: "task_thread \<Rightarrow> event list \<Rightarrow> task_thread option" where
  "run_events s [] = Some s"
| "run_events s (ev # evs) =
     Option.bind (case ev of Call n \<Rightarrow> call n s | CancelCall n \<Rightarrow> Some (cancel_call n s) | Close \<Rightarrow> close_thread s
        | CancelClose \<Rightarrow> Some s | Start \<Rightarrow> start_job s | Finish b \<Rightarrow> finish_job b s | Shutdown \<Rightarrow> shutdown s)
       (\<lambda>s'. run_events s' evs)"

lemma run_events_reaches: "run_events s evs = Some s' \<Longrightarrow> reaches s evs s'"
proof (induction evs arbitrary: s)
  case (Cons ev evs)
  then obtain s1 where "step s ev s1" "run_events s1 evs = Some s'"
    by (auto simp: bind_eq_Some_conv step_simps split: event.splits)
  then show ?case using Cons.IH reaches_trans [OF _ reaches_one] by fastforce
qed (auto intro: reaches_refl)

end
