(* ===== verification/Doris_Transport.thy ===== *)
theory Doris_Transport
  imports Transport_Base Doris_Source SS_Cursor Task_Thread
begin

text \<open>
  \<^verbatim>\<open>doris/transports/mysql.py\<close>, \<^verbatim>\<open>doris/transports/flight.py\<close> and \<^verbatim>\<open>doris/task.py\<close>: the two streams
  of a Doris task. Each driver is a record of the calls the source makes with their outcomes;
  the rows of a MySQL cursor are the rows the server sends, in order.
\<close>

section \<open>Rows to batches\<close>

text \<open>
  What the conversion calls: \<open>Decimal(str(value))\<close>, \<open>pa.array\<close> and \<open>RecordBatch.from_arrays\<close>.
  \<open>ArrowDataError\<close> is any exception the call's handler names.
\<close>

record ('b, 'c) array_ops =
  ar_decimal :: "pyobj \<Rightarrow> arrow_failure + pydecimal"
  ar_array :: "arrow_type \<Rightarrow> pyobj list \<Rightarrow> arrow_failure + 'c"
  ar_from_arrays :: "'c list \<Rightarrow> arrow_schema \<Rightarrow> 'b result"

definition coerce_decimal :: "('b, 'c) array_ops \<Rightarrow> pyobj \<Rightarrow> pyobj result" where
  "coerce_decimal ar v =
     (case v of
        PNone \<Rightarrow> Inr PNone
      | PDecimal d \<Rightarrow> Inr (PDecimal d)
      | _ \<Rightarrow> r_bind (arrow_result (ar_decimal ar v)) (\<lambda>d. Inr (PDecimal d)))"

fun normalize_boolean :: "pyobj \<Rightarrow> pyobj result" where
  "normalize_boolean PNone = Inr PNone"
| "normalize_boolean (PBool b) = Inr (PBool b)"
| "normalize_boolean (PInt i) = (if i = 0 \<or> i = 1 then Inr (PBool (i = 1)) else Inl SchemaError)"
| "normalize_boolean _ = Inl SchemaError"

definition normalize_values :: "('b, 'c) array_ops \<Rightarrow> pyobj list \<Rightarrow> arrow_type \<Rightarrow> pyobj list result" where
  "normalize_values ar values t =
     (case t of
        ArrowDecimal128 _ _ \<Rightarrow> r_map (coerce_decimal ar) values
      | ArrowBool \<Rightarrow> r_map normalize_boolean values
      | _ \<Rightarrow> Inr values)"

definition array_for_field :: "('b, 'c) array_ops \<Rightarrow> pyobj list \<Rightarrow> arrow_field \<Rightarrow> 'c result" where
  "array_for_field ar values f =
     r_bind (normalize_values ar values (field_type f)) (\<lambda>normalized.
     arrow_result (ar_array ar (field_type f) normalized))"

definition rows_to_batch :: "('b, 'c) array_ops \<Rightarrow> pyobj list list \<Rightarrow> string list \<Rightarrow> arrow_schema \<Rightarrow> 'b result" where
  "rows_to_batch ar rows column_names sch =
     (if column_names \<noteq> schema_names sch then Inl SchemaError
      else if list_ex (\<lambda>r. length r \<noteq> length (schema_fields sch)) rows then Inl SchemaError
      else r_bind (r_map (\<lambda>(i, f). array_for_field ar (map (\<lambda>r. r ! i) rows) f)
                     (zip [0..<length (schema_fields sch)] (schema_fields sch))) (\<lambda>arrays.
           ar_from_arrays ar arrays sch))"

section \<open>The MySQL stream\<close>

record mysql_stream =
  ms_installed :: bool
  ms_connect :: "(string \<times> pyobj) list \<Rightarrow> unit result"
  ms_cursor :: "unit result"
  ms_before :: ss_objects
  ms_execute :: "string \<Rightarrow> pyobj list option \<Rightarrow> unit result"
  ms_after :: ss_objects
  ms_description :: "string list option"
  ms_rows :: "pyobj list list"
  ms_error :: "exn option"
  ms_cleanup :: ss_objects
  ms_act :: "action \<Rightarrow> unit result"

text \<open>The fields of \<open>MySqlBatchReader\<close> that opening sets.\<close>

record mysql_reader =
  mr_connection :: bool
  mr_lifecycle :: "lifecycle option"
  mr_column_names :: "string list"

definition MySqlBatchReader :: mysql_reader where
  "MySqlBatchReader = \<lparr>mr_connection = False, mr_lifecycle = None, mr_column_names = []\<rparr>"

definition connect_reader ::
    "heap \<Rightarrow> (string \<times> string) list \<Rightarrow> mysql_stream \<Rightarrow> doris_connection \<Rightarrow> resource_limits \<Rightarrow> unit result" where
  "connect_reader h environ d c limits =
     r_bind (raise_if (\<not> ms_installed d) DependencyError) (\<lambda>_.
     r_bind (mysql_kwargs h environ c limits) (\<lambda>kwargs.
     ms_connect d (dict_update kwargs [(''cursorclass'', PObject True)])))"

text \<open>After the cursor exists: validate, execute, validate, read the names.\<close>

definition prepare_cursor :: "mysql_stream \<Rightarrow> query_spec \<Rightarrow> mysql_reader \<times> unit result" where
  "prepare_cursor d q =
     (let rd = \<lparr>mr_connection = True, mr_lifecycle = Some SSCursorLifecycle, mr_column_names = []\<rparr>
      in case validate_cursor (ms_before d) SSCursorLifecycle of
        Inl e \<Rightarrow> (rd, Inl e)
      | Inr lc \<Rightarrow>
          (case ms_execute d (sql q) (if positional_parameters q = [] then None else Some (positional_parameters q)) of
             Inl e \<Rightarrow> (rd\<lparr>mr_lifecycle := Some lc\<rparr>, Inl e)
           | Inr _ \<Rightarrow>
               (case validate_result (ms_after d) lc of
                  Inl e \<Rightarrow> (rd\<lparr>mr_lifecycle := Some lc\<rparr>, Inl e)
                | Inr lc' \<Rightarrow>
                    (case ms_description d of
                       None \<Rightarrow> (rd\<lparr>mr_lifecycle := Some lc'\<rparr>, Inl TransportError)
                     | Some names \<Rightarrow> (rd\<lparr>mr_lifecycle := Some lc', mr_column_names := names\<rparr>, Inr ())))))"

definition open_reader ::
    "heap \<Rightarrow> (string \<times> string) list \<Rightarrow> mysql_stream \<Rightarrow> doris_connection \<Rightarrow> query_spec \<Rightarrow> resource_limits
       \<Rightarrow> mysql_reader \<times> unit result" where
  "open_reader h environ d c q limits =
     (case connect_reader h environ d c limits of
        Inl e \<Rightarrow> (MySqlBatchReader, Inl e)
      | Inr _ \<Rightarrow>
          (case ms_cursor d of
             Inl e \<Rightarrow> (MySqlBatchReader\<lparr>mr_connection := True\<rparr>, Inl e)
           | Inr _ \<Rightarrow> prepare_cursor d q))"

text \<open>
  \<open>fetchmany(n)\<close> on the rows still to come: an error after the last row is raised by the
  first call that reaches it.
\<close>

definition fetch_many :: "nat \<Rightarrow> pyobj list list \<Rightarrow> exn option \<Rightarrow> pyobj list list result" where
  "fetch_many n rows err =
     (case err of Some e \<Rightarrow> if length rows < n then Inl e else Inr (take n rows) | None \<Rightarrow> Inr (take n rows))"

text \<open>A batch beyond the byte target shrinks the number of rows fetched next.\<close>

definition next_fetch_rows :: "'b arrow_ops \<Rightarrow> resource_limits \<Rightarrow> nat \<Rightarrow> 'b \<Rightarrow> nat" where
  "next_fetch_rows pa limits n b =
     (if batch_bytes limits < int (pa_nbytes pa b)
      then min n (nat (max 1 (int (pa_num_rows pa b) * batch_bytes limits div max (int (pa_nbytes pa b)) 1)))
      else n)"

function fetches ::
    "'b arrow_ops \<Rightarrow> ('b, 'c) array_ops \<Rightarrow> string list \<Rightarrow> arrow_schema \<Rightarrow> resource_limits \<Rightarrow> nat \<Rightarrow> pyobj list list
       \<Rightarrow> exn option \<Rightarrow> 'b pull list" where
  "fetches pa ar names sch limits n rows err =
     (case fetch_many n rows err of
        Inl e \<Rightarrow> [PullRaises e]
      | Inr chunk \<Rightarrow>
          if chunk = [] then []
          else case rows_to_batch ar chunk names sch of
            Inl e \<Rightarrow> [PullRaises e]
          | Inr b \<Rightarrow> Batch b # fetches pa ar names sch limits (next_fetch_rows pa limits n b) (drop n rows) err)"
  by pat_completeness auto
termination
  by (relation "measure (\<lambda>(pa, ar, names, sch, limits, n, rows, err). length rows)")
     (auto simp: fetch_many_def split: option.splits if_splits)

declare fetches.simps [simp del]

definition close_reader :: "mysql_stream \<Rightarrow> mysql_reader \<Rightarrow> unit result" where
  "close_reader d rd =
     (case mr_lifecycle rd of
        Some lc \<Rightarrow> snd (snd (lifecycle_close (ms_cleanup d) (ms_act d) lc))
      | None \<Rightarrow> if mr_connection rd then ms_act d CloseConnection else Inr ())"

definition stream_query_mysql ::
    "heap \<Rightarrow> (string \<times> string) list \<Rightarrow> 'b arrow_ops \<Rightarrow> ('b, 'c) array_ops \<Rightarrow> mysql_stream \<Rightarrow> doris_connection
       \<Rightarrow> query_spec \<Rightarrow> resource_limits \<Rightarrow> nat option \<Rightarrow> 'b list \<times> unit result" where
  "stream_query_mysql h environ pa ar d c q limits leave =
     (let (rd, opened) = open_reader h environ d c q limits;
          run = (case opened of
                   Inl e \<Rightarrow> ([], Inl e)
                 | Inr _ \<Rightarrow>
                     consume leave (pump (\<lambda>b. Inr (bounded_slices pa limits b))
                       (fetches pa ar (mr_column_names rd) (arrow_schema q) limits (nat (batch_rows limits))
                          (ms_rows d) (ms_error d))))
      in (fst run, end_stream translate_doris_error [close_reader d rd] (snd run)))"

section \<open>The Flight stream\<close>

text \<open>The option names that the ADBC packages define.\<close>

record flight_names =
  fn_username :: string
  fn_password :: string
  fn_timeout_query :: string
  fn_timeout_fetch :: string
  fn_with_block :: string

record 'b flight_stream =
  fl_installed :: bool
  fl_names :: flight_names
  fl_connect :: "string \<Rightarrow> (string \<times> pyobj) list \<Rightarrow> unit result"
  fl_cursor :: "unit result"
  fl_configure :: "int \<Rightarrow> unit result"
  fl_execute :: "string \<Rightarrow> unit result"
  fl_fetch_reader :: "unit result"
  fl_items :: "'b pull list"
  fl_reader_close :: "unit result"
  fl_cursor_close :: "unit result"
  fl_connection_close :: "unit result"

definition flight_driver :: "'b flight_stream \<Rightarrow> unit result" where
  "flight_driver d = raise_if (\<not> fl_installed d) DependencyError"

text \<open>\<open>str\<close> of a validated number of seconds.\<close>

fun number_str :: "pyobj \<Rightarrow> string" where
  "number_str (PInt i) = int_str i"
| "number_str (PFloat (FFin _ r)) = r"
| "number_str _ = []"

definition managed_kwargs_flight ::
    "flight_names \<Rightarrow> doris_connection \<Rightarrow> string \<Rightarrow> resource_limits \<Rightarrow> (string \<times> pyobj) list" where
  "managed_kwargs_flight names c password limits =
     py_dict [(fn_username names, PStr (do_username c)), (fn_password names, PStr password),
      (ADBC_FLIGHT_CONNECT_TIMEOUT_OPTION, PStr (number_str (connect_timeout_seconds limits))),
      (fn_timeout_query names, PStr (number_str (query_timeout_seconds limits))),
      (fn_timeout_fetch names, PStr (number_str (query_timeout_seconds limits))),
      (fn_with_block names, PStr ''false'')]"

definition flight_kwargs ::
    "(string \<times> string) list \<Rightarrow> flight_names \<Rightarrow> doris_connection \<Rightarrow> resource_limits \<Rightarrow> (string \<times> pyobj) list result" where
  "flight_kwargs environ names c limits =
     r_bind (resolve_secret environ (do_password c)) (\<lambda>password.
     Inr (dict_update (managed_kwargs_flight names c password limits) (py_dict (do_flight_options c))))"

record flight_reader =
  fr_connection :: bool
  fr_cursor :: bool
  fr_reader :: bool

definition connect_flight ::
    "(string \<times> string) list \<Rightarrow> 'b flight_stream \<Rightarrow> doris_connection \<Rightarrow> query_spec \<Rightarrow> resource_limits \<Rightarrow> unit result" where
  "connect_flight environ d c q limits =
     r_bind (raise_if (positional_parameters q \<noteq> [] \<or> named_parameters q \<noteq> []) TransportError) (\<lambda>_.
     r_bind (flight_driver d) (\<lambda>_.
     r_bind (flight_kwargs environ (fl_names d) c limits) (\<lambda>kwargs.
     fl_connect d (flight_uri c) kwargs)))"

definition execute_flight :: "'b flight_stream \<Rightarrow> query_spec \<Rightarrow> resource_limits \<Rightarrow> unit result" where
  "execute_flight d q limits =
     r_bind (fl_configure d (batch_rows limits)) (\<lambda>_.
     r_bind (fl_execute d (sql q)) (\<lambda>_. fl_fetch_reader d))"

definition open_flight ::
    "(string \<times> string) list \<Rightarrow> 'b flight_stream \<Rightarrow> doris_connection \<Rightarrow> query_spec \<Rightarrow> resource_limits
       \<Rightarrow> flight_reader \<times> unit result" where
  "open_flight environ d c q limits =
     (case connect_flight environ d c q limits of
        Inl e \<Rightarrow> (\<lparr>fr_connection = False, fr_cursor = False, fr_reader = False\<rparr>, Inl e)
      | Inr _ \<Rightarrow>
          (case fl_cursor d of
             Inl e \<Rightarrow> (\<lparr>fr_connection = True, fr_cursor = False, fr_reader = False\<rparr>, Inl e)
           | Inr _ \<Rightarrow>
               (case execute_flight d q limits of
                  Inl e \<Rightarrow> (\<lparr>fr_connection = True, fr_cursor = True, fr_reader = False\<rparr>, Inl e)
                | Inr _ \<Rightarrow> (\<lparr>fr_connection = True, fr_cursor = True, fr_reader = True\<rparr>, Inr ()))))"

definition cast_batch_flight :: "'b arrow_ops \<Rightarrow> 'b \<Rightarrow> arrow_schema \<Rightarrow> 'b result" where
  "cast_batch_flight pa b sch =
     (if schema_names (pa_schema pa b) \<noteq> schema_names sch then Inl SchemaError
      else if schema_fields (pa_schema pa b) = schema_fields sch then arrow_result (pa_from_arrays pa b sch)
      else r_bind (arrow_result (pa_cast pa b sch)) (\<lambda>t.
           if pa_num_rows pa t = 0 then arrow_result (pa_empty pa sch)
           else r_bind (arrow_result (pa_to_batches pa t (max (pa_num_rows pa t) 1))) single_batch))"

text \<open>\<open>_fetch\<close> casts a batch; the generator then cuts it.\<close>

definition prepare_flight :: "'b arrow_ops \<Rightarrow> arrow_schema \<Rightarrow> resource_limits \<Rightarrow> 'b \<Rightarrow> 'b list result" where
  "prepare_flight pa sch limits b = r_bind (cast_batch_flight pa b sch) (\<lambda>c. Inr (bounded_slices pa limits c))"

lemma prepare_flight_eq: "prepare_flight = prepare_batch"
  by (intro ext) (simp add: prepare_flight_def prepare_batch_def cast_batch_flight_def cast_batch_def)

text \<open>\<open>try: a finally: b\<close>: both run, and an exception of the second replaces that of the first.\<close>

definition try_finally :: "unit result \<Rightarrow> unit result \<Rightarrow> unit result" where
  "try_finally a b = (case b of Inl e \<Rightarrow> Inl e | Inr _ \<Rightarrow> a)"

definition close_flight :: "'b flight_stream \<Rightarrow> flight_reader \<Rightarrow> unit result" where
  "close_flight d rd =
     try_finally (if fr_reader rd then fl_reader_close d else Inr ())
       (try_finally (if fr_cursor rd then fl_cursor_close d else Inr ())
          (if fr_connection rd then fl_connection_close d else Inr ()))"

definition stream_query_flight ::
    "(string \<times> string) list \<Rightarrow> 'b arrow_ops \<Rightarrow> 'b flight_stream \<Rightarrow> doris_connection \<Rightarrow> query_spec \<Rightarrow> resource_limits
       \<Rightarrow> nat option \<Rightarrow> 'b list \<times> unit result" where
  "stream_query_flight environ pa d c q limits leave =
     (let (rd, opened) = open_flight environ d c q limits;
          run = (case opened of
                   Inl e \<Rightarrow> ([], Inl e)
                 | Inr _ \<Rightarrow> consume leave (pump (prepare_flight pa (arrow_schema q) limits) (fl_items d)))
      in (fst run, end_stream translate_doris_error [close_flight d rd] (snd run)))"

section \<open>Tasks\<close>

text \<open>\<open>DorisTask.read\<close>: exactly the transport the caller selected, never the other one.\<close>

definition read_task_doris ::
    "heap \<Rightarrow> (string \<times> string) list \<Rightarrow> 'b arrow_ops \<Rightarrow> ('b, 'c) array_ops \<Rightarrow> mysql_stream \<Rightarrow> 'b flight_stream
       \<Rightarrow> ('b \<Rightarrow> 'd) \<Rightarrow> doris_task \<Rightarrow> nat option \<Rightarrow> 'd list \<times> unit result" where
  "read_task_doris h environ pa ar ms fl to_daft t leave =
     (let run = (case dt_transport t of
                   MySql \<Rightarrow> stream_query_mysql h environ pa ar ms (dt_connection t) (dt_query t) (dt_limits t) leave
                 | Flight \<Rightarrow> stream_query_flight environ pa fl (dt_connection t) (dt_query t) (dt_limits t) leave)
      in (map to_daft (fst run), snd run))"

definition task_repr_doris :: "(arrow_schema \<Rightarrow> string) \<Rightarrow> doris_task \<Rightarrow> string" where
  "task_repr_doris repr_schema t =
     ''DorisTask('' @ ''connection='' @ DorisConnection_repr (dt_connection t) @ '', transport=''
     @ py_repr_str (style_name (dt_transport t)) @ '', '' @ ''schema='' @ repr_schema (arrow_schema (dt_query t)) @ '')''"

section \<open>Fetching\<close>

lemma next_fetch_rows_bounds:
  assumes "1 \<le> n"
  shows "1 \<le> next_fetch_rows pa l n b" and "next_fetch_rows pa l n b \<le> n"
  using assms by (auto simp: next_fetch_rows_def)

text \<open>
  A fetch loop that does not raise has fetched every row once, in order, in chunks that are not
  empty and no longer than the initial size.
\<close>

lemma fetches_rows:
  assumes "1 \<le> n" and "\<And>e. PullRaises e \<notin> set (fetches pa ar names sch l n rows err)"
  shows "\<exists>chunks bs. fetches pa ar names sch l n rows err = map Batch bs \<and> concat chunks = rows
    \<and> (\<forall>c \<in> set chunks. c \<noteq> [] \<and> length c \<le> n) \<and> list_all2 (\<lambda>c b. rows_to_batch ar c names sch = Inr b) chunks bs"
  using assms
proof (induction "length rows" arbitrary: n rows rule: less_induct)
  case less
  have fm: "fetch_many n rows err = Inr (take n rows)"
    using less.prems(2) by (cases "fetch_many n rows err")
      (auto simp: fetches.simps [of pa ar names sch l n rows err] fetch_many_def split: option.splits if_splits)
  show ?case
  proof (cases "rows = []")
    case True
    then show ?thesis using fm less.prems(1) by (intro exI [of _ "[]"]) (simp add: fetches.simps)
  next
    case False
    then have ne: "take n rows \<noteq> []" using less.prems(1) by (cases n) auto
    then obtain b where b: "rows_to_batch ar (take n rows) names sch = Inr b"
      using less.prems(2) fm
      by (cases "rows_to_batch ar (take n rows) names sch") (auto simp: fetches.simps [of pa ar names sch l n rows err])
    let ?n = "next_fetch_rows pa l n b"
    have f: "fetches pa ar names sch l n rows err = Batch b # fetches pa ar names sch l ?n (drop n rows) err"
      using fm ne b by (simp add: fetches.simps [of pa ar names sch l n rows err])
    have sm: "length (drop n rows) < length rows" using False less.prems(1) by simp
    have nr: "\<And>e. PullRaises e \<notin> set (fetches pa ar names sch l ?n (drop n rows) err)" using less.prems(2) f by auto
    from less.hyps [OF sm next_fetch_rows_bounds(1) [OF less.prems(1)] nr] obtain chunks bs where
      r: "fetches pa ar names sch l ?n (drop n rows) err = map Batch bs" "concat chunks = drop n rows"
        "\<forall>c \<in> set chunks. c \<noteq> [] \<and> length c \<le> ?n" "list_all2 (\<lambda>c b. rows_to_batch ar c names sch = Inr b) chunks bs"
      by blast
    have "\<forall>c \<in> set chunks. c \<noteq> [] \<and> length c \<le> n"
      using r(3) next_fetch_rows_bounds(2) [OF less.prems(1), of pa l b] by fastforce
    then show ?thesis using r f ne b
      by (intro exI [of _ "take n rows # chunks"] exI [of _ "b # bs"]) auto
  qed
qed

lemma rows_to_batch_width:
  assumes "rows_to_batch ar rows names sch = Inr b"
  shows "names = schema_names sch" and "\<forall>r \<in> set rows. length r = length (schema_fields sch)"
  using assms by (auto simp: rows_to_batch_def list_ex_iff split: if_splits)

section \<open>Errors\<close>

lemma end_stream_contained_doris: "end_stream translate_doris_error closes m = Inl e \<Longrightarrow> contained e"
  unfolding end_stream_def by (rule doris_errors.guarded_contained) auto

lemma end_stream_Inr_doris: "end_stream translate_doris_error closes m = Inr u \<longleftrightarrow> m = Inr u \<and> close_all closes = Inr False"
  unfolding end_stream_def doris_errors.guarded_Inr_iff ..

lemma stream_query_mysql_contained:
  assumes "snd (stream_query_mysql h environ pa ar d c q l leave) = Inl e"
  shows "contained e"
  using assms end_stream_contained_doris by (auto simp: stream_query_mysql_def Let_def case_prod_beta)

lemma stream_query_flight_contained:
  assumes "snd (stream_query_flight environ pa d c q l leave) = Inl e"
  shows "contained e"
  using assms end_stream_contained_doris by (auto simp: stream_query_flight_def Let_def case_prod_beta)

lemma flight_refuses_parameters:
  assumes "positional_parameters q \<noteq> [] \<or> named_parameters q \<noteq> []"
  shows "stream_query_flight environ pa d c q l leave = ([], Inl TransportError)"
  using assms
  by (simp add: stream_query_flight_def open_flight_def connect_flight_def raise_if_def end_stream_def close_flight_def
      try_finally_def handle_driver_errors_def finally_close_def)

section \<open>Flight options\<close>

lemma set_keys_py_dict: "set (map fst (py_dict ps)) = set (map fst ps)"
  using set_keys_dict_update [of "[]" ps] by simp

lemma flight_kwargs_managed:
  assumes "from_options_doris h a = Inr c" and "flight_kwargs environ names c limits = Inr kw"
    and "k \<in> RESERVED_FLIGHT_OPTIONS"
  shows "\<exists>p. resolve_secret environ (do_password c) = Inr p \<and> map_of kw k = map_of (managed_kwargs_flight names c p limits) k"
proof -
  from assms(2) obtain p where p: "resolve_secret environ (do_password c) = Inr p"
    and kw: "kw = dict_update (managed_kwargs_flight names c p limits) (py_dict (do_flight_options c))"
    by (auto simp: flight_kwargs_def r_bind_Inr_iff)
  have "k \<notin> set (map fst (py_dict (do_flight_options c)))"
    unfolding set_keys_py_dict using from_options_doris_Inr(2) [OF assms(1)] assms(3) by blast
  then show ?thesis using p unfolding kw by (metis map_of_dict_update_notin)
qed

section \<open>Delivery\<close>

lemma pump_slices_yields:
  assumes "s \<in> set (fst (consume leave (pump (\<lambda>b. Inr (bounded_slices pa l b)) items)))"
  shows "\<exists>b. Batch b \<in> set items \<and> s \<in> set (bounded_slices pa l b)"
proof -
  have "s \<in> set (fst (pump (\<lambda>b. Inr (bounded_slices pa l b)) items))" by (rule subsetD [OF consume_yields assms])
  then obtain b pieces where "Batch b \<in> set items" "Inr (bounded_slices pa l b) = (Inr pieces :: 'a list result)" "s \<in> set pieces"
    by (rule pump_yields)
  then show ?thesis by blast
qed

lemma fetches_batches:
  "Batch b \<in> set (fetches pa ar names sch l n rows err) \<Longrightarrow> \<exists>c. rows_to_batch ar c names sch = Inr b"
proof (induction pa ar names sch l n rows err rule: fetches.induct)
  case (1 pa ar names sch l n rows err)
  show ?case
  proof (cases "fetch_many n rows err")
    case (Inr chunk)
    show ?thesis
    proof (cases "chunk = []")
      case False
      then show ?thesis
        using "1.IH" [OF Inr False] "1.prems" Inr
        by (cases "rows_to_batch ar chunk names sch") (auto simp: fetches.simps [of pa ar names sch l n rows err])
    qed (use 1 Inr in \<open>simp add: fetches.simps [of pa ar names sch l n rows err]\<close>)
  qed (use 1 in \<open>simp add: fetches.simps [of pa ar names sch l n rows err]\<close>)
qed

context arrow_table_ops
begin

lemma stream_query_mysql_delivers:
  assumes "valid_limits l" and "\<And>cs sch b. ar_from_arrays ar cs sch = Inr b \<Longrightarrow> pa_schema pa b = sch"
    and "s \<in> set (fst (stream_query_mysql h environ pa ar d c q l leave))"
  shows "delivered pa rows (arrow_schema q) l s"
proof -
  obtain rd r where o: "open_reader h environ d c q l = (rd, r)" by (cases "open_reader h environ d c q l")
  from assms(3) have "s \<in> set (fst (consume leave (pump (\<lambda>b. Inr (bounded_slices pa l b))
      (fetches pa ar (mr_column_names rd) (arrow_schema q) l (nat (batch_rows l)) (ms_rows d) (ms_error d)))))"
    by (cases r) (auto simp: stream_query_mysql_def Let_def o)
  from pump_slices_yields [OF this] obtain b where
    b: "Batch b \<in> set (fetches pa ar (mr_column_names rd) (arrow_schema q) l (nat (batch_rows l)) (ms_rows d) (ms_error d))"
    and s: "s \<in> set (bounded_slices pa l b)" by blast
  from fetches_batches [OF b] obtain c where "rows_to_batch ar c (mr_column_names rd) (arrow_schema q) = Inr b" ..
  then have "pa_schema pa b = arrow_schema q"
    using assms(2) by (auto simp: rows_to_batch_def r_bind_Inr_iff split: if_splits)
  then show ?thesis using bounded_slices_correct(2) [OF assms(1) s] by (simp add: delivered_def)
qed

lemma stream_query_flight_delivers:
  assumes "valid_limits l" and "s \<in> set (fst (stream_query_flight environ pa d c q l leave))"
  shows "delivered pa rows (arrow_schema q) l s"
proof -
  obtain rd r where o: "open_flight environ d c q l = (rd, r)" by (cases "open_flight environ d c q l")
  from assms(2) have "s \<in> set (fst (consume leave (pump (prepare_batch pa (arrow_schema q) l) (fl_items d))))"
    by (cases r) (auto simp: stream_query_flight_def Let_def o prepare_flight_eq)
  then show ?thesis by (rule pump_delivers [OF assms(1)])
qed

end

text \<open>
  A MySQL stream that ends normally has read every row of the cursor once and in order; the
  batches it delivers are made of them.
\<close>

lemma stream_query_mysql_complete:
  assumes "snd (stream_query_mysql h environ pa ar d c q l leave) = Inr ()" and "valid_limits l"
  shows "\<exists>names chunks bs. concat chunks = ms_rows d
    \<and> (\<forall>x \<in> set chunks. x \<noteq> [] \<and> int (length x) \<le> batch_rows l)
    \<and> list_all2 (\<lambda>x b. rows_to_batch ar x names (arrow_schema q) = Inr b) chunks bs
    \<and> fst (stream_query_mysql h environ pa ar d c q l leave) = concat (map (bounded_slices pa l) bs)"
proof -
  obtain rd r where o: "open_reader h environ d c q l = (rd, r)" by (cases "open_reader h environ d c q l")
  define items where "items = fetches pa ar (mr_column_names rd) (arrow_schema q) l (nat (batch_rows l)) (ms_rows d) (ms_error d)"
  let ?run = "pump (\<lambda>b. Inr (bounded_slices pa l b)) items"
  have run: "snd (consume leave ?run) = Inr ()" and out: "fst (stream_query_mysql h environ pa ar d c q l leave) = fst (consume leave ?run)"
    using assms(1) by (cases r; auto simp: stream_query_mysql_def Let_def o end_stream_Inr_doris items_def)+
  have pr: "snd ?run = Inr ()" "fst (consume leave ?run) = fst ?run" using run by (auto simp: consume_Inr_iff)
  from pump_complete [OF pr(1)] obtain bs ps where b: "items = map Batch bs"
    and l: "list_all2 (\<lambda>b p. Inr (bounded_slices pa l b) = (Inr p :: 'a list result)) bs ps" and y: "fst ?run = concat ps" by blast
  have ps: "ps = map (bounded_slices pa l) bs" using l by (induction rule: list_all2_induct) auto
  have n: "1 \<le> nat (batch_rows l)" using assms(2) unfolding valid_limits_def by linarith
  have "\<And>e. PullRaises e \<notin> set items" using b by auto
  from fetches_rows [OF n this [unfolded items_def]] obtain chunks bs' where
    f: "items = map Batch bs'" "concat chunks = ms_rows d" "\<forall>x \<in> set chunks. x \<noteq> [] \<and> length x \<le> nat (batch_rows l)"
      "list_all2 (\<lambda>x b. rows_to_batch ar x (mr_column_names rd) (arrow_schema q) = Inr b) chunks bs'"
    unfolding items_def by blast
  have "bs' = bs" using b f(1) by (simp add: inj_map_eq_map inj_def)
  moreover have "\<forall>x \<in> set chunks. x \<noteq> [] \<and> int (length x) \<le> batch_rows l" using f(3) n by (auto simp: le_nat_iff)
  ultimately show ?thesis using f out pr(2) y ps by metis
qed

end
