(* ===== verification/Source_Interface.thy ===== *)
theory Source_Interface
  imports CH_Transport Doris_Transport
begin

text \<open>
  What Daft sees of a source and of a task beside their reads: the schemas, through the
  wrappers of \<^verbatim>\<open>_compat.py\<close> around Daft's own classes, the hook for count pushdown, and the task
  that answers a count.
\<close>

section \<open>Daft's classes\<close>

text \<open>
  The two constructors of Daft that the wrappers call, and pyarrow's empty batch of one field
  with the schema of a batch, which \<open>validate_daft_arrow_schema\<close> hands to them.
\<close>

record ('b, 's, 'd) daft_classes =
  from_pyarrow_schema :: "arrow_schema \<Rightarrow> 's result"
  from_arrow_record_batches :: "'b list \<Rightarrow> arrow_schema \<Rightarrow> 'd result"
  batch_schema :: "'b \<Rightarrow> arrow_schema"
  empty_batch :: "arrow_schema \<Rightarrow> 'b result"

definition daft_schema :: "('b, 's, 'd) daft_classes \<Rightarrow> arrow_schema \<Rightarrow> 's result" where
  "daft_schema dc sch = from_pyarrow_schema dc sch"

definition daft_record_batch :: "('b, 's, 'd) daft_classes \<Rightarrow> 'b \<Rightarrow> 'd result" where
  "daft_record_batch dc b = from_arrow_record_batches dc [b] (batch_schema dc b)"

definition field_schema :: "arrow_field \<Rightarrow> arrow_schema" where
  "field_schema f = \<lparr>schema_fields = [f], schema_metadata = []\<rparr>"

text \<open>The body of the loop: what the checks of \<open>Compat\<close> take as \<open>daft_consumes\<close>.\<close>

definition daft_consumes :: "('b, 's, 'd) daft_classes \<Rightarrow> arrow_field \<Rightarrow> unit result" where
  "daft_consumes dc f =
     r_bind (empty_batch dc (field_schema f)) (\<lambda>b.
     r_bind (daft_schema dc (field_schema f)) (\<lambda>_.
     r_bind (daft_record_batch dc b) (\<lambda>_. Inr ())))"

lemma validated_schema_consumed:
  assumes "validate_daft_arrow_schema (daft_consumes dc) sch = Inr ()" and "f \<in> set (schema_fields sch)"
  shows "\<exists>b s d. empty_batch dc (field_schema f) = Inr b \<and> daft_schema dc (field_schema f) = Inr s \<and> daft_record_batch dc b = Inr d"
proof -
  have "daft_consumes dc f = Inr ()" using assms by (simp add: validate_daft_Inr_iff)
  then show ?thesis by (auto simp: daft_consumes_def)
qed

lemma validate_daft_errors:
  "validate_daft_arrow_schema daft sch = Inl e \<Longrightarrow> e = CompatibilityError \<or> \<not> is_exception e"
  by (auto simp: validate_daft_arrow_schema_def dest!: r_all_Inl_ex split: sum.splits if_splits)

section \<open>Schemas and the hook\<close>

definition source_schema_ch :: "('b, 's, 'd) daft_classes \<Rightarrow> ch_source \<Rightarrow> 's result" where
  "source_schema_ch dc s = daft_schema dc (plan_schema (cs_plan s))"

definition source_schema_doris :: "('b, 's, 'd) daft_classes \<Rightarrow> doris_source \<Rightarrow> 's result" where
  "source_schema_doris dc s = daft_schema dc (dos_schema s)"

definition task_schema_ch :: "('b, 's, 'd) daft_classes \<Rightarrow> ch_task \<Rightarrow> 's result" where
  "task_schema_ch dc t = daft_schema dc (arrow_schema (ct_query t))"

definition task_schema_doris :: "('b, 's, 'd) daft_classes \<Rightarrow> doris_task \<Rightarrow> 's result" where
  "task_schema_doris dc t = daft_schema dc (arrow_schema (dt_query t))"

definition supports_count_pushdown_ch :: "ch_world \<Rightarrow> bool" where
  "supports_count_pushdown_ch w = count_pushdown_available (cw_daft w)"

definition supports_count_pushdown_doris :: "doris_env \<Rightarrow> bool" where
  "supports_count_pushdown_doris w = count_pushdown_available (de_daft w)"

section \<open>Counts\<close>

text \<open>The text of a counting statement: the count under its name, the table, and the fragment only.\<close>

definition count_text :: "string \<Rightarrow> string \<Rightarrow> qualified_table \<Rightarrow> string list \<Rightarrow> string" where
  "count_text counted name t fragment =
     ''SELECT '' @ counted @ '' AS '' @ quoted name @ '' FROM '' @ quoted (database t) @ ''.'' @ quoted (table t)
     @ where_clause fragment"

lemma limit_clause_count: "limit_clause PNone n = Inr []"
  by (simp add: limit_clause_def)

lemma count_statement_ch:
  assumes "build_select_ch (count_select_ch s name) = Inr (stmt, ps)"
  shows "\<exists>fragment. stmt = count_text ''count()'' name (cs_table s) fragment
    \<and> length fragment = (if cs_unsafe_where_sql s = None then 0 else 1) \<and> ps = cs_query_parameters s"
  using assms
proof (cases rule: build_select_ch_parts)
  case (1 proj pred pps pclause unsafe lim)
  have "proj = ''count() AS '' @ quoted name" "lim = []"
    using 1(2,6) by (simp_all add: count_select_ch_def render_projection_def r_bind_Inr_iff quote_identifier_Inr_iff limit_clause_count)
  moreover have "pred = None" "pps = []" using 1(3) by (simp_all add: count_select_ch_def select_predicate_def)
  moreover have "pclause = None" "ps = cs_query_parameters s @ pps"
    using 1(4) by (simp_all add: count_select_ch_def render_partition_clause_def)
  moreover have "length unsafe = (if cs_unsafe_where_sql s = None then 0 else 1)"
    using 1(5) by (auto simp: count_select_ch_def split: option.splits)
  ultimately show ?thesis using 1(7) by (intro exI [of _ unsafe]) (simp add: count_text_def count_select_ch_def option_list_def)
qed

lemma count_statement_doris:
  assumes "build_select_doris (count_select_doris s name) = Inr (stmt, ps)"
  shows "\<exists>fragment. stmt = count_text ''count(*)'' name (dos_table s) fragment
    \<and> length fragment = (if dos_unsafe_where_sql s = None then 0 else 1)"
proof -
  from assms [unfolded build_select_doris_parts] obtain proj tablets pred pps unsafe ups ltext where
    p: "projection_doris (count_select_doris s name) = Inr proj" "tablet_clause None = Inr tablets"
      "doris_predicate (count_select_doris s name) = Inr (pred, pps)" "doris_unsafe (count_select_doris s name) pps = Inr (unsafe, ups)"
      "limit_clause PNone (Some name) = Inr ltext"
    and st: "stmt = ''SELECT '' @ proj @ '' FROM '' @ (quoted (database (dos_table s)) @ ''.'' @ quoted (table (dos_table s)))
      @ tablets @ where_clause (unsafe @ option_list pred) @ ltext"
    by (auto simp: count_select_doris_def)
  have "proj = ''count(*) AS '' @ quoted name"
    using p(1) by (simp add: count_select_doris_def projection_doris_def r_bind_Inr_iff quote_identifier_Inr_iff)
  moreover have "tablets = []" "ltext = []" using p(2,5) by (simp_all add: tablet_clause_def limit_clause_count)
  moreover have "pred = None" using p(3) by (simp add: count_select_doris_def doris_predicate_def)
  moreover have "length unsafe = (if dos_unsafe_where_sql s = None then 0 else 1)"
    using p(4) by (auto simp: count_select_doris_def doris_unsafe_def r_bind_Inr_iff split: option.splits if_splits)
  ultimately show ?thesis using st by (intro exI [of _ unsafe]) (simp add: count_text_def option_list_def)
qed

lemma obj_limit_PNone [simp]: "obj_limit PNone = None"
  by (simp add: obj_limit_def)

text \<open>An aggregation is answered by one counting task or refused; it never falls back to a scan.\<close>

lemma get_tasks_ch_aggregation:
  assumes "pd_aggregation pd = Some agg" and "get_tasks_ch h w s pd = (tasks, outcome)"
  shows "(\<exists>e. outcome = Some e \<and> tasks = [])
    \<or> (\<exists>t name. outcome = None \<and> tasks = [t] \<and> count_pushdown (cw_daft w) pd = Inr (Some name) \<and> pd_limit pd = None
         \<and> task_of_select h s (count_schema name) (count_select_ch s name) = Inr t)"
proof (cases "count_pushdown (cw_daft w) pd")
  case (Inr c)
  then obtain name where "c = Some name" using assms(1) by (auto simp: count_pushdown_def Let_def split: if_splits)
  then show ?thesis using assms(2) Inr
    by (cases "task_of_select h s (count_schema name) (count_select_ch s name)")
      (auto simp: get_tasks_ch_def split: if_splits)
qed (use assms(2) in \<open>auto simp: get_tasks_ch_def\<close>)

lemma get_tasks_doris_aggregation:
  assumes "pd_aggregation pd = Some agg" and "get_tasks_doris h w s pd = (tasks, outcome)"
  shows "(\<exists>e. outcome = Some e \<and> tasks = [])
    \<or> (\<exists>t name. outcome = None \<and> tasks = [t] \<and> count_pushdown (de_daft w) pd = Inr (Some name) \<and> pd_limit pd = None
         \<and> task_of_select_doris h s (count_schema name) (count_select_doris s name) = Inr t)"
proof (cases "count_pushdown (de_daft w) pd")
  case (Inr c)
  then obtain name where "c = Some name" using assms(1) by (auto simp: count_pushdown_def Let_def split: if_splits)
  then show ?thesis using assms(2) Inr
    by (cases "task_of_select_doris h s (count_schema name) (count_select_doris s name)")
      (auto simp: get_tasks_doris_def split: if_splits)
qed (use assms(2) in \<open>auto simp: get_tasks_doris_def\<close>)


lemma count_rows_ch:
  assumes "count_pushdown d pd = Inr (Some name)"
  shows "select_rows_ch cmp fragment key rows (count_select_ch s name)
    = filter (daft_keeps cmp operand truth (pd_filters pd)) (fragment_rows fragment (cs_unsafe_where_sql s) rows)"
proof -
  have "pd_filters pd = None" using assms by (auto simp: count_pushdown_Some_iff)
  then show ?thesis
    by (simp add: select_rows_ch_def count_select_ch_def database_scan_def database_keeps_def [abs_def] daft_keeps_def [abs_def] group_rows_def)
qed

lemma count_rows_doris:
  assumes "count_pushdown d pd = Inr (Some name)"
  shows "select_rows_doris cmp fragment key rows (count_select_doris s name)
    = filter (daft_keeps cmp operand truth (pd_filters pd)) (fragment_rows fragment (dos_unsafe_where_sql s) rows)"
proof -
  have "pd_filters pd = None" using assms by (auto simp: count_pushdown_Some_iff)
  then show ?thesis
    by (simp add: select_rows_doris_def count_select_doris_def database_scan_def database_keeps_def [abs_def] daft_keeps_def [abs_def]
        group_rows_def)
qed

section \<open>What a counting task is\<close>

text \<open>
  Daft's count modes, and what Daft computes for an aggregation over rows: all rows, or the rows whose
  value in the counted column is not null, or is null. \<open>meaning\<close> says which mode a member of the
  native enumeration stands for. An aggregation without a count mode is not a count.
\<close>

datatype count_mode = CountAll | CountValid | CountNull

definition daft_count :: "(nat \<Rightarrow> count_mode) \<Rightarrow> aggregation \<Rightarrow> row list \<Rightarrow> nat option" where
  "daft_count meaning agg rows =
     (case agg_count_mode agg of
        None \<Rightarrow> None
      | Some m \<Rightarrow>
          (case (meaning m, agg_required_columns agg) of
             (CountAll, _) \<Rightarrow> Some (length rows)
           | (CountValid, c # _) \<Rightarrow> Some (length (filter (\<lambda>r. r c \<noteq> PNone) rows))
           | (CountNull, c # _) \<Rightarrow> Some (length (filter (\<lambda>r. r c = PNone) rows))
           | _ \<Rightarrow> None))"

text \<open>The field that Daft reads the count from.\<close>

definition count_field :: "aggregation \<Rightarrow> string" where
  "count_field agg = (case agg_required_columns agg of c # _ \<Rightarrow> c | [] \<Rightarrow> agg_name agg)"

text \<open>
  The statement counts under the name of that field, into a column of unsigned 64-bit integers that
  is never null; it reads the source's table with the source's fragment as its only condition; and
  the number of rows it counts is the count that Daft would have computed.
\<close>

definition count_answer_ch ::
    "comparison \<Rightarrow> (string \<Rightarrow> row \<Rightarrow> bool) \<Rightarrow> (row \<Rightarrow> string) \<Rightarrow> row list \<Rightarrow> (row \<Rightarrow> bool) \<Rightarrow> (nat \<Rightarrow> count_mode) \<Rightarrow> aggregation
       \<Rightarrow> ch_source \<Rightarrow> ch_task \<Rightarrow> bool" where
  "count_answer_ch cmp fragment key rows keeps meaning agg s t \<longleftrightarrow>
     (\<exists>q conditions.
        build_select_ch q = Inr (sql (ct_query t), named_parameters (ct_query t))
        \<and> sql (ct_query t) = count_text ''count()'' (count_field agg) (cs_table s) conditions
        \<and> length conditions = (if cs_unsafe_where_sql s = None then 0 else 1)
        \<and> schema_fields (arrow_schema (ct_query t))
            = [\<lparr>field_name = count_field agg, field_type = ArrowUInt64, field_nullable = False\<rparr>]
        \<and> Some (length (select_rows_ch cmp fragment key rows q))
            = daft_count meaning agg (filter keeps (fragment_rows fragment (cs_unsafe_where_sql s) rows)))"

definition count_answer_doris ::
    "comparison \<Rightarrow> (string \<Rightarrow> row \<Rightarrow> bool) \<Rightarrow> (row \<Rightarrow> int) \<Rightarrow> row list \<Rightarrow> (row \<Rightarrow> bool) \<Rightarrow> (nat \<Rightarrow> count_mode) \<Rightarrow> aggregation
       \<Rightarrow> doris_source \<Rightarrow> doris_task \<Rightarrow> bool" where
  "count_answer_doris cmp fragment key rows keeps meaning agg s t \<longleftrightarrow>
     (\<exists>q conditions.
        build_select_doris q = Inr (sql (dt_query t), positional_parameters (dt_query t))
        \<and> sql (dt_query t) = count_text ''count(*)'' (count_field agg) (dos_table s) conditions
        \<and> length conditions = (if dos_unsafe_where_sql s = None then 0 else 1)
        \<and> schema_fields (arrow_schema (dt_query t))
            = [\<lparr>field_name = count_field agg, field_type = ArrowUInt64, field_nullable = False\<rparr>]
        \<and> Some (length (select_rows_doris cmp fragment key rows q))
            = daft_count meaning agg (filter keeps (fragment_rows fragment (dos_unsafe_where_sql s) rows)))"

text \<open>A count that is pushed down is Daft's count of all rows, into Daft's field.\<close>

lemma pushed_count:
  assumes "count_pushdown d pd = Inr (Some name)" and "pd_aggregation pd = Some agg"
    and "\<And>m. count_mode_all d = Some m \<Longrightarrow> meaning m = CountAll"
  shows "name = count_field agg" and "daft_count meaning agg rows = Some (length rows)"
  using assms by (auto simp: count_pushdown_Some_iff count_field_def daft_count_def split: list.splits)

lemma task_of_select_Inr:
  assumes "task_of_select h s sch q = Inr t"
  shows "build_select_ch q = Inr (sql (ct_query t), named_parameters (ct_query t))" and "arrow_schema (ct_query t) = sch"
  using assms by (auto simp: task_of_select_def r_bind_Inr_iff QuerySpec_Inr_iff)

lemma task_of_select_doris_schema: "task_of_select_doris h s sch q = Inr t \<Longrightarrow> arrow_schema (dt_query t) = sch"
  by (auto simp: task_of_select_doris_def r_bind_Inr_iff QuerySpec_Inr_iff)

lemma count_task_ch:
  assumes "count_pushdown d pd = Inr (Some name)" and "pd_aggregation pd = Some agg"
    and "\<And>m. count_mode_all d = Some m \<Longrightarrow> meaning m = CountAll"
    and "task_of_select h s (count_schema name) (count_select_ch s name) = Inr t"
  shows "count_answer_ch cmp fragment key rows (daft_keeps cmp operand truth (pd_filters pd)) meaning agg s t"
proof -
  note b = task_of_select_Inr [OF assms(4)]
  note c = pushed_count [where meaning = meaning, OF assms(1-3)]
  from count_statement_ch [OF b(1)] obtain conditions where
    st: "sql (ct_query t) = count_text ''count()'' name (cs_table s) conditions"
      "length conditions = (if cs_unsafe_where_sql s = None then 0 else 1)" by blast
  have "schema_fields (arrow_schema (ct_query t)) = [\<lparr>field_name = name, field_type = ArrowUInt64, field_nullable = False\<rparr>]"
    by (simp add: b(2) count_schema_def)
  then show ?thesis unfolding count_answer_ch_def
    by (intro exI [of _ "count_select_ch s name"] exI [of _ conditions])
      (simp add: b(1) st c(2) count_rows_ch [OF assms(1), of cmp fragment key rows s operand truth] flip: c(1))
qed

lemma count_task_doris:
  assumes "count_pushdown d pd = Inr (Some name)" and "pd_aggregation pd = Some agg"
    and "\<And>m. count_mode_all d = Some m \<Longrightarrow> meaning m = CountAll"
    and "task_of_select_doris h s (count_schema name) (count_select_doris s name) = Inr t"
  shows "count_answer_doris cmp fragment key rows (daft_keeps cmp operand truth (pd_filters pd)) meaning agg s t"
proof -
  note b = task_of_select_doris_Inr(1) [OF assms(4)] task_of_select_doris_schema [OF assms(4)]
  note c = pushed_count [where meaning = meaning, OF assms(1-3)]
  from count_statement_doris [OF b(1)] obtain conditions where
    st: "sql (dt_query t) = count_text ''count(*)'' name (dos_table s) conditions"
      "length conditions = (if dos_unsafe_where_sql s = None then 0 else 1)" by blast
  have "schema_fields (arrow_schema (dt_query t)) = [\<lparr>field_name = name, field_type = ArrowUInt64, field_nullable = False\<rparr>]"
    by (simp add: b(2) count_schema_def)
  then show ?thesis unfolding count_answer_doris_def
    by (intro exI [of _ "count_select_doris s name"] exI [of _ conditions])
      (simp add: b(1) st c(2) count_rows_doris [OF assms(1), of cmp fragment key rows s operand truth] flip: c(1))
qed

section \<open>Representations\<close>

text \<open>Connections that differ only in the password and in the values of options look the same.\<close>

lemma ClickHouseConnection_repr_hides:
  assumes "map fst settings = map fst (ch_settings c)" and "map fst options = map fst (ch_client_options c)"
  shows "ClickHouseConnection_repr (c\<lparr>ch_password := password, ch_settings := settings, ch_client_options := options\<rparr>)
    = ClickHouseConnection_repr c"
  by (simp add: ClickHouseConnection_repr_def option_keys_def assms)

lemma DorisConnection_repr_hides:
  assumes "map fst options = map fst (do_mysql_options c)" and "map fst options' = map fst (do_flight_options c)"
  shows "DorisConnection_repr (c\<lparr>do_password := password, do_mysql_options := options, do_flight_options := options'\<rparr>)
    = DorisConnection_repr c"
  by (simp add: DorisConnection_repr_def option_keys_def assms)

end
