(* ===== verification/Common_Properties.thy ===== *)
theory Common_Properties
  imports Compat Batching
begin

text \<open>
  The properties of the parts both connectors share: contracts, identifiers, batching and the
  Daft adapter. Each is followed by an application at a concrete input where it has hypotheses.
\<close>

section \<open>Pushdown\<close>

text \<open>C3. Pushing the filter and the limit to the database is sound for any number of tasks:
  filtering and limiting the rows the tasks return gives exactly the rows that filtering and
  limiting all rows would have given, in the same order, whatever Daft's own evaluator does
  with expressions the compiler does not know.\<close>

theorem pushdown_preserves_rows:
  assumes "compile_filter (pd_filters pd) = Inr p"
  shows "take_limit (pd_limit pd)
           (List.filter (daft_keeps cmp operand truth (pd_filters pd))
             (concat (map (database_scan cmp p (safe_database_limit pd p)) tasks))) =
         take_limit (pd_limit pd)
           (List.filter (daft_keeps cmp operand truth (pd_filters pd)) (concat tasks))"
  by (rule scan_pushdown_sound) (rule assms)

definition sample_pushdowns :: pushdowns where
  "sample_pushdowns =
     \<lparr>pd_filters = Some (EAnd (ECompare OpGt (ECol ''a'') (ELit (PInt 1))) (ENotNull (ECol ''b''))),
      pd_columns = None, pd_limit = Some 1, pd_aggregation = None, pd_filter_required = [''a'', ''b'']\<rparr>"

definition sample_predicate :: predicate where
  "sample_predicate = And (Compare OpGt (Column ''a'') (Literal (PInt 1))) (IsNull ''b'' True)"

fun sample_cmp :: comparison where
  "sample_cmp OpGt (PInt i) (PInt j) = (j < i)"
| "sample_cmp _ a b = (a = b)"

definition sample_tasks :: "row list list" where
  "sample_tasks = [[\<lambda>_. PInt 1, \<lambda>_. PInt 2], [\<lambda>_. PInt 3]]"

lemma sample_compiles: "compile_filter (pd_filters sample_pushdowns) = Inr (Some sample_predicate)"
  by (simp add: sample_pushdowns_def sample_predicate_def compile_filter_def mk_Column_def mk_Literal_def
      compare_values_def)

theorem pushdown_preserves_rows_witness:
  "compile_filter (pd_filters sample_pushdowns) = Inr (Some sample_predicate) \<and>
   take_limit (pd_limit sample_pushdowns)
     (List.filter (daft_keeps sample_cmp (\<lambda>_ _. PNone) (\<lambda>_ _. None) (pd_filters sample_pushdowns))
       (concat (map (database_scan sample_cmp (Some sample_predicate)
          (safe_database_limit sample_pushdowns (Some sample_predicate))) sample_tasks))) =
   take_limit (pd_limit sample_pushdowns)
     (List.filter (daft_keeps sample_cmp (\<lambda>_ _. PNone) (\<lambda>_ _. None) (pd_filters sample_pushdowns))
       (concat sample_tasks))"
  using pushdown_preserves_rows [OF sample_compiles] sample_compiles by blast

section \<open>Batches\<close>

definition sample_limits :: resource_limits where
  "sample_limits = \<lparr>batch_rows = 2, batch_bytes = 10, target_tasks = 2, max_tasks = 4,
     connect_timeout_seconds = PInt 10, query_timeout_seconds = PInt 300\<rparr>"

lemma sample_limits_valid: "valid_limits sample_limits"
  by (simp add: sample_limits_def valid_limits_def limit_defs timeout_ok_def)

text \<open>C6. Under validated limits the slicing generator ends for every record batch. Its slices, read
  one after the other, are the rows of the batch; none is empty, none has more rows than allowed,
  and one with more bytes than targeted has a single row.\<close>

theorem batch_slicing_terminates:
  assumes "arrow_batches num_rows slice rows" and "valid_limits l"
  shows "\<exists>ss. iter_batch_slices num_rows slice nbytes b l = Some ss
    \<and> concat (map rows ss) = rows b
    \<and> (\<forall>s\<in>set ss. rows s \<noteq> [] \<and> int (length (rows s)) \<le> batch_rows l
         \<and> (length (rows s) = 1 \<or> int (nbytes s) \<le> batch_bytes l))"
  by (rule arrow_batches.iter_batch_slices_correct [OF assms])

theorem batch_slicing_terminates_witness:
  "valid_limits sample_limits \<and>
   (\<exists>ss. iter_batch_slices length list_slice (list_nbytes id) [4, 4, 4, 20] sample_limits = Some ss
      \<and> concat (map id ss) = id [4, 4, 4, 20])"
  using batch_slicing_terminates [OF list_batch.arrow_batches_axioms sample_limits_valid,
      of "list_nbytes id" "[4, 4, 4, 20]"] sample_limits_valid
  by blast

text \<open>C7. The binary search for the size of a slice finds what an exhaustive search would: the largest
  number of rows within the row limit whose bytes fit, or one row when none fits.\<close>

theorem slice_size_is_largest:
  assumes "valid_limits l" and "1 \<le> remaining" and "mono bytes"
  shows "slice_size bytes l remaining
    = Max {n. 1 \<le> n \<and> n \<le> min (batch_rows l) remaining \<and> (n = 1 \<or> int (bytes (nat n)) \<le> batch_bytes l)}"
    (is "_ = Max ?S")
proof (rule Max_eqI [symmetric])
  note b = slice_size_bounds [OF assms(1,2), of bytes]
  show "finite ?S" by (rule finite_subset [of _ "{1..min (batch_rows l) remaining}"]) auto
  show "slice_size bytes l remaining \<in> ?S" using b by simp
  fix n assume n: "n \<in> ?S"
  show "n \<le> slice_size bytes l remaining"
  proof (rule ccontr)
    assume "\<not> n \<le> slice_size bytes l remaining"
    then have lt: "slice_size bytes l remaining < n" by simp
    from slice_size_maximal [OF assms lt] n have "batch_bytes l < int (bytes (nat n))" by simp
    with n b(1) lt show False by simp
  qed
qed

theorem slice_size_is_largest_witness:
  "slice_size (\<lambda>n. 4 * n) sample_limits 7
    = Max {n. 1 \<le> n \<and> n \<le> min (batch_rows sample_limits) 7 \<and> (n = 1 \<or> int (4 * nat n) \<le> batch_bytes sample_limits)}"
  by (rule slice_size_is_largest [OF sample_limits_valid]) (simp_all add: mono_def)

section \<open>Groups\<close>

text \<open>C20. Grouping weighted items never fails under positive limits: every item lands in exactly one
  group, no group is empty, and there are no more groups than either limit allows.\<close>

theorem weighted_groups_partition:
  assumes "1 \<le> target" and "1 \<le> maxg" and "distinct (map fst items)"
  shows "\<exists>gs. group_weighted_items items target maxg = Inr gs \<and> [] \<notin> set gs
    \<and> int (length gs) \<le> min target maxg
    \<and> (\<forall>x \<in> set items. \<exists>!i. i < length gs \<and> fst x \<in> set (gs ! i))
    \<and> set (concat gs) = fst ` set items"
proof -
  from weighted_split.split_total [OF assms(1,2)] obtain gs where gs: "group_weighted_items items target maxg = Inr gs" ..
  note ws = weighted_split.split_nonempty [OF assms(1,2) gs] weighted_split.split_count [OF assms(1,2) gs]
    weighted_split.split_once [OF assms(1,2) gs assms(3)] weighted_split.split_set [OF assms(1,2) gs]
  then show ?thesis using gs by (intro exI [of _ gs]) auto
qed

theorem weighted_groups_partition_witness:
  "\<exists>gs. group_weighted_items [(''a'', 5), (''b'', 3), (''c'', 4)] 2 4 = Inr gs \<and> [] \<notin> set gs
    \<and> int (length gs) \<le> min 2 4 \<and> set (concat gs) = fst ` set [(''a'', 5 :: int), (''b'', 3), (''c'', 4)]"
  using weighted_groups_partition [of 2 4 "[(''a'', 5), (''b'', 3), (''c'', 4)]"] by auto

text \<open>The greedy grouping is balanced: the loads of any two groups differ by at most the weight of
  the heaviest item.\<close>

theorem weighted_groups_balanced:
  assumes "group_weighted_items items target maxg = Inr gs"
    and "distinct (map fst items)" and "\<forall>item\<in>set items. 0 \<le> snd item"
    and "g \<in> set gs" and "g' \<in> set gs" and "items \<noteq> []"
  shows "\<bar>load items g - load items g'\<bar> \<le> Max (snd ` set items)"
proof -
  let ?B = "Max (snd ` set items)"
  have B: "\<forall>item\<in>set items. snd item \<le> ?B" by simp
  from assms(6) obtain x where "x \<in> set items" by (cases items) auto
  then have "0 \<le> ?B" using assms(3) B order_trans by blast
  from group_weighted_balanced [OF assms(1,2) B this assms(4,5)]
    group_weighted_balanced [OF assms(1,2) B this assms(5,4)]
  show ?thesis by linarith
qed

theorem weighted_groups_balanced_witness:
  "\<bar>load [(''a'', 5), (''b'', 3), (''c'', 4)] [''a''] - load [(''a'', 5), (''b'', 3), (''c'', 4)] [''b'', ''c'']\<bar>
     \<le> Max (snd ` set [(''a'', 5), (''b'', 3), (''c'', 4 :: int)])"
proof (rule weighted_groups_balanced)
  show "group_weighted_items [(''a'', 5), (''b'', 3), (''c'', 4)] 2 4 = Inr [[''a''], [''b'', ''c'']]" by code_simp
qed simp_all

text \<open>Grouping adjacent identifiers keeps their order: the groups, read one after the other, are the
  sorted identifiers, so every identifier is scanned once; no group is empty and there are no more
  groups than either limit allows.\<close>

theorem adjacent_groups_in_order:
  assumes "1 \<le> target" and "1 \<le> maxg"
  shows "\<exists>gs. group_adjacent_ids values target maxg = Inr gs \<and> concat gs = sort values \<and> [] \<notin> set gs
    \<and> int (length gs) \<le> min target maxg"
proof -
  from adjacent_split.split_total [OF assms] obtain gs where gs: "group_adjacent_ids values target maxg = Inr gs" ..
  from group_adjacent_sorted [OF assms gs] adjacent_split.split_nonempty [OF assms gs] adjacent_split.split_count [OF assms gs]
  show ?thesis using gs by blast
qed

theorem adjacent_groups_in_order_witness:
  "\<exists>gs. group_adjacent_ids [9, 2, 5] 2 8 = Inr gs \<and> concat gs = sort [9, 2, 5] \<and> [] \<notin> set gs \<and> int (length gs) \<le> min 2 8"
  by (rule adjacent_groups_in_order) simp_all

section \<open>Contracts\<close>

text \<open>C33. A snapshot of a caller's value ends for every heap, cyclic ones included. It is taken exactly of
  the values from which no callable and no cycle can be reached and that pickle accepts, and
  is then the value itself; everything else is a configuration error.\<close>

theorem snapshot_exactly_acyclic_data:
  "snapshot_serializable h v =
     (if (\<forall>w. (edge h)\<^sup>*\<^sup>* v w \<longrightarrow> \<not> is_callable w \<and> \<not> (edge h)\<^sup>+\<^sup>+ w w) \<and> pickle_ok h [] v
      then Inr v else Inl ConfigurationError)"
proof (cases "snapshot_serializable h v")
  case (Inl e)
  then show ?thesis
    using snapshot_error [OF Inl] snapshot_Inr_iff [of h v v] by (auto simp: serializable_def validate_structure_iff)
next
  case (Inr w)
  then show ?thesis
    using snapshot_Inr_iff [of h v w] by (auto simp: serializable_def validate_structure_iff)
qed

theorem snapshot_exactly_acyclic_data_witness:
  "snapshot_serializable [(0, CList [PRef 0])] (PRef 0) = Inl ConfigurationError"
proof -
  have "edge [(0, CList [PRef 0])] (PRef 0) (PRef 0)" by (simp add: edge_def)
  then have "(edge [(0, CList [PRef 0])])\<^sup>+\<^sup>+ (PRef 0) (PRef 0)" by (rule tranclp.r_into_trancl)
  then show ?thesis unfolding snapshot_exactly_acyclic_data [of "[(0, CList [PRef 0])]" "PRef 0"] by auto
qed

text \<open>The check of query parameters accepts exactly the values from which no time-zone-aware date-time
  or time can be reached, whatever sharing or cycles the values have; it never recurses forever.\<close>

theorem parameter_values_naive:
  "validate_query_parameter_values h vs = Inr () \<longleftrightarrow>
     (\<forall>v\<in>set vs. \<forall>w. (value_edge h)\<^sup>*\<^sup>* v w \<longrightarrow> \<not> tz_aware w)"
  by (rule validate_values_iff)

theorem parameter_values_naive_witness:
  "validate_query_parameter_values [(0, CList [PTime True (PyTime 1 2 3 4)])] [PRef 0] \<noteq> Inr ()"
proof -
  let ?h = "[(0, CList [PTime True (PyTime 1 2 3 4)])]"
  have "value_edge ?h (PRef 0) (PTime True (PyTime 1 2 3 4))" by (simp add: value_edge_def)
  then have "(value_edge ?h)\<^sup>*\<^sup>* (PRef 0) (PTime True (PyTime 1 2 3 4))" by (rule r_into_rtranclp)
  then show ?thesis unfolding parameter_values_naive [of ?h "[PRef 0]"] by (metis list.set_intros(1) tz_aware.simps(2))
qed

lemma insort_key_map: "insort_key k (f x) (map f xs) = map f (insort_key (\<lambda>x. k (f x)) x xs)"
  by (induction xs) auto

lemma sort_key_map_of: "sort_key k (map f xs) = map f (sort_key (\<lambda>x. k (f x)) xs)"
  by (induction xs) (simp_all add: insort_key_map)

text \<open>Freezing caller options and thawing them later gives back exactly the options, as a dictionary
  ordered by name.\<close>

theorem frozen_options_thaw:
  assumes "freeze_options h (MappingItems items) R = Inr opts" and "distinct (map fst items)"
  shows "thaw_options h opts = Inr opts \<and> map (\<lambda>(k, v). (PStr k, v)) opts = sort_key (\<lambda>kv. str_of (fst kv)) items
    \<and> set (map fst opts) \<inter> R = {}"
proof (intro conjI)
  show "thaw_options h opts = Inr opts" by (rule thaw_freeze [OF assms])
  obtain ps where items: "items = map (\<lambda>(k, v). (PStr k, v)) ps" and opts: "opts = sort_key fst ps"
    and ok: "\<forall>(k, v)\<in>set ps. k \<noteq> [] \<and> k \<notin> R \<and> serializable h v"
    using assms(1) unfolding freeze_options_Inr_iff by blast
  have "(\<lambda>kv. str_of (fst (case kv of (k, v) \<Rightarrow> (PStr k, v)))) = (fst :: string \<times> pyobj \<Rightarrow> string)"
    by (auto simp: str_of_def)
  then show "map (\<lambda>(k, v). (PStr k, v)) opts = sort_key (\<lambda>kv. str_of (fst kv)) items"
    unfolding items opts by (simp add: sort_key_map_of)
  show "set (map fst opts) \<inter> R = {}" using ok opts by auto
qed

theorem frozen_options_thaw_witness:
  "thaw_options [] [(''a'', PInt 1), (''b'', PStr ''x'')] = Inr [(''a'', PInt 1), (''b'', PStr ''x'')]"
  using frozen_options_thaw [of "[]" "[(PStr ''b'', PStr ''x''), (PStr ''a'', PInt 1)]" "{''host''}"
      "[(''a'', PInt 1), (''b'', PStr ''x'')]"]
  by code_simp

section \<open>Identifiers\<close>

text \<open>A rendered column list can be read back: a lexer that knows only backtick quoting finds exactly
  the columns, in order, so no column name can escape its quotes.\<close>

theorem quoted_columns_read_back:
  assumes "quote_columns cs = Inr s"
  shows "read_columns s = Some cs"
  using assms read_columns_join by (simp add: quote_columns_Inr_iff)

theorem quoted_columns_read_back_witness:
  "read_columns ''`a`, `b``; DROP TABLE t`'' = Some [''a'', ''b`; DROP TABLE t'']"
  by (rule quoted_columns_read_back) code_simp

section \<open>The Daft adapter\<close>

text \<open>Compiling a filter over valid column names always succeeds; what it returns is a well-formed
  predicate that mentions exactly the columns of the filter, or nothing when the filter cannot be
  expressed.\<close>

theorem compiled_filter_well_formed:
  assumes "\<And>n. n \<in> expr_columns e \<Longrightarrow> valid_identifier n"
  shows "\<exists>r. compile_filter (Some e) = Inr r \<and> (\<forall>p. r = Some p \<longrightarrow> wf_predicate p \<and> referenced_columns p = expr_columns e)"
proof -
  from compile_filter_total [of "Some e"] assms obtain r where r: "compile_filter (Some e) = Inr r" by auto
  have "wf_predicate p \<and> referenced_columns p = expr_columns e" if "r = Some p" for p
  proof -
    have v: "visit e = Inr (CPredicate p)" using r that by (simp add: compile_filter_Some_iff)
    show ?thesis using visit_columns [OF v] compile_filter_wf [of "Some e" p] r that by simp
  qed
  then show ?thesis using r by blast
qed

theorem compiled_filter_well_formed_witness:
  "\<exists>r. compile_filter (Some (ECompare OpGt (ECol ''a'') (ELit (PInt 1)))) = Inr r"
  using compiled_filter_well_formed [of "ECompare OpGt (ECol ''a'') (ELit (PInt 1))"]
  by (auto simp: valid_identifier_def)

text \<open>The scanned columns are exactly the requested ones and those the filter needs, in schema order
  and without repetition; a request for an unknown column is a compatibility error.\<close>

theorem scan_columns_exact:
  assumes "distinct (schema_names sch)"
  shows "required_scan_columns pd sch =
     (if requested_columns pd sch \<subseteq> set (schema_names sch)
      then Inr (filter (\<lambda>n. n \<in> requested_columns pd sch) (schema_names sch)) else Inl CompatibilityError)
   \<and> distinct (filter (\<lambda>n. n \<in> requested_columns pd sch) (schema_names sch))
   \<and> set (pd_filter_required pd) \<subseteq> requested_columns pd sch"
  using assms by (auto simp: required_scan_columns_def requested_columns_def Let_def)

definition sample_schema :: arrow_schema where
  "sample_schema =
     \<lparr>schema_fields =
        [\<lparr>field_name = ''a'', field_type = ArrowInt64, field_nullable = False\<rparr>,
         \<lparr>field_name = ''b'', field_type = ArrowString, field_nullable = True\<rparr>],
      schema_metadata = []\<rparr>"

theorem scan_columns_exact_witness:
  "distinct (schema_names sample_schema) \<and> required_scan_columns sample_pushdowns sample_schema = Inr [''a'', ''b'']"
proof -
  have d: "distinct (schema_names sample_schema)" by code_simp
  moreover have "requested_columns sample_pushdowns sample_schema = {''a'', ''b''}"
    by (auto simp: requested_columns_def sample_pushdowns_def sample_schema_def schema_names_def)
  ultimately show ?thesis
    using scan_columns_exact [OF d, of sample_pushdowns] by (simp add: sample_schema_def schema_names_def)
qed

end
