(* ===== verification/Scan_Reading.thy ===== *)
theory Scan_Reading
  imports CH_Transport Doris_Transport
begin

text \<open>
  A scan from the source to the rows: the tasks that \<open>get_tasks\<close> yields, each read to its end with
  the task's own \<open>read\<close>. This is where planning (\<open>CH_Source\<close>, \<open>Doris_Source\<close>) and streaming
  (\<open>CH_Transport\<close>, \<open>Doris_Transport\<close>) meet; the server is a driver for every task.
\<close>

section \<open>Reading all tasks\<close>

text \<open>The batches of one task, or the exception its generator ends with.\<close>

definition task_outcome :: "'b list \<times> unit result \<Rightarrow> 'b list result" where
  "task_outcome run = (case snd run of Inl e \<Rightarrow> Inl e | Inr _ \<Rightarrow> Inr (fst run))"

definition read_scan :: "('t \<Rightarrow> 'b list \<times> unit result) \<Rightarrow> 't generated \<Rightarrow> 'b list result" where
  "read_scan run g =
     (case snd g of
        Some e \<Rightarrow> Inl e
      | None \<Rightarrow> r_bind (r_map (\<lambda>t. task_outcome (run t)) (fst g)) (\<lambda>outs. Inr (concat outs)))"

lemma task_outcome_Inr [simp]: "task_outcome run = Inr bs \<longleftrightarrow> run = (bs, Inr ())"
  by (cases run) (auto simp: task_outcome_def split: sum.splits)

lemma read_scan_Inr_iff:
  "read_scan run g = Inr out \<longleftrightarrow>
     snd g = None \<and> (\<exists>outs. list_all2 (\<lambda>t bs. run t = (bs, Inr ())) (fst g) outs \<and> out = concat outs)"
  by (cases "snd g") (auto simp: read_scan_def r_bind_Inr_iff r_map_Inr_iff)

text \<open>
  Where every task that ends normally gives the rows of its select, a scan that ends normally gives
  the rows of all selects, in the order of the tasks.
\<close>

lemma read_scan_rows:
  assumes "read_scan run g = Inr out"
    and "list_all2 (\<lambda>q t. \<forall>bs. run t = (bs, Inr ()) \<longrightarrow> concat (map rows bs) = map encode (answer q)) selects (fst g)"
  shows "concat (map rows out) = map encode (concat (map answer selects))"
proof -
  from assms(1) obtain outs where o: "list_all2 (\<lambda>t bs. run t = (bs, Inr ())) (fst g) outs" and out: "out = concat outs"
    by (auto simp: read_scan_Inr_iff)
  have "list_all2 (\<lambda>q bs. concat (map rows bs) = map encode (answer q)) selects outs"
    by (rule list_all2_trans [OF _ assms(2) o]) blast
  then show ?thesis unfolding out by (induction rule: list_all2_induct) simp_all
qed

section \<open>ClickHouse\<close>

text \<open>The selects a scan plans, one per group.\<close>

definition planned_selects_ch :: "heap \<Rightarrow> ch_world \<Rightarrow> ch_source \<Rightarrow> pushdowns \<Rightarrow> ch_select list" where
  "planned_selects_ch h w s pd =
     (case plan_scan_ch h w s pd of
        Inl _ \<Rightarrow> []
      | Inr p \<Rightarrow>
          map (scan_select_ch s (sp_columns p) (sp_predicate p) (sp_limit p) (projr (projection_for (cs_plan s) (sp_columns p))))
            (sp_groups p))"

text \<open>
  A driver answers a task with \<open>rs\<close> when a stream that it does not break off consists of batches of
  the planned columns that hold these rows. It may fail at any point.
\<close>

definition answers_ch :: "'b arrow_ops \<Rightarrow> ('b \<Rightarrow> 'r list) \<Rightarrow> 'b ch_async \<Rightarrow> ch_task \<Rightarrow> 'r list \<Rightarrow> bool" where
  "answers_ch pa rows d t rs \<longleftrightarrow>
     (\<forall>received. as_items d = map Batch received \<longrightarrow>
        list_all (\<lambda>b. schema_fields (pa_schema pa b) = schema_fields (arrow_schema (ct_query t))) received
        \<and> concat (map rows received) = rs)"

lemma answered_task_ch:
  assumes "arrow_table_ops pa rows" and "valid_limits (ct_limits t)" and "answers_ch pa rows d t rs"
    and "read_task_ch h environ pa d to_daft t None = (out, Inr ())" and "\<And>b. drows (to_daft b) = rows b"
  shows "concat (map drows out) = rs"
proof -
  let ?run = "stream_query_ch h environ pa d (ct_connection t) (ct_query t) (ct_limits t) None"
  have out: "out = map to_daft (fst ?run)" and ok: "snd ?run = Inr ()"
    using assms(4) by (auto simp: read_task_ch_def Let_def)
  from arrow_table_ops.stream_query_ch_complete [OF assms(1,2) ok] obtain received where
    r: "as_items d = map Batch received" and
    same: "(\<forall>b \<in> set received. schema_fields (pa_schema pa b) = schema_fields (arrow_schema (ct_query t))) \<longrightarrow>
         concat (map rows (fst ?run)) = concat (map rows received)" by blast
  have "concat (map rows (fst ?run)) = rs" using same assms(3) r unfolding answers_ch_def list_all_iff by blast
  then show ?thesis by (simp add: out comp_def assms(5))
qed

lemma get_tasks_ch_limits:
  assumes "get_tasks_ch h w s pd = (tasks, None)" and "count_pushdown (cw_daft w) pd = Inr None" and "t \<in> set tasks"
  shows "ct_limits t = cs_limits s"
proof -
  from assms(1,2) obtain p where "plan_scan_ch h w s pd = Inr p" and l: "list_all2 (\<lambda>g t. scan_task_ch h s (sp_schema p) (sp_columns p) (sp_predicate p) (sp_limit p) g = Inr t)
      (sp_groups p) tasks" by (rule get_tasks_ch_scan)
  from l obtain g where "scan_task_ch h s (sp_schema p) (sp_columns p) (sp_predicate p) (sp_limit p) g = Inr t"
    using assms(3) by (auto simp: list_all2_conv_all_nth in_set_conv_nth)
  then show ?thesis by (auto simp: scan_task_ch_def task_of_select_def r_bind_Inr_iff)
qed

text \<open>What a scan needs of the database: the partitions it lists hold all rows.\<close>

definition partitions_hold :: "heap \<Rightarrow> ch_world \<Rightarrow> ch_source \<Rightarrow> (row \<Rightarrow> string) \<Rightarrow> row list \<Rightarrow> bool" where
  "partitions_hold h w s key rows \<longleftrightarrow>
     (\<forall>d. run_discovery_ch h w s = Inr d \<longrightarrow> pd_supported d \<longrightarrow> (\<forall>r \<in> set rows. key r \<in> set (map partition_id (pd_partitions d))))"

text \<open>The planned selects are the tasks' statements, and together they read the table.\<close>

lemma planned_scan_ch:
  assumes "get_tasks_ch h w s pd = (tasks, None)" and "count_pushdown (cw_daft w) pd = Inr None"
    and "valid_limits (cs_limits s)" and "cs_discoverer s = None" and "partitions_hold h w s key rows"
  shows "list_all2 (\<lambda>q t. build_select_ch q = Inr (sql (ct_query t), named_parameters (ct_query t)))
      (planned_selects_ch h w s pd) tasks"
    and "\<exists>kept. mset kept = mset (filter (daft_keeps cmp operand truth (pd_filters pd))
                          (fragment_rows fragment (cs_unsafe_where_sql s) rows))
      \<and> take_limit (pd_limit pd) (filter (daft_keeps cmp operand truth (pd_filters pd))
          (concat (map (select_rows_ch cmp fragment key rows) (planned_selects_ch h w s pd)))) = take_limit (pd_limit pd) kept"
proof -
  from assms(1,2) obtain p where p: "plan_scan_ch h w s pd = Inr p" and
    t: "list_all2 (\<lambda>g t. scan_task_ch h s (sp_schema p) (sp_columns p) (sp_predicate p) (sp_limit p) g = Inr t) (sp_groups p) tasks"
    by (rule get_tasks_ch_scan)
  show "list_all2 (\<lambda>q t. build_select_ch q = Inr (sql (ct_query t), named_parameters (ct_query t)))
      (planned_selects_ch h w s pd) tasks"
    unfolding planned_selects_ch_def p sum.case list.rel_map using t by (rule list_all2_mono) (rule scan_task_ch_Inr)
  have "\<forall>r \<in> set rows. key r \<in> set (map partition_id (pd_partitions d))"
    if "run_discovery_ch h w s = Inr d" "pd_supported d" for d
    using assms(5) that by (simp add: partitions_hold_def)
  from split_scan_rows_ch [OF p assms(3,4) this]
  show "\<exists>kept. mset kept = mset (filter (daft_keeps cmp operand truth (pd_filters pd))
                          (fragment_rows fragment (cs_unsafe_where_sql s) rows))
      \<and> take_limit (pd_limit pd) (filter (daft_keeps cmp operand truth (pd_filters pd))
          (concat (map (select_rows_ch cmp fragment key rows) (planned_selects_ch h w s pd)))) = take_limit (pd_limit pd) kept"
    by (simp add: planned_selects_ch_def p comp_def)
qed

section \<open>Doris\<close>

definition planned_selects_doris :: "heap \<Rightarrow> doris_env \<Rightarrow> doris_source \<Rightarrow> pushdowns \<Rightarrow> doris_select list" where
  "planned_selects_doris h w s pd =
     (case plan_scan_doris h w s pd of
        Inl _ \<Rightarrow> []
      | Inr p \<Rightarrow> map (scan_select_doris s (sp_columns p) (sp_predicate p) (sp_limit p)) (sp_groups p))"

text \<open>
  What pyarrow makes of a row of Python values: a batch built from rows holds the converted rows.
\<close>

definition builds_rows :: "('b, 'c) array_ops \<Rightarrow> ('b \<Rightarrow> 'r list) \<Rightarrow> arrow_schema \<Rightarrow> (pyobj list \<Rightarrow> 'r) \<Rightarrow> bool" where
  "builds_rows ar rows sch convert \<longleftrightarrow>
     (\<forall>x names b. rows_to_batch ar x names sch = Inr b \<longrightarrow> rows b = map convert x)"

text \<open>
  The driver of the task's transport answers with the rows \<open>rs\<close>: the cursor holds them, or the
  reader's batches do.
\<close>

definition answers_doris ::
    "'b arrow_ops \<Rightarrow> ('b, 'c) array_ops \<Rightarrow> ('b \<Rightarrow> 'r list) \<Rightarrow> (pyobj list \<Rightarrow> 'r) \<Rightarrow> mysql_stream \<Rightarrow> 'b flight_stream \<Rightarrow> doris_task
       \<Rightarrow> pyobj list list \<Rightarrow> bool" where
  "answers_doris pa ar rows convert ms fl t rs \<longleftrightarrow>
     (case dt_transport t of
        MySql \<Rightarrow> ms_rows ms = rs \<and> builds_rows ar rows (arrow_schema (dt_query t)) convert
      | Flight \<Rightarrow>
          (\<forall>received. fl_items fl = map Batch received \<longrightarrow>
             list_all (\<lambda>b. schema_fields (pa_schema pa b) = schema_fields (arrow_schema (dt_query t))) received
             \<and> concat (map rows received) = map convert rs))"

context arrow_table_ops
begin

lemma stream_query_flight_complete:
  assumes "valid_limits l" and "snd (stream_query_flight environ pa d c q l leave) = Inr ()"
  shows "\<exists>bs. fl_items d = map Batch bs
    \<and> ((\<forall>b \<in> set bs. schema_fields (pa_schema pa b) = schema_fields (arrow_schema q)) \<longrightarrow>
         concat (map rows (fst (stream_query_flight environ pa d c q l leave))) = concat (map rows bs))"
proof -
  obtain rd r where o: "open_flight environ d c q l = (rd, r)" by (cases "open_flight environ d c q l")
  let ?run = "pump (prepare_batch pa (arrow_schema q) l) (fl_items d)"
  have run: "snd (consume leave ?run) = Inr ()"
    and out: "fst (stream_query_flight environ pa d c q l leave) = fst (consume leave ?run)"
    using assms(2) by (cases r; auto simp: stream_query_flight_def Let_def o end_stream_Inr_doris prepare_flight_eq)+
  then have "snd ?run = Inr ()" "fst (consume leave ?run) = fst ?run" by (auto simp: consume_Inr_iff)
  with pump_rows [OF assms(1)] out show ?thesis by force
qed

end

lemma mysql_stream_rows:
  assumes "arrow_table_ops pa rows" and "valid_limits l" and "builds_rows ar rows (arrow_schema q) convert"
    and "snd (stream_query_mysql h environ pa ar d c q l leave) = Inr ()"
  shows "concat (map rows (fst (stream_query_mysql h environ pa ar d c q l leave))) = map convert (ms_rows d)"
proof -
  from stream_query_mysql_complete [OF assms(4,2)] obtain names chunks bs where
    c: "concat chunks = ms_rows d" and b: "list_all2 (\<lambda>x b. rows_to_batch ar x names (arrow_schema q) = Inr b) chunks bs"
    and y: "fst (stream_query_mysql h environ pa ar d c q l leave) = concat (map (bounded_slices pa l) bs)" by blast
  have "list_all2 (\<lambda>x b. rows b = map convert x) chunks bs"
    using b by (rule list_all2_mono) (use assms(3) in \<open>auto simp: builds_rows_def\<close>)
  then have "concat (map rows bs) = map convert (concat chunks)" by (induction rule: list_all2_induct) simp_all
  moreover have "concat (map rows (concat (map (bounded_slices pa l) bs))) = concat (map rows bs)"
    by (induction bs) (simp_all add: arrow_table_ops.bounded_slices_correct(1) [OF assms(1,2)])
  ultimately show ?thesis by (simp add: y c)
qed

lemma answered_task_doris:
  assumes "arrow_table_ops pa rows" and "valid_limits (dt_limits t)" and "answers_doris pa ar rows convert ms fl t rs"
    and "read_task_doris h environ pa ar ms fl to_daft t None = (out, Inr ())" and "\<And>b. drows (to_daft b) = rows b"
  shows "concat (map drows out) = map convert rs"
proof (cases "dt_transport t")
  case MySql
  let ?run = "stream_query_mysql h environ pa ar ms (dt_connection t) (dt_query t) (dt_limits t) None"
  have out: "out = map to_daft (fst ?run)" and ok: "snd ?run = Inr ()"
    using assms(4) MySql by (auto simp: read_task_doris_def Let_def)
  have "ms_rows ms = rs" "builds_rows ar rows (arrow_schema (dt_query t)) convert"
    using assms(3) MySql by (simp_all add: answers_doris_def)
  then show ?thesis using mysql_stream_rows [OF assms(1,2) _ ok] by (simp add: out comp_def assms(5))
next
  case Flight
  let ?run = "stream_query_flight environ pa fl (dt_connection t) (dt_query t) (dt_limits t) None"
  have out: "out = map to_daft (fst ?run)" and ok: "snd ?run = Inr ()"
    using assms(4) Flight by (auto simp: read_task_doris_def Let_def)
  from arrow_table_ops.stream_query_flight_complete [OF assms(1,2) ok] obtain received where
    r: "fl_items fl = map Batch received" and
    same: "(\<forall>b \<in> set received. schema_fields (pa_schema pa b) = schema_fields (arrow_schema (dt_query t))) \<longrightarrow>
         concat (map rows (fst ?run)) = concat (map rows received)" by blast
  have "concat (map rows (fst ?run)) = map convert rs"
    using same assms(3) r Flight unfolding answers_doris_def list_all_iff by simp
  then show ?thesis by (simp add: out comp_def assms(5))
qed

lemma get_tasks_doris_limits:
  assumes "get_tasks_doris h w s pd = (tasks, None)" and "count_pushdown (de_daft w) pd = Inr None" and "t \<in> set tasks"
  shows "dt_limits t = dos_limits s"
proof -
  from assms(1,2) obtain p where "plan_scan_doris h w s pd = Inr p" and l: "list_all2 (\<lambda>g t. task_of_select_doris h s (sp_schema p)
      (scan_select_doris s (sp_columns p) (sp_predicate p) (sp_limit p) g) = Inr t) (sp_groups p) tasks"
    by (rule get_tasks_doris_scan)
  from l obtain g where "task_of_select_doris h s (sp_schema p)
      (scan_select_doris s (sp_columns p) (sp_predicate p) (sp_limit p) g) = Inr t"
    using assms(3) by (auto simp: list_all2_conv_all_nth in_set_conv_nth)
  then show ?thesis by (rule task_of_select_doris_Inr)
qed

text \<open>The tablets reported for a planning statement of the scan hold every row it can return.\<close>

definition tablets_hold ::
    "comparison \<Rightarrow> (string \<Rightarrow> row \<Rightarrow> bool) \<Rightarrow> heap \<Rightarrow> doris_env \<Rightarrow> doris_source \<Rightarrow> pushdowns
       \<Rightarrow> (row \<Rightarrow> int) \<Rightarrow> row list \<Rightarrow> bool" where
  "tablets_hold cmp fragment h w s pd key rows \<longleftrightarrow>
     (\<forall>columns predicate statement parameters ids. compile_filter (pd_filters pd) = Inr predicate \<longrightarrow>
        build_select_doris (planning_select s columns predicate) = Inr (statement, parameters) \<longrightarrow>
        run_discovery_doris h (de_world w) s statement parameters = Inr ids \<longrightarrow>
        tablets_cover cmp fragment key s predicate rows ids)"

lemma planned_scan_doris:
  assumes "get_tasks_doris h w s pd = (tasks, None)" and "count_pushdown (de_daft w) pd = Inr None"
    and "valid_limits (dos_limits s)" and "dos_discoverer s = None" and "tablets_hold cmp fragment h w s pd key rows"
  shows "list_all2 (\<lambda>q t. build_select_doris q = Inr (sql (dt_query t), positional_parameters (dt_query t))
                  \<and> dt_transport t = dos_transport s) (planned_selects_doris h w s pd) tasks"
    and "\<exists>kept. mset kept = mset (filter (daft_keeps cmp operand truth (pd_filters pd))
                          (fragment_rows fragment (dos_unsafe_where_sql s) rows))
      \<and> take_limit (pd_limit pd) (filter (daft_keeps cmp operand truth (pd_filters pd))
          (concat (map (select_rows_doris cmp fragment key rows) (planned_selects_doris h w s pd)))) = take_limit (pd_limit pd) kept"
proof -
  from assms(1,2) obtain p where p: "plan_scan_doris h w s pd = Inr p" and
    t: "list_all2 (\<lambda>g t. task_of_select_doris h s (sp_schema p)
             (scan_select_doris s (sp_columns p) (sp_predicate p) (sp_limit p) g) = Inr t) (sp_groups p) tasks"
    by (rule get_tasks_doris_scan)
  show "list_all2 (\<lambda>q t. build_select_doris q = Inr (sql (dt_query t), positional_parameters (dt_query t))
                  \<and> dt_transport t = dos_transport s) (planned_selects_doris h w s pd) tasks"
    unfolding planned_selects_doris_def p sum.case list.rel_map
    using t by (rule list_all2_mono) (blast dest: task_of_select_doris_Inr)
  have "compile_filter (pd_filters pd) = Inr (sp_predicate p)" using p by (rule plan_scan_doris_Inr)
  then have "tablets_cover cmp fragment key s (sp_predicate p) rows ids"
    if "build_select_doris (planning_select s (sp_columns p) (sp_predicate p)) = Inr (statement, parameters)"
      "run_discovery_doris h (de_world w) s statement parameters = Inr ids" for statement parameters ids
    using assms(5) that by (simp add: tablets_hold_def)
  from split_scan_rows_doris [OF p assms(3,4) this]
  show "\<exists>kept. mset kept = mset (filter (daft_keeps cmp operand truth (pd_filters pd))
                          (fragment_rows fragment (dos_unsafe_where_sql s) rows))
      \<and> take_limit (pd_limit pd) (filter (daft_keeps cmp operand truth (pd_filters pd))
          (concat (map (select_rows_doris cmp fragment key rows) (planned_selects_doris h w s pd)))) = take_limit (pd_limit pd) kept"
    by (simp add: planned_selects_doris_def p comp_def)
qed

end
