(* ===== verification/ClickHouse_Properties.thy ===== *)
theory ClickHouse_Properties
  imports Common_Properties Scan_Reading
begin

text \<open>
  The properties of the ClickHouse connector, from the parser of its type declarations to the
  stream of a task, each with an application at a concrete input where it has hypotheses.
\<close>

section \<open>Type declarations\<close>

text \<open>C21. Every declared type that validation accepts has a transport type, which is itself a valid
  declaration and its own transport type, so applying the derivation again changes nothing; a type
  that validation rejects is rejected with the same error.\<close>

theorem transport_types_stable:
  "case transport_type_expression v of
     Inr t \<Rightarrow> validate_clickhouse_type v = Inr () \<and> validate_clickhouse_type t = Inr () \<and> transport_type_expression t = Inr t
   | Inl e \<Rightarrow> validate_clickhouse_type v = Inl e"
proof (cases "transport_type_expression v")
  case (Inl e)
  then show ?thesis using transport_Inl_iff [of v e] by (simp add: validate_clickhouse_type_def)
next
  case (Inr t)
  then have "transport_fixpoint t" by (rule transport_is_fixpoint)
  then show ?thesis
    using Inr transport_validates [OF Inr] fixpoint_valid by (auto simp: transport_fixpoint_def validate_clickhouse_type_def)
qed

text \<open>Printing a parametric type and parsing it gives back its name and its arguments, whatever
  nesting, quoting and commas the arguments have.\<close>

theorem type_arguments_round_trip:
  assumes "is_type_name n" and "ts \<noteq> []" and "\<forall>t \<in> set ts. transport_type_expression t = Inr t \<and> stripped t"
  shows "parse_clickhouse_type (n @ ''('' @ py_join '', '' ts @ '')'') = Inr \<lparr>ct_name = n, ct_arguments = ts\<rparr>"
proof (rule parse_built [OF assms(1)])
  have "list_all argument_text ts"
    using assms(3) fixpoint_argument_text by (auto simp: list_all_iff transport_fixpoint_def)
  then show "split_type_arguments (py_join '', '' ts) = Inr ts" using assms(2) by (rule split_join)
qed

theorem type_arguments_round_trip_witness:
  "parse_clickhouse_type (''Map'' @ ''('' @ py_join '', '' [''String'', ''Array(Int64)''] @ '')'')
     = Inr \<lparr>ct_name = ''Map'', ct_arguments = [''String'', ''Array(Int64)'']\<rparr>"
proof (rule type_arguments_round_trip)
  show "\<forall>t \<in> set [''String'', ''Array(Int64)'']. transport_type_expression t = Inr t \<and> stripped t" by code_simp
qed (code_simp, simp)

section \<open>Statements\<close>

definition sample_select :: ch_select where
  "sample_select =
     \<lparr>sel_table = \<lparr>database = ''db'', table = ''t''\<rparr>, sel_columns = [''a''],
      sel_predicate = Some (Compare OpGt (Column ''a'') (Literal (PInt 1))),
      sel_unsafe_where_sql = Some ''b LIKE %(pat)s OR c = 5 % 2'',
      sel_query_parameters = [(''pat'', PStr ''x%'')], sel_partition_ids = Some [''p1'', ''p2''],
      sel_limit = PInt 7, sel_count_output_name = None, sel_projection = None\<rparr>"

fun sample_lit :: "pyobj \<Rightarrow> string" where
  "sample_lit (PStr s) = [CHR 0x27] @ s @ [CHR 0x27]"
| "sample_lit (PInt i) = int_str i"
| "sample_lit _ = ''NULL''"

text \<open>C4. The statement clickhouse-connect sends after binding is the statement meant: the projection, the
  table, the caller's fragment with its parameters in place and its percent signs intact, the predicate
  and the partitions with their literals, and the limit. A statement without parameters is sent as it
  stands, whatever it contains. With parameters the claim is conditional on the identifiers: the
  projection, the database, the table and the columns of the predicate must hold no percent sign. The
  code doubles the percent signs of the caller's fragment only, and the binding of a statement whose
  identifier holds one fails or changes it (lemma \<open>percent_column_breaks_binding\<close>).\<close>

theorem clickhouse_statement_bound:
  assumes "build_select_ch q = Inr (stmt, params)"
    and "render_projection (sel_columns q) (sel_count_output_name q) (sel_projection q) = Inr proj"
    and "limit_clause (sel_limit q) (sel_count_output_name q) = Inr ltext"
    and "params \<noteq> [] \<Longrightarrow> select_percent_free q proj"
  shows "bound_statement_ch lit stmt params = Inr (select_text_ch lit q proj ltext)"
  by (rule select_clauses [OF assms])

lemma sample_select_built:
  "build_select_ch sample_select
     = Inr (''SELECT `a` FROM `db`.`t` WHERE (b LIKE %(pat)s OR c = 5 %% 2) AND (`a` > %(__daft_olap_0)s) AND (_partition_id IN (%(__daft_olap_partition_0)s, %(__daft_olap_partition_1)s)) LIMIT 7'',
            [(''pat'', PStr ''x%''), (''__daft_olap_0'', PInt 1), (''__daft_olap_partition_0'', PStr ''p1''),
             (''__daft_olap_partition_1'', PStr ''p2'')])"
  by code_simp

theorem clickhouse_statement_bound_witness:
  "bound_statement_ch sample_lit
     (''SELECT `a` FROM `db`.`t` WHERE (b LIKE %(pat)s OR c = 5 %% 2) AND (`a` > %(__daft_olap_0)s) AND (_partition_id IN (%(__daft_olap_partition_0)s, %(__daft_olap_partition_1)s)) LIMIT 7'')
     [(''pat'', PStr ''x%''), (''__daft_olap_0'', PInt 1), (''__daft_olap_partition_0'', PStr ''p1''),
      (''__daft_olap_partition_1'', PStr ''p2'')]
   = Inr (select_text_ch sample_lit sample_select ''`a`'' '' LIMIT 7'')"
proof (rule clickhouse_statement_bound [OF sample_select_built])
  show "render_projection (sel_columns sample_select) (sel_count_output_name sample_select) (sel_projection sample_select)
      = Inr ''`a`''" by code_simp
  show "limit_clause (sel_limit sample_select) (sel_count_output_name sample_select) = Inr '' LIMIT 7''" by code_simp
  show "select_percent_free sample_select ''`a`''"
    by (simp add: select_percent_free_def sample_select_def option_list_def percent_free_def)
qed

text \<open>The parameters of a statement are the caller's, then those of the predicate, then one per
  partition; no two share a name, so no caller parameter can replace a generated one.\<close>

theorem clickhouse_parameters_distinct:
  assumes "build_select_ch q = Inr (stmt, params)"
  shows "distinct (map fst params)
    \<and> (\<exists>pred pps. select_predicate q = Inr (pred, pps)
         \<and> params = sel_query_parameters q @ pps @ concat (map partition_params (option_list (sel_partition_ids q))))"
  using build_select_ch_params [OF assms] by blast

theorem clickhouse_parameters_distinct_witness:
  "distinct (map fst [(''pat'', PStr ''x%''), (''__daft_olap_0'', PInt 1), (''__daft_olap_partition_0'', PStr ''p1''),
      (''__daft_olap_partition_1'', PStr ''p2'')])"
  using clickhouse_parameters_distinct [OF sample_select_built] by blast

section \<open>Connection and discovery\<close>

definition sample_ch_args :: ch_args where
  "sample_ch_args =
     \<lparr>a_host = PStr ''ch'', a_database = PStr ''db'', a_username = PStr ''default'', a_password = SecretArg (SecretRef ''PW''),
      a_port = PInt 8123, a_secure = PBool False, a_settings = NoMapping,
      a_client_options = MappingItems [(PStr ''compress'', PBool True)]\<rparr>"

definition sample_ch_connection :: clickhouse_connection where
  "sample_ch_connection =
     \<lparr>ch_host = ''ch'', ch_database = ''db'', ch_username = ''default'', ch_password = SecretRef ''PW'', ch_port = 8123,
      ch_secure = False, ch_settings = [], ch_client_options = [(''compress'', PBool True)]\<rparr>"

lemma sample_ch_connects: "from_options_ch [] sample_ch_args = Inr sample_ch_connection"
  by code_simp

text \<open>C31. Caller options cannot take over a managed argument: whatever options a connection was built with,
  every reserved name reaches the driver with the connector's own value, or not at all; and the
  password is looked up in the environment of the process that connects.\<close>

theorem clickhouse_arguments_managed:
  assumes "from_options_ch h a = Inr c" and "client_kwargs h' environ c limits = Inr kw"
    and "k \<in> RESERVED_CLIENT_OPTIONS"
  shows "\<exists>p. resolve_secret environ (ch_password c) = Inr p \<and> map_of kw k = map_of (managed_kwargs_ch c p limits) k"
  by (rule client_kwargs_managed [OF assms])

theorem clickhouse_arguments_managed_witness:
  "\<exists>p. resolve_secret [(''PW'', ''s3cret'')] (ch_password sample_ch_connection) = Inr p
    \<and> map_of (projr (client_kwargs [] [(''PW'', ''s3cret'')] sample_ch_connection sample_limits)) ''host''
      = map_of (managed_kwargs_ch sample_ch_connection p sample_limits) ''host''"
proof (rule clickhouse_arguments_managed [OF sample_ch_connects])
  show "client_kwargs [] [(''PW'', ''s3cret'')] sample_ch_connection sample_limits
      = Inr (projr (client_kwargs [] [(''PW'', ''s3cret'')] sample_ch_connection sample_limits))" by code_simp
  show "''host'' \<in> RESERVED_CLIENT_OPTIONS" by code_simp
qed

definition sample_ch_driver :: ch_driver where
  "sample_ch_driver =
     \<lparr>drv_installed = True, drv_get_client = (\<lambda>_. Inr ()),
      drv_query = (\<lambda>q _. if q = ENGINE_QUERY then Inr [[PStr ''MergeTree'']]
                        else if q = COLUMN_QUERY then Inr []
                        else if q = PARTS_QUERY then Inr [[PStr ''p1'', PInt 5], [PStr ''p2'', PInt 3]]
                        else Inr [[PStr ''a'', PStr ''Int64''], [PStr ''b'', PStr ''Enum8(1)'']]),
      drv_query_arrow = (\<lambda>_ _. Inr (ArrowTable sample_schema)), drv_close = Inr ()\<rparr>"

definition sample_probes :: probes where
  "sample_probes = \<lparr>pr_serialize = (\<lambda>_. None), pr_daft = (\<lambda>_. Inr ())\<rparr>"

definition sample_ch_plan :: clickhouse_schema_plan where
  "sample_ch_plan =
     \<lparr>plan_schema = sample_schema,
      plan_columns = [\<lparr>col_name = ''a'', declared_type = ''Int64'', transport_type = ''Int64''\<rparr>,
                      \<lparr>col_name = ''b'', declared_type = ''Enum8(1)'', transport_type = ''String''\<rparr>]\<rparr>"

definition sample_table :: qualified_table where
  "sample_table = \<lparr>database = ''db'', table = ''t''\<rparr>"

text \<open>C24. A discovered ClickHouse schema is consistent: the described columns are the fields of the probed
  Arrow schema, in order and all distinct, with valid names; Daft accepts every field; and every
  column's transport type is stable.\<close>

theorem clickhouse_schema_consistent:
  assumes "discover_schema_ch h environ pr d c t limits = Inr plan"
  shows "map col_name (plan_columns plan) = schema_names (plan_schema plan) \<and> distinct (schema_names (plan_schema plan))
    \<and> (\<forall>f \<in> set (schema_fields (plan_schema plan)). pr_daft pr f = Inr ())
    \<and> (\<forall>x \<in> set (plan_columns plan). valid_identifier (col_name x)
          \<and> transport_type_expression (transport_type x) = Inr (transport_type x))"
  using discover_schema_ch_Inr [OF assms] by blast

theorem clickhouse_schema_consistent_witness:
  "map col_name (plan_columns sample_ch_plan) = schema_names (plan_schema sample_ch_plan)
    \<and> distinct (schema_names (plan_schema sample_ch_plan))"
proof -
  have "discover_schema_ch [] [(''PW'', ''s3cret'')] sample_probes sample_ch_driver sample_ch_connection sample_table sample_limits
      = Inr sample_ch_plan" by code_simp
  from clickhouse_schema_consistent [OF this] show ?thesis by blast
qed

text \<open>C26. Schema discovery ends with the plan, with one of six connector errors, or with a control-flow
  exception that no handler may swallow; no driver exception and no other error gets out.\<close>

theorem clickhouse_schema_errors:
  assumes "discover_schema_ch h environ pr d c t limits = Inl e"
  shows "e \<in> {CompatibilityError, DependencyError, SchemaError, AuthenticationError, DatabasePermissionError,
               DatabaseObjectNotFoundError} \<or> e \<in> {CancelledError, GeneratorExit, KeyboardInterrupt, SystemExit}"
proof -
  have "e \<in> {SchemaError, SchemaError, AuthenticationError, DatabasePermissionError, DatabaseObjectNotFoundError}
      \<or> kept_by_schema_discovery e \<or> \<not> is_exception e"
    using assms unfolding discover_schema_ch_def Let_def by (rule clickhouse_errors.guarded_error_class)
  then show ?thesis by (cases e) (auto simp: kept_by_schema_discovery_def)
qed

theorem clickhouse_schema_errors_witness:
  "AuthenticationError \<in> {CompatibilityError, DependencyError, SchemaError, AuthenticationError, DatabasePermissionError,
     DatabaseObjectNotFoundError} \<or> AuthenticationError \<in> {CancelledError, GeneratorExit, KeyboardInterrupt, SystemExit}"
proof (rule clickhouse_schema_errors)
  show "discover_schema_ch [] [(''PW'', ''s3cret'')] sample_probes
      (sample_ch_driver\<lparr>drv_get_client := (\<lambda>_. Inl (DriverException \<lparr>ex_attrs = [(''code'', AInt 516)], ex_args = []\<rparr>))\<rparr>)
      sample_ch_connection sample_table sample_limits = Inl AuthenticationError" by code_simp
qed

text \<open>Discovered partitions have distinct nonempty identifiers and weights that are not negative; a
  table that cannot be split has none.\<close>

theorem clickhouse_partitions_valid:
  assumes "discover_partitions h environ d c t limits = Inr pd"
  shows "distinct (map partition_id (pd_partitions pd))
    \<and> (\<forall>m \<in> set (pd_partitions pd). partition_id m \<noteq> [] \<and> 0 \<le> bytes_on_disk m)
    \<and> (pd_supported pd \<or> pd_partitions pd = [])"
  using discover_partitions_Inr [OF assms] by blast

definition sample_partitions :: partition_discovery where
  "sample_partitions =
     \<lparr>pd_supported = True,
      pd_partitions = [\<lparr>partition_id = ''p1'', bytes_on_disk = 5\<rparr>, \<lparr>partition_id = ''p2'', bytes_on_disk = 3\<rparr>]\<rparr>"

lemma sample_partitions_discovered:
  "discover_partitions [] [(''PW'', ''s3cret'')] sample_ch_driver sample_ch_connection sample_table sample_limits
     = Inr sample_partitions"
  by code_simp

theorem clickhouse_partitions_valid_witness:
  "distinct (map partition_id (pd_partitions sample_partitions)) \<and> (pd_supported sample_partitions \<or> pd_partitions sample_partitions = [])"
  using clickhouse_partitions_valid [OF sample_partitions_discovered] by blast

section \<open>Scans\<close>

text \<open>The tasks of a scan read the table once: every task's query is the statement of a select, and
  these selects, run one after the other and followed by Daft's own filter and limit, give rows that
  Daft would have kept of the whole table, however the partitions were grouped, provided the parts the
  database lists hold its rows.\<close>

theorem clickhouse_scan_reads_table:
  assumes "get_tasks_ch h w s pd = (tasks, None)" and "count_pushdown (cw_daft w) pd = Inr None"
    and "valid_ch_source s" and "cs_discoverer s = None"
    and "\<And>d. discover_partitions h (cw_environ w) (cw_driver w) (cs_connection s) (cs_table s) (cs_limits s) = Inr d \<Longrightarrow>
           pd_supported d \<Longrightarrow> \<forall>r \<in> set rows. key r \<in> set (map partition_id (pd_partitions d))"
  shows "\<exists>selects kept.
      list_all2 (\<lambda>q t. build_select_ch q = Inr (sql (ct_query t), named_parameters (ct_query t))) selects tasks
    \<and> mset kept = mset (filter (daft_keeps cmp operand truth (pd_filters pd))
                          (fragment_rows fragment (cs_unsafe_where_sql s) rows))
    \<and> take_limit (pd_limit pd) (filter (daft_keeps cmp operand truth (pd_filters pd))
        (concat (map (select_rows_ch cmp fragment key rows) selects))) = take_limit (pd_limit pd) kept"
proof -
  have l: "valid_limits (cs_limits s)" using assms(3) by (simp add: valid_ch_source_def)
  have "partitions_hold h w s key rows" using assms(5) by (simp add: partitions_hold_def run_discovery_ch_def assms(4))
  from planned_scan_ch [OF assms(1,2) l assms(4) this] show ?thesis by blast
qed

definition sample_ch_source :: ch_source where
  "sample_ch_source =
     \<lparr>cs_table = sample_table, cs_limits = sample_limits, cs_connection = sample_ch_connection, cs_split = ''auto'',
      cs_policy = ''single'', cs_unsafe_where_sql = None, cs_query_parameters = [], cs_plan = sample_ch_plan,
      cs_discoverer = None\<rparr>"

definition sample_daft :: daft_api where
  "sample_daft = \<lparr>native_module = Some None, has_supports_count_pushdown = False, class_converter_callable = False,
     instance_converter_callable = False\<rparr>"

definition sample_ch_world :: ch_world where
  "sample_ch_world = \<lparr>cw_environ = [(''PW'', ''s3cret'')], cw_probes = sample_probes, cw_driver = sample_ch_driver,
     cw_daft = sample_daft\<rparr>"

definition sample_ch_source_args :: ch_source_args where
  "sample_ch_source_args =
     \<lparr>sa_split = PStr ''auto'', sa_policy = PStr ''single'', sa_unsafe_where_sql = PNone, sa_query_parameters = NoMapping,
      sa_table = PStr ''t'',
      sa_limits = \<lparr>la_batch_rows = PInt 2, la_batch_bytes = PInt 10, la_target_tasks = PInt 2, la_max_tasks = PInt 4,
                   la_connect_timeout = PInt 10, la_query_timeout = PInt 300\<rparr>,
      sa_connection = sample_ch_args, sa_arrow_schema = None, sa_discoverer = None\<rparr>"

lemma sample_ch_source_built: "ClickHouseDataSource [] sample_ch_world sample_ch_source_args = Inr sample_ch_source"
  by code_simp

definition sample_rows :: "row list" where
  "sample_rows = [\<lambda>_. PStr ''p1'', \<lambda>_. PStr ''p2'', \<lambda>_. PStr ''p1'']"

definition sample_key :: "row \<Rightarrow> string" where
  "sample_key r = (case r ''key'' of PStr k \<Rightarrow> k | _ \<Rightarrow> [])"

definition sample_scan :: pushdowns where
  "sample_scan = \<lparr>pd_filters = None, pd_columns = None, pd_limit = Some 2, pd_aggregation = None, pd_filter_required = []\<rparr>"

lemma sample_ch_source_valid: "valid_ch_source sample_ch_source"
  by (rule ClickHouseDataSource_Inr [OF sample_ch_source_built])

lemma sample_ch_tasks: "snd (get_tasks_ch [] sample_ch_world sample_ch_source sample_scan) = None"
  by code_simp

theorem clickhouse_scan_reads_table_witness:
  "\<exists>selects kept.
      list_all2 (\<lambda>q t. build_select_ch q = Inr (sql (ct_query t), named_parameters (ct_query t))) selects
        (fst (get_tasks_ch [] sample_ch_world sample_ch_source sample_scan))
    \<and> mset kept = mset (filter (daft_keeps sample_cmp (\<lambda>_ _. PNone) (\<lambda>_ _. None) (pd_filters sample_scan))
                          (fragment_rows (\<lambda>_ _. True) (cs_unsafe_where_sql sample_ch_source) sample_rows))
    \<and> take_limit (pd_limit sample_scan) (filter (daft_keeps sample_cmp (\<lambda>_ _. PNone) (\<lambda>_ _. None) (pd_filters sample_scan))
        (concat (map (select_rows_ch sample_cmp (\<lambda>_ _. True) sample_key sample_rows) selects)))
      = take_limit (pd_limit sample_scan) kept"
proof (rule clickhouse_scan_reads_table)
  show "get_tasks_ch [] sample_ch_world sample_ch_source sample_scan
      = (fst (get_tasks_ch [] sample_ch_world sample_ch_source sample_scan), None)"
    by (rule prod_eqI) (simp_all add: sample_ch_tasks)
  show "count_pushdown (cw_daft sample_ch_world) sample_scan = Inr None" by code_simp
  show "cs_discoverer sample_ch_source = None" by code_simp
  fix d
  assume "discover_partitions [] (cw_environ sample_ch_world) (cw_driver sample_ch_world) (cs_connection sample_ch_source)
      (cs_table sample_ch_source) (cs_limits sample_ch_source) = Inr d"
  then have "d = sample_partitions"
    using sample_partitions_discovered by (simp add: sample_ch_world_def sample_ch_source_def)
  then show "\<forall>r \<in> set sample_rows. sample_key r \<in> set (map partition_id (pd_partitions d))"
    by (simp add: sample_rows_def sample_key_def sample_partitions_def)
qed (rule sample_ch_source_valid)

text \<open>C28. What becomes of a scan's groups when listing the partitions raises \<open>ex\<close> (opening the client, one
  of the three queries, or reading an answer), with splitting on automatic, a limit that is not zero
  and no column named \<open>_partition_id\<close>. A control-flow exception and an error of the connector other than a
  \<open>DiscoveryError\<close> come out unchanged. An authentication, permission or not-found error of the server,
  recognised by its code or name, comes out as that category under either policy. Any other failure of
  the driver, and a \<open>DiscoveryError\<close>, is a \<open>DiscoveryError\<close> under the policy \<open>error\<close> and otherwise no
  failure: the scan reads the whole table as one group. An error that closing the client raises
  meanwhile is assumed to be an ordinary exception; it changes nothing.\<close>

theorem clickhouse_groups_fallback:
  assumes "cs_discoverer s = None" and "cs_split s = ''auto''" and "limit \<noteq> Some 0"
    and "''_partition_id'' \<notin> set (schema_names (plan_schema (cs_plan s)))"
    and "\<And>e. drv_close (cw_driver w) = Inl e \<Longrightarrow> is_exception e"
    and "listing h w s = Inl ex"
  shows "partition_groups h w s limit =
      (if \<not> is_exception ex \<or> is_daft_olap_error ex \<and> ex \<noteq> DiscoveryError then Inl ex
       else case translate_clickhouse_error ex of
         Some category \<Rightarrow> Inl category
       | None \<Rightarrow> if cs_policy s = ''error'' then Inl DiscoveryError else Inr [None])
    \<and> (\<forall>category. translate_clickhouse_error ex = Some category \<longrightarrow>
         category \<in> {AuthenticationError, DatabasePermissionError, DatabaseObjectNotFoundError})
    \<and> (\<forall>code. integer_attribute ex [''code'', ''error_code''] = Some code \<longrightarrow> code \<in> {192, 193, 194, 516, 497, 60} \<longrightarrow>
         (\<exists>category \<in> {AuthenticationError, DatabasePermissionError, DatabaseObjectNotFoundError}.
            partition_groups h w s limit = Inl category))"
proof -
  have split: "cs_split s \<noteq> ''single''" using assms(2) by simp
  have translated: "partition_groups h w s limit = Inl t"
    if "is_exception ex" "\<not> is_daft_olap_error ex" "translate_clickhouse_error ex = Some t" for t
    by (rule partition_groups_raises(1) [OF assms(6) _ assms(1) split assms(3,4) that]) (rule assms(5))
  have policy: "partition_groups h w s limit = (if cs_policy s = ''error'' then Inl DiscoveryError else Inr [None])"
    if "is_exception ex \<and> \<not> is_daft_olap_error ex \<and> translate_clickhouse_error ex = None \<or> ex = DiscoveryError"
    by (rule partition_groups_raises(2) [OF assms(6) _ assms(1) split assms(3,4) that]) (rule assms(5))
  have passed: "partition_groups h w s limit = Inl ex"
    if "\<not> is_exception ex \<or> is_daft_olap_error ex \<and> ex \<noteq> DiscoveryError"
    by (rule partition_groups_raises(3) [OF assms(6) _ assms(1) split assms(3,4) that]) (rule assms(5))
  have own: "translate_clickhouse_error ex = None" if "is_daft_olap_error ex \<or> \<not> is_exception ex"
    using clickhouse_errors.translate_driver_only [of ex] that by (cases "translate_clickhouse_error ex") auto
  have coded: "translate_clickhouse_error ex \<noteq> None"
    if "integer_attribute ex [''code'', ''error_code''] = Some code" "code \<in> {192, 193, 194, 516, 497, 60}" for code
    using that by (auto simp: translate_clickhouse_error_def Let_def)
  have groups: "partition_groups h w s limit =
      (if \<not> is_exception ex \<or> is_daft_olap_error ex \<and> ex \<noteq> DiscoveryError then Inl ex
       else case translate_clickhouse_error ex of
         Some category \<Rightarrow> Inl category
       | None \<Rightarrow> if cs_policy s = ''error'' then Inl DiscoveryError else Inr [None])"
    using translated policy passed own by (auto split: option.splits)
  moreover have "category \<in> {AuthenticationError, DatabasePermissionError, DatabaseObjectNotFoundError}"
    if "translate_clickhouse_error ex = Some category" for category
    using translate_clickhouse_class [OF that] .
  moreover have "\<exists>category \<in> {AuthenticationError, DatabasePermissionError, DatabaseObjectNotFoundError}.
      partition_groups h w s limit = Inl category"
    if "integer_attribute ex [''code'', ''error_code''] = Some code" "code \<in> {192, 193, 194, 516, 497, 60}" for code
  proof -
    from coded [OF that] obtain t where t: "translate_clickhouse_error ex = Some t" by auto
    then have "is_exception ex" "\<not> is_daft_olap_error ex" using own by auto
    then show ?thesis using translated [OF _ _ t] translate_clickhouse_class [OF t] by blast
  qed
  ultimately show ?thesis by blast
qed

definition failing_world :: "(string \<times> pyattr) list \<Rightarrow> ch_world" where
  "failing_world attrs = sample_ch_world\<lparr>cw_driver := sample_ch_driver\<lparr>drv_query := (\<lambda>q _.
     if q = ENGINE_QUERY then Inr [[PStr ''MergeTree'']] else Inl (DriverException \<lparr>ex_attrs = attrs, ex_args = []\<rparr>))\<rparr>\<rparr>"

lemma failing_world_facts:
  "cs_discoverer sample_ch_source = None" "cs_split sample_ch_source = ''auto''" "cs_policy sample_ch_source = ''single''"
  "''_partition_id'' \<notin> set (schema_names (plan_schema (cs_plan sample_ch_source)))"
  "drv_close (cw_driver (failing_world attrs)) = Inl e \<Longrightarrow> is_exception e"
  by (simp_all add: sample_ch_source_def failing_world_def sample_ch_driver_def sample_ch_plan_def sample_schema_def
      schema_names_def)

lemma failing_world_listing:
  "listing [] (failing_world [(''code'', AInt 516)]) sample_ch_source
     = Inl (DriverException \<lparr>ex_attrs = [(''code'', AInt 516)], ex_args = []\<rparr>)"
  "listing [] (failing_world []) sample_ch_source = Inl (DriverException \<lparr>ex_attrs = [], ex_args = []\<rparr>)"
  by code_simp+

theorem clickhouse_groups_fallback_witness:
  "partition_groups [] (failing_world [(''code'', AInt 516)]) sample_ch_source None = Inl AuthenticationError
   \<and> partition_groups [] (failing_world []) sample_ch_source None = Inr [None]"
proof (rule conjI)
  have "translate_clickhouse_error (DriverException \<lparr>ex_attrs = [(''code'', AInt 516)], ex_args = []\<rparr>) = Some AuthenticationError"
    by code_simp
  then show "partition_groups [] (failing_world [(''code'', AInt 516)]) sample_ch_source None = Inl AuthenticationError"
    using clickhouse_groups_fallback [OF failing_world_facts(1,2) _ failing_world_facts(4,5) failing_world_listing(1), of None] by simp
  have "translate_clickhouse_error (DriverException \<lparr>ex_attrs = [], ex_args = []\<rparr>) = None"
    by code_simp
  then show "partition_groups [] (failing_world []) sample_ch_source None = Inr [None]"
    using clickhouse_groups_fallback [OF failing_world_facts(1,2) _ failing_world_facts(4,5) failing_world_listing(2), of None]
    by (simp add: failing_world_facts(3))
qed

section \<open>Streams\<close>

text \<open>C16. Every batch a ClickHouse stream yields has exactly the planned schema, is not empty, and is
  within the limits: no more rows than allowed, and no more bytes than targeted unless it is a single
  row. This holds of a stream that fails or is left early too.\<close>

theorem clickhouse_stream_within_limits:
  assumes "arrow_table_ops pa rows" and "valid_limits l"
    and "b \<in> set (fst (stream_query_ch h environ pa d c q l leave))"
  shows "pa_schema pa b = arrow_schema q \<and> rows b \<noteq> [] \<and> int (length (rows b)) \<le> batch_rows l
    \<and> (length (rows b) = 1 \<or> int (pa_nbytes pa b) \<le> batch_bytes l)"
  using arrow_table_ops.stream_query_ch_delivers [OF assms] by (simp add: delivered_def)

definition sample_ops :: "arrow_table arrow_ops" where
  "sample_ops = list_ops (\<lambda>_. 4) (\<lambda>_ v. Some v)"

definition sample_batch :: arrow_table where
  "sample_batch = \<lparr>at_schema = sample_schema, at_rows = [[PInt 1, PNone], [PInt 2, PNone], [PInt 3, PNone]]\<rparr>"

definition sample_stream :: "arrow_table ch_async" where
  "sample_stream = \<lparr>as_installed = True, as_get_client = (\<lambda>_. Inr ()), as_query_stream = (\<lambda>_ _ _. Inr ()),
     as_enter = Inr (), as_items = [Batch sample_batch], as_exit = Inr (), as_close = Inr ()\<rparr>"

definition sample_query :: query_spec where
  "sample_query = \<lparr>sql = ''SELECT 1'', positional_parameters = [], named_parameters = [], arrow_schema = sample_schema\<rparr>"

lemma sample_ops_contract: "arrow_table_ops sample_ops at_rows"
  unfolding sample_ops_def by (rule list_table.arrow_table_ops_axioms)

theorem clickhouse_stream_within_limits_witness:
  "sample_batch\<lparr>at_rows := take 2 (at_rows sample_batch)\<rparr>
     \<in> set (fst (stream_query_ch [] [(''PW'', ''s3cret'')] sample_ops sample_stream sample_ch_connection sample_query sample_limits None))
   \<and> int (length (take 2 (at_rows sample_batch))) \<le> batch_rows sample_limits"
proof (rule conjI)
  show b: "sample_batch\<lparr>at_rows := take 2 (at_rows sample_batch)\<rparr>
     \<in> set (fst (stream_query_ch [] [(''PW'', ''s3cret'')] sample_ops sample_stream sample_ch_connection sample_query sample_limits None))"
    by code_simp
  show "int (length (take 2 (at_rows sample_batch))) \<le> batch_rows sample_limits"
    using clickhouse_stream_within_limits [OF sample_ops_contract sample_limits_valid b] by simp
qed

text \<open>C10. A ClickHouse stream that ends without an error has delivered everything: the driver yielded only
  record batches, and the rows delivered are as many as the rows received; where no cast was needed
  they are the same rows in the same order.\<close>

theorem clickhouse_stream_complete:
  assumes "arrow_table_ops pa rows" and "valid_limits l"
    and "stream_query_ch h environ pa d c q l leave = (bs, Inr ())"
  shows "\<exists>received. as_items d = map Batch received
    \<and> length (concat (map rows bs)) = length (concat (map rows received))
    \<and> ((\<forall>b \<in> set received. schema_fields (pa_schema pa b) = schema_fields (arrow_schema q)) \<longrightarrow>
         concat (map rows bs) = concat (map rows received))"
  using arrow_table_ops.stream_query_ch_complete [OF assms(1,2), of h environ d c q leave] assms(3) by simp

lemma sample_stream_ends:
  "stream_query_ch [] [(''PW'', ''s3cret'')] sample_ops sample_stream sample_ch_connection sample_query sample_limits None
     = ([sample_batch\<lparr>at_rows := take 2 (at_rows sample_batch)\<rparr>, sample_batch\<lparr>at_rows := drop 2 (at_rows sample_batch)\<rparr>], Inr ())"
  by code_simp

theorem clickhouse_stream_complete_witness:
  "\<exists>received. as_items sample_stream = map Batch received
    \<and> length (take 2 (at_rows sample_batch) @ drop 2 (at_rows sample_batch)) = length (concat (map at_rows received))"
  using clickhouse_stream_complete [OF sample_ops_contract sample_limits_valid sample_stream_ends] by auto

section \<open>Observations\<close>

text \<open>A secret reference to a variable that is not set is a configuration error, which schema discovery
  reports as a schema error.\<close>

lemma missing_secret_schema_error:
  "resolve_secret [] (ch_password sample_ch_connection) = Inl ConfigurationError
   \<and> discover_schema_ch [] [] sample_probes sample_ch_driver sample_ch_connection sample_table sample_limits = Inl SchemaError"
  by code_simp

text \<open>A percent sign in a column name is not doubled when the driver binds parameters, and the driver's
  formatting then fails.\<close>

definition sample_percent_select :: ch_select where
  "sample_percent_select = sample_select\<lparr>sel_columns := [''50%''], sel_unsafe_where_sql := None, sel_query_parameters := [],
     sel_partition_ids := None\<rparr>"

lemma percent_column_breaks_binding:
  "case build_select_ch sample_percent_select of
     Inl e \<Rightarrow> False
   | Inr (stmt, params) \<Rightarrow> params \<noteq> [] \<and> bound_statement_ch sample_lit stmt params = Inl ValueError"
  by code_simp

end
