(* ===== verification/Query_Plan_Opener.thy ===== *)
theory Query_Plan_Opener
  imports Doris_Discovery
begin

text \<open>
  The opener of the query plan request (\<^verbatim>\<open>src/src/daft_olap/doris/discovery.py\<close>, \<open>_RejectRedirects\<close>,
  \<open>_QUERY_PLAN_OPENER\<close>, \<open>_open_query_plan\<close>): what \<open>urllib.request\<close> does with an opener built from a
  proxy handler and a redirect handler, with every request it sends on record. The network is a
  parameter: it answers in any way, and may let its answer depend on all it was sent so far.
\<close>

section \<open>The network\<close>

datatype peer = Direct | ByProxy string

type_synonym sent = "(peer \<times> http_request) list"

text \<open>A reply has a status, perhaps a \<open>Location\<close>, and a body that can be read.\<close>

record http_reply =
  rep_status :: int
  rep_location :: "string option"
  rep_read :: "int \<Rightarrow> http_error + string"

type_synonym network = "sent \<Rightarrow> http_error + http_reply"

definition response_of :: "http_reply \<Rightarrow> http_response" where
  "response_of rep = \<lparr>resp_status = rep_status rep, resp_read = rep_read rep\<rparr>"

section \<open>Openers\<close>

text \<open>
  The two handlers that \<open>build_opener\<close> gets: the proxy for each scheme, and \<open>redirect_request\<close>, which
  gets the request, the status and the new URL and raises, declines with \<open>None\<close>, or returns the
  request to send instead.
\<close>

record opener =
  op_proxies :: "(string \<times> string) list"
  op_redirect :: "http_request \<Rightarrow> int \<Rightarrow> string \<Rightarrow> http_error + http_request option"

definition reject_redirect_request :: "http_request \<Rightarrow> int \<Rightarrow> string \<Rightarrow> http_error + http_request option" where
  "reject_redirect_request req status newurl = Inr None"

definition QUERY_PLAN_OPENER :: opener where
  "QUERY_PLAN_OPENER = \<lparr>op_proxies = [], op_redirect = reject_redirect_request\<rparr>"

text \<open>The handler of the standard library, which the package's class overrides.\<close>

definition default_redirect_request :: "http_request \<Rightarrow> int \<Rightarrow> string \<Rightarrow> http_error + http_request option" where
  "default_redirect_request req status newurl =
     (if status \<in> {301, 302, 303, 307, 308} \<and> req_method req \<in> {''GET'', ''HEAD''}
         \<or> status \<in> {301, 302, 303} \<and> req_method req = ''POST''
      then Inr (Some \<lparr>req_method = ''GET'', req_url = newurl, req_body = [],
             req_headers = filter (\<lambda>kv. fst kv \<notin> {''Content-Length'', ''Content-Type''}) (req_headers req),
             req_unredirected = []\<rparr>)
      else Inl (HTTPError status))"

definition url_scheme :: "string \<Rightarrow> string" where
  "url_scheme url = takeWhile (\<lambda>c. c \<noteq> CHR '':'') url"

definition peer_of :: "(string \<times> string) list \<Rightarrow> http_request \<Rightarrow> peer" where
  "peer_of proxies req =
     (case map_of proxies (url_scheme (req_url req)) of None \<Rightarrow> Direct | Some p \<Rightarrow> ByProxy p)"

section \<open>Opening a request\<close>

text \<open>
  A URL is followed at most four times in one call, and at most ten different ones are. \<open>visited\<close> is the
  \<open>redirect_dict\<close> of the request, with one entry for every visit; \<open>resolve\<close> makes the new URL
  absolute, and is \<open>None\<close> for a scheme that is not followed. Each redirection adds to \<open>visits\<close>.
\<close>

definition may_follow :: "string list \<Rightarrow> string \<Rightarrow> bool" where
  "may_follow visited newurl \<longleftrightarrow> count_list visited newurl < 4 \<and> card (set visited) < 10"

definition visits :: "string list \<Rightarrow> nat" where
  "visits visited = (\<Sum>u \<in> set visited. min 4 (count_list visited u))"

lemma visits_Cons:
  assumes "may_follow visited u"
  shows "visits (u # visited) = Suc (visits visited)" and "visits visited < 40"
proof -
  let ?m = "\<lambda>xs v. min 4 (count_list xs v)"
  have c: "count_list visited u < 4" and n: "card (set visited) \<le> 9" using assms by (auto simp: may_follow_def)
  have "visits visited \<le> card (set visited) * 4"
    unfolding visits_def using sum_bounded_above [of "set visited" "?m visited" 4] by simp
  then show "visits visited < 40" using n by simp
  have others: "(\<Sum>v \<in> set visited - {u}. ?m (u # visited) v) = (\<Sum>v \<in> set visited - {u}. ?m visited v)"
    by (rule sum.cong) auto
  have "visits (u # visited) = ?m (u # visited) u + (\<Sum>v \<in> set visited - {u}. ?m (u # visited) v)"
    unfolding visits_def by (simp add: sum.insert_remove)
  moreover have "visits visited = ?m visited u + (\<Sum>v \<in> set visited - {u}. ?m visited v)"
  proof (cases "u \<in> set visited")
    case True
    then show ?thesis unfolding visits_def by (simp add: sum.remove)
  next
    case False
    then show ?thesis unfolding visits_def by (simp add: count_list_0_iff)
  qed
  ultimately show "visits (u # visited) = Suc (visits visited)" using others c by simp
qed

lemma visits_decrease: "may_follow visited u \<Longrightarrow> 40 - visits (u # visited) < 40 - visits visited"
  using visits_Cons [of visited u] by simp

function open_request ::
    "opener \<Rightarrow> network \<Rightarrow> (string \<Rightarrow> string \<Rightarrow> string option) \<Rightarrow> string list \<Rightarrow> sent \<Rightarrow> http_request
       \<Rightarrow> sent \<times> (http_error + http_response)" where
  "open_request opn net resolve visited sent req =
     (let sent' = sent @ [(peer_of (op_proxies opn) req, req)]
      in case net sent' of
           Inl f \<Rightarrow> (sent', Inl f)
         | Inr rep \<Rightarrow>
             if 200 \<le> rep_status rep \<and> rep_status rep < 300 then (sent', Inr (response_of rep))
             else let failed = (sent', Inl (HTTPError (rep_status rep)))
                  in if rep_status rep \<notin> {301, 302, 303, 307, 308} then failed
                     else case Option.bind (rep_location rep) (resolve (req_url req)) of
                            None \<Rightarrow> failed
                          | Some newurl \<Rightarrow>
                              (case op_redirect opn req (rep_status rep) newurl of
                                 Inl f \<Rightarrow> (sent', Inl f)
                               | Inr None \<Rightarrow> failed
                               | Inr (Some req') \<Rightarrow>
                                   if may_follow visited newurl
                                   then open_request opn net resolve (newurl # visited) sent' req'
                                   else failed))"
  by pat_completeness auto

termination
  by (relation "measure (\<lambda>(opn, net, resolve, visited, sent, req). 40 - visits visited)")
    (simp_all add: visits_decrease)

declare open_request.simps [simp del]

definition open_query_plan ::
    "network \<Rightarrow> (string \<Rightarrow> string \<Rightarrow> string option) \<Rightarrow> http_request \<Rightarrow> sent \<times> (http_error + http_response)" where
  "open_query_plan net resolve req = open_request QUERY_PLAN_OPENER net resolve [] [] req"

text \<open>The driver process whose HTTP goes through this opener; the network may depend on the time-out.\<close>

definition opened_world :: "doris_world \<Rightarrow> (rat \<Rightarrow> network) \<Rightarrow> (string \<Rightarrow> string \<Rightarrow> string option) \<Rightarrow> doris_world" where
  "opened_world w net resolve = w\<lparr>dw_open := (\<lambda>timeout req. snd (open_query_plan (net timeout) resolve req))\<rparr>"

section \<open>What is sent\<close>

text \<open>Whatever a server answers, one request is sent, and not by a proxy.\<close>

lemma open_query_plan_sent: "fst (open_query_plan net resolve req) = [(Direct, req)]"
  unfolding open_query_plan_def
  by (subst open_request.simps)
    (simp add: QUERY_PLAN_OPENER_def reject_redirect_request_def peer_of_def Let_def split: sum.splits option.splits)

lemma open_query_plan_outcome:
  "snd (open_query_plan net resolve req) =
     (case net [(Direct, req)] of
        Inl f \<Rightarrow> Inl f
      | Inr rep \<Rightarrow> if 200 \<le> rep_status rep \<and> rep_status rep < 300 then Inr (response_of rep) else Inl (HTTPError (rep_status rep)))"
  unfolding open_query_plan_def
  by (subst open_request.simps)
    (simp add: QUERY_PLAN_OPENER_def reject_redirect_request_def peer_of_def Let_def split: sum.splits option.splits)

text \<open>
  The library's own handler would go on to the new origin; the request it makes there has lost the
  header with the credentials, so that only the first request ever carries it.
\<close>

lemma default_redirect_drops: "default_redirect_request req status newurl = Inr (Some req') \<Longrightarrow> req_unredirected req' = []"
  by (auto simp: default_redirect_request_def split: if_splits)

lemma open_request_credentials:
  assumes "op_redirect opn = default_redirect_request"
  shows "\<exists>rest. fst (open_request opn net resolve visited sent req) = sent @ (peer_of (op_proxies opn) req, req) # rest
    \<and> (\<forall>pr \<in> set rest. req_unredirected (snd pr) = [])"
  using assms
proof (induction opn net resolve visited sent req rule: open_request.induct)
  case (1 opn net resolve visited sent req)
  let ?sent = "sent @ [(peer_of (op_proxies opn) req, req)]"
  show ?case
  proof (cases "fst (open_request opn net resolve visited sent req) = ?sent")
    case False
    then obtain rep newurl req' where n: "net ?sent = Inr rep" "\<not> (200 \<le> rep_status rep \<and> rep_status rep < 300)"
        "rep_status rep \<in> {301, 302, 303, 307, 308}" "Option.bind (rep_location rep) (resolve (req_url req)) = Some newurl"
      and r: "op_redirect opn req (rep_status rep) newurl = Inr (Some req')" and m: "may_follow visited newurl"
      by (subst (asm) open_request.simps) (auto simp: Let_def split: sum.splits option.splits if_splits)
    have "fst (open_request opn net resolve visited sent req) = fst (open_request opn net resolve (newurl # visited) ?sent req')"
      by (subst open_request.simps) (use n r m in \<open>auto simp: Let_def\<close>)
    moreover have "req_unredirected req' = []" using r 1(2) by (auto dest: default_redirect_drops)
    ultimately show ?thesis using 1(1) [OF refl n(1,2) refl _ n(4) r refl m 1(2)] n(3) by auto
  qed simp
qed

lemma send_query_plan_ok:
  assumes "send_request (\<lambda>req. snd (open_query_plan net resolve req)) req = Inr body"
  obtains rep where "net [(Direct, req)] = Inr rep" and "rep_status rep = 200"
    and "rep_read rep (MAX_QUERY_PLAN_RESPONSE_BYTES + 1) = Inr body"
  using assms
  by (auto simp: send_request_def read_response_def open_query_plan_outcome response_of_def split: sum.splits if_splits)

end
