(* ===== verification/Doris_Properties.thy ===== *)
theory Doris_Properties
  imports Common_Properties Scan_Reading Query_Plan_Opener
begin

text \<open>
  The properties of the Doris connector: statements, the schema, the query plan service, the
  scan, both transports, the cursor's life cycle and the worker thread. Each is followed by an
  application at a concrete input where it has hypotheses.
\<close>

section \<open>Statements\<close>

definition sample_doris_table :: qualified_table where
  "sample_doris_table = \<lparr>database = ''db'', table = ''t''\<rparr>"

definition sample_doris_select :: doris_select where
  "sample_doris_select =
     \<lparr>ds_table = sample_doris_table, ds_columns = [''a''], ds_style = MySql,
      ds_predicate = Some (Compare OpGt (Column ''a'') (Literal (PInt 1))),
      ds_unsafe_where_sql = Some ''b LIKE :pat OR c = 5 % 2'', ds_query_parameters = [(''pat'', PStr ''x%'')],
      ds_tablet_ids = Some [PInt 11, PInt 12], ds_limit = PInt 7, ds_count_output_name = None\<rparr>"

fun sample_literal :: "pyobj \<Rightarrow> string" where
  "sample_literal (PStr s) = [CHR 0x27] @ s @ [CHR 0x27]"
| "sample_literal (PInt i) = int_str i"
| "sample_literal _ = ''NULL''"

text \<open>C5. The statement Doris receives is the statement meant, with either transport. For Flight the
  statement already carries its literals, has no parameters left and is sent as it stands, whatever it
  contains; so is a MySQL statement without parameters. For a MySQL statement with parameters, PyMySQL's
  formatting puts every literal in its place and restores every percent sign of the caller's fragment,
  on the condition that the identifiers (the projection, the database, the table and the columns of the
  predicate) hold no percent sign: the code does not double theirs.\<close>

theorem doris_statement_bound:
  assumes "build_select_doris q = Inr (stmt, params)" and "projection_doris q = Inr proj"
    and "tablet_clause (ds_tablet_ids q) = Inr tablets"
    and "limit_clause (ds_limit q) (ds_count_output_name q) = Inr ltext" and "params \<noteq> [] \<Longrightarrow> doris_percent_free q proj"
  shows "bound_statement_doris lit stmt params = Inr (select_text_doris lit q proj tablets ltext)
    \<and> (ds_style q = Flight \<longrightarrow> params = [])"
  using doris_statement [OF assms] by blast

lemma sample_doris_built:
  "build_select_doris sample_doris_select
     = Inr (''SELECT `a` FROM `db`.`t` TABLET(11, 12) WHERE (b LIKE %s OR c = 5 %% 2) AND (`a` > %s) LIMIT 7'',
            [PStr ''x%'', PInt 1])"
  by code_simp

theorem doris_statement_bound_witness:
  "bound_statement_doris sample_literal
     ''SELECT `a` FROM `db`.`t` TABLET(11, 12) WHERE (b LIKE %s OR c = 5 %% 2) AND (`a` > %s) LIMIT 7'' [PStr ''x%'', PInt 1]
   = Inr (select_text_doris sample_literal sample_doris_select ''`a`'' '' TABLET(11, 12)'' '' LIMIT 7'')"
proof -
  have "doris_percent_free sample_doris_select ''`a`''"
    by (simp add: doris_percent_free_def sample_doris_select_def sample_doris_table_def option_list_def percent_free_def)
  moreover have "projection_doris sample_doris_select = Inr ''`a`''"
    "tablet_clause (ds_tablet_ids sample_doris_select) = Inr '' TABLET(11, 12)''"
    "limit_clause (ds_limit sample_doris_select) (ds_count_output_name sample_doris_select) = Inr '' LIMIT 7''"
    by code_simp+
  ultimately show ?thesis using doris_statement_bound [OF sample_doris_built] by blast
qed

section \<open>Schema\<close>

definition sample_doris_args :: doris_args where
  "sample_doris_args =
     \<lparr>da_host = PStr ''fe'', da_database = PStr ''db'', da_username = PStr ''root'', da_password = SecretArg (SecretRef ''PW''),
      da_mysql_port = PInt 9030, da_http_port = PInt 8030, da_flight_port = PInt 9090,
      da_mysql_options = MappingItems [(PStr ''ssl'', PBool True)], da_flight_options = NoMapping,
      da_http_secure = PBool False, da_flight_secure = PBool False\<rparr>"

definition sample_doris_connection :: doris_connection where
  "sample_doris_connection =
     \<lparr>do_host = ''fe'', do_database = ''db'', do_username = ''root'', do_password = SecretRef ''PW'', do_mysql_port = 9030,
      do_http_port = 8030, do_flight_port = 9090, do_mysql_options = [(''ssl'', PBool True)], do_flight_options = [],
      do_http_secure = False, do_flight_secure = False\<rparr>"

lemma sample_doris_connects: "from_options_doris [] sample_doris_args = Inr sample_doris_connection"
  by code_simp

definition sample_mysql :: mysql_pkg where
  "sample_mysql =
     \<lparr>my_installed = True, my_connect = (\<lambda>_. Inr ()), my_cursor = Inr (), my_execute = (\<lambda>_. Inr ()),
      my_fetches = [Inr [[PStr ''a'', PStr ''BIGINT'', PStr ''NO'']], Inr [[PStr ''b'', PStr ''DECIMAL(9,2)'', PStr ''YES'']], Inr []],
      my_mogrify = (\<lambda>s _. Inr (MogrifiedText s)), my_cursor_close = Inr (), my_connection_close = Inr ()\<rparr>"

definition sample_doris_schema :: arrow_schema where
  "sample_doris_schema =
     \<lparr>schema_fields = [\<lparr>field_name = ''a'', field_type = ArrowInt64, field_nullable = False\<rparr>,
                       \<lparr>field_name = ''b'', field_type = ArrowDecimal128 9 2, field_nullable = True\<rparr>],
      schema_metadata = []\<rparr>"

text \<open>C25. A discovered Doris schema has one field per described column, in order, with distinct valid names
  and a type from the supported set, decimals within Arrow's 38 digits and their scale within the
  precision; and Daft accepts every field.\<close>

theorem doris_schema_sound:
  assumes "discover_schema_doris h environ daft d c t limits = Inr sch"
  shows "\<exists>rows columns. fetch_all (my_fetches d) = Inr rows \<and> parse_describe_rows rows = Inr columns
      \<and> schema_names sch = map dc_name columns \<and> length columns = length rows
    \<and> distinct (schema_names sch) \<and> (\<forall>n \<in> set (schema_names sch). valid_identifier n)
    \<and> (\<forall>f \<in> set (schema_fields sch). doris_arrow_type (field_type f) \<and> daft f = Inr ())"
proof -
  from discover_schema_doris_Inr(1) [OF assms] obtain rows columns where
    r: "fetch_all (my_fetches d) = Inr rows" and c: "parse_describe_rows rows = Inr columns"
    and s: "canonical_schema_doris columns = Inr sch" by (auto simp: r_bind_Inr_iff)
  have "length columns = length rows" using c by (auto simp: parse_describe_rows_Inr_iff dest: list_all2_lengthD)
  moreover have "\<forall>f \<in> set (schema_fields sch). daft f = Inr ()"
    using discover_schema_doris_Inr(2) [OF assms] by (simp add: validate_daft_Inr_iff)
  ultimately show ?thesis using r c doris_schema_of_rows [OF c s] by blast
qed

theorem doris_schema_sound_witness:
  "distinct (schema_names sample_doris_schema)
   \<and> list_all (\<lambda>f. doris_arrow_type (field_type f)) (schema_fields sample_doris_schema)"
proof -
  have "discover_schema_doris [] [(''PW'', ''s3cret'')] (\<lambda>_. Inr ()) sample_mysql sample_doris_connection sample_doris_table sample_limits
      = Inr sample_doris_schema" by code_simp
  from doris_schema_sound [OF this] show ?thesis unfolding list_all_iff by blast
qed

section \<open>The query plan service\<close>

text \<open>C22. The request for a query plan says what was meant, whatever characters the names, the password and
  the statement have: the path has exactly the two names as segments, which percent and UTF-8 decoding
  give back and which hold no slash; the body is a JSON object in ASCII whose only member decodes to the
  statement; and the header decodes to user and password.\<close>

theorem query_plan_request_reads_back:
  "\<exists>d n text token.
     req_url (query_plan_request c t password statement) = query_plan_origin c @ ''/api/'' @ d @ ''/'' @ n @ ''/_query_plan''
   \<and> utf8_decode (url_unquote d) = Some (database t) \<and> utf8_decode (url_unquote n) = Some (table t)
   \<and> CHR ''/'' \<notin> set d \<union> set n
   \<and> req_body (query_plan_request c t password statement) = ''{'' @ json_dumps_str ''sql'' @ '': '' @ text @ ''}''
   \<and> list_all (\<lambda>x. code x < 128) text \<and> json_read_str (text @ ''}'') = Some (statement, ''}'')
   \<and> req_unredirected (query_plan_request c t password statement) = [(''Authorization'', ''Basic '' @ token)]
   \<and> Option.bind (b64decode token) utf8_decode = Some (do_username c @ '':'' @ password) \<and> is_b64_text token"
proof -
  have "\<not> (url_unreserved (CHR ''/'') \<or> CHR ''/'' = CHR ''%'')" by (simp add: url_unreserved_def char_class_defs)
  then have "CHR ''/'' \<notin> set (url_quote x)" for x using url_quote_chars by blast
  then show ?thesis
    by (intro exI [of _ "url_quote (database t)"] exI [of _ "url_quote (table t)"] exI [of _ "json_dumps_str statement"]
        exI [of _ "b64encode (utf8_encode (do_username c @ '':'' @ password))"])
      (simp only: request_body_ascii,
       simp add: query_plan_request_def query_plan_url_def url_quote_inverse json_dumps_ascii json_read_dumps
         b64decode_encode utf8_decode_encode b64encode_text)
qed

definition sample_plan_response :: json where
  "sample_plan_response =
     JDict [(''code'', JInt 0), (''data'', JDict [(''status'', JInt 200),
       (''partitions'', JDict [(''12'', JNull), (''11'', JNull), (''30'', JNull)])])]"

definition sample_doris_world :: doris_world where
  "sample_doris_world =
     \<lparr>dw_environ = [(''PW'', ''s3cret'')], dw_mysql = sample_mysql,
      dw_open = (\<lambda>_ _. Inr \<lparr>resp_status = 200, resp_read = (\<lambda>_. Inr ''plan'')\<rparr>),
      dw_json_loads = (\<lambda>s. if s = ''plan'' then Inr sample_plan_response else Inl JSONDecodeError)\<rparr>"

text \<open>Discovered tablets are in increasing order, all distinct, and all positive.\<close>

theorem doris_tablets_sorted:
  assumes "discover_tablets h w c t statement parameters limits timeout = Inr ids"
  shows "sorted ids \<and> distinct ids \<and> (\<forall>i \<in> set ids. 0 < i)"
  using discover_tablets_Inr [OF assms] by blast

lemma sample_response: "send_request (dw_open sample_doris_world q) r = Inr ''plan''"
  by (simp add: send_request_def read_response_def sample_doris_world_def MAX_QUERY_PLAN_RESPONSE_BYTES_def)

lemma sample_steps:
  "resolve_secret (dw_environ sample_doris_world) (do_password sample_doris_connection) = Inr ''s3cret''"
  "validate_timeout_seconds (PInt 5) = Inr 5" "validate_timeout_seconds (timeout_obj 5) = Inr 5"
  "parse_body (dw_json_loads sample_doris_world) ''plan'' = Inr [11, 12, 30]"
  by code_simp+

lemma sample_tablets:
  assumes "validate_timeout_seconds timeout = Inr 5"
  shows "discover_tablets [] sample_doris_world sample_doris_connection sample_doris_table statement [] sample_limits timeout
    = Inr [11, 12, 30]"
  using assms by (simp add: discover_tablets_def materialize_plan_sql_def sample_steps sample_response)

theorem doris_tablets_sorted_witness: "sorted [11, 12, 30 :: int] \<and> distinct [11, 12, 30 :: int]"
  using doris_tablets_sorted [OF sample_tablets [OF sample_steps(2)]] by blast

text \<open>C27. Whatever the HTTP library, the JSON decoder and the driver do, discovering tablets fails with an
  error of the connector or a control-flow exception, except in three ways, and in those the error is
  exactly the foreign one: the request for the query plan (or the reading of its answer) raised an
  exception that is none of \<open>HTTPError\<close>, \<open>URLError\<close>, \<open>OSError\<close> and \<open>TimeoutError\<close>, as \<open>http.client\<close> does for a
  truncated or malformed answer; the JSON decoder raised an exception that is neither its decoding
  error nor a Unicode error, as Python does for an integer literal with too many digits; or the driver
  rendered the statement to bytes that are not UTF-8. Every failure of the environment lookup, the
  validation, the driver's connection, the HTTP status and the content of the answer is translated.\<close>

theorem doris_tablets_errors:
  assumes "discover_tablets h w c t statement parameters limits timeout = Inl e"
  shows "is_daft_olap_error e \<or> e \<in> {CancelledError, GeneratorExit, KeyboardInterrupt, SystemExit}
    \<or> (\<exists>q p r. resolve_secret (dw_environ w) (do_password c) = Inr p
         \<and> (dw_open w q (query_plan_request c t p r) = Inl (OtherHttp e)
            \<or> (\<exists>answer. dw_open w q (query_plan_request c t p r) = Inr answer
                 \<and> resp_read answer (MAX_QUERY_PLAN_RESPONSE_BYTES + 1) = Inl (OtherHttp e))))
    \<or> (\<exists>body. dw_json_loads w body = Inl (OtherJson e))
    \<or> (e = ValueError \<and> (\<exists>b. my_mogrify (dw_mysql w) statement parameters = Inr (MogrifiedBytes b) \<and> utf8_decode b = None))"
  using assms
proof (cases rule: discover_tablets_error)
  case contained
  then show ?thesis by (cases e) (auto simp: contained_def)
qed blast+

theorem doris_tablets_errors_witness:
  "is_daft_olap_error AuthenticationError \<or> AuthenticationError \<in> {CancelledError, GeneratorExit, KeyboardInterrupt, SystemExit}"
proof -
  let ?w = "sample_doris_world\<lparr>dw_open := (\<lambda>_ _. Inl (HTTPError 401))\<rparr>"
  have "discover_tablets [] ?w sample_doris_connection sample_doris_table ''SELECT 1'' [] sample_limits (PInt 5)
      = Inl AuthenticationError"
    by (simp add: discover_tablets_def materialize_plan_sql_def send_request_def sample_steps)
  moreover have "dw_json_loads ?w body \<noteq> Inl (OtherJson AuthenticationError)" for body
    by (simp add: sample_doris_world_def)
  ultimately show ?thesis using doris_tablets_errors by fastforce
qed

text \<open>Two of the three ways out: an exception of \<open>http.client\<close>, and the decoder's \<open>ValueError\<close>, come out as they are.\<close>

lemma library_errors_escape:
  "discover_tablets [] (sample_doris_world\<lparr>dw_open := (\<lambda>_ _. Inl (OtherHttp (DriverException a)))\<rparr>) sample_doris_connection
     sample_doris_table ''SELECT 1'' [] sample_limits (PInt 5) = Inl (DriverException a)"
  "discover_tablets [] (sample_doris_world\<lparr>dw_json_loads := (\<lambda>_. Inl (OtherJson ValueError))\<rparr>) sample_doris_connection
     sample_doris_table ''SELECT 1'' [] sample_limits (PInt 5) = Inl ValueError"
  by (simp_all add: discover_tablets_def materialize_plan_sql_def send_request_def sample_steps sample_response
      parse_body_def sample_response [unfolded send_request_def])

text \<open>C23. The credentials of a query plan request go to the configured origin and nowhere else: whatever is
  answered, a redirection included, one request is sent, by no proxy, and its URL lies under the
  connection's origin. An answer that redirects fails the discovery; tablets are only ever read from
  an answer of status 200 to that one request.\<close>

theorem query_plan_stays_at_origin:
  "(\<exists>path. req_url (query_plan_request c t password rendered) = query_plan_origin c @ ''/api/'' @ path)
   \<and> fst (open_query_plan network resolve (query_plan_request c t password rendered))
       = [(Direct, query_plan_request c t password rendered)]
   \<and> (network [(Direct, query_plan_request c t password rendered)] = Inr rep \<longrightarrow> 300 \<le> rep_status rep \<longrightarrow> rep_status rep < 400 \<longrightarrow>
        send_request (\<lambda>req. snd (open_query_plan network resolve req)) (query_plan_request c t password rendered) = Inl DiscoveryError)
   \<and> (discover_tablets h (opened_world w net resolve) c t statement parameters limits timeout = Inr ids \<longrightarrow>
        (\<exists>s p r answer body. resolve_secret (dw_environ w) (do_password c) = Inr p
           \<and> net s [(Direct, query_plan_request c t p r)] = Inr answer \<and> rep_status answer = 200
           \<and> rep_read answer (MAX_QUERY_PLAN_RESPONSE_BYTES + 1) = Inr body \<and> parse_body (dw_json_loads w) body = Inr ids))"
proof (intro conjI impI)
  show "\<exists>path. req_url (query_plan_request c t password rendered) = query_plan_origin c @ ''/api/'' @ path"
    by (simp add: query_plan_request_def query_plan_url_def)
  show "fst (open_query_plan network resolve (query_plan_request c t password rendered))
      = [(Direct, query_plan_request c t password rendered)]" by (rule open_query_plan_sent)
next
  assume "network [(Direct, query_plan_request c t password rendered)] = Inr rep" "300 \<le> rep_status rep" "rep_status rep < 400"
  then show "send_request (\<lambda>req. snd (open_query_plan network resolve req)) (query_plan_request c t password rendered) = Inl DiscoveryError"
    by (simp add: send_request_def open_query_plan_outcome)
next
  assume "discover_tablets h (opened_world w net resolve) c t statement parameters limits timeout = Inr ids"
  then obtain s p r body where p: "resolve_secret (dw_environ w) (do_password c) = Inr p"
    and sent: "send_request (\<lambda>req. snd (open_query_plan (net s) resolve req)) (query_plan_request c t p r) = Inr body"
    and ids: "parse_body (dw_json_loads w) body = Inr ids"
    by (auto simp: discover_tablets_def opened_world_def r_bind_Inr_iff)
  from sent obtain answer where "net s [(Direct, query_plan_request c t p r)] = Inr answer" "rep_status answer = 200"
    "rep_read answer (MAX_QUERY_PLAN_RESPONSE_BYTES + 1) = Inr body" by (rule send_query_plan_ok)
  with p ids show "\<exists>s p r answer body. resolve_secret (dw_environ w) (do_password c) = Inr p
           \<and> net s [(Direct, query_plan_request c t p r)] = Inr answer \<and> rep_status answer = 200
           \<and> rep_read answer (MAX_QUERY_PLAN_RESPONSE_BYTES + 1) = Inr body \<and> parse_body (dw_json_loads w) body = Inr ids"
    by (intro exI conjI)
qed

definition sample_redirect :: http_reply where
  "sample_redirect = \<lparr>rep_status = 302, rep_location = Some ''http://elsewhere/'', rep_read = (\<lambda>_. Inr [])\<rparr>"

definition sample_network :: network where
  "sample_network sent =
     Inr (if length sent = 1 then sample_redirect else \<lparr>rep_status = 200, rep_location = None, rep_read = (\<lambda>_. Inr ''plan'')\<rparr>)"

theorem query_plan_stays_at_origin_witness:
  "send_request (\<lambda>req. snd (open_query_plan sample_network (\<lambda>_. Some) req))
       (query_plan_request sample_doris_connection sample_doris_table ''s3cret'' ''SELECT 1'') = Inl DiscoveryError"
proof -
  have "sample_network [pr] = Inr sample_redirect" for pr by (simp add: sample_network_def)
  moreover have "300 \<le> rep_status sample_redirect" "rep_status sample_redirect < 400" by (simp_all add: sample_redirect_def)
  ultimately show ?thesis
    using query_plan_stays_at_origin [THEN conjunct2, THEN conjunct2, THEN conjunct1] by blast
qed

text \<open>C32. Caller options cannot take over a managed argument of either Doris driver: every reserved name
  reaches PyMySQL and ADBC with the connector's own value, or not at all.\<close>

theorem doris_arguments_managed:
  assumes "from_options_doris h a = Inr c"
  shows "(\<forall>kw k. mysql_kwargs h' environ c limits = Inr kw \<longrightarrow> k \<in> RESERVED_MYSQL_OPTIONS \<longrightarrow>
            (\<exists>p. resolve_secret environ (do_password c) = Inr p \<and> map_of kw k = map_of (managed_kwargs_doris c p limits) k))
    \<and> (\<forall>kw k. flight_kwargs environ names c limits = Inr kw \<longrightarrow> k \<in> RESERVED_FLIGHT_OPTIONS \<longrightarrow>
            (\<exists>p. resolve_secret environ (do_password c) = Inr p \<and> map_of kw k = map_of (managed_kwargs_flight names c p limits) k))"
  using mysql_kwargs_managed [OF assms] flight_kwargs_managed [OF assms] by blast

theorem doris_arguments_managed_witness:
  "\<exists>p. resolve_secret [(''PW'', ''s3cret'')] (do_password sample_doris_connection) = Inr p
    \<and> map_of (projr (mysql_kwargs [] [(''PW'', ''s3cret'')] sample_doris_connection sample_limits)) ''autocommit''
      = map_of (managed_kwargs_doris sample_doris_connection p sample_limits) ''autocommit''"
proof -
  let ?kw = "mysql_kwargs [] [(''PW'', ''s3cret'')] sample_doris_connection sample_limits"
  have "?kw = Inr (projr ?kw)" by code_simp
  moreover have "''autocommit'' \<in> RESERVED_MYSQL_OPTIONS" by code_simp
  ultimately show ?thesis using doris_arguments_managed [OF sample_doris_connects] by blast
qed

section \<open>Scans\<close>

text \<open>The tasks of a Doris scan read the table once: every task's query is the statement of a select for
  the caller's transport, and these selects, run one after the other and followed by Daft's own filter
  and limit, give rows that Daft would have kept of the whole table. This covers an empty plan, which
  reads nothing, and needs of the service that the tablets it reports for the planning statement hold
  every row that statement can return.\<close>

theorem doris_scan_reads_table:
  assumes "get_tasks_doris h w s pd = (tasks, None)" and "count_pushdown (de_daft w) pd = Inr None"
    and "valid_doris_source s" and "dos_discoverer s = None"
    and "\<And>columns predicate statement parameters ids. compile_filter (pd_filters pd) = Inr predicate \<Longrightarrow>
           build_select_doris (planning_select s columns predicate) = Inr (statement, parameters) \<Longrightarrow>
           discover_tablets h (de_world w) (dos_connection s) (dos_table s) statement parameters (dos_limits s)
             (timeout_obj (dos_planning_timeout s)) = Inr ids \<Longrightarrow>
           tablets_cover cmp fragment key s predicate rows ids"
  shows "\<exists>selects kept.
      list_all2 (\<lambda>q t. build_select_doris q = Inr (sql (dt_query t), positional_parameters (dt_query t))
                  \<and> dt_transport t = dos_transport s) selects tasks
    \<and> mset kept = mset (filter (daft_keeps cmp operand truth (pd_filters pd))
                          (fragment_rows fragment (dos_unsafe_where_sql s) rows))
    \<and> take_limit (pd_limit pd) (filter (daft_keeps cmp operand truth (pd_filters pd))
        (concat (map (select_rows_doris cmp fragment key rows) selects))) = take_limit (pd_limit pd) kept"
proof -
  have l: "valid_limits (dos_limits s)" using assms(3) by (simp add: valid_doris_source_def)
  have "tablets_hold cmp fragment h w s pd key rows"
    using assms(5) by (simp add: tablets_hold_def run_discovery_doris_def assms(4))
  from planned_scan_doris [OF assms(1,2) l assms(4) this] show ?thesis by blast
qed

definition sample_doris_source :: doris_source where
  "sample_doris_source =
     \<lparr>dos_table = sample_doris_table, dos_transport = MySql, dos_split = ''auto'', dos_policy = ''single'',
      dos_planning_timeout = 5, dos_limits = sample_limits, dos_connection = sample_doris_connection,
      dos_unsafe_where_sql = None, dos_query_parameters = [], dos_schema = sample_doris_schema, dos_discoverer = None\<rparr>"

definition sample_doris_daft :: daft_api where
  "sample_doris_daft = \<lparr>native_module = Some None, has_supports_count_pushdown = False, class_converter_callable = False,
     instance_converter_callable = False\<rparr>"

definition sample_doris_env :: doris_env where
  "sample_doris_env = \<lparr>de_world = sample_doris_world, de_consumes = (\<lambda>_. Inr ()), de_daft = sample_doris_daft\<rparr>"

definition sample_doris_source_args :: doris_source_args where
  "sample_doris_source_args =
     \<lparr>dsa_transport = PStr ''mysql'', dsa_split = PStr ''auto'', dsa_policy = PStr ''single'', dsa_unsafe_where_sql = PNone,
      dsa_query_parameters = NoMapping, dsa_table = PStr ''t'', dsa_planning_timeout = PInt 5,
      dsa_limits = \<lparr>la_batch_rows = PInt 2, la_batch_bytes = PInt 10, la_target_tasks = PInt 2, la_max_tasks = PInt 4,
                    la_connect_timeout = PInt 10, la_query_timeout = PInt 300\<rparr>,
      dsa_connection = sample_doris_args, dsa_arrow_schema = None, dsa_discoverer = None\<rparr>"

lemma sample_doris_source_built: "DorisDataSource [] sample_doris_env sample_doris_source_args = Inr sample_doris_source"
proof -
  let ?a = sample_doris_source_args
  have "transport_arg [] (dsa_transport ?a) = Inr MySql" "choice_arg [] [''single'', ''auto''] (dsa_split ?a) = Inr ''auto''"
    "choice_arg [] [''single'', ''error''] (dsa_policy ?a) = Inr ''single''" "unsafe_where_arg (dsa_unsafe_where_sql ?a) = Inr None"
    "freeze_query_parameters [] (dsa_query_parameters ?a) = Inr []"
    "QualifiedTable (da_database (dsa_connection ?a)) (dsa_table ?a) = Inr sample_doris_table"
    "validate_timeout_seconds (dsa_planning_timeout ?a) = Inr 5" "limits_of_args (dsa_limits ?a) = Inr sample_limits"
    "from_options_doris [] (dsa_connection ?a) = Inr sample_doris_connection"
    "schema_of [] sample_doris_env sample_doris_connection sample_doris_table sample_limits (dsa_arrow_schema ?a) = Inr sample_doris_schema"
    by code_simp+
  then show ?thesis by (simp add: DorisDataSource_def sample_doris_source_def sample_doris_source_args_def)
qed

lemma sample_doris_source_valid: "valid_doris_source sample_doris_source"
  by (rule DorisDataSource_Inr [OF sample_doris_source_built])

definition sample_doris_rows :: "row list" where
  "sample_doris_rows = [\<lambda>_. PInt 30, \<lambda>_. PInt 11, \<lambda>_. PInt 12]"

definition sample_tablet :: "row \<Rightarrow> int" where
  "sample_tablet r = (case r ''tablet'' of PInt i \<Rightarrow> i | _ \<Rightarrow> 0)"

definition sample_doris_scan :: pushdowns where
  "sample_doris_scan =
     \<lparr>pd_filters = None, pd_columns = None, pd_limit = Some 2, pd_aggregation = None, pd_filter_required = []\<rparr>"

lemma sample_doris_plan:
  "plan_scan_doris [] sample_doris_env sample_doris_source sample_doris_scan
     = Inr \<lparr>sp_columns = [''a'', ''b''], sp_schema = sample_doris_schema, sp_predicate = None, sp_limit = Some 2,
            sp_groups = [Some [11, 12], Some [30]]\<rparr>"
proof -
  let ?s = sample_doris_source
  have "required_scan_columns sample_doris_scan (dos_schema ?s) = Inr [''a'', ''b'']"
    "project_schema_doris (dos_schema ?s) [''a'', ''b''] = Inr sample_doris_schema"
    "compile_filter (pd_filters sample_doris_scan) = Inr None" "safe_database_limit sample_doris_scan None = Some 2"
    "build_select_doris (planning_select ?s [''a'', ''b''] None) = Inr (''SELECT `a`, `b` FROM `db`.`t`'', [])"
    "plan_of_tablets (dos_limits ?s) [11, 12, 30] = Inr \<lparr>tp_groups = [Some [11, 12], Some [30]], tp_empty_result = False\<rparr>"
    by code_simp+
  moreover have "run_discovery_doris [] (de_world sample_doris_env) ?s statement [] = Inr [11, 12, 30]" for statement
    using sample_tablets [OF sample_steps(3)]
    by (simp add: run_discovery_doris_def sample_doris_source_def sample_doris_env_def)
  moreover have "dos_split ?s \<noteq> ''single''" by (simp add: sample_doris_source_def)
  ultimately show ?thesis by (simp add: plan_scan_doris_def make_tablet_plan_def Let_def)
qed

lemma sample_doris_tasks: "snd (get_tasks_doris [] sample_doris_env sample_doris_source sample_doris_scan) = None"
proof -
  have "count_pushdown (de_daft sample_doris_env) sample_doris_scan = Inr None" by code_simp
  moreover have "snd (emit (\<lambda>g. task_of_select_doris [] sample_doris_source sample_doris_schema
      (scan_select_doris sample_doris_source [''a'', ''b''] None (Some 2) g)) [Some [11, 12], Some [30]]) = None" by code_simp
  ultimately show ?thesis by (simp add: get_tasks_doris_def sample_doris_plan del: emit.simps)
qed

theorem doris_scan_reads_table_witness:
  "\<exists>selects kept.
      list_all2 (\<lambda>q t. build_select_doris q = Inr (sql (dt_query t), positional_parameters (dt_query t))
                  \<and> dt_transport t = dos_transport sample_doris_source) selects
        (fst (get_tasks_doris [] sample_doris_env sample_doris_source sample_doris_scan))
    \<and> mset kept = mset (filter (daft_keeps sample_cmp (\<lambda>_ _. PNone) (\<lambda>_ _. None) (pd_filters sample_doris_scan))
                          (fragment_rows (\<lambda>_ _. True) (dos_unsafe_where_sql sample_doris_source) sample_doris_rows))
    \<and> take_limit (pd_limit sample_doris_scan)
        (filter (daft_keeps sample_cmp (\<lambda>_ _. PNone) (\<lambda>_ _. None) (pd_filters sample_doris_scan))
          (concat (map (select_rows_doris sample_cmp (\<lambda>_ _. True) sample_tablet sample_doris_rows) selects)))
      = take_limit (pd_limit sample_doris_scan) kept"
proof (rule doris_scan_reads_table)
  show "get_tasks_doris [] sample_doris_env sample_doris_source sample_doris_scan
      = (fst (get_tasks_doris [] sample_doris_env sample_doris_source sample_doris_scan), None)"
    by (rule prod_eqI) (simp_all add: sample_doris_tasks)
  show "count_pushdown (de_daft sample_doris_env) sample_doris_scan = Inr None" by code_simp
  show "dos_discoverer sample_doris_source = None" by (simp add: sample_doris_source_def)
  fix columns predicate statement parameters ids
  assume "discover_tablets [] (de_world sample_doris_env) (dos_connection sample_doris_source) (dos_table sample_doris_source)
      statement parameters (dos_limits sample_doris_source) (timeout_obj (dos_planning_timeout sample_doris_source)) = Inr ids"
  then have "ids = [11, 12, 30]"
    by (auto simp: discover_tablets_def sample_doris_env_def r_bind_Inr_iff sample_response sample_steps)
  then show "tablets_cover sample_cmp (\<lambda>_ _. True) sample_tablet sample_doris_source predicate sample_doris_rows ids"
    by (simp add: tablets_cover_def sample_doris_rows_def sample_tablet_def fragment_rows_def sample_doris_source_def)
qed (rule sample_doris_source_valid)

section \<open>Streams\<close>

text \<open>C11. A MySQL stream that ends without an error has delivered the cursor's rows: they were fetched once
  and in order, in chunks that are not empty and within the row limit; every chunk became a batch of
  the planned columns; and the rows delivered are the rows of these batches, in order.\<close>

theorem doris_mysql_stream_complete:
  assumes "arrow_table_ops pa rows" and "valid_limits l"
    and "stream_query_mysql h environ pa ar d c q l leave = (bs, Inr ())"
  shows "\<exists>chunks converted. concat chunks = ms_rows d
    \<and> (\<forall>x \<in> set chunks. x \<noteq> [] \<and> int (length x) \<le> batch_rows l)
    \<and> list_all2 (\<lambda>x b. rows_to_batch ar x (schema_names (arrow_schema q)) (arrow_schema q) = Inr b) chunks converted
    \<and> concat (map rows bs) = concat (map rows converted)"
proof -
  from assms(3) have "snd (stream_query_mysql h environ pa ar d c q l leave) = Inr ()" by simp
  from stream_query_mysql_complete [OF this assms(2)] assms(3) obtain names chunks converted where
    c: "concat chunks = ms_rows d" "\<forall>x \<in> set chunks. x \<noteq> [] \<and> int (length x) \<le> batch_rows l"
    and b: "list_all2 (\<lambda>x b. rows_to_batch ar x names (arrow_schema q) = Inr b) chunks converted"
    and y: "bs = concat (map (bounded_slices pa l) converted)" by auto
  have "list_all2 (\<lambda>x b. rows_to_batch ar x (schema_names (arrow_schema q)) (arrow_schema q) = Inr b) chunks converted"
    using b by (rule list_all2_mono) (use rows_to_batch_width(1) in metis)
  moreover have "concat (map rows bs) = concat (map rows converted)"
    unfolding y by (induction converted) (simp_all add: arrow_table_ops.bounded_slices_correct(1) [OF assms(1,2)])
  ultimately show ?thesis using c by blast
qed

definition sample_doris_ops :: "arrow_table arrow_ops" where
  "sample_doris_ops = list_ops (\<lambda>_. 4) (\<lambda>_ v. Some v)"

lemma sample_doris_ops_contract: "arrow_table_ops sample_doris_ops at_rows"
  unfolding sample_doris_ops_def by (rule list_table.arrow_table_ops_axioms)

definition sample_arrays :: "(arrow_table, pyobj list) array_ops" where
  "sample_arrays =
     \<lparr>ar_decimal = (\<lambda>_. Inl ArrowDataError), ar_array = (\<lambda>_ vs. Inr vs),
      ar_from_arrays = (\<lambda>cs sch. Inr \<lparr>at_schema = sch, at_rows = transpose cs\<rparr>)\<rparr>"

definition sample_objects :: "bool \<Rightarrow> ss_objects" where
  "sample_objects active =
     \<lparr>ob_cursor_connection = Inr IsConnection, ob_cursor_result = Inr (IsResult 1), ob_connection_result = Inr (IsResult 1),
      ob_active = (\<lambda>_. Inr (IsBool active)), ob_result_connection = (\<lambda>_. Inr IsConnection)\<rparr>"

definition sample_mysql_stream :: mysql_stream where
  "sample_mysql_stream =
     \<lparr>ms_installed = True, ms_connect = (\<lambda>_. Inr ()), ms_cursor = Inr (), ms_before = sample_objects False,
      ms_execute = (\<lambda>_ _. Inr ()), ms_after = sample_objects True, ms_description = Some [''a'', ''b''],
      ms_rows = [[PInt 1, PNone], [PInt 2, PNone], [PInt 3, PNone]], ms_error = None, ms_cleanup = sample_objects False,
      ms_act = (\<lambda>_. Inr ())\<rparr>"

definition sample_doris_query :: query_spec where
  "sample_doris_query =
     \<lparr>sql = ''SELECT `a`, `b` FROM `db`.`t`'', positional_parameters = [], named_parameters = [], arrow_schema = sample_doris_schema\<rparr>"

lemma sample_mysql_stream_ends:
  "stream_query_mysql [] [(''PW'', ''s3cret'')] sample_doris_ops sample_arrays sample_mysql_stream sample_doris_connection
       sample_doris_query sample_limits None
     = ([\<lparr>at_schema = sample_doris_schema, at_rows = [[PInt 1, PNone], [PInt 2, PNone]]\<rparr>,
         \<lparr>at_schema = sample_doris_schema, at_rows = [[PInt 3, PNone]]\<rparr>], Inr ())"
  by code_simp

theorem doris_mysql_stream_complete_witness:
  "\<exists>chunks. concat chunks = ms_rows sample_mysql_stream \<and> list_all (\<lambda>x. x \<noteq> [] \<and> int (length x) \<le> batch_rows sample_limits) chunks"
  unfolding list_all_iff
  using doris_mysql_stream_complete [OF sample_doris_ops_contract sample_limits_valid sample_mysql_stream_ends] by blast

text \<open>C17. Every batch a Doris task yields, over either transport, is the Daft form of a batch with exactly the
  planned schema that is not empty and within the limits, even when the task fails or is left early.\<close>

theorem doris_task_within_limits:
  assumes "arrow_table_ops pa rows" and "valid_limits (dt_limits t)"
    and "\<And>cs sch b. ar_from_arrays ar cs sch = Inr b \<Longrightarrow> pa_schema pa b = sch"
    and "y \<in> set (fst (read_task_doris h environ pa ar ms fl to_daft t leave))"
  shows "\<exists>b. y = to_daft b \<and> pa_schema pa b = arrow_schema (dt_query t) \<and> rows b \<noteq> []
    \<and> int (length (rows b)) \<le> batch_rows (dt_limits t)
    \<and> (length (rows b) = 1 \<or> int (pa_nbytes pa b) \<le> batch_bytes (dt_limits t))"
proof -
  obtain b where y: "y = to_daft b" and d: "delivered pa rows (arrow_schema (dt_query t)) (dt_limits t) b"
  proof (cases "dt_transport t")
    case MySql
    with assms(4) obtain b where b: "y = to_daft b" and
      m: "b \<in> set (fst (stream_query_mysql h environ pa ar ms (dt_connection t) (dt_query t) (dt_limits t) leave))"
      by (auto simp: read_task_doris_def Let_def)
    show thesis
      by (rule that [OF b], rule arrow_table_ops.stream_query_mysql_delivers [OF assms(1,2) _ m]) (rule assms(3))
  next
    case Flight
    with assms(4) obtain b where "y = to_daft b" and
      "b \<in> set (fst (stream_query_flight environ pa fl (dt_connection t) (dt_query t) (dt_limits t) leave))"
      by (auto simp: read_task_doris_def Let_def)
    then show thesis using that arrow_table_ops.stream_query_flight_delivers [OF assms(1,2)] by blast
  qed
  show ?thesis using y d by (auto simp: delivered_def)
qed

definition sample_doris_task :: doris_task where
  "sample_doris_task = \<lparr>dt_connection = sample_doris_connection, dt_query = sample_doris_query, dt_limits = sample_limits,
     dt_transport = MySql\<rparr>"

theorem doris_task_within_limits_witness:
  "\<exists>b. \<lparr>at_schema = sample_doris_schema, at_rows = [[PInt 3, PNone]]\<rparr> = b \<and> int (length (at_rows b)) \<le> batch_rows sample_limits"
proof -
  have m: "\<lparr>at_schema = sample_doris_schema, at_rows = [[PInt 3, PNone]]\<rparr>
      \<in> set (fst (read_task_doris [] [(''PW'', ''s3cret'')] sample_doris_ops sample_arrays sample_mysql_stream fl
           (\<lambda>b. b) sample_doris_task None))" for fl
    by (simp add: read_task_doris_def sample_doris_task_def sample_mysql_stream_ends)
  have l: "valid_limits (dt_limits sample_doris_task)" by (simp add: sample_doris_task_def sample_limits_valid)
  have a: "ar_from_arrays sample_arrays cs sch = Inr b \<Longrightarrow> pa_schema sample_doris_ops b = sch" for cs sch b
    by (auto simp: sample_arrays_def sample_doris_ops_def list_ops_def)
  from doris_task_within_limits [OF sample_doris_ops_contract l a m] show ?thesis by (simp add: sample_doris_task_def)
qed

section \<open>Closing\<close>

text \<open>C18. Closing a cursor never drains its rows and never leaks the connection: the cursor itself is closed
  only when its result is known to be inactive, or after its connection has been closed and the cursor
  detached from it; the connection is closed unless a control-flow exception ends the cleanup; and
  closing again does nothing.\<close>

theorem doris_cursor_close_safe:
  assumes "\<not> lc_closed lc" and "lifecycle_close obs act lc = (lc', trace, outcome)"
  shows "(\<forall>i < length trace. trace ! i = CloseCursor \<longrightarrow> known_inactive obs lc
             \<or> CloseConnection \<in> set (take i trace) \<and> DetachCursor \<in> set (take i trace) \<and> act DetachCursor = Inr ())
    \<and> (CloseConnection \<in> set trace \<or> (\<exists>e. outcome = Inl e \<and> \<not> is_exception e))
    \<and> lifecycle_close obs' act' lc' = (lc', [], Inr ())"
  using lifecycle_close_safe [of act obs lc] lifecycle_close_connection [OF assms] lifecycle_close_again [of obs' act' obs act lc]
    assms(2) by (auto simp: safe_close_def)

definition sample_lifecycle :: lifecycle where
  "sample_lifecycle = \<lparr>lc_result = IsResult 1, lc_validated_cursor = True, lc_validated_result = True, lc_closed = False\<rparr>"

theorem doris_cursor_close_safe_witness:
  "lifecycle_close (sample_objects True) (\<lambda>_. Inr ()) sample_lifecycle
     = (sample_lifecycle\<lparr>lc_closed := True, lc_result := IsNone\<rparr>,
        [CloseConnection, Deactivate, DetachResult, DetachCursor, CloseCursor], Inr ())
   \<and> lifecycle_close (sample_objects True) (\<lambda>_. Inr ()) (sample_lifecycle\<lparr>lc_closed := True, lc_result := IsNone\<rparr>)
     = (sample_lifecycle\<lparr>lc_closed := True, lc_result := IsNone\<rparr>, [], Inr ())"
proof (rule conjI)
  show c: "lifecycle_close (sample_objects True) (\<lambda>_. Inr ()) sample_lifecycle
     = (sample_lifecycle\<lparr>lc_closed := True, lc_result := IsNone\<rparr>,
        [CloseConnection, Deactivate, DetachResult, DetachCursor, CloseCursor], Inr ())" by code_simp
  have "\<not> lc_closed sample_lifecycle" by (simp add: sample_lifecycle_def)
  from doris_cursor_close_safe [OF this c] show "lifecycle_close (sample_objects True) (\<lambda>_. Inr ())
       (sample_lifecycle\<lparr>lc_closed := True, lc_result := IsNone\<rparr>)
     = (sample_lifecycle\<lparr>lc_closed := True, lc_result := IsNone\<rparr>, [], Inr ())" by blast
qed

section \<open>The worker thread\<close>

definition sample_events :: "event list" where
  "sample_events = [Call 1, Start, Call 2, Close, CancelCall 2, CancelClose, Close, Finish False, Start, Finish True, Shutdown]"

definition sample_thread :: task_thread where
  "sample_thread = \<lparr>pending = [], running = None, finished = [Operation 1, CloseJob], close_state = Done True, shut_down = True\<rparr>"

lemma sample_thread_reached: "reaches TaskThread sample_events sample_thread"
  by (rule run_events_reaches) code_simp

text \<open>C19. Whatever the interleaving of calls, cancellations and closes, the close operation is submitted
  exactly when a close was requested, exists once, and is never cancelled; and the executor is shut
  down only after it has run.\<close>

theorem worker_close_once:
  assumes "reaches TaskThread evs s"
  shows "count_list (jobs s) CloseJob = (if Close \<in> set evs then 1 else 0)
    \<and> (shut_down s \<longrightarrow> CloseJob \<in> set (finished s))"
proof -
  have "thread_inv s" using assms thread_inv_init by (rule thread_inv_reaches)
  then show ?thesis using close_submitted [OF assms] by (auto simp: thread_inv_def split: if_splits)
qed

theorem worker_close_once_witness:
  "count_list (jobs sample_thread) CloseJob = (if Close \<in> set sample_events then 1 else 0) \<and> CloseJob \<in> set (finished sample_thread)"
  using worker_close_once [OF sample_thread_reached] by (simp add: sample_thread_def)

text \<open>Jobs run one at a time in the order they were submitted; a cancellation only takes jobs out that
  have not started.\<close>

theorem worker_jobs_in_order:
  assumes "reaches TaskThread evs s"
  shows "subseq (finished s @ (case running s of None \<Rightarrow> [] | Some j \<Rightarrow> [j]) @ pending s) (submitted False evs)"
  using jobs_in_order [OF assms] by (simp add: jobs_def)

theorem worker_jobs_in_order_witness: "subseq [Operation 1, CloseJob] (submitted False sample_events)"
  using worker_jobs_in_order [OF sample_thread_reached] by (simp add: sample_thread_def)

text \<open>A requested close happens: from every reachable state in which it is pending, the worker alone
  completes it, in at most two steps for every queued job and one for the job that runs.\<close>

theorem worker_close_happens:
  assumes "reaches TaskThread evs s" and "close_state s = Pending"
  shows "\<exists>more s' b. reaches s more s' \<and> set more \<subseteq> {Start, Finish False} \<and> close_state s' = Done b
    \<and> length more \<le> 2 * length (pending s) + (if running s = None then 0 else 1)"
  using worker_closes [OF thread_inv_reaches [OF assms(1) thread_inv_init] assms(2)] .

theorem worker_close_happens_witness:
  "\<exists>more s' b. reaches (the (run_events TaskThread [Call 1, Close])) more s' \<and> set more \<subseteq> {Start, Finish False}
    \<and> close_state s' = Done b"
proof -
  have "run_events TaskThread [Call 1, Close] = Some (the (run_events TaskThread [Call 1, Close]))" by code_simp
  moreover have "close_state (the (run_events TaskThread [Call 1, Close])) = Pending" by code_simp
  ultimately show ?thesis using worker_close_happens [OF run_events_reaches] by blast
qed

section \<open>Observations\<close>

text \<open>A length written with a digit that \<open>isdigit\<close> accepts and \<open>int\<close> does not, such as a superscript two,
  ends in \<open>ValueError\<close> and not in a schema error.\<close>

lemma superscript_length_value_error: "doris_type_to_arrow (''VARCHAR('' @ [CHR 0xB2] @ '')'') = Inl ValueError"
  by code_simp

end
