(* ===== verification/Reader_Thread.thy ===== *)
theory Reader_Thread
  imports Transport_Base Task_Thread
begin

text \<open>
  A batch reader, its worker thread and the generator that drives it, composed: the shape
  that \<^verbatim>\<open>doris/transports/mysql.py\<close> and \<^verbatim>\<open>doris/transports/flight.py\<close> share. The generator
  runs on the event loop and submits \<open>_open\<close>, \<open>_fetch\<close> and \<open>_close\<close> to the thread, which
  alone touches the driver's objects; the consumer may abandon the generator at a \<open>yield\<close>, and
  a control-flow exception may arrive while the generator waits. The composition is a step
  relation over all interleavings of the two.
\<close>

section \<open>Jobs\<close>

text \<open>The three operations of a reader, on the state of the objects it owns.\<close>

record ('s, 'b) reader_jobs =
  rj_open :: "'s \<Rightarrow> 's \<times> unit result"
  rj_fetch :: "'s \<Rightarrow> 's \<times> 'b option result"
  rj_close :: "'s \<Rightarrow> 's \<times> unit result"

datatype 'b reply = Opened "unit result" | Fetched "'b option result" | Closed "unit result"

text \<open>Operation 0 is the call of \<open>start\<close>, operation \<open>n\<close> the \<open>n\<close>th call of \<open>next_batch\<close>.\<close>

fun run_job :: "('s, 'b) reader_jobs \<Rightarrow> job \<Rightarrow> 's \<Rightarrow> 's \<times> 'b reply" where
  "run_job rj (Operation 0) s = map_prod id Opened (rj_open rj s)"
| "run_job rj (Operation (Suc n)) s = map_prod id Fetched (rj_fetch rj s)"
| "run_job rj CloseJob s = map_prod id Closed (rj_close rj s)"

fun run_jobs :: "('s, 'b) reader_jobs \<Rightarrow> job list \<Rightarrow> 's \<Rightarrow> 's \<times> 'b reply list" where
  "run_jobs rj [] s = (s, [])"
| "run_jobs rj (j # js) s =
     (let (s', r) = run_job rj j s; (s'', rs) = run_jobs rj js s' in (s'', r # rs))"

fun reply_failed :: "'b reply \<Rightarrow> bool" where
  "reply_failed (Opened r) \<longleftrightarrow> isl r"
| "reply_failed (Fetched r) \<longleftrightarrow> isl r"
| "reply_failed (Closed r) \<longleftrightarrow> isl r"

section \<open>The generator\<close>

text \<open>
  Where the generator stands: not started; waiting for a call; suspended at a \<open>yield\<close> with the
  slices still to come; past the \<open>try\<close> block with the outcome of its body; waiting for the
  close; or ended, with what the consumer sees.
\<close>

datatype 'b phase =
    Created
  | Awaiting nat
  | Yielding nat "'b list"
  | Leaving "unit result"
  | Closing "unit result"
  | Ended "unit result"

record ('s, 'b) stream_state =
  st_thread :: task_thread
  st_object :: 's
  st_log :: "(job \<times> 'b reply) list"
  st_phase :: "'b phase"
  st_output :: "'b list"

definition new_stream :: "'s \<Rightarrow> ('s, 'b) stream_state" where
  "new_stream s = \<lparr>st_thread = TaskThread, st_object = s, st_log = [], st_phase = Created, st_output = []\<rparr>"

text \<open>\<open>start\<close> and \<open>next_batch\<close>: submit and wait.\<close>

definition submit :: "nat \<Rightarrow> ('s, 'b) stream_state \<Rightarrow> ('s, 'b) stream_state option" where
  "submit n s = map_option (\<lambda>t. s\<lparr>st_thread := t, st_phase := Awaiting n\<rparr>) (call n (st_thread s))"

text \<open>The inner loop: the next slice is yielded; after the last one the next batch is requested.\<close>

definition deliver :: "nat \<Rightarrow> 'b list \<Rightarrow> ('s, 'b) stream_state \<Rightarrow> ('s, 'b) stream_state option" where
  "deliver n slices s =
     (case slices of
        [] \<Rightarrow> submit (Suc n) s
      | x # rest \<Rightarrow> Some (s\<lparr>st_output := st_output s @ [x], st_phase := Yielding n rest\<rparr>))"

text \<open>The consumer asks for a value.\<close>

definition next_value :: "('s, 'b) stream_state \<Rightarrow> ('s, 'b) stream_state option" where
  "next_value s =
     (case st_phase s of
        Created \<Rightarrow> submit 0 s
      | Yielding n rest \<Rightarrow> deliver n rest s
      | _ \<Rightarrow> None)"

text \<open>The awaited call has completed and the event loop resumes the generator.\<close>

definition resume :: "('b \<Rightarrow> 'b list) \<Rightarrow> ('s, 'b) stream_state \<Rightarrow> ('s, 'b) stream_state option" where
  "resume slices s =
     (case st_phase s of
        Awaiting n \<Rightarrow>
          (case map_of (st_log s) (Operation n) of
             Some (Opened (Inl e)) \<Rightarrow> Some (s\<lparr>st_phase := Leaving (Inl e)\<rparr>)
           | Some (Opened (Inr _)) \<Rightarrow> submit (Suc n) s
           | Some (Fetched (Inl e)) \<Rightarrow> Some (s\<lparr>st_phase := Leaving (Inl e)\<rparr>)
           | Some (Fetched (Inr None)) \<Rightarrow> Some (s\<lparr>st_phase := Leaving (Inr ())\<rparr>)
           | Some (Fetched (Inr (Some b))) \<Rightarrow> deliver n (slices b) s
           | _ \<Rightarrow> None)
      | _ \<Rightarrow> None)"

text \<open>The consumer closes the generator at a \<open>yield\<close>.\<close>

definition abandon :: "('s, 'b) stream_state \<Rightarrow> ('s, 'b) stream_state option" where
  "abandon s =
     (case st_phase s of
        Yielding n rest \<Rightarrow> Some (s\<lparr>st_phase := Leaving (Inl GeneratorExit)\<rparr>)
      | _ \<Rightarrow> None)"

text \<open>
  A control-flow exception arrives while the generator waits. A call that has not started is
  cancelled; the close is shielded and stays submitted.
\<close>

definition interrupt ::
    "(exn \<Rightarrow> exn option) \<Rightarrow> exn \<Rightarrow> ('s, 'b) stream_state \<Rightarrow> ('s, 'b) stream_state option" where
  "interrupt translate e s =
     (if is_exception e then None
      else case st_phase s of
        Awaiting n \<Rightarrow> Some (s\<lparr>st_thread := cancel_call n (st_thread s), st_phase := Leaving (Inl e)\<rparr>)
      | Closing m \<Rightarrow> Some (s\<lparr>st_phase := Ended (end_stream translate [Inl e] m)\<rparr>)
      | _ \<Rightarrow> None)"

text \<open>The \<open>finally\<close> clause: \<open>close\<close> is submitted, and its end decides the outcome.\<close>

definition enter_close :: "('s, 'b) stream_state \<Rightarrow> ('s, 'b) stream_state option" where
  "enter_close s =
     (case st_phase s of
        Leaving m \<Rightarrow> map_option (\<lambda>t. s\<lparr>st_thread := t, st_phase := Closing m\<rparr>) (close_thread (st_thread s))
      | _ \<Rightarrow> None)"

definition leave_close ::
    "(exn \<Rightarrow> exn option) \<Rightarrow> ('s, 'b) stream_state \<Rightarrow> ('s, 'b) stream_state option" where
  "leave_close translate s =
     (case st_phase s of
        Closing m \<Rightarrow>
          (case map_of (st_log s) CloseJob of
             Some (Closed r) \<Rightarrow> Some (s\<lparr>st_phase := Ended (end_stream translate [r] m)\<rparr>)
           | _ \<Rightarrow> None)
      | _ \<Rightarrow> None)"

text \<open>The worker takes a job, and completes it with its effect on the objects.\<close>

definition worker_start :: "('s, 'b) stream_state \<Rightarrow> ('s, 'b) stream_state option" where
  "worker_start s = map_option (\<lambda>t. s\<lparr>st_thread := t\<rparr>) (start_job (st_thread s))"

definition worker_finish :: "('s, 'b) reader_jobs \<Rightarrow> ('s, 'b) stream_state \<Rightarrow> ('s, 'b) stream_state option" where
  "worker_finish rj s =
     (case running (st_thread s) of
        None \<Rightarrow> None
      | Some j \<Rightarrow>
          (let (obj, r) = run_job rj j (st_object s)
           in map_option (\<lambda>t. s\<lparr>st_thread := t, st_object := obj, st_log := st_log s @ [(j, r)]\<rparr>)
                (finish_job (reply_failed r) (st_thread s))))"

definition worker_shutdown :: "('s, 'b) stream_state \<Rightarrow> ('s, 'b) stream_state option" where
  "worker_shutdown s = map_option (\<lambda>t. s\<lparr>st_thread := t\<rparr>) (shutdown (st_thread s))"

section \<open>Runs\<close>

datatype stream_event =
    Next | Resume | Abandon | Interrupt exn | EnterClose | LeaveClose | WorkerStart | WorkerFinish | WorkerShutdown

fun stream_step ::
    "('s, 'b) reader_jobs \<Rightarrow> ('b \<Rightarrow> 'b list) \<Rightarrow> (exn \<Rightarrow> exn option) \<Rightarrow> stream_event \<Rightarrow> ('s, 'b) stream_state
       \<Rightarrow> ('s, 'b) stream_state option" where
  "stream_step rj slices tr Next s = next_value s"
| "stream_step rj slices tr Resume s = resume slices s"
| "stream_step rj slices tr Abandon s = abandon s"
| "stream_step rj slices tr (Interrupt e) s = interrupt tr e s"
| "stream_step rj slices tr EnterClose s = enter_close s"
| "stream_step rj slices tr LeaveClose s = leave_close tr s"
| "stream_step rj slices tr WorkerStart s = worker_start s"
| "stream_step rj slices tr WorkerFinish s = worker_finish rj s"
| "stream_step rj slices tr WorkerShutdown s = worker_shutdown s"

inductive stream_run ::
    "('s, 'b) reader_jobs \<Rightarrow> ('b \<Rightarrow> 'b list) \<Rightarrow> (exn \<Rightarrow> exn option) \<Rightarrow> ('s, 'b) stream_state \<Rightarrow> stream_event list
       \<Rightarrow> ('s, 'b) stream_state \<Rightarrow> bool"
  for rj :: "('s, 'b) reader_jobs" and slices :: "'b \<Rightarrow> 'b list" and tr :: "exn \<Rightarrow> exn option" where
  run_nil: "stream_run rj slices tr s [] s"
| run_snoc: "stream_run rj slices tr s evs s' \<Longrightarrow> stream_step rj slices tr ev s' = Some s''
    \<Longrightarrow> stream_run rj slices tr s (evs @ [ev]) s''"

text \<open>The run that a list of events determines.\<close>

fun stream_exec ::
    "('s, 'b) reader_jobs \<Rightarrow> ('b \<Rightarrow> 'b list) \<Rightarrow> (exn \<Rightarrow> exn option) \<Rightarrow> ('s, 'b) stream_state \<Rightarrow> stream_event list
       \<Rightarrow> ('s, 'b) stream_state option" where
  "stream_exec rj slices tr s [] = Some s"
| "stream_exec rj slices tr s (ev # evs) =
     Option.bind (stream_step rj slices tr ev s) (\<lambda>s'. stream_exec rj slices tr s' evs)"

lemma stream_run_trans:
  "stream_run rj slices tr s' evs' s'' \<Longrightarrow> stream_run rj slices tr s evs s' \<Longrightarrow> stream_run rj slices tr s (evs @ evs') s''"
  by (induction rule: stream_run.induct) (auto simp flip: append_assoc intro: stream_run.intros)

lemma stream_run_one: "stream_step rj slices tr ev s = Some s' \<Longrightarrow> stream_run rj slices tr s [ev] s'"
  using run_snoc [OF run_nil] by fastforce

lemma stream_exec_run: "stream_exec rj slices tr s evs = Some s' \<Longrightarrow> stream_run rj slices tr s evs s'"
proof (induction evs arbitrary: s)
  case (Cons ev evs)
  then obtain s1 where "stream_step rj slices tr ev s = Some s1" "stream_exec rj slices tr s1 evs = Some s'"
    by (auto simp: bind_eq_Some_conv)
  then show ?case using Cons.IH stream_run_trans [OF _ stream_run_one] by fastforce
qed (auto intro: run_nil)

section \<open>The thread under the generator\<close>

text \<open>
  The jobs of a reader: the opening, then fetches one after the other, then at most one close.
\<close>

definition serial_jobs :: "nat \<Rightarrow> task_thread \<Rightarrow> bool" where
  "serial_jobs k t \<longleftrightarrow>
     thread_inv t \<and> jobs t = map Operation [0..<k] @ (if close_state t = NotSubmitted then [] else [CloseJob])"

lemma close_job_submitted: "thread_inv t \<Longrightarrow> CloseJob \<in> set (jobs t) \<longleftrightarrow> close_state t \<noteq> NotSubmitted"
  by (simp add: thread_inv_def flip: count_list_pos)

lemma serial_jobs_new: "serial_jobs 0 TaskThread"
  using thread_inv_init by (simp add: serial_jobs_def TaskThread_def jobs_def)

lemma serial_jobs_call:
  assumes "serial_jobs k t" and "call k t = Some t'" and "close_state t = NotSubmitted"
  shows "serial_jobs (Suc k) t' \<and> close_state t' = NotSubmitted \<and> finished t' = finished t"
  using assms thread_inv_call [of t k t'] by (auto simp: serial_jobs_def call_def jobs_def split: if_splits)

lemma call_open: "thread_inv t \<Longrightarrow> close_state t = NotSubmitted \<Longrightarrow> \<exists>t'. call n t = Some t'"
  by (auto simp: call_def thread_inv_def)

lemma serial_jobs_cancel:
  assumes "serial_jobs (Suc n) t" and "close_state t = NotSubmitted"
  shows "\<exists>k. serial_jobs k (cancel_call n t) \<and> close_state (cancel_call n t) = NotSubmitted
    \<and> finished (cancel_call n t) = finished t"
proof -
  let ?done = "finished t @ (case running t of None \<Rightarrow> [] | Some j \<Rightarrow> [j])"
  have all: "?done @ pending t = map Operation [0..<n] @ [Operation n]"
    using assms by (simp add: serial_jobs_def jobs_def)
  have inv: "thread_inv (cancel_call n t)" using assms thread_inv_cancel_call by (simp add: serial_jobs_def)
  show ?thesis
  proof (cases "Operation n \<in> set (pending t)")
    case True
    then obtain ys where p: "pending t = ys @ [Operation n]"
      using all by (cases "pending t" rule: rev_cases) auto
    then have "?done @ ys = map Operation [0..<n]" using all by simp
    then have "set ys \<subseteq> set (map Operation [0..<n])" by (metis Un_upper2 set_append)
    then have "Operation n \<notin> set ys" by auto
    then have "serial_jobs n (cancel_call n t)"
      using inv p all assms(2) by (simp add: serial_jobs_def jobs_def cancel_call_def remove1_append)
    then show ?thesis using assms(2) by (auto simp: cancel_call_def)
  next
    case False
    then have "cancel_call n t = t" by (simp add: cancel_call_def remove1_idem)
    then show ?thesis using assms by auto
  qed
qed

lemma serial_jobs_close:
  assumes "serial_jobs k t" and "close_thread t = Some t'" and "close_state t = NotSubmitted"
  shows "serial_jobs k t' \<and> close_state t' \<noteq> NotSubmitted \<and> finished t' = finished t"
  using assms thread_inv_close [of t t'] by (auto simp: serial_jobs_def close_thread_def jobs_def split: if_splits)

lemma close_thread_open: "thread_inv t \<Longrightarrow> close_state t = NotSubmitted \<Longrightarrow> \<exists>t'. close_thread t = Some t'"
  by (auto simp: close_thread_def thread_inv_def)

lemma serial_jobs_start:
  assumes "serial_jobs k t" and "start_job t = Some t'"
  shows "serial_jobs k t' \<and> close_state t' = close_state t \<and> finished t' = finished t"
  using assms thread_inv_start [of t t'] by (auto simp: serial_jobs_def start_job_def jobs_def split: option.splits list.splits)

lemma serial_jobs_finish:
  assumes "serial_jobs k t" and "finish_job b t = Some t'" and "running t = Some j"
  shows "serial_jobs k t' \<and> (close_state t' = NotSubmitted \<longleftrightarrow> close_state t = NotSubmitted) \<and> finished t' = finished t @ [j]"
proof -
  have inv: "thread_inv t" "thread_inv t'" using assms thread_inv_finish by (auto simp: serial_jobs_def)
  have j: "jobs t' = jobs t" using assms(2) by (auto simp: finish_job_def jobs_def split: option.splits)
  then have "close_state t' = NotSubmitted \<longleftrightarrow> close_state t = NotSubmitted"
    using close_job_submitted inv by metis
  then show ?thesis using assms inv j by (auto simp: serial_jobs_def finish_job_def)
qed

lemma serial_jobs_shutdown:
  assumes "serial_jobs k t" and "shutdown t = Some t'"
  shows "serial_jobs k t' \<and> close_state t' = close_state t \<and> finished t' = finished t"
  using assms thread_inv_shutdown [of t t'] by (auto simp: serial_jobs_def shutdown_def jobs_def split: close_future.splits)

lemma finished_prefix: "prefix (finished t) (jobs t)"
  by (simp add: jobs_def)

text \<open>When the last of distinct elements is in a prefix, the prefix is everything.\<close>

lemma prefix_with_last: "prefix xs (ys @ [y]) \<Longrightarrow> y \<in> set xs \<Longrightarrow> y \<notin> set ys \<Longrightarrow> xs = ys @ [y]"
  by (auto simp: prefix_snoc dest: set_mono_prefix)

section \<open>The log\<close>

lemma run_jobs_append:
  "run_jobs rj (xs @ ys) s =
     (fst (run_jobs rj ys (fst (run_jobs rj xs s))), snd (run_jobs rj xs s) @ snd (run_jobs rj ys (fst (run_jobs rj xs s))))"
  by (induction xs arbitrary: s) (auto simp: case_prod_beta)

lemma run_jobs_snoc:
  "run_jobs rj (xs @ [j]) s =
     (fst (run_job rj j (fst (run_jobs rj xs s))), snd (run_jobs rj xs s) @ [snd (run_job rj j (fst (run_jobs rj xs s)))])"
  by (simp add: run_jobs_append case_prod_beta)

text \<open>The objects and the log are those of the finished jobs, run one after the other.\<close>

definition log_inv :: "('s, 'b) reader_jobs \<Rightarrow> 's \<Rightarrow> ('s, 'b) stream_state \<Rightarrow> bool" where
  "log_inv rj s0 s \<longleftrightarrow>
     map fst (st_log s) = finished (st_thread s)
     \<and> run_jobs rj (finished (st_thread s)) s0 = (st_object s, map snd (st_log s))"

lemma log_reply:
  assumes "log_inv rj s0 s" and "finished (st_thread s) = js @ [j]" and "j \<notin> set js"
  shows "map_of (st_log s) j = Some (snd (run_job rj j (fst (run_jobs rj js s0))))"
proof -
  obtain l p where l: "st_log s = l @ [p]" and f: "map fst l = js" "fst p = j"
    using assms(1,2) by (cases "st_log s" rule: rev_cases) (auto simp: log_inv_def)
  have "snd p = snd (run_job rj j (fst (run_jobs rj js s0)))"
    using assms(1,2) l by (auto simp: log_inv_def run_jobs_snoc)
  moreover have "map_of l j = None" using assms(3) by (simp add: map_of_eq_None_iff flip: f(1))
  ultimately show ?thesis using l f(2) by (cases p) (simp add: map_add_def)
qed

lemma log_finished: "log_inv rj s0 s \<Longrightarrow> map_of (st_log s) j = Some r \<Longrightarrow> j \<in> set (finished (st_thread s))"
  unfolding log_inv_def by (metis map_of_SomeD image_eqI fst_conv list.set_map)

section \<open>The sequential stream\<close>

text \<open>
  What the generator yields when nothing interrupts it, from the batches that the reader's
  fetches return: the specification of the composition.
\<close>

definition sequential_run ::
    "('s, 'b) reader_jobs \<Rightarrow> ('b \<Rightarrow> 'b list) \<Rightarrow> ('s \<Rightarrow> 'b pull list) \<Rightarrow> 's \<Rightarrow> 'b list \<times> unit result" where
  "sequential_run rj slices content s0 =
     (case rj_open rj s0 of
        (s1, Inl e) \<Rightarrow> ([], Inl e)
      | (s1, Inr _) \<Rightarrow> pump (\<lambda>b. Inr (slices b)) (content s1))"

definition close_outcome :: "('s, 'b) reader_jobs \<Rightarrow> 's \<Rightarrow> unit result" where
  "close_outcome rj s0 = snd (rj_close rj (fst (rj_open rj s0)))"

fun interrupts :: "stream_event \<Rightarrow> bool" where
  "interrupts (Interrupt e) = True"
| "interrupts _ = False"

text \<open>The output and the outcome of the \<open>try\<close> block after the events \<open>evs\<close>.\<close>

definition body_outcome :: "stream_event list \<Rightarrow> 'b list \<times> unit result \<Rightarrow> 'b list \<Rightarrow> unit result \<Rightarrow> bool" where
  "body_outcome evs run ys m \<longleftrightarrow>
     prefix ys (fst run)
     \<and> (\<not> list_ex interrupts evs \<longrightarrow> (\<exists>leave. (ys, m) = consume leave run \<and> (Abandon \<notin> set evs \<longrightarrow> leave = None)))"

text \<open>After \<open>n\<close> jobs without a failure: \<open>ys\<close> are the slices of the batches fetched so far.\<close>

fun progress :: "('s, 'b) reader_jobs \<Rightarrow> ('b \<Rightarrow> 'b list) \<Rightarrow> ('s \<Rightarrow> 'b pull list) \<Rightarrow> 's \<Rightarrow> nat \<Rightarrow> 'b list \<Rightarrow> bool" where
  "progress rj slices content s0 0 ys \<longleftrightarrow> ys = []"
| "progress rj slices content s0 (Suc i) ys \<longleftrightarrow>
     snd (rj_open rj s0) = Inr ()
     \<and> (\<exists>bs rest. content (fst (rj_open rj s0)) = map Batch bs @ rest \<and> length bs = i \<and> ys = concat (map slices bs))"

definition phase_inv ::
    "('s, 'b) reader_jobs \<Rightarrow> ('b \<Rightarrow> 'b list) \<Rightarrow> ('s \<Rightarrow> 'b pull list) \<Rightarrow> (exn \<Rightarrow> exn option) \<Rightarrow> 's \<Rightarrow> stream_event list
       \<Rightarrow> nat \<Rightarrow> ('s, 'b) stream_state \<Rightarrow> bool" where
  "phase_inv rj slices content tr s0 evs k s \<longleftrightarrow>
     (case st_phase s of
        Created \<Rightarrow> k = 0 \<and> close_state (st_thread s) = NotSubmitted \<and> st_output s = []
      | Awaiting n \<Rightarrow> k = Suc n \<and> close_state (st_thread s) = NotSubmitted \<and> progress rj slices content s0 n (st_output s)
      | Yielding n rest \<Rightarrow> k = Suc n \<and> close_state (st_thread s) = NotSubmitted
          \<and> progress rj slices content s0 (Suc n) (st_output s @ rest) \<and> st_output s \<noteq> []
      | Leaving m \<Rightarrow> close_state (st_thread s) = NotSubmitted
          \<and> body_outcome evs (sequential_run rj slices content s0) (st_output s) m \<and> (\<not> list_ex interrupts evs \<longrightarrow> k \<noteq> 0)
      | Closing m \<Rightarrow> close_state (st_thread s) \<noteq> NotSubmitted
          \<and> body_outcome evs (sequential_run rj slices content s0) (st_output s) m \<and> (\<not> list_ex interrupts evs \<longrightarrow> k \<noteq> 0)
      | Ended r \<Rightarrow> close_state (st_thread s) \<noteq> NotSubmitted
          \<and> (\<exists>m. body_outcome evs (sequential_run rj slices content s0) (st_output s) m
               \<and> (\<not> list_ex interrupts evs \<longrightarrow> r = end_stream tr [close_outcome rj s0] m)))"

definition stream_inv ::
    "('s, 'b) reader_jobs \<Rightarrow> ('b \<Rightarrow> 'b list) \<Rightarrow> ('s \<Rightarrow> 'b pull list) \<Rightarrow> (exn \<Rightarrow> exn option) \<Rightarrow> 's \<Rightarrow> stream_event list
       \<Rightarrow> ('s, 'b) stream_state \<Rightarrow> bool" where
  "stream_inv rj slices content tr s0 evs s \<longleftrightarrow>
     log_inv rj s0 s \<and> (\<exists>k. serial_jobs k (st_thread s) \<and> phase_inv rj slices content tr s0 evs k s)"

lemma pump_append:
  "pump (\<lambda>b. Inr (f b)) (map Batch bs @ rest) =
     (concat (map f bs) @ fst (pump (\<lambda>b. Inr (f b)) rest), snd (pump (\<lambda>b. Inr (f b)) rest))"
  by (induction bs) auto

lemma progress_prefix: "progress rj slices content s0 n ys \<Longrightarrow> prefix ys (fst (sequential_run rj slices content s0))"
  by (cases n) (auto simp: sequential_run_def pump_append case_prod_beta split: sum.splits)

lemma body_outcome_snoc: "body_outcome evs run ys m \<Longrightarrow> body_outcome (evs @ [ev]) run ys m"
  by (auto simp: body_outcome_def)

lemma body_outcome_end: "run = (ys, m) \<Longrightarrow> body_outcome evs run ys m"
  by (auto simp: body_outcome_def consume_def split: option.splits)

lemma body_outcome_abandon:
  assumes "prefix ys (fst run)" and "Abandon \<in> set evs" and "ys \<noteq> []"
  shows "body_outcome evs run ys (Inl GeneratorExit)"
proof -
  obtain n where n: "length ys = Suc n" using assms(3) by (cases ys) auto
  then have "(ys, Inl GeneratorExit) = consume (Some n) run"
    using assms(1) by (auto simp: consume_def prefix_def)
  then show ?thesis using assms(1,2) unfolding body_outcome_def by blast
qed

text \<open>The worker's steps leave the generator where it is.\<close>

lemma phase_inv_worker:
  assumes "phase_inv rj slices content tr s0 evs k s"
    and "close_state t = NotSubmitted \<longleftrightarrow> close_state (st_thread s) = NotSubmitted"
    and "st_thread s' = t" and "st_phase s' = st_phase s" and "st_output s' = st_output s"
  shows "phase_inv rj slices content tr s0 (evs @ [ev]) k s'"
  using assms by (auto simp: phase_inv_def dest: body_outcome_snoc split: phase.splits)

lemma log_inv_keep:
  "log_inv rj s0 s \<Longrightarrow> st_log s' = st_log s \<Longrightarrow> st_object s' = st_object s \<Longrightarrow> finished (st_thread s') = finished (st_thread s)
    \<Longrightarrow> log_inv rj s0 s'"
  by (simp add: log_inv_def)

lemma stream_inv_worker:
  assumes "stream_inv rj slices content tr s0 evs s"
    and "stream_step rj slices tr ev s = Some s'" and "ev \<in> {WorkerStart, WorkerShutdown}"
  shows "stream_inv rj slices content tr s0 (evs @ [ev]) s'"
proof -
  from assms(1) obtain k where k: "log_inv rj s0 s" "serial_jobs k (st_thread s)" "phase_inv rj slices content tr s0 evs k s"
    by (auto simp: stream_inv_def)
  from assms(2,3) obtain t where s': "s' = s\<lparr>st_thread := t\<rparr>"
    and "start_job (st_thread s) = Some t \<or> shutdown (st_thread s) = Some t"
    by (auto simp: worker_start_def worker_shutdown_def)
  then have t: "serial_jobs k t" "close_state t = close_state (st_thread s)" "finished t = finished (st_thread s)"
    using serial_jobs_start [OF k(2)] serial_jobs_shutdown [OF k(2)] by blast+
  have "phase_inv rj slices content tr s0 (evs @ [ev]) k s'"
    by (rule phase_inv_worker [OF k(3)]) (use t in \<open>simp_all add: s'\<close>)
  moreover have "log_inv rj s0 s'" by (rule log_inv_keep [OF k(1)]) (use t in \<open>simp_all add: s'\<close>)
  ultimately show ?thesis using t(1) s' by (auto simp: stream_inv_def)
qed

lemma stream_inv_finish:
  assumes "stream_inv rj slices content tr s0 evs s" and "worker_finish rj s = Some s'"
  shows "stream_inv rj slices content tr s0 (evs @ [ev]) s'"
proof -
  from assms(1) obtain k where k: "log_inv rj s0 s" "serial_jobs k (st_thread s)" "phase_inv rj slices content tr s0 evs k s"
    by (auto simp: stream_inv_def)
  from assms(2) obtain j obj r t where j: "running (st_thread s) = Some j" and r: "run_job rj j (st_object s) = (obj, r)"
    and t: "finish_job (reply_failed r) (st_thread s) = Some t"
    and s': "s' = s\<lparr>st_thread := t, st_object := obj, st_log := st_log s @ [(j, r)]\<rparr>"
    by (cases "running (st_thread s)"; cases "run_job rj (the (running (st_thread s))) (st_object s)")
      (auto simp: worker_finish_def)
  from serial_jobs_finish [OF k(2) t j] have t': "serial_jobs k t" "finished t = finished (st_thread s) @ [j]"
    "close_state t = NotSubmitted \<longleftrightarrow> close_state (st_thread s) = NotSubmitted" by auto
  have "phase_inv rj slices content tr s0 (evs @ [ev]) k s'"
    by (rule phase_inv_worker [OF k(3) t'(3)]) (simp_all add: s')
  moreover have "log_inv rj s0 s'" using k(1) r t'(2) by (simp add: log_inv_def s' run_jobs_snoc)
  ultimately show ?thesis using t'(1) s' by (auto simp: stream_inv_def)
qed

text \<open>The worker alone empties its queue.\<close>

lemma worker_finish_runs: "running (st_thread s) = Some j \<Longrightarrow> \<exists>s'. worker_finish rj s = Some s' \<and> running (st_thread s') = None
    \<and> pending (st_thread s') = pending (st_thread s) \<and> jobs (st_thread s') = jobs (st_thread s)
    \<and> st_phase s' = st_phase s"
  by (cases "run_job rj j (st_object s)") (auto simp: worker_finish_def finish_job_def jobs_def)

lemma worker_start_runs:
  assumes "running (st_thread s) = None" and "pending (st_thread s) = j # js"
  shows "\<exists>s'. worker_start s = Some s' \<and> running (st_thread s') = Some j \<and> pending (st_thread s') = js
    \<and> jobs (st_thread s') = jobs (st_thread s) \<and> st_phase s' = st_phase s"
  using assms by (auto simp: worker_start_def start_job_def jobs_def)

text \<open>
  A generator that has left its loop, and how many steps can still follow: two for every queued job,
  and the generator's own. The done-callback of the close is not counted.
\<close>

definition left_loop :: "('s, 'b) stream_state \<Rightarrow> bool" where
  "left_loop s \<longleftrightarrow> (case st_phase s of Leaving _ \<Rightarrow> True | Closing _ \<Rightarrow> True | Ended _ \<Rightarrow> True | _ \<Rightarrow> False)"

definition steps_left :: "('s, 'b) stream_state \<Rightarrow> nat" where
  "steps_left s =
     2 * length (pending (st_thread s)) + (if running (st_thread s) = None then 0 else 1)
     + (case st_phase s of Leaving _ \<Rightarrow> 4 | Closing _ \<Rightarrow> 1 | _ \<Rightarrow> 0)"

definition counted :: "stream_event \<Rightarrow> bool" where
  "counted ev \<longleftrightarrow> ev \<noteq> WorkerShutdown"

lemma worker_steps:
  "worker_start s = Some s' \<Longrightarrow> st_phase s' = st_phase s \<and> finished (st_thread s') = finished (st_thread s) \<and> steps_left s' < steps_left s"
  "worker_finish rj s = Some s' \<Longrightarrow> st_phase s' = st_phase s \<and> set (finished (st_thread s)) \<subseteq> set (finished (st_thread s'))
     \<and> steps_left s' < steps_left s"
  "worker_shutdown s = Some s' \<Longrightarrow> st_phase s' = st_phase s \<and> finished (st_thread s') = finished (st_thread s)
     \<and> steps_left s' = steps_left s"
  by (auto simp: worker_start_def worker_finish_def worker_shutdown_def start_job_def finish_job_def shutdown_def steps_left_def
      split: option.splits list.splits prod.splits close_future.splits)

lemma left_loop_step:
  assumes "left_loop s" and "stream_step rj slices tr ev s = Some s'"
  shows "left_loop s' \<and> (if counted ev then steps_left s' < steps_left s else steps_left s' = steps_left s)"
proof (cases ev)
  case (Interrupt e)
  then show ?thesis
    using assms by (auto simp: interrupt_def left_loop_def counted_def steps_left_def split: phase.splits if_splits)
next
  case EnterClose
  then show ?thesis
    using assms by (auto simp: enter_close_def close_thread_def left_loop_def counted_def steps_left_def split: phase.splits if_splits)
next
  case LeaveClose
  then show ?thesis
    using assms by (auto simp: leave_close_def left_loop_def counted_def steps_left_def split: phase.splits option.splits reply.splits)
next
  case WorkerStart
  then show ?thesis using assms worker_steps(1) [of s s'] by (simp add: left_loop_def counted_def)
next
  case WorkerFinish
  then show ?thesis using assms worker_steps(2) [of rj s s'] by (simp add: left_loop_def counted_def)
next
  case WorkerShutdown
  then show ?thesis using assms worker_steps(3) [of s s'] by (simp add: left_loop_def counted_def)
qed (use assms in \<open>auto simp: next_value_def resume_def abandon_def left_loop_def split: phase.splits\<close>)

lemma left_loop_run:
  "stream_run rj slices tr s later s' \<Longrightarrow> left_loop s
    \<Longrightarrow> left_loop s' \<and> length (filter counted later) + steps_left s' \<le> steps_left s"
proof (induction rule: stream_run.induct)
  case (run_snoc s evs s' ev s'')
  then show ?case using left_loop_step [of s' rj slices tr ev s''] by (auto split: if_splits)
qed simp

section \<open>The contract of a reader\<close>

text \<open>
  What the generator needs of a reader: its fetches return the batches of its content, one at a
  time, and leave what closing does unchanged.
\<close>

locale pull_reader =
  fixes rj :: "('s, 'b) reader_jobs" and content :: "'s \<Rightarrow> 'b pull list"
  assumes fetch_end: "content s = [] \<Longrightarrow> snd (rj_fetch rj s) = Inr None"
    and fetch_batch: "content s = Batch b # rest \<Longrightarrow> \<exists>s'. rj_fetch rj s = (s', Inr (Some b)) \<and> content s' = rest"
    and fetch_other: "content s = NotBatch # rest \<Longrightarrow> snd (rj_fetch rj s) = Inl TransportError"
    and fetch_error: "content s = PullRaises e # rest \<Longrightarrow> snd (rj_fetch rj s) = Inl e"
    and close_fetch: "snd (rj_close rj (fst (rj_fetch rj s))) = snd (rj_close rj s)"
begin

lemma close_after_ops:
  "k \<noteq> 0 \<Longrightarrow> snd (rj_close rj (fst (run_jobs rj (map Operation [0..<k]) s0))) = close_outcome rj s0"
proof (induction k)
  case (Suc k)
  let ?s = "fst (run_jobs rj (map Operation [0..<k]) s0)"
  have "fst (run_jobs rj (map Operation [0..<Suc k]) s0) = fst (run_job rj (Operation k) ?s)"
    by (simp add: run_jobs_snoc)
  then show ?case using Suc.IH by (cases k) (simp_all add: close_fetch close_outcome_def)
qed simp

lemma content_after_ops:
  assumes "content (fst (rj_open rj s0)) = map Batch bs @ rest"
  shows "content (fst (run_jobs rj (map Operation [0..<Suc (length bs)]) s0)) = rest"
  using assms
proof (induction bs arbitrary: rest rule: rev_induct)
  case Nil
  then show ?case by (simp add: case_prod_beta)
next
  case (snoc b bs)
  let ?s = "fst (run_jobs rj (map Operation [0..<Suc (length bs)]) s0)"
  have "content ?s = Batch b # rest" using snoc by simp
  then obtain s' where "rj_fetch rj ?s = (s', Inr (Some b))" "content s' = rest" using fetch_batch by blast
  moreover have "map Operation [0..<Suc (length (bs @ [b]))] = map Operation [0..<Suc (length bs)] @ [Operation (Suc (length bs))]"
    by simp
  ultimately show ?case by (metis fst_conv map_prod_simp id_apply run_job.simps(2) run_jobs_snoc)
qed

text \<open>The reply that the generator finds when an awaited call has completed.\<close>

lemma awaited_reply:
  assumes "log_inv rj s0 s" and "serial_jobs (Suc n) (st_thread s)" and "close_state (st_thread s) = NotSubmitted"
    and "map_of (st_log s) (Operation n) = Some r"
  shows "r = snd (run_job rj (Operation n) (fst (run_jobs rj (map Operation [0..<n]) s0)))"
proof -
  have "prefix (finished (st_thread s)) (map Operation [0..<n] @ [Operation n])"
    using assms(2,3) finished_prefix [of "st_thread s"] by (simp add: serial_jobs_def)
  then have "finished (st_thread s) = map Operation [0..<n] @ [Operation n]"
    using log_finished [OF assms(1,4)] by (intro prefix_with_last) auto
  moreover have "Operation n \<notin> set (map Operation [0..<n])" by auto
  ultimately show ?thesis using log_reply [OF assms(1)] assms(4) by fastforce
qed

lemma awaited_fetch:
  assumes "progress rj slices content s0 (Suc i) ys"
  obtains bs rest where "content (fst (rj_open rj s0)) = map Batch bs @ rest" "length bs = i" "ys = concat (map slices bs)"
    "content (fst (run_jobs rj (map Operation [0..<Suc i]) s0)) = rest"
    "sequential_run rj slices content s0 = (ys @ fst (pump (\<lambda>b. Inr (slices b)) rest), snd (pump (\<lambda>b. Inr (slices b)) rest))"
proof -
  from assms obtain bs rest where b: "content (fst (rj_open rj s0)) = map Batch bs @ rest" "length bs = i" "ys = concat (map slices bs)"
    and o: "snd (rj_open rj s0) = Inr ()" by auto
  have "sequential_run rj slices content s0 = (ys @ fst (pump (\<lambda>b. Inr (slices b)) rest), snd (pump (\<lambda>b. Inr (slices b)) rest))"
    using b o by (cases "rj_open rj s0") (simp add: sequential_run_def pump_append)
  with b content_after_ops [OF b(1)] that show thesis by simp
qed

lemma stream_inv_submit:
  assumes "log_inv rj s0 s" and "serial_jobs n (st_thread s)" and "close_state (st_thread s) = NotSubmitted"
    and "progress rj slices content s0 n (st_output s)" and "submit n s = Some s'"
  shows "stream_inv rj slices content tr s0 evs s'"
proof -
  from assms(5) obtain t where t: "call n (st_thread s) = Some t" and s': "s' = s\<lparr>st_thread := t, st_phase := Awaiting n\<rparr>"
    by (auto simp: submit_def)
  note c = serial_jobs_call [OF assms(2) t assms(3)]
  have "log_inv rj s0 s'" by (rule log_inv_keep [OF assms(1)]) (use c in \<open>simp_all add: s'\<close>)
  then show ?thesis using c assms(4) s' by (auto simp: stream_inv_def phase_inv_def)
qed

lemma stream_inv_deliver:
  assumes "log_inv rj s0 s" and "serial_jobs (Suc n) (st_thread s)" and "close_state (st_thread s) = NotSubmitted"
    and "progress rj slices content s0 (Suc n) (st_output s @ xs)" and "deliver n xs s = Some s'"
  shows "stream_inv rj slices content tr s0 evs s'"
proof (cases xs)
  case Nil
  then show ?thesis using assms by (intro stream_inv_submit [of s0 s "Suc n"]) (auto simp: deliver_def)
next
  case (Cons x rest)
  then have s': "s' = s\<lparr>st_output := st_output s @ [x], st_phase := Yielding n rest\<rparr>" using assms(5) by (simp add: deliver_def)
  have "log_inv rj s0 s'" by (rule log_inv_keep [OF assms(1)]) (simp_all add: s')
  then show ?thesis using assms(2-4) Cons s' by (auto simp: stream_inv_def phase_inv_def)
qed

lemma stream_inv_leaving:
  assumes "log_inv rj s0 s" and "serial_jobs k (st_thread s)" and "close_state (st_thread s) = NotSubmitted"
    and "body_outcome evs (sequential_run rj slices content s0) (st_output s) m" and "\<not> list_ex interrupts evs \<Longrightarrow> k \<noteq> 0"
    and "s' = s\<lparr>st_phase := Leaving m\<rparr>"
  shows "stream_inv rj slices content tr s0 evs s'"
proof -
  have "log_inv rj s0 s'" by (rule log_inv_keep [OF assms(1)]) (simp_all add: assms(6))
  then show ?thesis using assms(2-6) by (auto simp: stream_inv_def phase_inv_def)
qed

lemma stream_inv_resume_open:
  assumes "log_inv rj s0 s" and "serial_jobs 1 (st_thread s)" and "close_state (st_thread s) = NotSubmitted"
    and "st_phase s = Awaiting 0" and "st_output s = []" and "resume slices s = Some s'"
  shows "stream_inv rj slices content tr s0 evs s'"
proof -
  have "serial_jobs (Suc 0) (st_thread s)" using assms(2) by simp
  from assms(4,6) awaited_reply [OF assms(1) this assms(3)]
  have r: "map_of (st_log s) (Operation 0) = Some (Opened (snd (rj_open rj s0)))"
    by (cases "map_of (st_log s) (Operation 0)") (auto simp: resume_def)
  show ?thesis
  proof (cases "snd (rj_open rj s0)")
    case (Inl e)
    then have "sequential_run rj slices content s0 = (st_output s, Inl e)"
      using assms(5) by (simp add: sequential_run_def case_prod_beta)
    then show ?thesis using assms(4,6) r Inl
      by (intro stream_inv_leaving [OF assms(1-3) body_outcome_end]) (auto simp: resume_def)
  next
    case (Inr u)
    then have "progress rj slices content s0 1 (st_output s)" using assms(5) by (auto intro!: exI [of _ "[]"])
    then show ?thesis using assms(4,6) r Inr
      by (intro stream_inv_submit [OF assms(1-3)]) (auto simp: resume_def)
  qed
qed

lemma stream_inv_resume_fetch:
  assumes "log_inv rj s0 s" and "serial_jobs (Suc (Suc i)) (st_thread s)" and "close_state (st_thread s) = NotSubmitted"
    and "st_phase s = Awaiting (Suc i)" and "progress rj slices content s0 (Suc i) (st_output s)" and "resume slices s = Some s'"
  shows "stream_inv rj slices content tr s0 evs s'"
proof -
  let ?obj = "fst (run_jobs rj (map Operation [0..<Suc i]) s0)"
  from awaited_fetch [OF assms(5)] obtain bs rest where
    b: "content (fst (rj_open rj s0)) = map Batch bs @ rest" "length bs = i" "st_output s = concat (map slices bs)"
    and c: "content ?obj = rest"
    and run: "sequential_run rj slices content s0 =
        (st_output s @ fst (pump (\<lambda>b. Inr (slices b)) rest), snd (pump (\<lambda>b. Inr (slices b)) rest))" by metis
  from assms(4,6) awaited_reply [OF assms(1-3)]
  have r: "map_of (st_log s) (Operation (Suc i)) = Some (Fetched (snd (rj_fetch rj ?obj)))"
    by (cases "map_of (st_log s) (Operation (Suc i))") (auto simp: resume_def simp del: upt_Suc)
  have leave: "stream_inv rj slices content tr s0 evs s'"
    if "sequential_run rj slices content s0 = (st_output s, m)" and "s' = s\<lparr>st_phase := Leaving m\<rparr>" for m
    using that by (intro stream_inv_leaving [OF assms(1-3) body_outcome_end]) auto
  show ?thesis
  proof (cases rest)
    case Nil
    then show ?thesis using c r run assms(4,6) fetch_end [of ?obj] by (intro leave) (auto simp: resume_def simp del: upt_Suc)
  next
    case (Cons p rest')
    show ?thesis
    proof (cases p)
      case (Batch x)
      then have "snd (rj_fetch rj ?obj) = Inr (Some x)" using c Cons fetch_batch [of ?obj x rest'] by auto
      then have d: "deliver (Suc i) (slices x) s = Some s'" using r assms(4,6) by (simp add: resume_def del: upt_Suc)
      have "progress rj slices content s0 (Suc (Suc i)) (st_output s @ slices x)"
        using assms(5) b Cons Batch by (auto intro!: exI [of _ "bs @ [x]"])
      then show ?thesis by (rule stream_inv_deliver [OF assms(1-3) _ d])
    next
      case NotBatch
      then show ?thesis using c r run Cons assms(4,6) fetch_other [of ?obj] by (intro leave) (auto simp: resume_def simp del: upt_Suc)
    next
      case (PullRaises e)
      then show ?thesis using c r run Cons assms(4,6) fetch_error [of ?obj e] by (intro leave) (auto simp: resume_def simp del: upt_Suc)
    qed
  qed
qed

lemma stream_inv_resume:
  assumes "stream_inv rj slices content tr s0 evs s" and "resume slices s = Some s'"
  shows "stream_inv rj slices content tr s0 (evs @ [Resume]) s'"
proof -
  from assms(1) obtain k where k: "log_inv rj s0 s" "serial_jobs k (st_thread s)" "phase_inv rj slices content tr s0 evs k s"
    by (auto simp: stream_inv_def)
  from assms(2) obtain n where n: "st_phase s = Awaiting n" by (auto simp: resume_def split: phase.splits)
  with k(3) have c: "k = Suc n" "close_state (st_thread s) = NotSubmitted" "progress rj slices content s0 n (st_output s)"
    by (auto simp: phase_inv_def)
  show ?thesis
  proof (cases n)
    case 0
    then show ?thesis using k c n assms(2) by (intro stream_inv_resume_open) auto
  next
    case (Suc i)
    then show ?thesis using k c n assms(2) by (intro stream_inv_resume_fetch) auto
  qed
qed

lemma stream_inv_next:
  assumes "stream_inv rj slices content tr s0 evs s" and "next_value s = Some s'"
  shows "stream_inv rj slices content tr s0 (evs @ [Next]) s'"
proof -
  from assms(1) obtain k where k: "log_inv rj s0 s" "serial_jobs k (st_thread s)" "phase_inv rj slices content tr s0 evs k s"
    by (auto simp: stream_inv_def)
  from assms(2) consider "st_phase s = Created" "submit 0 s = Some s'"
    | n rest where "st_phase s = Yielding n rest" "deliver n rest s = Some s'"
    by (auto simp: next_value_def split: phase.splits)
  then show ?thesis
  proof cases
    case 1
    then show ?thesis using k by (intro stream_inv_submit [OF k(1) _ _ _ 1(2)]) (auto simp: phase_inv_def)
  next
    case (2 n rest)
    then show ?thesis using k by (intro stream_inv_deliver [OF k(1) _ _ _ 2(2)]) (auto simp: phase_inv_def simp del: progress.simps)
  qed
qed

lemma stream_inv_abandon:
  assumes "stream_inv rj slices content tr s0 evs s" and "abandon s = Some s'"
  shows "stream_inv rj slices content tr s0 (evs @ [Abandon]) s'"
proof -
  from assms(1) obtain k where k: "log_inv rj s0 s" "serial_jobs k (st_thread s)" "phase_inv rj slices content tr s0 evs k s"
    by (auto simp: stream_inv_def)
  from assms(2) obtain n rest where y: "st_phase s = Yielding n rest" and s': "s' = s\<lparr>st_phase := Leaving (Inl GeneratorExit)\<rparr>"
    by (auto simp: abandon_def split: phase.splits)
  with k(3) have c: "k = Suc n" "close_state (st_thread s) = NotSubmitted" "progress rj slices content s0 (Suc n) (st_output s @ rest)"
      "st_output s \<noteq> []"
    by (auto simp: phase_inv_def simp del: progress.simps)
  have "prefix (st_output s) (fst (sequential_run rj slices content s0))"
    by (rule append_prefixD [OF progress_prefix [OF c(3)]])
  from body_outcome_abandon [OF this, of "evs @ [Abandon]"] c(1,2,4) show ?thesis
    by (intro stream_inv_leaving [OF k(1,2) _ _ _ s']) auto
qed

lemma stream_inv_interrupt:
  assumes "stream_inv rj slices content tr s0 evs s" and "interrupt tr e s = Some s'"
  shows "stream_inv rj slices content tr s0 (evs @ [Interrupt e]) s'"
proof -
  from assms(1) obtain k where k: "log_inv rj s0 s" "serial_jobs k (st_thread s)" "phase_inv rj slices content tr s0 evs k s"
    by (auto simp: stream_inv_def)
  have out: "body_outcome (evs @ [Interrupt e]) run ys m" if "prefix ys (fst run)" for run :: "'b list \<times> unit result" and ys m
    using that by (simp add: body_outcome_def)
  from assms(2) consider
      n where "st_phase s = Awaiting n" "s' = s\<lparr>st_thread := cancel_call n (st_thread s), st_phase := Leaving (Inl e)\<rparr>"
    | m where "st_phase s = Closing m" "s' = s\<lparr>st_phase := Ended (end_stream tr [Inl e] m)\<rparr>"
    by (auto simp: interrupt_def split: phase.splits if_splits)
  then show ?thesis
  proof cases
    case (1 n)
    with k(3) have c: "k = Suc n" "close_state (st_thread s) = NotSubmitted" "progress rj slices content s0 n (st_output s)"
      by (auto simp: phase_inv_def)
    from serial_jobs_cancel [of n "st_thread s"] k(2) c(1,2) obtain k' where
      k': "serial_jobs k' (cancel_call n (st_thread s))" "close_state (cancel_call n (st_thread s)) = NotSubmitted"
        "finished (cancel_call n (st_thread s)) = finished (st_thread s)" by blast
    have "log_inv rj s0 s'" by (rule log_inv_keep [OF k(1)]) (use k'(3) in \<open>simp_all add: 1\<close>)
    then show ?thesis using k' out [OF progress_prefix [OF c(3)]] 1(2) by (auto simp: stream_inv_def phase_inv_def)
  next
    case (2 m)
    have "log_inv rj s0 s'" by (rule log_inv_keep [OF k(1)]) (simp_all add: 2)
    moreover have "phase_inv rj slices content tr s0 (evs @ [Interrupt e]) k s'"
      using k(3) 2 by (auto simp: phase_inv_def body_outcome_def)
    ultimately show ?thesis using k(2) 2(2) by (auto simp: stream_inv_def)
  qed
qed

lemma stream_inv_enter_close:
  assumes "stream_inv rj slices content tr s0 evs s" and "enter_close s = Some s'"
  shows "stream_inv rj slices content tr s0 (evs @ [EnterClose]) s'"
proof -
  from assms(1) obtain k where k: "log_inv rj s0 s" "serial_jobs k (st_thread s)" "phase_inv rj slices content tr s0 evs k s"
    by (auto simp: stream_inv_def)
  from assms(2) obtain m t where m: "st_phase s = Leaving m" and t: "close_thread (st_thread s) = Some t"
    and s': "s' = s\<lparr>st_thread := t, st_phase := Closing m\<rparr>"
    by (auto simp: enter_close_def split: phase.splits)
  have "close_state (st_thread s) = NotSubmitted" using k(3) m by (simp add: phase_inv_def)
  note c = serial_jobs_close [OF k(2) t this]
  have "log_inv rj s0 s'" by (rule log_inv_keep [OF k(1)]) (use c in \<open>simp_all add: s'\<close>)
  then show ?thesis using c k(3) m s' by (auto simp: stream_inv_def phase_inv_def intro: body_outcome_snoc)
qed

lemma closed_reply:
  assumes "log_inv rj s0 s" and "serial_jobs k (st_thread s)" and "map_of (st_log s) CloseJob = Some r" and "k \<noteq> 0"
  shows "r = Closed (close_outcome rj s0)"
proof -
  have c: "CloseJob \<in> set (finished (st_thread s))" by (rule log_finished [OF assms(1,3)])
  then have "CloseJob \<in> set (jobs (st_thread s))" using set_mono_prefix [OF finished_prefix] by blast
  then have "close_state (st_thread s) \<noteq> NotSubmitted" using assms(2) close_job_submitted by (auto simp: serial_jobs_def)
  then have "prefix (finished (st_thread s)) (map Operation [0..<k] @ [CloseJob])"
    using assms(2) finished_prefix [of "st_thread s"] by (simp add: serial_jobs_def)
  then have "finished (st_thread s) = map Operation [0..<k] @ [CloseJob]"
    using c by (intro prefix_with_last) auto
  from log_reply [OF assms(1) this] assms(3) have "r = snd (run_job rj CloseJob (fst (run_jobs rj (map Operation [0..<k]) s0)))"
    by fastforce
  then show ?thesis using close_after_ops [OF assms(4)] by simp
qed

lemma stream_inv_leave_close:
  assumes "stream_inv rj slices content tr s0 evs s" and "leave_close tr s = Some s'"
  shows "stream_inv rj slices content tr s0 (evs @ [LeaveClose]) s'"
proof -
  from assms(1) obtain k where k: "log_inv rj s0 s" "serial_jobs k (st_thread s)" "phase_inv rj slices content tr s0 evs k s"
    by (auto simp: stream_inv_def)
  from assms(2) obtain m r where m: "st_phase s = Closing m" and r: "map_of (st_log s) CloseJob = Some (Closed r)"
    and s': "s' = s\<lparr>st_phase := Ended (end_stream tr [r] m)\<rparr>"
    by (auto simp: leave_close_def split: phase.splits option.splits reply.splits)
  have "log_inv rj s0 s'" by (rule log_inv_keep [OF k(1)]) (simp_all add: s')
  moreover have "phase_inv rj slices content tr s0 (evs @ [LeaveClose]) k s'"
    using k(3) m s' closed_reply [OF k(1,2) r] by (auto simp: phase_inv_def intro: body_outcome_snoc)
  ultimately show ?thesis using k(2) s' by (auto simp: stream_inv_def)
qed

lemma stream_inv_step:
  assumes "stream_inv rj slices content tr s0 evs s" and "stream_step rj slices tr ev s = Some s'"
  shows "stream_inv rj slices content tr s0 (evs @ [ev]) s'"
  using assms
  by (cases ev)
     (auto intro: stream_inv_next stream_inv_resume stream_inv_abandon stream_inv_interrupt stream_inv_enter_close
        stream_inv_leave_close stream_inv_finish stream_inv_worker [OF assms(1)])

lemma stream_inv_new: "stream_inv rj slices content tr s0 [] (new_stream s0)"
  using serial_jobs_new by (auto simp: stream_inv_def phase_inv_def log_inv_def new_stream_def TaskThread_def)

lemma stream_inv_run: "stream_run rj slices tr (new_stream s0) evs s \<Longrightarrow> stream_inv rj slices content tr s0 evs s"
  by (induction "new_stream s0 :: ('s, 'b) stream_state" evs s rule: stream_run.induct)
     (auto intro: stream_inv_new stream_inv_step)

section \<open>What every interleaving guarantees\<close>

lemma run_output_prefix:
  assumes "stream_run rj slices tr (new_stream s0) evs s"
  shows "prefix (st_output s) (fst (sequential_run rj slices content s0))"
proof -
  from stream_inv_run [OF assms] obtain k where p: "phase_inv rj slices content tr s0 evs k s" by (auto simp: stream_inv_def)
  show ?thesis
  proof (cases "st_phase s")
    case (Yielding n rest)
    then have "progress rj slices content s0 (Suc n) (st_output s @ rest)" using p by (simp add: phase_inv_def del: progress.simps)
    from append_prefixD [OF progress_prefix [OF this]] show ?thesis .
  next
    case (Awaiting n)
    then have "progress rj slices content s0 n (st_output s)" using p by (simp add: phase_inv_def)
    then show ?thesis by (rule progress_prefix)
  qed (use p in \<open>auto simp: phase_inv_def body_outcome_def\<close>)
qed

lemma run_refines_sequential:
  assumes "stream_run rj slices tr (new_stream s0) evs s" and "st_phase s = Ended r" and "\<not> list_ex interrupts evs"
  shows "\<exists>leave m. (st_output s, m) = consume leave (sequential_run rj slices content s0)
    \<and> r = end_stream tr [close_outcome rj s0] m \<and> (Abandon \<notin> set evs \<longrightarrow> leave = None)"
  using stream_inv_run [OF assms(1)] assms(2,3) by (auto simp: stream_inv_def phase_inv_def body_outcome_def)

lemma run_serial:
  assumes "stream_run rj slices tr (new_stream s0) evs s"
  shows "\<exists>k. jobs (st_thread s) = map Operation [0..<k] @ (if close_state (st_thread s) = NotSubmitted then [] else [CloseJob])
    \<and> run_jobs rj (finished (st_thread s)) s0 = (st_object s, map snd (st_log s))
    \<and> map fst (st_log s) = finished (st_thread s)"
  using stream_inv_run [OF assms] by (auto simp: stream_inv_def serial_jobs_def log_inv_def)

lemma close_reply_logged:
  assumes "log_inv rj s0 s" and "finished (st_thread s) = map Operation [0..<k] @ [CloseJob]"
  shows "\<exists>r. map_of (st_log s) CloseJob = Some (Closed r)"
  using log_reply [OF assms] by auto

text \<open>
  A generator that has left its loop ends only when the reader has been closed, unless the wait for
  the close was interrupted; and when nothing more can happen, it has ended and the close has run.
\<close>

lemma ended_after_close:
  assumes "stream_run rj slices tr (new_stream s0) evs s" and "st_phase s = Leaving m"
    and "stream_run rj slices tr s later s'" and "st_phase s' = Ended r" and "\<not> list_ex interrupts later"
  shows "CloseJob \<in> set (finished (st_thread s'))"
  using assms(3,1,2,4,5)
proof (induction arbitrary: r rule: stream_run.induct)
  case (run_nil s)
  then show ?case by simp
next
  case (run_snoc s later s1 ev s2)
  note start = run_snoc.prems(1,2)
  have quiet: "\<not> list_ex interrupts later" "\<not> interrupts ev" using run_snoc.prems(4) by auto
  have left: "left_loop s1" using left_loop_run [OF run_snoc.hyps(1)] start(2) by (simp add: left_loop_def)
  have closed: "CloseJob \<in> set (finished (st_thread s1))" if "Ended x = st_phase s1" for x
    by (rule run_snoc.IH [OF start that [symmetric] quiet(1)])
  show ?case
  proof (cases ev)
    case LeaveClose
    then obtain x where x: "map_of (st_log s1) CloseJob = Some x" and t: "st_thread s2 = st_thread s1"
      using run_snoc.hyps(2) by (auto simp: leave_close_def split: phase.splits option.splits reply.splits)
    have "log_inv rj s0 s1" using stream_inv_run [OF stream_run_trans [OF run_snoc.hyps(1) start(1)]] by (simp add: stream_inv_def)
    from log_finished [OF this x] t show ?thesis by simp
  next
    case WorkerStart
    then show ?thesis using worker_steps(1) [of s1 s2] run_snoc.hyps(2) run_snoc.prems(3) closed by auto
  next
    case WorkerFinish
    then show ?thesis using worker_steps(2) [of rj s1 s2] run_snoc.hyps(2) run_snoc.prems(3) closed by auto
  next
    case WorkerShutdown
    then show ?thesis using worker_steps(3) [of s1 s2] run_snoc.hyps(2) run_snoc.prems(3) closed by auto
  qed (use left quiet(2) run_snoc.hyps(2) run_snoc.prems(3) in
      \<open>auto simp: next_value_def resume_def abandon_def enter_close_def left_loop_def split: phase.splits\<close>)
qed

lemma stuck_after_close:
  assumes "stream_run rj slices tr (new_stream s0) evs s" and "left_loop s"
    and "\<forall>ev \<in> {EnterClose, LeaveClose, WorkerStart, WorkerFinish}. stream_step rj slices tr ev s = None"
  shows "(\<exists>r. st_phase s = Ended r) \<and> CloseJob \<in> set (finished (st_thread s))"
proof -
  from stream_inv_run [OF assms(1)] obtain k where k: "log_inv rj s0 s" "serial_jobs k (st_thread s)"
    "phase_inv rj slices content tr s0 evs k s" by (auto simp: stream_inv_def)
  have inv: "thread_inv (st_thread s)" using k(2) by (simp add: serial_jobs_def)
  have idle: "running (st_thread s) = None" using worker_finish_runs [of s _ rj] assms(3) by fastforce
  then have "pending (st_thread s) = []" using worker_start_runs [OF idle] assms(3) by (cases "pending (st_thread s)") force+
  then have all: "finished (st_thread s) = jobs (st_thread s)" using idle by (simp add: jobs_def)
  have "st_phase s \<noteq> Leaving m" for m
    using close_thread_open [OF inv] k(3) assms(3) by (auto simp: phase_inv_def enter_close_def)
  then have sub: "close_state (st_thread s) \<noteq> NotSubmitted" using k(3) assms(2) by (auto simp: phase_inv_def left_loop_def split: phase.splits)
  then have f: "finished (st_thread s) = map Operation [0..<k] @ [CloseJob]" using k(2) all by (simp add: serial_jobs_def)
  from close_reply_logged [OF k(1) f] obtain c where "map_of (st_log s) CloseJob = Some (Closed c)" ..
  then have "st_phase s \<noteq> Closing m" for m using assms(3) by (auto simp: leave_close_def)
  then show ?thesis using \<open>\<And>m. st_phase s \<noteq> Leaving m\<close> assms(2) f by (auto simp: left_loop_def split: phase.splits)
qed

lemma leaving_closes:
  assumes "stream_run rj slices tr (new_stream s0) evs s" and "st_phase s = Leaving m" and "stream_run rj slices tr s later s'"
  shows "length (filter counted later) \<le> 2 * length (pending (st_thread s)) + 5"
    and "st_phase s' = Ended r \<Longrightarrow> \<not> list_ex interrupts later \<Longrightarrow> CloseJob \<in> set (finished (st_thread s'))"
    and "\<forall>ev \<in> {EnterClose, LeaveClose, WorkerStart, WorkerFinish}. stream_step rj slices tr ev s' = None \<Longrightarrow>
      (\<exists>r. st_phase s' = Ended r) \<and> CloseJob \<in> set (finished (st_thread s'))"
proof -
  have "left_loop s" "steps_left s \<le> 2 * length (pending (st_thread s)) + 5" using assms(2) by (simp_all add: left_loop_def steps_left_def)
  with left_loop_run [OF assms(3)] have l: "left_loop s'" "length (filter counted later) \<le> 2 * length (pending (st_thread s)) + 5" by auto
  show "length (filter counted later) \<le> 2 * length (pending (st_thread s)) + 5" by (rule l(2))
  show "st_phase s' = Ended r \<Longrightarrow> \<not> list_ex interrupts later \<Longrightarrow> CloseJob \<in> set (finished (st_thread s'))"
    by (rule ended_after_close [OF assms])
  show "\<forall>ev \<in> {EnterClose, LeaveClose, WorkerStart, WorkerFinish}. stream_step rj slices tr ev s' = None \<Longrightarrow>
      (\<exists>r. st_phase s' = Ended r) \<and> CloseJob \<in> set (finished (st_thread s'))"
    by (rule stuck_after_close [OF stream_run_trans [OF assms(3,1)] l(1)])
qed

end

end
