(* ===== verification/Doris_Reader.thy ===== *)
theory Doris_Reader
  imports Doris_Transport Reader_Thread
begin

text \<open>
  The two readers of \<^verbatim>\<open>doris/transports/mysql.py\<close> and \<^verbatim>\<open>doris/transports/flight.py\<close> as jobs of
  their worker threads, and the streams of \<open>Doris_Transport\<close> as what every interleaving of
  generator, consumer and worker amounts to.
\<close>

section \<open>\<open>MySqlBatchReader\<close>\<close>

text \<open>The reader's fields, its current fetch size, and the rows its cursor has still to send.\<close>

record mysql_object =
  mo_reader :: mysql_reader
  mo_fetch_rows :: nat
  mo_rows :: "pyobj list list"

definition new_mysql_object :: "mysql_stream \<Rightarrow> resource_limits \<Rightarrow> mysql_object" where
  "new_mysql_object d limits =
     \<lparr>mo_reader = MySqlBatchReader, mo_fetch_rows = nat (batch_rows limits), mo_rows = ms_rows d\<rparr>"

definition mysql_open_job ::
    "heap \<Rightarrow> (string \<times> string) list \<Rightarrow> mysql_stream \<Rightarrow> doris_connection \<Rightarrow> query_spec \<Rightarrow> resource_limits
       \<Rightarrow> mysql_object \<Rightarrow> mysql_object \<times> unit result" where
  "mysql_open_job h environ d c q limits obj =
     (let (rd, r) = open_reader h environ d c q limits in (obj\<lparr>mo_reader := rd\<rparr>, r))"

text \<open>Without a cursor, \<open>_fetch\<close> calls a method of \<open>None\<close>.\<close>

definition mysql_fetch_job ::
    "'b arrow_ops \<Rightarrow> ('b, 'c) array_ops \<Rightarrow> mysql_stream \<Rightarrow> query_spec \<Rightarrow> resource_limits \<Rightarrow> mysql_object
       \<Rightarrow> mysql_object \<times> 'b option result" where
  "mysql_fetch_job pa ar d q limits obj =
     (if mr_lifecycle (mo_reader obj) = None then (obj, Inl AttributeError)
      else case fetch_many (mo_fetch_rows obj) (mo_rows obj) (ms_error d) of
        Inl e \<Rightarrow> (obj, Inl e)
      | Inr rows \<Rightarrow>
          if rows = [] then (obj, Inr None)
          else
            (let obj' = obj\<lparr>mo_rows := drop (mo_fetch_rows obj) (mo_rows obj)\<rparr>
             in case rows_to_batch ar rows (mr_column_names (mo_reader obj)) (arrow_schema q) of
               Inl e \<Rightarrow> (obj', Inl e)
             | Inr b \<Rightarrow> (obj'\<lparr>mo_fetch_rows := next_fetch_rows pa limits (mo_fetch_rows obj) b\<rparr>, Inr (Some b))))"

definition mysql_close_job :: "mysql_stream \<Rightarrow> mysql_object \<Rightarrow> mysql_object \<times> unit result" where
  "mysql_close_job d obj =
     (obj\<lparr>mo_reader := (mo_reader obj)\<lparr>mr_connection := False, mr_lifecycle := None\<rparr>\<rparr>, close_reader d (mo_reader obj))"

definition mysql_jobs ::
    "heap \<Rightarrow> (string \<times> string) list \<Rightarrow> 'b arrow_ops \<Rightarrow> ('b, 'c) array_ops \<Rightarrow> mysql_stream \<Rightarrow> doris_connection
       \<Rightarrow> query_spec \<Rightarrow> resource_limits \<Rightarrow> (mysql_object, 'b) reader_jobs" where
  "mysql_jobs h environ pa ar d c q limits =
     \<lparr>rj_open = mysql_open_job h environ d c q limits, rj_fetch = mysql_fetch_job pa ar d q limits,
      rj_close = mysql_close_job d\<rparr>"

text \<open>The batches that the fetches of an open reader return.\<close>

definition mysql_content ::
    "'b arrow_ops \<Rightarrow> ('b, 'c) array_ops \<Rightarrow> mysql_stream \<Rightarrow> query_spec \<Rightarrow> resource_limits \<Rightarrow> mysql_object \<Rightarrow> 'b pull list" where
  "mysql_content pa ar d q limits obj =
     (if mr_lifecycle (mo_reader obj) = None then [PullRaises AttributeError]
      else fetches pa ar (mr_column_names (mo_reader obj)) (arrow_schema q) limits (mo_fetch_rows obj) (mo_rows obj) (ms_error d))"

lemma mysql_fetch_content:
  "case mysql_content pa ar d q limits obj of
     [] \<Rightarrow> snd (mysql_fetch_job pa ar d q limits obj) = Inr None
   | Batch b # rest \<Rightarrow> \<exists>obj'. mysql_fetch_job pa ar d q limits obj = (obj', Inr (Some b)) \<and> mysql_content pa ar d q limits obj' = rest
   | NotBatch # rest \<Rightarrow> False
   | PullRaises e # rest \<Rightarrow> snd (mysql_fetch_job pa ar d q limits obj) = Inl e"
  by (cases "mr_lifecycle (mo_reader obj)") (simp_all add: mysql_content_def mysql_fetch_job_def Let_def
      fetches.simps [of pa ar _ _ limits "mo_fetch_rows obj" "mo_rows obj"] split: sum.splits)

lemma mysql_close_after_fetch:
  "snd (mysql_close_job d (fst (mysql_fetch_job pa ar d q limits obj))) = snd (mysql_close_job d obj)"
  by (simp add: mysql_close_job_def mysql_fetch_job_def Let_def split: sum.splits)

interpretation mysql_reader: pull_reader "mysql_jobs h environ pa ar d c q limits" "mysql_content pa ar d q limits"
  for h environ pa ar d c q limits
proof
  fix obj b rest e
  note f = mysql_fetch_content [of pa ar d q limits obj]
  show "mysql_content pa ar d q limits obj = [] \<Longrightarrow> snd (rj_fetch (mysql_jobs h environ pa ar d c q limits) obj) = Inr None"
    "mysql_content pa ar d q limits obj = Batch b # rest \<Longrightarrow>
       \<exists>obj'. rj_fetch (mysql_jobs h environ pa ar d c q limits) obj = (obj', Inr (Some b)) \<and> mysql_content pa ar d q limits obj' = rest"
    "mysql_content pa ar d q limits obj = NotBatch # rest \<Longrightarrow>
       snd (rj_fetch (mysql_jobs h environ pa ar d c q limits) obj) = Inl TransportError"
    "mysql_content pa ar d q limits obj = PullRaises e # rest \<Longrightarrow>
       snd (rj_fetch (mysql_jobs h environ pa ar d c q limits) obj) = Inl e"
    using f by (simp_all add: mysql_jobs_def)
qed (simp add: mysql_jobs_def mysql_close_after_fetch)

text \<open>A successful opening leaves a cursor with its life cycle.\<close>

lemma open_reader_lifecycle: "open_reader h environ d c q limits = (rd, Inr u) \<Longrightarrow> mr_lifecycle rd \<noteq> None"
  by (auto simp: open_reader_def prepare_cursor_def Let_def split: sum.splits option.splits)

lemma consume_failed: "consume leave ([], Inl e) = ([], Inl e)"
  by (auto simp: consume_def split: option.splits)

text \<open>The sequential run of the jobs is the stream.\<close>

lemma mysql_sequential:
  assumes "(ys, m) = consume leave (sequential_run (mysql_jobs h environ pa ar d c q l) (bounded_slices pa l)
           (mysql_content pa ar d q l) (new_mysql_object d l))"
  shows "(ys, end_stream translate_doris_error [close_outcome (mysql_jobs h environ pa ar d c q l) (new_mysql_object d l)] m)
    = stream_query_mysql h environ pa ar d c q l leave"
proof -
  obtain rd r where o: "open_reader h environ d c q l = (rd, r)" by (cases "open_reader h environ d c q l")
  have cl: "close_outcome (mysql_jobs h environ pa ar d c q l) (new_mysql_object d l) = close_reader d rd"
    by (simp add: close_outcome_def mysql_jobs_def mysql_open_job_def mysql_close_job_def o)
  show ?thesis
  proof (cases r)
    case (Inl e)
    then have "(ys, m) = ([], Inl e)"
      using assms consume_failed
      by (simp add: sequential_run_def mysql_jobs_def mysql_open_job_def o)
    then show ?thesis using Inl by (simp add: stream_query_mysql_def o cl)
  next
    case (Inr u)
    define run where "run = consume leave (pump (\<lambda>b. Inr (bounded_slices pa l b))
        (fetches pa ar (mr_column_names rd) (arrow_schema q) l (nat (batch_rows l)) (ms_rows d) (ms_error d)))"
    have "run = (ys, m)"
      using assms o Inr open_reader_lifecycle [of h environ d c q l rd u] unfolding run_def
      by (simp add: sequential_run_def mysql_jobs_def mysql_open_job_def mysql_content_def new_mysql_object_def)
    then show ?thesis using Inr by (simp add: stream_query_mysql_def o cl flip: run_def)
  qed
qed

section \<open>\<open>FlightBatchReader\<close>\<close>

record 'b flight_object =
  fo_reader :: flight_reader
  fo_items :: "'b pull list"

definition new_flight_object :: "'b flight_stream \<Rightarrow> 'b flight_object" where
  "new_flight_object d =
     \<lparr>fo_reader = \<lparr>fr_connection = False, fr_cursor = False, fr_reader = False\<rparr>, fo_items = fl_items d\<rparr>"

definition flight_open_job ::
    "(string \<times> string) list \<Rightarrow> 'b flight_stream \<Rightarrow> doris_connection \<Rightarrow> query_spec \<Rightarrow> resource_limits
       \<Rightarrow> 'b flight_object \<Rightarrow> 'b flight_object \<times> unit result" where
  "flight_open_job environ d c q limits obj =
     (let (rd, r) = open_flight environ d c q limits in (obj\<lparr>fo_reader := rd\<rparr>, r))"

text \<open>Without a reader, \<open>next(None)\<close> is a \<open>TypeError\<close>.\<close>

definition flight_fetch_job ::
    "'b arrow_ops \<Rightarrow> query_spec \<Rightarrow> 'b flight_object \<Rightarrow> 'b flight_object \<times> 'b option result" where
  "flight_fetch_job pa q obj =
     (if \<not> fr_reader (fo_reader obj) then (obj, Inl TypeError)
      else case fo_items obj of
        [] \<Rightarrow> (obj, Inr None)
      | PullRaises e # rest \<Rightarrow> (obj\<lparr>fo_items := rest\<rparr>, Inl e)
      | NotBatch # rest \<Rightarrow> (obj\<lparr>fo_items := rest\<rparr>, Inl TransportError)
      | Batch b # rest \<Rightarrow>
          (obj\<lparr>fo_items := rest\<rparr>, r_bind (cast_batch_flight pa b (arrow_schema q)) (\<lambda>c. Inr (Some c))))"

definition flight_close_job :: "'b flight_stream \<Rightarrow> 'b flight_object \<Rightarrow> 'b flight_object \<times> unit result" where
  "flight_close_job d obj = (obj, close_flight d (fo_reader obj))"

definition flight_jobs ::
    "(string \<times> string) list \<Rightarrow> 'b arrow_ops \<Rightarrow> 'b flight_stream \<Rightarrow> doris_connection \<Rightarrow> query_spec \<Rightarrow> resource_limits
       \<Rightarrow> ('b flight_object, 'b) reader_jobs" where
  "flight_jobs environ pa d c q limits =
     \<lparr>rj_open = flight_open_job environ d c q limits, rj_fetch = flight_fetch_job pa q, rj_close = flight_close_job d\<rparr>"

fun cast_pull :: "'b arrow_ops \<Rightarrow> arrow_schema \<Rightarrow> 'b pull \<Rightarrow> 'b pull" where
  "cast_pull pa sch (Batch b) = (case cast_batch_flight pa b sch of Inl e \<Rightarrow> PullRaises e | Inr c \<Rightarrow> Batch c)"
| "cast_pull pa sch p = p"

definition flight_content :: "'b arrow_ops \<Rightarrow> query_spec \<Rightarrow> 'b flight_object \<Rightarrow> 'b pull list" where
  "flight_content pa q obj =
     (if \<not> fr_reader (fo_reader obj) then [PullRaises TypeError] else map (cast_pull pa (arrow_schema q)) (fo_items obj))"

lemma flight_fetch_content:
  "case flight_content pa q obj of
     [] \<Rightarrow> snd (flight_fetch_job pa q obj) = Inr None
   | Batch b # rest \<Rightarrow> \<exists>obj'. flight_fetch_job pa q obj = (obj', Inr (Some b)) \<and> flight_content pa q obj' = rest
   | NotBatch # rest \<Rightarrow> snd (flight_fetch_job pa q obj) = Inl TransportError
   | PullRaises e # rest \<Rightarrow> snd (flight_fetch_job pa q obj) = Inl e"
proof (cases "fr_reader (fo_reader obj)")
  case True
  show ?thesis
  proof (cases "fo_items obj")
    case (Cons p rest)
    then show ?thesis using True
      by (cases p) (auto simp: flight_content_def flight_fetch_job_def split: sum.splits)
  qed (use True in \<open>simp add: flight_content_def flight_fetch_job_def\<close>)
qed (simp add: flight_content_def flight_fetch_job_def)

lemma flight_close_after_fetch:
  "snd (flight_close_job d (fst (flight_fetch_job pa q obj))) = snd (flight_close_job d obj)"
  by (simp add: flight_close_job_def flight_fetch_job_def split: list.splits pull.splits)

interpretation flight_reader: pull_reader "flight_jobs environ pa d c q limits" "flight_content pa q"
  for environ pa d c q limits
proof
  fix obj b rest e
  note f = flight_fetch_content [of pa q obj]
  show "flight_content pa q obj = [] \<Longrightarrow> snd (rj_fetch (flight_jobs environ pa d c q limits) obj) = Inr None"
    "flight_content pa q obj = Batch b # rest \<Longrightarrow>
       \<exists>obj'. rj_fetch (flight_jobs environ pa d c q limits) obj = (obj', Inr (Some b)) \<and> flight_content pa q obj' = rest"
    "flight_content pa q obj = NotBatch # rest \<Longrightarrow> snd (rj_fetch (flight_jobs environ pa d c q limits) obj) = Inl TransportError"
    "flight_content pa q obj = PullRaises e # rest \<Longrightarrow> snd (rj_fetch (flight_jobs environ pa d c q limits) obj) = Inl e"
    using f by (simp_all add: flight_jobs_def)
qed (simp add: flight_jobs_def flight_close_after_fetch)

lemma pump_cast:
  "pump (\<lambda>b. Inr (bounded_slices pa l b)) (map (cast_pull pa sch) items) = pump (prepare_flight pa sch l) items"
proof (induction items)
  case (Cons p items)
  then show ?case
    by (cases p) (auto simp: prepare_flight_def split: sum.splits)
qed simp

lemma open_flight_reader: "open_flight environ d c q limits = (rd, Inr u) \<Longrightarrow> fr_reader rd"
  by (auto simp: open_flight_def split: sum.splits)

lemma flight_sequential:
  assumes "(ys, m) = consume leave (sequential_run (flight_jobs environ pa d c q l) (bounded_slices pa l)
           (flight_content pa q) (new_flight_object d))"
  shows "(ys, end_stream translate_doris_error [close_outcome (flight_jobs environ pa d c q l) (new_flight_object d)] m)
    = stream_query_flight environ pa d c q l leave"
proof -
  obtain rd r where o: "open_flight environ d c q l = (rd, r)" by (cases "open_flight environ d c q l")
  have cl: "close_outcome (flight_jobs environ pa d c q l) (new_flight_object d) = close_flight d rd"
    by (simp add: close_outcome_def flight_jobs_def flight_open_job_def flight_close_job_def o)
  show ?thesis
  proof (cases r)
    case (Inl e)
    then have "(ys, m) = ([], Inl e)"
      using assms consume_failed
      by (simp add: sequential_run_def flight_jobs_def flight_open_job_def o)
    then show ?thesis using Inl by (simp add: stream_query_flight_def o cl)
  next
    case (Inr u)
    define run where "run = consume leave (pump (prepare_flight pa (arrow_schema q) l) (fl_items d))"
    have "run = (ys, m)"
      using assms o Inr open_flight_reader [of environ d c q l rd u] unfolding run_def
      by (simp add: sequential_run_def flight_jobs_def flight_open_job_def flight_content_def new_flight_object_def pump_cast)
    then show ?thesis using Inr by (simp add: stream_query_flight_def o cl flip: run_def)
  qed
qed

end
