(* ===== verification/Reader_Properties.thy ===== *)
theory Reader_Properties
  imports Doris_Reader Doris_Properties
begin

text \<open>
  The properties of a Doris stream as a concurrent system: the generator, its consumer and the
  worker thread in every interleaving. Each is followed by an application at a concrete run.
\<close>

section \<open>MySQL\<close>

text \<open>C12. However the generator, its consumer and the worker thread interleave, a MySQL stream that ends
  without an interruption has yielded exactly what the sequential stream yields, with the same
  outcome; a consumer that closes the generator early sees a stream left after that many batches.\<close>

theorem mysql_interleavings_refine:
  assumes "stream_run (mysql_jobs h environ pa ar d c q l) (bounded_slices pa l) translate_doris_error
             (new_stream (new_mysql_object d l)) evs s"
    and "st_phase s = Ended r" and "\<not> list_ex interrupts evs"
  shows "\<exists>leave. stream_query_mysql h environ pa ar d c q l leave = (st_output s, r)
    \<and> (Abandon \<notin> set evs \<longrightarrow> leave = None)"
  using mysql_reader.run_refines_sequential [OF assms] mysql_sequential by (metis (no_types))

definition sample_run_events :: "stream_event list" where
  "sample_run_events =
     [Next, WorkerStart, WorkerFinish, Resume, WorkerStart, WorkerFinish, Resume, Next, WorkerStart, WorkerFinish, Resume,
      Next, WorkerStart, WorkerFinish, Resume, EnterClose, WorkerStart, WorkerFinish, WorkerShutdown, LeaveClose]"

definition sample_mysql_jobs :: "(mysql_object, arrow_table) reader_jobs" where
  "sample_mysql_jobs = mysql_jobs [] [(''PW'', ''s3cret'')] sample_doris_ops sample_arrays sample_mysql_stream sample_doris_connection
       sample_doris_query sample_limits"

definition sample_mysql_exec :: "stream_event list \<Rightarrow> (mysql_object, arrow_table) stream_state option" where
  "sample_mysql_exec evs =
     stream_exec sample_mysql_jobs (bounded_slices sample_doris_ops sample_limits) translate_doris_error
       (new_stream (new_mysql_object sample_mysql_stream sample_limits)) evs"

lemma sample_mysql_run:
  "sample_mysql_exec evs = Some s \<Longrightarrow>
     stream_run (mysql_jobs [] [(''PW'', ''s3cret'')] sample_doris_ops sample_arrays sample_mysql_stream sample_doris_connection
         sample_doris_query sample_limits) (bounded_slices sample_doris_ops sample_limits) translate_doris_error
       (new_stream (new_mysql_object sample_mysql_stream sample_limits)) evs s"
  unfolding sample_mysql_exec_def sample_mysql_jobs_def by (rule stream_exec_run)

lemma sample_mysql_ended:
  "map_option (\<lambda>s. (st_phase s, map (length \<circ> at_rows) (st_output s))) (sample_mysql_exec sample_run_events)
     = Some (Ended (Inr ()), [2, 1])"
  by code_simp

theorem mysql_interleavings_refine_witness:
  "\<exists>leave s. sample_mysql_exec sample_run_events = Some s \<and>
     stream_query_mysql [] [(''PW'', ''s3cret'')] sample_doris_ops sample_arrays sample_mysql_stream sample_doris_connection
       sample_doris_query sample_limits leave = (st_output s, Inr ())"
proof -
  obtain s where s: "sample_mysql_exec sample_run_events = Some s" "st_phase s = Ended (Inr ())"
    using sample_mysql_ended by auto
  have "\<not> list_ex interrupts sample_run_events" by (simp add: sample_run_events_def)
  from mysql_interleavings_refine [OF sample_mysql_run [OF s(1)] s(2) this] s(1) show ?thesis by blast
qed

text \<open>C13. In every state that generator, consumer and worker thread can reach, interruptions included, the
  worker's jobs are the opening, the fetches and at most one close, in this order and without a gap;
  the reader's objects and the replies are those of the finished jobs run one after the other; and
  what was yielded is a prefix of the sequential stream.\<close>

theorem mysql_interleavings_safe:
  assumes "stream_run (mysql_jobs h environ pa ar d c q l) (bounded_slices pa l) translate_doris_error
             (new_stream (new_mysql_object d l)) evs s"
  shows "(\<exists>k. finished (st_thread s) @ (case running (st_thread s) of None \<Rightarrow> [] | Some j \<Rightarrow> [j]) @ pending (st_thread s)
        = map Operation [0..<k] @ (if close_state (st_thread s) = NotSubmitted then [] else [CloseJob]))
    \<and> run_jobs (mysql_jobs h environ pa ar d c q l) (finished (st_thread s)) (new_mysql_object d l) = (st_object s, map snd (st_log s))
    \<and> prefix (st_output s) (fst (stream_query_mysql h environ pa ar d c q l None))"
proof -
  define run where "run = sequential_run (mysql_jobs h environ pa ar d c q l) (bounded_slices pa l) (mysql_content pa ar d q l)
      (new_mysql_object d l)"
  have "(fst run, snd run) = consume None run" by (simp add: consume_def)
  from mysql_sequential [OF this [unfolded run_def]] have "fst run = fst (stream_query_mysql h environ pa ar d c q l None)"
    unfolding run_def by (metis fst_conv)
  then show ?thesis
    using mysql_reader.run_serial [OF assms] mysql_reader.run_output_prefix [OF assms] by (auto simp: jobs_def run_def)
qed

definition sample_cancelled_events :: "stream_event list" where
  "sample_cancelled_events =
     [Next, WorkerStart, WorkerFinish, Resume, WorkerStart, WorkerFinish, Resume, Next, WorkerStart, Interrupt CancelledError,
      EnterClose, WorkerFinish, WorkerStart, Interrupt CancelledError, WorkerFinish]"

lemma sample_mysql_cancelled:
  "map_option (\<lambda>s. (finished (st_thread s), st_phase s)) (sample_mysql_exec sample_cancelled_events)
     = Some ([Operation 0, Operation 1, Operation 2, CloseJob], Ended (Inl CancelledError))"
  by code_simp

theorem mysql_interleavings_safe_witness:
  "\<exists>s. sample_mysql_exec sample_cancelled_events = Some s
     \<and> prefix (st_output s) (fst (stream_query_mysql [] [(''PW'', ''s3cret'')] sample_doris_ops sample_arrays sample_mysql_stream
         sample_doris_connection sample_doris_query sample_limits None))"
proof -
  obtain s where s: "sample_mysql_exec sample_cancelled_events = Some s" using sample_mysql_cancelled by auto
  from mysql_interleavings_safe [OF sample_mysql_run [OF s]] s show ?thesis by blast
qed

section \<open>Flight\<close>

text \<open>C14. The same for a Flight stream: every interleaving that ends without an interruption amounts to the
  sequential stream, left early exactly when the consumer closed the generator.\<close>

theorem flight_interleavings_refine:
  assumes "stream_run (flight_jobs environ pa d c q l) (bounded_slices pa l) translate_doris_error
             (new_stream (new_flight_object d)) evs s"
    and "st_phase s = Ended r" and "\<not> list_ex interrupts evs"
  shows "\<exists>leave. stream_query_flight environ pa d c q l leave = (st_output s, r)
    \<and> (Abandon \<notin> set evs \<longrightarrow> leave = None)"
  using flight_reader.run_refines_sequential [OF assms] flight_sequential by (metis (no_types))

definition sample_flight_stream :: "arrow_table flight_stream" where
  "sample_flight_stream =
     \<lparr>fl_installed = True,
      fl_names = \<lparr>fn_username = ''u'', fn_password = ''p'', fn_timeout_query = ''tq'', fn_timeout_fetch = ''tf'', fn_with_block = ''wb''\<rparr>,
      fl_connect = (\<lambda>_ _. Inr ()), fl_cursor = Inr (), fl_configure = (\<lambda>_. Inr ()), fl_execute = (\<lambda>_. Inr ()),
      fl_fetch_reader = Inr (),
      fl_items = [Batch \<lparr>at_schema = sample_doris_schema, at_rows = [[PInt 1, PNone], [PInt 2, PNone]]\<rparr>],
      fl_reader_close = Inr (), fl_cursor_close = Inr (), fl_connection_close = Inr ()\<rparr>"

abbreviation sample_flight_jobs :: "(arrow_table flight_object, arrow_table) reader_jobs" where
  "sample_flight_jobs \<equiv> flight_jobs [(''PW'', ''s3cret'')] sample_doris_ops sample_flight_stream sample_doris_connection
     sample_doris_query sample_limits"

lemma sample_flight_open:
  "open_flight [(''PW'', ''s3cret'')] sample_flight_stream sample_doris_connection sample_doris_query sample_limits
     = (\<lparr>fr_connection = True, fr_cursor = True, fr_reader = True\<rparr>, Inr ())"
proof -
  have "resolve_secret [(''PW'', ''s3cret'')] (do_password sample_doris_connection) = Inr ''s3cret''" by code_simp
  then show ?thesis
    by (simp add: open_flight_def connect_flight_def execute_flight_def flight_driver_def flight_kwargs_def
        sample_flight_stream_def sample_doris_query_def)
qed

lemma sample_flight_jobs_eq:
  "sample_flight_jobs =
     \<lparr>rj_open = (\<lambda>obj. (obj\<lparr>fo_reader := \<lparr>fr_connection = True, fr_cursor = True, fr_reader = True\<rparr>\<rparr>, Inr ())),
      rj_fetch = flight_fetch_job sample_doris_ops sample_doris_query, rj_close = flight_close_job sample_flight_stream\<rparr>"
  by (simp add: flight_jobs_def flight_open_job_def sample_flight_open fun_eq_iff)

definition sample_flight_exec :: "stream_event list \<Rightarrow> (arrow_table flight_object, arrow_table) stream_state option" where
  "sample_flight_exec evs =
     stream_exec sample_flight_jobs (bounded_slices sample_doris_ops sample_limits) translate_doris_error
       (new_stream (new_flight_object sample_flight_stream)) evs"

definition sample_abandoned_events :: "stream_event list" where
  "sample_abandoned_events =
     [Next, WorkerStart, WorkerFinish, Resume, WorkerStart, WorkerFinish, Resume, Abandon, EnterClose, WorkerStart, WorkerFinish,
      LeaveClose]"

lemma sample_flight_ended:
  "map_option (\<lambda>s. (st_phase s, map (length \<circ> at_rows) (st_output s))) (sample_flight_exec sample_abandoned_events)
     = Some (Ended (Inl GeneratorExit), [2])"
  unfolding sample_flight_exec_def sample_flight_jobs_eq by code_simp

theorem flight_interleavings_refine_witness:
  "\<exists>leave s. sample_flight_exec sample_abandoned_events = Some s \<and>
     stream_query_flight [(''PW'', ''s3cret'')] sample_doris_ops sample_flight_stream sample_doris_connection sample_doris_query
       sample_limits leave = (st_output s, Inl GeneratorExit)"
proof -
  obtain s where s: "sample_flight_exec sample_abandoned_events = Some s" "st_phase s = Ended (Inl GeneratorExit)"
    using sample_flight_ended by auto
  have "\<not> list_ex interrupts sample_abandoned_events" by (simp add: sample_abandoned_events_def)
  from flight_interleavings_refine [OF stream_exec_run [OF s(1) [unfolded sample_flight_exec_def]] s(2) this] s(1)
  show ?thesis by blast
qed







end
