(* ===== verification/Scan_Properties.thy ===== *)
theory Scan_Properties
  imports Scan_Reading ClickHouse_Properties Reader_Properties
begin

text \<open>
  The properties of a whole read: a source is asked for its tasks, and every task is read to its end.
  They compose planning, the rendering of statements, and the streams of both connectors, and say
  what Daft has in hand afterwards.
\<close>

section \<open>ClickHouse\<close>

text \<open>C1. Reading every task of a ClickHouse scan to its end gives Daft what it asked for. Suppose that the
  server of each task answers its statement with the rows the statement selects, cut into batches in any way,
  and that the partitions the database lists hold the table's rows. If no task fails, then the
  batches handed to Daft hold, in order, rows \<open>got\<close>, and Daft's own filter and limit over them give a
  permitted result of its filter and limit over the whole table: the first rows of some ordering of it.\<close>

theorem clickhouse_read_end_to_end:
  assumes "arrow_table_ops pa brows" and "\<And>b. drows (to_daft b) = brows b"
    and "valid_ch_source s" and "cs_discoverer s = None" and "count_pushdown (cw_daft w) pd = Inr None"
    and "partitions_hold h w s key rows"
    and "\<And>q t. q \<in> set (planned_selects_ch h w s pd) \<Longrightarrow> t \<in> set (fst (get_tasks_ch h w s pd)) \<Longrightarrow>
           build_select_ch q = Inr (sql (ct_query t), named_parameters (ct_query t)) \<Longrightarrow>
           answers_ch pa brows (server t) t (map encode (select_rows_ch cmp fragment key rows q))"
    and "read_scan (\<lambda>t. read_task_ch h environ pa (server t) to_daft t None) (get_tasks_ch h w s pd) = Inr out"
  shows "\<exists>got kept. concat (map drows out) = map encode got
    \<and> mset kept = mset (filter (daft_keeps cmp operand truth (pd_filters pd))
                          (fragment_rows fragment (cs_unsafe_where_sql s) rows))
    \<and> take_limit (pd_limit pd) (filter (daft_keeps cmp operand truth (pd_filters pd)) got) = take_limit (pd_limit pd) kept"
proof -
  obtain tasks where g: "get_tasks_ch h w s pd = (tasks, None)"
    using assms(8) by (cases "get_tasks_ch h w s pd") (auto simp: read_scan_Inr_iff)
  have l: "valid_limits (cs_limits s)" using assms(3) by (simp add: valid_ch_source_def)
  note scan = planned_scan_ch [OF g assms(5) l assms(4,6)]
  have "list_all2 (\<lambda>q t. \<forall>bs. read_task_ch h environ pa (server t) to_daft t None = (bs, Inr ()) \<longrightarrow>
      concat (map drows bs) = map encode (select_rows_ch cmp fragment key rows q)) (planned_selects_ch h w s pd) tasks"
    using scan(1)
  proof (rule list.rel_mono_strong)
    fix q t
    assume m: "q \<in> set (planned_selects_ch h w s pd)" "t \<in> set tasks"
      and b: "build_select_ch q = Inr (sql (ct_query t), named_parameters (ct_query t))"
    have a: "answers_ch pa brows (server t) t (map encode (select_rows_ch cmp fragment key rows q))"
      by (rule assms(7) [OF m(1) _ b]) (simp add: g m(2))
    have v: "valid_limits (ct_limits t)" using get_tasks_ch_limits [OF g assms(5) m(2)] l by simp
    show "\<forall>bs. read_task_ch h environ pa (server t) to_daft t None = (bs, Inr ()) \<longrightarrow>
        concat (map drows bs) = map encode (select_rows_ch cmp fragment key rows q)"
      by (intro allI impI) (rule answered_task_ch [OF assms(1) v a], assumption, rule assms(2))
  qed
  from read_scan_rows [OF assms(8) [unfolded g]] this
  have "concat (map drows out) = map encode (concat (map (select_rows_ch cmp fragment key rows) (planned_selects_ch h w s pd)))"
    by simp
  then show ?thesis using scan(2) by blast
qed

definition sample_encode :: "row \<Rightarrow> pyobj list" where
  "sample_encode r = [r ''a'', r ''b'']"

text \<open>A server that has the sample table, and reads the parameters of the statement.\<close>

definition sample_server :: "ch_task \<Rightarrow> arrow_table ch_async" where
  "sample_server t = sample_stream\<lparr>as_items := [Batch \<lparr>at_schema = sample_schema,
     at_rows = map sample_encode
       (take 2 (filter (\<lambda>r. PStr (sample_key r) \<in> set (map snd (named_parameters (ct_query t)))) sample_rows))\<rparr>]\<rparr>"

lemma sample_server_answers:
  "list_all (\<lambda>q. list_all (\<lambda>t. build_select_ch q = Inr (sql (ct_query t), named_parameters (ct_query t)) \<longrightarrow>
       arrow_schema (ct_query t) = sample_schema
     \<and> map sample_encode (select_rows_ch sample_cmp (\<lambda>_ _. True) sample_key sample_rows q)
       = map sample_encode
           (take 2 (filter (\<lambda>r. PStr (sample_key r) \<in> set (map snd (named_parameters (ct_query t)))) sample_rows)))
     (fst (get_tasks_ch [] sample_ch_world sample_ch_source sample_scan)))
   (planned_selects_ch [] sample_ch_world sample_ch_source sample_scan)"
  by code_simp

lemma sample_ch_read:
  "r_bind (read_scan (\<lambda>t. read_task_ch [] [(''PW'', ''s3cret'')] sample_ops (sample_server t) id t None)
     (get_tasks_ch [] sample_ch_world sample_ch_source sample_scan)) (\<lambda>out. Inr (map at_rows out))
   = Inr [[[PStr ''p1'', PStr ''p1''], [PStr ''p1'', PStr ''p1'']], [[PStr ''p2'', PStr ''p2'']]]"
  by code_simp

lemma sample_partitions_hold: "partitions_hold [] sample_ch_world sample_ch_source sample_key sample_rows"
  unfolding partitions_hold_def
proof (intro allI impI)
  fix d
  assume "run_discovery_ch [] sample_ch_world sample_ch_source = Inr d"
  then have "d = sample_partitions"
    using sample_partitions_discovered by (simp add: run_discovery_ch_def sample_ch_world_def sample_ch_source_def)
  then show "\<forall>r \<in> set sample_rows. sample_key r \<in> set (map partition_id (pd_partitions d))"
    by (simp add: sample_rows_def sample_key_def sample_partitions_def)
qed

theorem clickhouse_read_end_to_end_witness:
  "\<exists>got kept. [[PStr ''p1'', PStr ''p1''], [PStr ''p1'', PStr ''p1''], [PStr ''p2'', PStr ''p2'']] = map sample_encode got
    \<and> mset kept = mset sample_rows \<and> take 2 got = take 2 kept"
proof -
  let ?keeps = "daft_keeps sample_cmp (\<lambda>_ _. PNone) (\<lambda>_ _. None) (pd_filters sample_scan)"
  obtain out where r: "read_scan (\<lambda>t. read_task_ch [] [(''PW'', ''s3cret'')] sample_ops (sample_server t) id t None)
       (get_tasks_ch [] sample_ch_world sample_ch_source sample_scan) = Inr out"
    and rows: "map at_rows out = [[[PStr ''p1'', PStr ''p1''], [PStr ''p1'', PStr ''p1'']], [[PStr ''p2'', PStr ''p2'']]]"
    using sample_ch_read by (auto simp: r_bind_Inr_iff)
  have "\<exists>got kept. concat (map at_rows out) = map sample_encode got
    \<and> mset kept = mset (filter ?keeps (fragment_rows (\<lambda>_ _. True) (cs_unsafe_where_sql sample_ch_source) sample_rows))
    \<and> take_limit (pd_limit sample_scan) (filter ?keeps got) = take_limit (pd_limit sample_scan) kept"
  proof (rule clickhouse_read_end_to_end [OF sample_ops_contract _ sample_ch_source_valid _ _ sample_partitions_hold _ r])
    show "cs_discoverer sample_ch_source = None" by code_simp
    show "count_pushdown (cw_daft sample_ch_world) sample_scan = Inr None" by code_simp
    fix q t
    assume "q \<in> set (planned_selects_ch [] sample_ch_world sample_ch_source sample_scan)"
      and "t \<in> set (fst (get_tasks_ch [] sample_ch_world sample_ch_source sample_scan))"
      and "build_select_ch q = Inr (sql (ct_query t), named_parameters (ct_query t))"
    with sample_server_answers have "arrow_schema (ct_query t) = sample_schema"
      and "map sample_encode (select_rows_ch sample_cmp (\<lambda>_ _. True) sample_key sample_rows q)
       = map sample_encode
           (take 2 (filter (\<lambda>r. PStr (sample_key r) \<in> set (map snd (named_parameters (ct_query t)))) sample_rows))"
      unfolding list_all_iff by blast+
    then show "answers_ch sample_ops at_rows (sample_server t) t
        (map sample_encode (select_rows_ch sample_cmp (\<lambda>_ _. True) sample_key sample_rows q))"
      by (auto simp: answers_ch_def sample_server_def sample_ops_def list_ops_def Cons_eq_map_conv)
  qed simp
  then show ?thesis
    by (simp add: rows sample_scan_def sample_ch_source_def fragment_rows_def daft_keeps_def [abs_def] take_limit_def)
qed

section \<open>Doris\<close>

text \<open>C2. Reading every task of a Doris scan to its end, over either transport, gives Daft what it asked for.
  Suppose that the server of each task answers its statement with the rows the statement selects, as
  Python rows in a cursor or as Arrow batches cut in any way, and that the tablets the service reports for the
  planning statement hold every row it can return. If no task fails, then the batches handed to Daft
  hold, in order and converted, rows \<open>got\<close>, and Daft's own filter and limit over them give a permitted result
  of its filter and limit over the whole table. A plan without tablets is covered: it reads nothing.\<close>

theorem doris_read_end_to_end:
  assumes "arrow_table_ops pa brows" and "\<And>b. drows (to_daft b) = brows b"
    and "valid_doris_source s" and "dos_discoverer s = None" and "count_pushdown (de_daft w) pd = Inr None"
    and "tablets_hold cmp fragment h w s pd key rows"
    and "\<And>q t. q \<in> set (planned_selects_doris h w s pd) \<Longrightarrow> t \<in> set (fst (get_tasks_doris h w s pd)) \<Longrightarrow>
           build_select_doris q = Inr (sql (dt_query t), positional_parameters (dt_query t)) \<Longrightarrow>
           answers_doris pa ar brows convert (cursor t) (reader t) t (map encode (select_rows_doris cmp fragment key rows q))"
    and "read_scan (\<lambda>t. read_task_doris h environ pa ar (cursor t) (reader t) to_daft t None) (get_tasks_doris h w s pd) = Inr out"
  shows "\<exists>got kept. concat (map drows out) = map (\<lambda>r. convert (encode r)) got
    \<and> mset kept = mset (filter (daft_keeps cmp operand truth (pd_filters pd))
                          (fragment_rows fragment (dos_unsafe_where_sql s) rows))
    \<and> take_limit (pd_limit pd) (filter (daft_keeps cmp operand truth (pd_filters pd)) got) = take_limit (pd_limit pd) kept"
proof -
  let ?read = "\<lambda>t. read_task_doris h environ pa ar (cursor t) (reader t) to_daft t None"
  let ?answer = "select_rows_doris cmp fragment key rows"
  obtain tasks where g: "get_tasks_doris h w s pd = (tasks, None)"
    using assms(8) by (cases "get_tasks_doris h w s pd") (auto simp: read_scan_Inr_iff)
  have l: "valid_limits (dos_limits s)" using assms(3) by (simp add: valid_doris_source_def)
  note scan = planned_scan_doris [OF g assms(5) l assms(4,6)]
  have "list_all2 (\<lambda>q t. \<forall>bs. ?read t = (bs, Inr ()) \<longrightarrow> concat (map drows bs) = map (\<lambda>r. convert (encode r)) (?answer q))
      (planned_selects_doris h w s pd) tasks"
    using scan(1)
  proof (rule list.rel_mono_strong)
    fix q t
    assume m: "q \<in> set (planned_selects_doris h w s pd)" "t \<in> set tasks"
      and b: "build_select_doris q = Inr (sql (dt_query t), positional_parameters (dt_query t)) \<and> dt_transport t = dos_transport s"
    have a: "answers_doris pa ar brows convert (cursor t) (reader t) t (map encode (?answer q))"
      by (rule assms(7) [OF m(1) _ b [THEN conjunct1]]) (simp add: g m(2))
    have v: "valid_limits (dt_limits t)" using get_tasks_doris_limits [OF g assms(5) m(2)] l by simp
    show "\<forall>bs. ?read t = (bs, Inr ()) \<longrightarrow> concat (map drows bs) = map (\<lambda>r. convert (encode r)) (?answer q)"
      using answered_task_doris [where drows = drows, OF assms(1) v a] assms(2) by (simp add: comp_def)
  qed
  from read_scan_rows [OF assms(8) [unfolded g]] this
  have "concat (map drows out) = map (\<lambda>r. convert (encode r)) (concat (map ?answer (planned_selects_doris h w s pd)))"
    by simp
  then show ?thesis using scan(2) by blast
qed

text \<open>A server of the sample table: the statement names the tablets it reads.\<close>

definition sample_doris_encode :: "row \<Rightarrow> pyobj list" where
  "sample_doris_encode r = [r ''a'', PNone]"

definition sample_cursor :: "doris_task \<Rightarrow> mysql_stream" where
  "sample_cursor t = sample_mysql_stream\<lparr>ms_rows := map sample_doris_encode
     (take 2 (filter (\<lambda>r. py_contains (sql (dt_query t)) (int_str (sample_tablet r))) sample_doris_rows))\<rparr>"

lemma transpose_pairs: "\<forall>r \<in> set x. length r = 2 \<Longrightarrow> transpose [map (\<lambda>r. r ! 0) x, map (\<lambda>r. r ! 1) x] = x"
proof (induction x)
  case (Cons r x)
  then obtain a b where "r = [a, b]" by (auto simp: length_Suc_conv numeral_2_eq_2)
  then show ?case using Cons by simp
qed simp

lemma sample_builds_rows: "builds_rows sample_arrays at_rows sample_doris_schema id"
  unfolding builds_rows_def
proof (intro allI impI)
  fix x names b
  assume b: "rows_to_batch sample_arrays x names sample_doris_schema = Inr b"
  have same: "vs' = vs" if "r_map (coerce_decimal sample_arrays) vs = Inr vs'" for vs vs'
    using that unfolding r_map_Inr_iff
    by (induction rule: list_all2_induct)
      (auto simp: coerce_decimal_def sample_arrays_def r_bind_Inr_iff arrow_result_def split: pyobj.splits)
  have "\<forall>r \<in> set x. length r = 2" using rows_to_batch_width(2) [OF b] by (simp add: sample_doris_schema_def)
  moreover have "at_rows b = transpose [map (\<lambda>r. r ! 0) x, map (\<lambda>r. r ! 1) x]"
    using b by (auto simp: rows_to_batch_def sample_doris_schema_def array_for_field_def normalize_values_def r_bind_Inr_iff
        upt_rec sample_arrays_def arrow_result_def dest!: same [unfolded sample_arrays_def] split: if_splits)
  ultimately show "at_rows b = map id x" using transpose_pairs [of x] by simp
qed

text \<open>The plan of the sample scan, with the discovery done.\<close>

abbreviation sample_split_select :: "int list option \<Rightarrow> doris_select" where
  "sample_split_select \<equiv> scan_select_doris sample_doris_source [''a'', ''b''] None (Some 2)"

lemma sample_doris_planned:
  "planned_selects_doris [] sample_doris_env sample_doris_source sample_doris_scan
     = map sample_split_select [Some [11, 12], Some [30]]"
  "get_tasks_doris [] sample_doris_env sample_doris_source sample_doris_scan
     = emit (\<lambda>g. task_of_select_doris [] sample_doris_source sample_doris_schema (sample_split_select g)) [Some [11, 12], Some [30]]"
proof -
  have "count_pushdown (de_daft sample_doris_env) sample_doris_scan = Inr None" by code_simp
  then show "get_tasks_doris [] sample_doris_env sample_doris_source sample_doris_scan
      = emit (\<lambda>g. task_of_select_doris [] sample_doris_source sample_doris_schema (sample_split_select g)) [Some [11, 12], Some [30]]"
    by (simp add: get_tasks_doris_def sample_doris_plan del: emit.simps)
qed (simp add: planned_selects_doris_def sample_doris_plan)

lemma sample_cursor_answers:
  "list_all (\<lambda>q. list_all (\<lambda>t. build_select_doris q = Inr (sql (dt_query t), positional_parameters (dt_query t)) \<longrightarrow>
       dt_transport t = MySql \<and> arrow_schema (dt_query t) = sample_doris_schema
     \<and> ms_rows (sample_cursor t)
       = map sample_doris_encode (select_rows_doris sample_cmp (\<lambda>_ _. True) sample_tablet sample_doris_rows q))
     (fst (emit (\<lambda>g. task_of_select_doris [] sample_doris_source sample_doris_schema (sample_split_select g)) [Some [11, 12], Some [30]])))
   (map sample_split_select [Some [11, 12], Some [30]])"
  by code_simp

lemma sample_doris_read:
  obtains out where
    "read_scan (\<lambda>t. read_task_doris [] [(''PW'', ''s3cret'')] sample_doris_ops sample_arrays (sample_cursor t) sample_flight_stream
       id t None) (get_tasks_doris [] sample_doris_env sample_doris_source sample_doris_scan) = Inr out"
    and "map at_rows out = [[[PInt 11, PNone], [PInt 12, PNone]], [[PInt 30, PNone]]]"
proof -
  have "r_bind (read_scan (\<lambda>t. read_task_doris [] [(''PW'', ''s3cret'')] sample_doris_ops sample_arrays (sample_cursor t)
       sample_flight_stream id t None) (get_tasks_doris [] sample_doris_env sample_doris_source sample_doris_scan))
     (\<lambda>out. Inr (map at_rows out)) = Inr [[[PInt 11, PNone], [PInt 12, PNone]], [[PInt 30, PNone]]]"
    unfolding sample_doris_planned(2) by code_simp
  then show thesis unfolding r_bind_Inr_iff by (elim exE conjE) (rule that, assumption, simp)
qed

lemma sample_tablets_hold:
  "tablets_hold sample_cmp (\<lambda>_ _. True) [] sample_doris_env sample_doris_source sample_doris_scan sample_tablet sample_doris_rows"
  unfolding tablets_hold_def
proof (intro allI impI)
  fix columns predicate statement parameters ids
  assume "run_discovery_doris [] (de_world sample_doris_env) sample_doris_source statement parameters = Inr ids"
  then have "ids = [11, 12, 30]"
    by (auto simp: run_discovery_doris_def discover_tablets_def sample_doris_source_def sample_doris_env_def r_bind_Inr_iff
        sample_response sample_steps)
  then show "tablets_cover sample_cmp (\<lambda>_ _. True) sample_tablet sample_doris_source predicate sample_doris_rows ids"
    by (simp add: tablets_cover_def sample_doris_rows_def sample_tablet_def fragment_rows_def sample_doris_source_def)
qed

theorem doris_read_end_to_end_witness:
  "\<exists>got kept. [[PInt 11, PNone], [PInt 12, PNone], [PInt 30, PNone]] = map sample_doris_encode got
    \<and> mset kept = mset sample_doris_rows \<and> take 2 got = take 2 kept"
proof -
  let ?keeps = "daft_keeps sample_cmp (\<lambda>_ _. PNone) (\<lambda>_ _. None) (pd_filters sample_doris_scan)"
  obtain out where r: "read_scan (\<lambda>t. read_task_doris [] [(''PW'', ''s3cret'')] sample_doris_ops sample_arrays (sample_cursor t)
         sample_flight_stream id t None) (get_tasks_doris [] sample_doris_env sample_doris_source sample_doris_scan) = Inr out"
    and rows: "map at_rows out = [[[PInt 11, PNone], [PInt 12, PNone]], [[PInt 30, PNone]]]"
    by (rule sample_doris_read)
  have "\<exists>got kept. concat (map at_rows out) = map (\<lambda>r. id (sample_doris_encode r)) got
    \<and> mset kept = mset (filter ?keeps (fragment_rows (\<lambda>_ _. True) (dos_unsafe_where_sql sample_doris_source) sample_doris_rows))
    \<and> take_limit (pd_limit sample_doris_scan) (filter ?keeps got) = take_limit (pd_limit sample_doris_scan) kept"
  proof (rule doris_read_end_to_end [where convert = id and encode = sample_doris_encode, OF sample_doris_ops_contract _ sample_doris_source_valid _ _ sample_tablets_hold _ r])
    show "dos_discoverer sample_doris_source = None" by (simp add: sample_doris_source_def)
    show "count_pushdown (de_daft sample_doris_env) sample_doris_scan = Inr None" by code_simp
    fix q t
    assume "q \<in> set (planned_selects_doris [] sample_doris_env sample_doris_source sample_doris_scan)"
      and "t \<in> set (fst (get_tasks_doris [] sample_doris_env sample_doris_source sample_doris_scan))"
      and "build_select_doris q = Inr (sql (dt_query t), positional_parameters (dt_query t))"
    with sample_cursor_answers have "dt_transport t = MySql" "arrow_schema (dt_query t) = sample_doris_schema"
      "ms_rows (sample_cursor t)
         = map sample_doris_encode (select_rows_doris sample_cmp (\<lambda>_ _. True) sample_tablet sample_doris_rows q)"
      unfolding list_all_iff sample_doris_planned by blast+
    then show "answers_doris sample_doris_ops sample_arrays at_rows id (sample_cursor t) sample_flight_stream t
        (map sample_doris_encode (select_rows_doris sample_cmp (\<lambda>_ _. True) sample_tablet sample_doris_rows q))"
      by (simp add: answers_doris_def sample_builds_rows)
  qed simp
  then show ?thesis
    by (simp add: rows sample_doris_scan_def sample_doris_source_def fragment_rows_def daft_keeps_def [abs_def] take_limit_def)
qed

end
