(* ===== verification/Py_Files.thy ===== *)
theory Py_Files
  imports Py_Encoding
begin

text \<open>
  Files as the release scripts see them: a store of paths, lines of text, and the path
  operations of \<^verbatim>\<open>pathlib\<close> they call. A path is the list of its components, below the working
  directory.
\<close>

section \<open>Lines\<close>

text \<open>The line boundaries of \<open>str.splitlines\<close> below code point 256.\<close>

definition is_line_break :: "char \<Rightarrow> bool" where
  "is_line_break c \<longleftrightarrow> (10 \<le> code c \<and> code c \<le> 13) \<or> (28 \<le> code c \<and> code c \<le> 30) \<or> code c = 133"

abbreviation newline :: char where
  "newline \<equiv> CHR 0x0A"

abbreviation carriage_return :: char where
  "carriage_return \<equiv> CHR 0x0D"

fun drop_break :: "string \<Rightarrow> string" where
  "drop_break (c # d # s) = (if c = carriage_return \<and> d = newline then s else d # s)"
| "drop_break (c # s) = s"
| "drop_break [] = []"

lemma length_drop_break: "length (drop_break s) \<le> length s - 1"
  by (cases s rule: drop_break.cases) auto

function (sequential) py_splitlines :: "string \<Rightarrow> string list" where
  "py_splitlines [] = []"
| "py_splitlines (c # s) =
     takeWhile (\<lambda>x. \<not> is_line_break x) (c # s)
       # py_splitlines (drop_break (dropWhile (\<lambda>x. \<not> is_line_break x) (c # s)))"
  by pat_completeness auto
termination
proof (relation "measure length", simp)
  fix c s
  have "length (drop_break (dropWhile (\<lambda>x. \<not> is_line_break x) (c # s))) \<le> length (dropWhile (\<lambda>x. \<not> is_line_break x) (c # s)) - 1"
    by (rule length_drop_break)
  also have "\<dots> \<le> length (c # s) - 1" using length_dropWhile_le [of _ "c # s"] by (rule diff_le_mono)
  finally show "(drop_break (dropWhile (\<lambda>x. \<not> is_line_break x) (c # s)), c # s) \<in> measure length" by simp
qed

declare py_splitlines.simps [simp del]

lemma py_splitlines_Nil [simp]: "py_splitlines [] = []"
  by (simp add: py_splitlines.simps)

text \<open>A text of lines without breaks, each ended by a newline, splits into these lines.\<close>

definition unbroken :: "string \<Rightarrow> bool" where
  "unbroken s \<longleftrightarrow> list_all (\<lambda>c. \<not> is_line_break c) s"

lemma newline_break [simp]: "is_line_break newline" "newline \<noteq> carriage_return"
  by (simp_all add: is_line_break_def)

lemma drop_break_newline [simp]: "drop_break (newline # s) = s"
  by (cases s) simp_all

lemma takeWhile_unbroken: "unbroken l \<Longrightarrow> takeWhile (\<lambda>x. \<not> is_line_break x) (l @ newline # s) = l"
  and dropWhile_unbroken: "unbroken l \<Longrightarrow> dropWhile (\<lambda>x. \<not> is_line_break x) (l @ newline # s) = newline # s"
  by (auto simp: unbroken_def list_all_iff takeWhile_append2 dropWhile_append2)

lemma splitlines_line: "unbroken l \<Longrightarrow> py_splitlines (l @ newline # s) = l # py_splitlines s"
proof -
  assume l: "unbroken l"
  obtain c t where ct: "l @ newline # s = c # t" by (cases "l @ newline # s") simp_all
  have "py_splitlines (c # t) = takeWhile (\<lambda>x. \<not> is_line_break x) (c # t)
      # py_splitlines (drop_break (dropWhile (\<lambda>x. \<not> is_line_break x) (c # t)))" by (rule py_splitlines.simps)
  then show ?thesis using takeWhile_unbroken [OF l] dropWhile_unbroken [OF l] unfolding ct [symmetric] by simp
qed

lemma splitlines_lines:
  "list_all unbroken ls \<Longrightarrow> py_splitlines (concat (map (\<lambda>l. l @ [newline]) ls)) = ls"
  by (induction ls) (simp_all add: splitlines_line)

text \<open>Universal newlines: what reading in text mode makes of the bytes.\<close>

fun translate_newlines :: "string \<Rightarrow> string" where
  "translate_newlines [] = []"
| "translate_newlines [c] = (if c = carriage_return then [newline] else [c])"
| "translate_newlines (c # d # s) =
     (if c = carriage_return then
        if d = newline then newline # translate_newlines s else newline # translate_newlines (d # s)
      else c # translate_newlines (d # s))"

lemma translate_newlines_id: "carriage_return \<notin> set s \<Longrightarrow> translate_newlines s = s"
  by (induction s rule: translate_newlines.induct) auto

section \<open>Stores\<close>

text \<open>A symbolic link is known by the content of the file it leads to, if there is one.\<close>

datatype node = Regular string | SymbolicLink "string option" | Folder

type_synonym path = "string list"

type_synonym store = "(path \<times> node) list"

definition path_name :: "path \<Rightarrow> string" where
  "path_name p = (if p = [] then [] else last p)"

definition is_folder :: "store \<Rightarrow> path \<Rightarrow> bool" where
  "is_folder st p \<longleftrightarrow> p = [] \<or> map_of st p = Some Folder"

definition read_bytes :: "store \<Rightarrow> path \<Rightarrow> string result" where
  "read_bytes st p =
     (case map_of st p of
        Some (Regular b) \<Rightarrow> Inr b
      | Some (SymbolicLink (Some b)) \<Rightarrow> Inr b
      | _ \<Rightarrow> Inl OSError)"

definition read_text :: "store \<Rightarrow> path \<Rightarrow> string result" where
  "read_text st p =
     r_bind (read_bytes st p) (\<lambda>b.
       (case utf8_decode b of None \<Rightarrow> Inl ValueError | Some t \<Rightarrow> Inr (translate_newlines t)))"

definition write_text :: "store \<Rightarrow> path \<Rightarrow> string \<Rightarrow> store result" where
  "write_text st p t =
     (case map_of st p of
        Some Folder \<Rightarrow> Inl OSError
      | Some (SymbolicLink _) \<Rightarrow> Inr (AList.update p (SymbolicLink (Some (utf8_encode t))) st)
      | _ \<Rightarrow> if p \<noteq> [] \<and> is_folder st (butlast p) then Inr (AList.update p (Regular (utf8_encode t)) st) else Inl OSError)"

text \<open>\<open>sorted(directory.glob("*" + suffix))\<close>.\<close>

definition glob_suffix :: "store \<Rightarrow> path \<Rightarrow> string \<Rightarrow> path list" where
  "glob_suffix st dir suffix =
     sort (filter (\<lambda>p. p \<noteq> [] \<and> butlast p = dir \<and> py_endswith (last p) suffix) (map fst st))"

lemma glob_suffix_update:
  assumes "\<not> (p \<noteq> [] \<and> butlast p = dir \<and> py_endswith (last p) suffix)"
  shows "glob_suffix (AList.update p n st) dir suffix = glob_suffix st dir suffix"
  using assms by (auto simp: glob_suffix_def keys_alist_update)

lemma read_bytes_update: "read_bytes (AList.update q n st) p = (if p = q then read_bytes [(q, n)] p else read_bytes st p)"
  by (simp add: read_bytes_def update_conv)

section \<open>Names of paths\<close>

text \<open>\<open>PurePosixPath(s).parts\<close>: the root, then the components that are neither empty nor a dot.\<close>

definition path_root :: "string \<Rightarrow> string list" where
  "path_root s =
     (if \<not> py_startswith s ''/'' then []
      else if py_startswith s ''//'' \<and> \<not> py_startswith s ''///'' then [''//''] else [''/''])"

definition path_components :: "string \<Rightarrow> string list" where
  "path_components s = filter (\<lambda>c. c \<noteq> [] \<and> c \<noteq> ''.'') (py_split (CHR ''/'') s)"

definition path_parts :: "string \<Rightarrow> string list" where
  "path_parts s = path_root s @ path_components s"

section \<open>Environment and clean-up\<close>

text \<open>\<open>os.environ.get(name, fallback)\<close>.\<close>

definition environ_get :: "(string \<times> string) list \<Rightarrow> string \<Rightarrow> string \<Rightarrow> string" where
  "environ_get environ name fallback = (case map_of environ name of None \<Rightarrow> fallback | Some v \<Rightarrow> v)"

text \<open>A body followed by a step that always runs and whose exception replaces that of the body.\<close>

definition and_finally :: "'a result \<Rightarrow> unit result \<Rightarrow> 'a result" where
  "and_finally body last_step = (case last_step of Inl e \<Rightarrow> Inl e | Inr _ \<Rightarrow> body)"

lemma and_finally_Inr [simp]: "and_finally m c = Inr x \<longleftrightarrow> m = Inr x \<and> c = Inr ()"
  by (cases c) (auto simp: and_finally_def)

end
