(* ===== verification/Release_Artifacts.thy ===== *)
theory Release_Artifacts
  imports Py_Files
begin

text \<open>
  \<^verbatim>\<open>scripts/verify_release_artifacts.py\<close>: the identity of the two built distributions and the
  SHA-256 manifest that authenticates them. The digest, the archive readers and the header
  parser are parameters; the manifest's text is written and read here.
\<close>

section \<open>Tools\<close>

record tar_member =
  tm_name :: string
  tm_is_file :: bool
  tm_content :: "string option"

text \<open>
  \<open>hashlib\<close>, \<open>zipfile\<close>, \<open>tarfile\<close> and \<open>email.parser\<close>, on the bytes of a file: the digest in
  hexadecimal, the entries of an archive or \<open>ArchiveError\<close>, and the value of a header.
\<close>

record archive_tools =
  at_sha256 :: "string \<Rightarrow> string"
  at_zip :: "string \<Rightarrow> (string \<times> string) list result"
  at_tar :: "string \<Rightarrow> tar_member list result"
  at_header :: "string \<Rightarrow> string \<Rightarrow> string option"

text \<open>\<open>hexdigest\<close> of SHA-256: 64 lowercase hexadecimal digits.\<close>

definition is_sha256 :: "string \<Rightarrow> bool" where
  "is_sha256 d \<longleftrightarrow> length d = 64 \<and> list_all is_hex_char d"

definition sha256_tools :: "archive_tools \<Rightarrow> bool" where
  "sha256_tools tools \<longleftrightarrow> (\<forall>b. is_sha256 (at_sha256 tools b))"

section \<open>Identity\<close>

record distribution_identity =
  di_name :: string
  di_version :: string

definition read_identity :: "archive_tools \<Rightarrow> string \<Rightarrow> distribution_identity result" where
  "read_identity tools metadata =
     (case (at_header tools metadata ''Name'', at_header tools metadata ''Version'') of
        (Some n, Some v) \<Rightarrow>
          if n = [] \<or> v = [] then Inl ArtifactError else Inr \<lparr>di_name = n, di_version = v\<rparr>
      | _ \<Rightarrow> Inl ArtifactError)"

fun unreadable :: "exn \<Rightarrow> bool" where
  "unreadable OSError = True"
| "unreadable ArchiveError = True"
| "unreadable _ = False"

fun single_entry :: "'a list \<Rightarrow> 'a result" where
  "single_entry [x] = Inr x"
| "single_entry _ = Inl ArtifactError"

definition wheel_identity :: "archive_tools \<Rightarrow> store \<Rightarrow> path \<Rightarrow> distribution_identity result" where
  "wheel_identity tools st p =
     r_catch
       (r_bind (read_bytes st p) (\<lambda>b.
        r_bind (at_zip tools b) (\<lambda>entries.
        r_bind (single_entry (filter (\<lambda>(n, _). py_endswith n ''.dist-info/METADATA'' \<and> \<not> py_startswith n ''/'') entries))
          (\<lambda>entry. read_identity tools (snd entry)))))
       unreadable (\<lambda>_. Inl ArtifactError)"

definition top_level_metadata :: "tar_member \<Rightarrow> bool" where
  "top_level_metadata m \<longleftrightarrow>
     tm_is_file m \<and> length (path_parts (tm_name m)) = 2 \<and> path_components (tm_name m) \<noteq> []
     \<and> last (path_components (tm_name m)) = ''PKG-INFO''"

definition sdist_identity :: "archive_tools \<Rightarrow> store \<Rightarrow> path \<Rightarrow> distribution_identity result" where
  "sdist_identity tools st p =
     r_catch
       (r_bind (read_bytes st p) (\<lambda>b.
        r_bind (at_tar tools b) (\<lambda>members.
        r_bind (single_entry (filter top_level_metadata members)) (\<lambda>m.
          (case tm_content m of None \<Rightarrow> Inl ArtifactError | Some c \<Rightarrow> read_identity tools c)))))
       unreadable (\<lambda>_. Inl ArtifactError)"

fun is_regular :: "store \<Rightarrow> path \<Rightarrow> bool" where
  "is_regular st p = (case map_of st p of Some (Regular _) \<Rightarrow> True | _ \<Rightarrow> False)"

definition distribution_paths :: "store \<Rightarrow> path \<Rightarrow> (path \<times> path) result" where
  "distribution_paths st dir =
     (let wheels = glob_suffix st dir ''.whl''; sdists = glob_suffix st dir ''.tar.gz''
      in if length wheels \<noteq> 1 \<or> length sdists \<noteq> 1 then Inl ArtifactError
         else if list_ex (\<lambda>p. \<not> is_regular st p) (wheels @ sdists) then Inl ArtifactError
         else Inr (hd wheels, hd sdists))"

definition verify_distribution_metadata ::
    "archive_tools \<Rightarrow> store \<Rightarrow> path \<Rightarrow> string \<Rightarrow> string \<Rightarrow> path list result" where
  "verify_distribution_metadata tools st dir name version =
     r_bind (distribution_paths st dir) (\<lambda>(wheel, sdist).
     let expected = \<lparr>di_name = name, di_version = version\<rparr>
     in r_bind (wheel_identity tools st wheel) (\<lambda>w.
        r_bind (raise_if (w \<noteq> expected) ArtifactError) (\<lambda>_.
        r_bind (sdist_identity tools st sdist) (\<lambda>s.
        r_bind (raise_if (s \<noteq> expected) ArtifactError) (\<lambda>_.
        Inr [wheel, sdist])))))"

section \<open>The manifest\<close>

definition MANIFEST_NAME :: string where
  "MANIFEST_NAME = ''SHA256SUMS''"

definition manifest_path :: "path \<Rightarrow> path option \<Rightarrow> path" where
  "manifest_path dir manifest = (case manifest of None \<Rightarrow> dir @ [MANIFEST_NAME] | Some m \<Rightarrow> m)"

definition sha256_file :: "archive_tools \<Rightarrow> store \<Rightarrow> path \<Rightarrow> string result" where
  "sha256_file tools st p = r_bind (read_bytes st p) (\<lambda>b. Inr (at_sha256 tools b))"

definition manifest_entry :: "string \<Rightarrow> string \<Rightarrow> string" where
  "manifest_entry digest name = digest @ ''  '' @ name"

definition write_manifest ::
    "archive_tools \<Rightarrow> store \<Rightarrow> path \<Rightarrow> path list \<Rightarrow> path option \<Rightarrow> store result" where
  "write_manifest tools st dir distributions manifest =
     (let target = manifest_path dir manifest
      in case map_of st target of
           Some (SymbolicLink _) \<Rightarrow> Inl ArtifactError
         | _ \<Rightarrow>
             r_bind (r_map (\<lambda>p. r_bind (sha256_file tools st p) (\<lambda>d. Inr (manifest_entry d (path_name p) @ [newline])))
                       (sort_key path_name distributions)) (\<lambda>ls.
             write_text st target (concat ls)))"

text \<open>\<open>_MANIFEST_LINE\<close>: 64 hexadecimal digits, two spaces, a file name.\<close>

definition safe_name :: "string \<Rightarrow> bool" where
  "safe_name n \<longleftrightarrow> n \<noteq> [] \<and> list_all (\<lambda>c. c \<notin> {CHR ''/'', CHR 0x5C, carriage_return, newline}) n"

definition manifest_line :: "string \<Rightarrow> (string \<times> string) option" where
  "manifest_line l =
     (let digest = take 64 l; name = drop 66 l
      in if is_sha256 digest \<and> take 2 (drop 64 l) = ''  '' \<and> safe_name name then Some (digest, name) else None)"

fun read_entries :: "(string \<times> string) list \<Rightarrow> string list \<Rightarrow> (string \<times> string) list result" where
  "read_entries entries [] = Inr entries"
| "read_entries entries (l # ls) =
     (case manifest_line l of
        None \<Rightarrow> Inl ArtifactError
      | Some (digest, name) \<Rightarrow>
          if name \<in> set (map fst entries) then Inl ArtifactError
          else read_entries (entries @ [(name, digest)]) ls)"

definition verify_manifest ::
    "archive_tools \<Rightarrow> store \<Rightarrow> path \<Rightarrow> path list \<Rightarrow> path option \<Rightarrow> unit result" where
  "verify_manifest tools st dir distributions manifest =
     r_bind (r_catch (read_text st (manifest_path dir manifest)) (\<lambda>e. e = OSError) (\<lambda>_. Inl ArtifactError)) (\<lambda>t.
     r_bind (read_entries [] (py_splitlines t)) (\<lambda>entries.
     r_bind (raise_if (set (map fst entries) \<noteq> set (map path_name distributions)) ArtifactError) (\<lambda>_.
     r_all (\<lambda>p. r_bind (sha256_file tools st p) (\<lambda>d.
                raise_if (Some d \<noteq> map_of entries (path_name p)) ArtifactError)) distributions)))"

section \<open>Commands\<close>

definition prepare_release_artifacts ::
    "archive_tools \<Rightarrow> store \<Rightarrow> path \<Rightarrow> string \<Rightarrow> string \<Rightarrow> path option \<Rightarrow> store result" where
  "prepare_release_artifacts tools st dir name version manifest =
     r_bind (verify_distribution_metadata tools st dir name version) (\<lambda>distributions.
     r_bind (write_manifest tools st dir distributions manifest) (\<lambda>st'.
     r_bind (verify_manifest tools st' dir distributions manifest) (\<lambda>_. Inr st')))"

definition verify_release_artifacts ::
    "archive_tools \<Rightarrow> store \<Rightarrow> path \<Rightarrow> string \<Rightarrow> string \<Rightarrow> path option \<Rightarrow> unit result" where
  "verify_release_artifacts tools st dir name version manifest =
     r_bind (verify_distribution_metadata tools st dir name version) (\<lambda>distributions.
     verify_manifest tools st dir distributions manifest)"

text \<open>\<open>main\<close>: a failed validation ends the process.\<close>

definition main_artifacts ::
    "archive_tools \<Rightarrow> store \<Rightarrow> path \<Rightarrow> string \<Rightarrow> string \<Rightarrow> path \<Rightarrow> bool \<Rightarrow> store result" where
  "main_artifacts tools st dir name version manifest prepare =
     r_catch
       (if prepare then prepare_release_artifacts tools st dir name version (Some manifest)
        else r_bind (verify_release_artifacts tools st dir name version (Some manifest)) (\<lambda>_. Inr st))
       (\<lambda>e. e = ArtifactError) (\<lambda>_. Inl SystemExit)"

section \<open>Distributions\<close>

text \<open>What the metadata check establishes of the two files.\<close>

definition release_pair :: "archive_tools \<Rightarrow> store \<Rightarrow> path \<Rightarrow> string \<Rightarrow> string \<Rightarrow> path \<Rightarrow> path \<Rightarrow> bool" where
  "release_pair tools st dir name version w s \<longleftrightarrow>
     glob_suffix st dir ''.whl'' = [w] \<and> glob_suffix st dir ''.tar.gz'' = [s] \<and> is_regular st w \<and> is_regular st s
     \<and> wheel_identity tools st w = Inr \<lparr>di_name = name, di_version = version\<rparr>
     \<and> sdist_identity tools st s = Inr \<lparr>di_name = name, di_version = version\<rparr>"

lemma length_1_iff: "length xs = Suc 0 \<longleftrightarrow> (\<exists>x. xs = [x])"
  by (cases xs) auto

lemma distribution_paths_Inr_iff:
  "distribution_paths st dir = Inr (w, s) \<longleftrightarrow>
     glob_suffix st dir ''.whl'' = [w] \<and> glob_suffix st dir ''.tar.gz'' = [s] \<and> is_regular st w \<and> is_regular st s"
  by (auto simp: distribution_paths_def Let_def length_1_iff simp del: is_regular.simps split: if_splits)

lemma verify_distribution_metadata_Inr_iff:
  "verify_distribution_metadata tools st dir name version = Inr ds \<longleftrightarrow>
     (\<exists>w s. release_pair tools st dir name version w s \<and> ds = [w, s])"
  by (auto simp: verify_distribution_metadata_def release_pair_def r_bind_Inr_iff distribution_paths_Inr_iff Let_def
      simp del: is_regular.simps)

lemma glob_suffix_name: "p \<in> set (glob_suffix st dir suffix) \<Longrightarrow> py_endswith (path_name p) suffix \<and> p \<noteq> [] \<and> p \<in> set (map fst st)"
  by (auto simp: glob_suffix_def path_name_def)

lemma release_pair_names:
  assumes "release_pair tools st dir name version w s"
  shows "path_name w \<noteq> path_name s"
proof
  assume eq: "path_name w = path_name s"
  have "py_endswith (path_name w) ''.whl''" "py_endswith (path_name w) ''.tar.gz''"
    using glob_suffix_name [of w st dir "''.whl''"] glob_suffix_name [of s st dir "''.tar.gz''"] assms eq
    by (simp_all add: release_pair_def)
  then have "take 1 (rev (path_name w)) = ''l''" "take 1 (rev (path_name w)) = ''z''"
    by (auto simp: py_endswith_def py_startswith_def dest: arg_cong [of _ _ "take 1"] simp: take_take [symmetric])
  then show False by simp
qed

section \<open>What a manifest says\<close>

lemma read_entries_Inr_iff:
  "distinct (map fst es) \<Longrightarrow> read_entries es ls = Inr es' \<longleftrightarrow>
     (\<exists>ps. map manifest_line ls = map Some ps \<and> distinct (map fst es @ map snd ps) \<and> es' = es @ map prod.swap ps)"
proof (induction es ls rule: read_entries.induct)
  case (2 es l ls)
  show ?case
  proof (cases "manifest_line l")
    case (Some dn)
    obtain d n where dn: "dn = (d, n)" by (cases dn)
    show ?thesis
    proof (cases "n \<in> set (map fst es)")
      case True
      then show ?thesis using Some dn by (auto simp: Cons_eq_map_conv)
    next
      case False
      then have "read_entries es (l # ls) = Inr es' \<longleftrightarrow> (\<exists>ps. map manifest_line ls = map Some ps
          \<and> distinct (map fst (es @ [(n, d)]) @ map snd ps) \<and> es' = (es @ [(n, d)]) @ map prod.swap ps)"
        using "2.IH" [OF Some dn [symmetric] False] "2.prems" Some dn by simp
      also have "\<dots> \<longleftrightarrow> (\<exists>ps. map manifest_line (l # ls) = map Some ps
          \<and> distinct (map fst es @ map snd ps) \<and> es' = es @ map prod.swap ps)"
      proof (intro iffI; elim exE conjE)
        fix ps
        assume "map manifest_line ls = map Some ps" "distinct (map fst (es @ [(n, d)]) @ map snd ps)"
          "es' = (es @ [(n, d)]) @ map prod.swap ps"
        then show "\<exists>ps. map manifest_line (l # ls) = map Some ps \<and> distinct (map fst es @ map snd ps) \<and> es' = es @ map prod.swap ps"
          using Some dn by (intro exI [of _ "(d, n) # ps"]) auto
      next
        fix ps
        assume ps: "map manifest_line (l # ls) = map Some ps" "distinct (map fst es @ map snd ps)" "es' = es @ map prod.swap ps"
        then obtain zs where "ps = (d, n) # zs" using Some dn by (cases ps) auto
        with ps show "\<exists>ps. map manifest_line ls = map Some ps \<and> distinct (map fst (es @ [(n, d)]) @ map snd ps)
            \<and> es' = (es @ [(n, d)]) @ map prod.swap ps" by (intro exI [of _ zs]) auto
      qed
      finally show ?thesis .
    qed
  qed (auto simp: Cons_eq_map_conv)
qed auto

lemma two_names:
  assumes "distinct (map snd ps)" and "snd ` set ps = {a, b}" and "a \<noteq> b"
  obtains x y where "mset ps = {#(x, a), (y, b)#}"
proof -
  have "length (map snd ps) = card (snd ` set ps)" using distinct_card [OF assms(1)] by simp
  then have "length ps = 2" using assms(2,3) by simp
  then obtain p q where ps: "ps = [p, q]" by (auto simp: numeral_2_eq_2 length_Suc_conv)
  then consider "snd p = a" "snd q = b" | "snd p = b" "snd q = a"
    using assms by (auto simp: doubleton_eq_iff)
  then show thesis
  proof cases
    case 1
    then show thesis using that [of "fst p" "fst q"] ps by (metis mset.simps prod.collapse)
  next
    case 2
    then have "mset ps = {#(fst q, a), (fst p, b)#}" using ps by (metis add_mset_commute mset.simps prod.collapse)
    then show thesis by (rule that)
  qed
qed

text \<open>A manifest is accepted exactly when its lines are the two entries of the two files.\<close>

lemma verify_manifest_Inr_iff:
  assumes "sha256_file tools st w = Inr dw" and "sha256_file tools st s = Inr ds" and "path_name w \<noteq> path_name s"
  shows "verify_manifest tools st dir [w, s] manifest = Inr () \<longleftrightarrow>
    (\<exists>t. read_text st (manifest_path dir manifest) = Inr t
       \<and> mset (map manifest_line (py_splitlines t)) = {#Some (dw, path_name w), Some (ds, path_name s)#})"
    (is "?ok \<longleftrightarrow> (\<exists>t. ?read t \<and> ?lines t)")
proof
  assume ?ok
  then obtain t es where t: "?read t" and es: "read_entries [] (py_splitlines t) = Inr es"
    and names: "set (map fst es) = {path_name w, path_name s}"
    and d: "map_of es (path_name w) = Some dw" "map_of es (path_name s) = Some ds"
    using assms by (auto simp: verify_manifest_def r_bind_Inr_iff r_catch_Inr_iff raise_if_def split: if_splits)
  from es obtain ps where ps: "map manifest_line (py_splitlines t) = map Some ps" "distinct (map snd ps)" "es = map prod.swap ps"
    by (auto simp: read_entries_Inr_iff)
  have "snd ` set ps = {path_name w, path_name s}" using names ps(3) by (auto simp: image_image)
  then obtain x y where m: "mset ps = {#(x, path_name w), (y, path_name s)#}" using two_names [OF ps(2) _ assms(3)] by blast
  have dist: "distinct (map fst es)" using ps(2,3) by (simp add: comp_def)
  have "set ps = {(x, path_name w), (y, path_name s)}" using arg_cong [OF m, of set_mset] by simp
  then have "(path_name w, x) \<in> set es" "(path_name s, y) \<in> set es" using ps(3) by force+
  then have "x = dw" "y = ds" using d map_of_is_SomeI [OF dist] by force+
  then have "?lines t" using ps(1) m by (simp add: mset_map [symmetric] del: mset_map) (simp add: m)
  with t show "\<exists>t. ?read t \<and> ?lines t" by blast
next
  assume "\<exists>t. ?read t \<and> ?lines t"
  then obtain t where t: "?read t" "?lines t" by blast
  have "set (map manifest_line (py_splitlines t)) = {Some (dw, path_name w), Some (ds, path_name s)}"
    using arg_cong [OF t(2), of set_mset] by simp
  then obtain ps where ps: "map manifest_line (py_splitlines t) = map Some ps"
    by (metis (no_types, lifting) ex_map_conv insert_iff singletonD)
  have "image_mset Some (mset ps) = image_mset Some {#(dw, path_name w), (ds, path_name s)#}" using t(2) ps by simp
  then have m: "mset ps = {#(dw, path_name w), (ds, path_name s)#}"
    by (rule injD [OF multiset.inj_map [OF inj_Some]])
  have "length ps = 2" using arg_cong [OF m, of size] by simp
  then obtain a b where ab: "ps = [a, b]" by (auto simp: numeral_2_eq_2 length_Suc_conv)
  then have "a = (dw, path_name w) \<and> b = (ds, path_name s) \<or> a = (ds, path_name s) \<and> b = (dw, path_name w)"
    using m by (auto simp: add_eq_conv_ex)
  moreover from this have "read_entries [] (py_splitlines t) = Inr (map prod.swap ps)"
    using ps ab assms(3) by (subst read_entries_Inr_iff, simp) (rule exI [of _ ps], auto)
  moreover from calculation(1) have "map_of (map prod.swap ps) (path_name w) = Some dw" "map_of (map prod.swap ps) (path_name s) = Some ds"
      "fst ` set (map prod.swap ps) = {path_name w, path_name s}"
    using ab assms(3) by auto
  ultimately show ?ok
    using t(1) assms(1,2) by (simp add: verify_manifest_def)
qed

lemma is_regular_sha256: "is_regular st p \<Longrightarrow> \<exists>b. map_of st p = Some (Regular b) \<and> sha256_file tools st p = Inr (at_sha256 tools b)"
  by (auto simp: sha256_file_def read_bytes_def split: option.splits node.splits)

lemma verify_release_artifacts_Inr_iff:
  "verify_release_artifacts tools st dir name version manifest = Inr () \<longleftrightarrow>
     (\<exists>w s bw bs t. release_pair tools st dir name version w s
        \<and> map_of st w = Some (Regular bw) \<and> map_of st s = Some (Regular bs)
        \<and> read_text st (manifest_path dir manifest) = Inr t
        \<and> mset (map manifest_line (py_splitlines t))
            = {#Some (at_sha256 tools bw, path_name w), Some (at_sha256 tools bs, path_name s)#})"
    (is "?ok \<longleftrightarrow> ?spec")
proof
  assume ?ok
  then obtain w s where p: "release_pair tools st dir name version w s"
    and v: "verify_manifest tools st dir [w, s] manifest = Inr ()"
    by (auto simp: verify_release_artifacts_def r_bind_Inr_iff verify_distribution_metadata_Inr_iff)
  from p obtain bw bs where b: "map_of st w = Some (Regular bw)" "sha256_file tools st w = Inr (at_sha256 tools bw)"
      "map_of st s = Some (Regular bs)" "sha256_file tools st s = Inr (at_sha256 tools bs)"
    using is_regular_sha256 [of st w tools] is_regular_sha256 [of st s tools] by (auto simp: release_pair_def simp del: is_regular.simps)
  from v [unfolded verify_manifest_Inr_iff [OF b(2,4) release_pair_names [OF p]]] p b show ?spec by blast
next
  assume ?spec
  then obtain w s bw bs t where p: "release_pair tools st dir name version w s"
    and b: "map_of st w = Some (Regular bw)" "map_of st s = Some (Regular bs)"
    and t: "read_text st (manifest_path dir manifest) = Inr t" "mset (map manifest_line (py_splitlines t))
            = {#Some (at_sha256 tools bw, path_name w), Some (at_sha256 tools bs, path_name s)#}" by blast
  have "sha256_file tools st w = Inr (at_sha256 tools bw)" "sha256_file tools st s = Inr (at_sha256 tools bs)"
    using b by (simp_all add: sha256_file_def read_bytes_def)
  from verify_manifest_Inr_iff [OF this release_pair_names [OF p], of dir manifest] t p show ?ok
    by (auto simp: verify_release_artifacts_def r_bind_Inr_iff verify_distribution_metadata_Inr_iff)
qed

section \<open>Writing and reading back\<close>

lemma hex_unbroken: "list_all is_hex_char d \<Longrightarrow> unbroken d"
  by (auto simp: unbroken_def list_all_iff is_hex_char_def is_ascii_digit_def is_line_break_def)

lemma unbroken_append [simp]: "unbroken (a @ b) \<longleftrightarrow> unbroken a \<and> unbroken b"
  by (simp add: unbroken_def)

lemma unbroken_carriage: "unbroken s \<Longrightarrow> carriage_return \<notin> set s"
  by (auto simp: unbroken_def list_all_iff is_line_break_def)

lemma manifest_entry_reads: "is_sha256 d \<Longrightarrow> safe_name n \<Longrightarrow> manifest_line (manifest_entry d n) = Some (d, n)"
  by (simp add: manifest_line_def manifest_entry_def is_sha256_def)

definition printable_name :: "path \<Rightarrow> bool" where
  "printable_name p \<longleftrightarrow> safe_name (path_name p) \<and> unbroken (path_name p)"

lemma write_text_reads:
  assumes "write_text st p t = Inr st'" and "carriage_return \<notin> set t"
  shows "read_text st' p = Inr t"
proof -
  have "read_bytes st' p = Inr (utf8_encode t)"
    using assms(1) by (auto simp: write_text_def read_bytes_def update_conv split: option.splits node.splits if_splits)
  then show ?thesis by (simp add: read_text_def utf8_decode_encode translate_newlines_id [OF assms(2)])
qed

lemma write_text_elsewhere: "write_text st p t = Inr st' \<Longrightarrow> \<exists>n. st' = AList.update p n st"
  by (auto simp: write_text_def split: option.splits node.splits if_splits)

text \<open>The text of a manifest for two files.\<close>

lemma write_manifest_lines:
  assumes "write_manifest tools st dir [w, s] manifest = Inr st'"
    and "sha256_file tools st w = Inr dw" and "sha256_file tools st s = Inr ds"
  shows "\<exists>ls. write_text st (manifest_path dir manifest) (concat (map (\<lambda>l. l @ [newline]) ls)) = Inr st'
    \<and> mset ls = {#manifest_entry dw (path_name w), manifest_entry ds (path_name s)#}"
proof -
  define ps where "ps = sort_key path_name [w, s]"
  define entry where "entry = (\<lambda>p. manifest_entry (if p = w then dw else ds) (path_name p))"
  have ps: "mset ps = mset [w, s]" unfolding ps_def by (rule mset_sort)
  have line: "r_bind (sha256_file tools st p) (\<lambda>d. Inr (manifest_entry d (path_name p) @ [newline])) = Inr (entry p @ [newline])"
    if "p \<in> set ps" for p
  proof -
    have "p = w \<or> p = s" using that mset_eq_setD [OF ps] by auto
    then show ?thesis using assms(2,3) by (auto simp: entry_def)
  qed
  have "r_map (\<lambda>p. r_bind (sha256_file tools st p) (\<lambda>d. Inr (manifest_entry d (path_name p) @ [newline]))) ps
      = Inr (map (\<lambda>p. entry p @ [newline]) ps)" by (rule r_map_Inr_map) (rule line)
  then have "write_text st (manifest_path dir manifest) (concat (map (\<lambda>l. l @ [newline]) (map entry ps))) = Inr st'"
    using assms(1) unfolding write_manifest_def ps_def [symmetric]
    by (simp add: Let_def comp_def split: option.splits node.splits)
  moreover have "mset (map entry ps) = {#manifest_entry dw (path_name w), manifest_entry ds (path_name s)#}"
    using assms(2,3) unfolding mset_map ps by (auto simp: entry_def)
  ultimately show ?thesis by blast
qed

lemma wheel_identity_update: "p \<noteq> q \<Longrightarrow> wheel_identity tools (AList.update q n st) p = wheel_identity tools st p"
  by (simp add: wheel_identity_def read_bytes_update)

lemma sdist_identity_update: "p \<noteq> q \<Longrightarrow> sdist_identity tools (AList.update q n st) p = sdist_identity tools st p"
  by (simp add: sdist_identity_def read_bytes_update)

lemma release_pair_update:
  assumes "release_pair tools st dir name version w s"
    and "\<not> (q \<noteq> [] \<and> butlast q = dir \<and> (py_endswith (last q) ''.whl'' \<or> py_endswith (last q) ''.tar.gz''))"
  shows "release_pair tools (AList.update q n st) dir name version w s" and "q \<noteq> w" and "q \<noteq> s"
proof -
  show w: "q \<noteq> w" and s: "q \<noteq> s"
    using assms by (auto simp: release_pair_def glob_suffix_def dest!: arg_cong [of _ _ set])
  show "release_pair tools (AList.update q n st) dir name version w s"
    using assms w s by (auto simp: release_pair_def glob_suffix_update wheel_identity_update sdist_identity_update update_conv)
qed

text \<open>
  A manifest that has been written is accepted, for names a manifest can express, and nothing but
  the manifest has changed.
\<close>

lemma written_manifest_verifies:
  assumes "sha256_tools tools" and "release_pair tools st dir name version w s" and "printable_name w" and "printable_name s"
    and "write_manifest tools st dir [w, s] manifest = Inr st'"
    and "q = manifest_path dir manifest"
    and "\<not> (q \<noteq> [] \<and> butlast q = dir \<and> (py_endswith (last q) ''.whl'' \<or> py_endswith (last q) ''.tar.gz''))"
  shows "release_pair tools st' dir name version w s \<and> verify_manifest tools st' dir [w, s] manifest = Inr ()
    \<and> (\<forall>p. p \<noteq> q \<longrightarrow> map_of st' p = map_of st p)"
proof -
  from assms(2) obtain bw bs where b: "sha256_file tools st w = Inr (at_sha256 tools bw)" "sha256_file tools st s = Inr (at_sha256 tools bs)"
    using is_regular_sha256 [of st w tools] is_regular_sha256 [of st s tools] by (auto simp: release_pair_def simp del: is_regular.simps)
  have sha: "is_sha256 (at_sha256 tools bw)" "is_sha256 (at_sha256 tools bs)" using assms(1) by (simp_all add: sha256_tools_def)
  from write_manifest_lines [OF assms(5) b] obtain ls where
    wt: "write_text st q (concat (map (\<lambda>l. l @ [newline]) ls)) = Inr st'"
    and ls: "mset ls = {#manifest_entry (at_sha256 tools bw) (path_name w), manifest_entry (at_sha256 tools bs) (path_name s)#}"
    using assms(6) by blast
  from write_text_elsewhere [OF wt] obtain n where st': "st' = AList.update q n st" ..
  note pair = release_pair_update [OF assms(2,7)]
  have "set ls = {manifest_entry (at_sha256 tools bw) (path_name w), manifest_entry (at_sha256 tools bs) (path_name s)}"
    using arg_cong [OF ls, of set_mset] by simp
  then have u: "list_all unbroken ls"
    using assms(3,4) sha hex_unbroken
    by (auto simp: list_all_iff manifest_entry_def printable_name_def is_sha256_def) (auto simp: unbroken_def is_line_break_def)
  have "carriage_return \<notin> set (concat (map (\<lambda>l. l @ [newline]) ls))"
    using u by (induction ls) (auto dest: unbroken_carriage)
  from write_text_reads [OF wt this] have t: "read_text st' q = Inr (concat (map (\<lambda>l. l @ [newline]) ls))" .
  have "mset (map manifest_line (py_splitlines (concat (map (\<lambda>l. l @ [newline]) ls))))
      = {#Some (at_sha256 tools bw, path_name w), Some (at_sha256 tools bs, path_name s)#}"
    unfolding splitlines_lines [OF u] mset_map ls
    using sha assms(3,4) by (simp add: manifest_entry_reads printable_name_def)
  moreover have "sha256_file tools st' w = Inr (at_sha256 tools bw)" "sha256_file tools st' s = Inr (at_sha256 tools bs)"
    using b pair(2,3) by (simp_all add: st' sha256_file_def read_bytes_update)
  ultimately have "verify_manifest tools st' dir [w, s] manifest = Inr ()"
    using verify_manifest_Inr_iff [OF _ _ release_pair_names [OF assms(2)]] t assms(6) by blast
  then show ?thesis using pair(1) st' by (simp add: update_conv)
qed

lemma prepared_artifacts_verify:
  assumes "sha256_tools tools" and "release_pair tools st dir name version w s" and "printable_name w" and "printable_name s"
    and "write_manifest tools st dir [w, s] manifest = Inr st'"
    and "q = manifest_path dir manifest"
    and "\<not> (q \<noteq> [] \<and> butlast q = dir \<and> (py_endswith (last q) ''.whl'' \<or> py_endswith (last q) ''.tar.gz''))"
  shows "prepare_release_artifacts tools st dir name version manifest = Inr st'
    \<and> verify_release_artifacts tools st' dir name version manifest = Inr ()
    \<and> (\<forall>p. p \<noteq> q \<longrightarrow> map_of st' p = map_of st p)"
proof -
  note v = written_manifest_verifies [OF assms]
  have "verify_distribution_metadata tools st dir name version = Inr [w, s]"
    "verify_distribution_metadata tools st' dir name version = Inr [w, s]"
    using assms(2) v by (auto simp: verify_distribution_metadata_Inr_iff)
  then show ?thesis using v assms(5) by (simp add: prepare_release_artifacts_def verify_release_artifacts_def)
qed

end
