(* ===== verification/Release_Candidate.thy ===== *)
theory Release_Candidate
  imports Py_Files
begin

text \<open>
  \<^verbatim>\<open>scripts/validate_release_candidate.py\<close> and \<^verbatim>\<open>scripts/verify_release_tag.py\<close>: the checks that
  tie a release to one commit. Git and the TOML reader are parameters: a git command has a
  return code and an output. What git's documentation says of its commands is stated against a history
  of commits, and the candidates that are accepted are characterised over that history.
\<close>

section \<open>Names of commits and tags\<close>

definition full_sha :: "string \<Rightarrow> bool" where
  "full_sha s \<longleftrightarrow> length s = 40 \<and> list_all is_hex_char s"

definition release_tag :: "string \<Rightarrow> bool" where
  "release_tag s \<longleftrightarrow> (case s of c # rest \<Rightarrow> c = CHR ''v'' \<and> rest \<noteq> [] \<and> list_all (\<lambda>d. \<not> py_isspace d) rest | [] \<Rightarrow> False)"

section \<open>Git\<close>

record git_repository =
  gr_installed :: bool
  gr_run :: "string list \<Rightarrow> (int \<times> string) result"

definition git_output :: "git_repository \<Rightarrow> string list \<Rightarrow> string result" where
  "git_output g arguments =
     r_bind (gr_run g arguments) (\<lambda>(code, out).
     if code \<noteq> 0 then Inl CandidateError else Inr (py_strip out))"

definition is_ancestor :: "git_repository \<Rightarrow> string \<Rightarrow> string \<Rightarrow> bool result" where
  "is_ancestor g candidate master_ref =
     r_bind (gr_run g [''merge-base'', ''--is-ancestor'', candidate, master_ref]) (\<lambda>(code, out).
     if code \<noteq> 0 \<and> code \<noteq> 1 then Inl CandidateError else Inr (code = 0))"

definition commit_of :: "string \<Rightarrow> string list" where
  "commit_of revision = [''rev-parse'', ''--verify'', revision @ ''^{commit}'']"

definition resolve_commit :: "git_repository \<Rightarrow> string \<Rightarrow> string result" where
  "resolve_commit g revision =
     r_bind (git_output g (commit_of revision)) (\<lambda>sha.
     if \<not> full_sha sha then Inl CandidateError else Inr sha)"

section \<open>The project's version\<close>

text \<open>
  \<open>toml_version\<close> is \<open>tomllib.loads(source)["project"]["version"]\<close>; the decoder's error is a
  \<open>ValueError\<close>.
\<close>

definition parse_project_version :: "(string \<Rightarrow> pyobj result) \<Rightarrow> string \<Rightarrow> string result" where
  "parse_project_version toml_version source =
     r_bind (r_catch (toml_version source) (\<lambda>e. e \<in> {KeyError, TypeError, ValueError}) (\<lambda>_. Inl CandidateError)) (\<lambda>v.
     (case v of
        PStr version \<Rightarrow>
          if version = [] \<or> py_strip version \<noteq> version \<or> newline \<in> set version \<or> carriage_return \<in> set version
          then Inl CandidateError else Inr version
      | _ \<Rightarrow> Inl CandidateError))"

definition project_version :: "(string \<Rightarrow> pyobj result) \<Rightarrow> store \<Rightarrow> path \<Rightarrow> string result" where
  "project_version toml_version st dir =
     r_bind (r_catch (read_text st (dir @ [''pyproject.toml''])) (\<lambda>e. e = OSError) (\<lambda>_. Inl CandidateError)) (\<lambda>source.
     parse_project_version toml_version source)"

definition candidate_project_version :: "(string \<Rightarrow> pyobj result) \<Rightarrow> git_repository \<Rightarrow> string \<Rightarrow> string result" where
  "candidate_project_version toml_version g sha =
     r_bind (git_output g [''show'', sha @ '':pyproject.toml'']) (\<lambda>source. parse_project_version toml_version source)"

section \<open>Candidates\<close>

record candidate_request =
  cr_mode :: string
  cr_candidate_ref :: string
  cr_expected_version :: string
  cr_tag :: string
  cr_master_ref :: string
  cr_event_sha :: string
  cr_event_created :: bool
  cr_event_deleted :: bool
  cr_event_forced :: bool

record release_candidate =
  rc_mode :: string
  rc_sha :: string
  rc_version :: string
  rc_tag :: string
  rc_master_sha :: string

definition tag_ref :: "string \<Rightarrow> string" where
  "tag_ref tag = ''refs/tags/'' @ tag"

definition resolve_tag_candidate :: "git_repository \<Rightarrow> candidate_request \<Rightarrow> string result" where
  "resolve_tag_candidate g r =
     (if \<not> release_tag (cr_tag r) then Inl CandidateError
      else if cr_candidate_ref r \<noteq> tag_ref (cr_tag r) then Inl CandidateError
      else if \<not> cr_event_created r \<or> cr_event_deleted r \<or> cr_event_forced r then Inl CandidateError
      else if \<not> full_sha (cr_event_sha r) then Inl CandidateError
      else r_bind (resolve_commit g (cr_event_sha r)) (\<lambda>event_commit.
           r_bind (resolve_commit g (cr_candidate_ref r)) (\<lambda>tag_commit.
           if tag_commit \<noteq> event_commit then Inl CandidateError else Inr tag_commit)))"

definition resolve_dry_run_candidate :: "git_repository \<Rightarrow> string \<Rightarrow> string result" where
  "resolve_dry_run_candidate g candidate_ref =
     (if \<not> full_sha candidate_ref then Inl CandidateError
      else r_bind (git_output g (commit_of candidate_ref)) (\<lambda>sha.
           if sha \<noteq> candidate_ref then Inl CandidateError else Inr sha))"

text \<open>The commit and the version that the mode selects.\<close>

definition resolve_candidate :: "git_repository \<Rightarrow> candidate_request \<Rightarrow> (string \<times> string) result" where
  "resolve_candidate g r =
     (if cr_mode r = ''tag'' then
        r_bind (resolve_tag_candidate g r) (\<lambda>sha.
        let version = tl (cr_tag r)
        in if cr_expected_version r \<noteq> [] \<and> cr_expected_version r \<noteq> version then Inl CandidateError
           else Inr (sha, version))
      else if cr_mode r = ''dry-run'' then
        (if cr_event_sha r \<noteq> [] \<or> cr_event_created r \<or> cr_event_deleted r \<or> cr_event_forced r then Inl CandidateError
         else if cr_tag r \<noteq> [] then Inl CandidateError
         else if cr_expected_version r = [] \<or> py_strip (cr_expected_version r) \<noteq> cr_expected_version r then Inl CandidateError
         else r_bind (resolve_dry_run_candidate g (cr_candidate_ref r)) (\<lambda>sha. Inr (sha, cr_expected_version r)))
      else Inl CandidateError)"

definition validate_candidate ::
    "(string \<Rightarrow> pyobj result) \<Rightarrow> git_repository \<Rightarrow> candidate_request \<Rightarrow> release_candidate result" where
  "validate_candidate toml_version g r =
     (if \<not> gr_installed g then Inl CandidateError
      else
        r_bind (resolve_commit g (cr_master_ref r)) (\<lambda>master_sha.
        r_bind (resolve_candidate g r) (\<lambda>(sha, version).
        r_bind (is_ancestor g sha master_sha) (\<lambda>reachable.
        if \<not> reachable then Inl CandidateError
        else r_bind (candidate_project_version toml_version g sha) (\<lambda>project.
             if project \<noteq> version then Inl CandidateError
             else Inr \<lparr>rc_mode = cr_mode r, rc_sha = sha, rc_version = version, rc_tag = cr_tag r, rc_master_sha = master_sha\<rparr>)))))"

text \<open>The lines that the workflow reads.\<close>

definition output_line :: "string \<Rightarrow> string \<Rightarrow> string" where
  "output_line key v = key @ ''='' @ v @ [newline]"

definition write_github_outputs :: "release_candidate \<Rightarrow> string \<Rightarrow> string" where
  "write_github_outputs c written =
     written @ output_line ''mode'' (rc_mode c) @ output_line ''sha'' (rc_sha c) @ output_line ''version'' (rc_version c)
     @ output_line ''tag'' (rc_tag c) @ output_line ''master_sha'' (rc_master_sha c)"

text \<open>\<open>main\<close>: the text appended to the output file.\<close>

definition main_candidate ::
    "(string \<Rightarrow> pyobj result) \<Rightarrow> git_repository \<Rightarrow> candidate_request \<Rightarrow> string \<Rightarrow> string result" where
  "main_candidate toml_version g r written =
     r_bind (r_catch (validate_candidate toml_version g r) (\<lambda>e. e = CandidateError) (\<lambda>_. Inl SystemExit)) (\<lambda>c.
     Inr (write_github_outputs c written))"

section \<open>The remote tag\<close>

definition remote_lines :: "git_repository \<Rightarrow> string \<Rightarrow> string \<Rightarrow> string list result" where
  "remote_lines g remote tag =
     (if \<not> gr_installed g then Inl TagError
      else r_bind (gr_run g [''ls-remote'', remote, tag_ref tag, tag_ref tag @ ''^{}'']) (\<lambda>(code, out).
           if code \<noteq> 0 then Inl TagError else Inr (filter (\<lambda>l. l \<noteq> []) (py_splitlines out))))"

fun read_identities :: "string \<Rightarrow> (string \<times> string) list \<Rightarrow> string list \<Rightarrow> (string \<times> string) list result" where
  "read_identities reference identities [] = Inr identities"
| "read_identities reference identities (l # ls) =
     (case py_split (CHR 0x09) l of
        [sha, resolved_ref] \<Rightarrow>
          if resolved_ref \<notin> {reference, reference @ ''^{}''} \<or> resolved_ref \<in> set (map fst identities) \<or> \<not> full_sha sha
          then Inl TagError
          else read_identities reference (identities @ [(resolved_ref, sha)]) ls
      | _ \<Rightarrow> Inl TagError)"

text \<open>An annotated tag is listed with the commit it peels to, which wins.\<close>

definition tag_identity :: "string \<Rightarrow> (string \<times> string) list \<Rightarrow> string option" where
  "tag_identity reference identities =
     (case map_of identities reference of
        None \<Rightarrow> None
      | Some sha \<Rightarrow> Some (case map_of identities (reference @ ''^{}'') of None \<Rightarrow> sha | Some peeled \<Rightarrow> peeled))"

definition remote_tag_commit :: "git_repository \<Rightarrow> string \<Rightarrow> string \<Rightarrow> string result" where
  "remote_tag_commit g remote tag =
     (if \<not> release_tag tag then Inl TagError
      else r_bind (remote_lines g remote tag) (\<lambda>ls.
           r_bind (read_identities (tag_ref tag) [] ls) (\<lambda>identities.
           (case tag_identity (tag_ref tag) identities of None \<Rightarrow> Inl TagError | Some sha \<Rightarrow> Inr sha))))"

definition verify_remote_tag :: "git_repository \<Rightarrow> string \<Rightarrow> string \<Rightarrow> string \<Rightarrow> unit result" where
  "verify_remote_tag g remote tag expected_sha =
     (if \<not> full_sha expected_sha then Inl TagError
      else r_bind (remote_tag_commit g remote tag) (\<lambda>sha.
           if sha \<noteq> expected_sha then Inl TagError else Inr ()))"

definition main_tag :: "git_repository \<Rightarrow> string \<Rightarrow> string \<Rightarrow> string \<Rightarrow> unit result" where
  "main_tag g remote tag expected_sha =
     r_catch (verify_remote_tag g remote tag expected_sha) (\<lambda>e. e = TagError) (\<lambda>_. Inl SystemExit)"

section \<open>What a candidate is\<close>

lemma resolve_commit_sha: "resolve_commit g revision = Inr sha \<Longrightarrow> full_sha sha"
  by (auto simp: resolve_commit_def split: if_splits)

lemma full_sha_strip: "full_sha s \<Longrightarrow> py_strip s = s"
  by (intro py_strip_id stripped_no_space)
     (auto simp: full_sha_def list_all_iff is_hex_char_def is_ascii_digit_def py_isspace_def)

text \<open>The origin of a candidate: a new tag at the commit that was pushed, or a commit by its name.\<close>

definition candidate_origin :: "git_repository \<Rightarrow> candidate_request \<Rightarrow> string \<Rightarrow> string \<Rightarrow> bool" where
  "candidate_origin g r sha version \<longleftrightarrow>
     cr_mode r = ''tag'' \<and> cr_tag r = ''v'' @ version \<and> version \<noteq> [] \<and> list_all (\<lambda>c. \<not> py_isspace c) version
       \<and> cr_candidate_ref r = ''refs/tags/'' @ cr_tag r
       \<and> cr_event_created r \<and> \<not> cr_event_deleted r \<and> \<not> cr_event_forced r
       \<and> full_sha (cr_event_sha r) \<and> resolve_commit g (cr_event_sha r) = Inr sha \<and> resolve_commit g (cr_candidate_ref r) = Inr sha
       \<and> (cr_expected_version r = [] \<or> cr_expected_version r = version)
     \<or> cr_mode r = ''dry-run'' \<and> cr_tag r = [] \<and> cr_event_sha r = []
       \<and> \<not> cr_event_created r \<and> \<not> cr_event_deleted r \<and> \<not> cr_event_forced r
       \<and> cr_candidate_ref r = sha \<and> full_sha sha \<and> git_output g (commit_of sha) = Inr sha
       \<and> cr_expected_version r = version \<and> version \<noteq> [] \<and> py_strip version = version"

lemma release_tag_iff: "release_tag t \<longleftrightarrow> (\<exists>v. t = CHR ''v'' # v \<and> v \<noteq> [] \<and> list_all (\<lambda>d. \<not> py_isspace d) v)"
  by (auto simp: release_tag_def split: list.splits)

lemma resolve_candidate_Inr_iff: "resolve_candidate g r = Inr (sha, version) \<longleftrightarrow> candidate_origin g r sha version"
proof (cases "cr_mode r = ''tag''")
  case True
  then show ?thesis
    by (auto simp: resolve_candidate_def candidate_origin_def resolve_tag_candidate_def r_bind_Inr_iff release_tag_iff tag_ref_def
        Let_def split: if_splits)
next
  case False
  then show ?thesis
    by (auto simp: resolve_candidate_def candidate_origin_def resolve_dry_run_candidate_def r_bind_Inr_iff split: if_splits)
qed

lemma candidate_origin_sha: "candidate_origin g r sha version \<Longrightarrow> full_sha sha"
  using resolve_commit_sha by (auto simp: candidate_origin_def)

lemma validate_candidate_Inr_iff:
  "validate_candidate toml_version g r = Inr c \<longleftrightarrow>
     gr_installed g \<and> rc_mode c = cr_mode r \<and> rc_tag c = cr_tag r
     \<and> resolve_commit g (cr_master_ref r) = Inr (rc_master_sha c)
     \<and> candidate_origin g r (rc_sha c) (rc_version c)
     \<and> is_ancestor g (rc_sha c) (rc_master_sha c) = Inr True
     \<and> candidate_project_version toml_version g (rc_sha c) = Inr (rc_version c)"
  by (cases c)
     (auto simp: validate_candidate_def r_bind_Inr_iff resolve_candidate_Inr_iff [symmetric] split: if_splits)

section \<open>Git as its documentation describes it\<close>

text \<open>
  A history: the commit a revision names once it is peeled, the parents of a commit, the text of a file
  in a commit's tree.
\<close>

record history =
  hy_commit :: "string \<Rightarrow> string option"
  hy_parents :: "string \<Rightarrow> string list"
  hy_file :: "string \<Rightarrow> string \<Rightarrow> string option"

definition ancestor :: "history \<Rightarrow> string \<Rightarrow> string \<Rightarrow> bool" where
  "ancestor h a b \<longleftrightarrow> (a, b) \<in> {(p, c). p \<in> set (hy_parents h c)}\<^sup>*"

definition failed_command :: "(int \<times> string) result \<Rightarrow> bool" where
  "failed_command outcome \<longleftrightarrow> (\<exists>code out. outcome = Inr (code, out) \<and> code \<noteq> 0)"

text \<open>
  A commit's name is hexadecimal and names that commit. \<open>rev-parse --verify\<close> prints the name of the commit
  a revision peels to and a line end, or fails; \<open>merge-base --is-ancestor\<close> exits with 0 if its first
  commit is an ancestor of its second (or that commit itself) and with 1 if not; \<open>show\<close> of a commit, a
  colon and a path prints the file, or fails.
\<close>

definition runs_git :: "git_repository \<Rightarrow> history \<Rightarrow> bool" where
  "runs_git g h \<longleftrightarrow>
     (\<forall>revision sha. hy_commit h revision = Some sha \<longrightarrow> list_all is_hex_char sha \<and> hy_commit h sha = Some sha)
     \<and> (\<forall>revision. case hy_commit h revision of
           Some sha \<Rightarrow> gr_run g [''rev-parse'', ''--verify'', revision @ ''^{commit}''] = Inr (0, sha @ [newline])
         | None \<Rightarrow> failed_command (gr_run g [''rev-parse'', ''--verify'', revision @ ''^{commit}'']))
     \<and> (\<forall>a b. hy_commit h a = Some a \<longrightarrow> hy_commit h b = Some b \<longrightarrow>
           (\<exists>out. gr_run g [''merge-base'', ''--is-ancestor'', a, b] = Inr (if ancestor h a b then 0 else 1, out)))
     \<and> (\<forall>sha path. hy_commit h sha = Some sha \<longrightarrow>
           (case hy_file h sha path of
              Some source \<Rightarrow> gr_run g [''show'', sha @ '':'' @ path] = Inr (0, source)
            | None \<Rightarrow> failed_command (gr_run g [''show'', sha @ '':'' @ path])))"

lemma hex_strip:
  assumes "list_all is_hex_char sha"
  shows "py_strip (sha @ [newline]) = sha"
proof -
  have "\<forall>c \<in> set sha. \<not> py_isspace c"
    using assms by (auto simp: list_all_iff is_hex_char_def is_ascii_digit_def py_isspace_def)
  then have "dropWhile py_isspace (rev sha) = rev sha" by (cases sha rule: rev_cases) auto
  moreover have "py_isspace newline" by code_simp
  moreover have "dropWhile py_isspace (sha @ [newline]) = (if sha = [] then [] else sha @ [newline])"
    using \<open>\<forall>c \<in> set sha. \<not> py_isspace c\<close> calculation(2) by (cases sha) auto
  ultimately show ?thesis by (cases "sha = []") (simp_all add: py_strip_def py_lstrip_def)
qed

lemma git_output_failed: "failed_command (gr_run g arguments) \<Longrightarrow> git_output g arguments = Inl CandidateError"
  by (auto simp: failed_command_def git_output_def)

lemma runs_git_commit:
  assumes "runs_git g h"
  shows "git_output g (commit_of revision) = (case hy_commit h revision of Some sha \<Rightarrow> Inr sha | None \<Rightarrow> Inl CandidateError)"
proof (cases "hy_commit h revision")
  case None
  then have "failed_command (gr_run g (commit_of revision))"
    using assms by (auto simp: runs_git_def commit_of_def dest: spec [of _ revision])
  then show ?thesis using None git_output_failed by simp
next
  case (Some sha)
  then have "gr_run g (commit_of revision) = Inr (0, sha @ [newline])" "list_all is_hex_char sha"
    using assms by (auto simp: runs_git_def commit_of_def dest: spec [of _ revision])
  then show ?thesis using Some hex_strip by (simp add: git_output_def)
qed

lemma runs_git_resolve:
  "runs_git g h \<Longrightarrow> resolve_commit g revision = Inr sha \<longleftrightarrow> hy_commit h revision = Some sha \<and> full_sha sha"
  by (auto simp: resolve_commit_def runs_git_commit split: option.splits)

lemma runs_git_ancestor:
  assumes "runs_git g h" and "hy_commit h a = Some a" and "hy_commit h b = Some b"
  shows "is_ancestor g a b = Inr (ancestor h a b)"
proof -
  from assms obtain out where "gr_run g [''merge-base'', ''--is-ancestor'', a, b] = Inr (if ancestor h a b then 0 else 1, out)"
    unfolding runs_git_def by blast
  then show ?thesis by (simp add: is_ancestor_def)
qed

lemma runs_git_file:
  assumes "runs_git g h" and "hy_commit h sha = Some sha"
  shows "git_output g [''show'', sha @ '':pyproject.toml''] =
    (case hy_file h sha ''pyproject.toml'' of Some source \<Rightarrow> Inr (py_strip source) | None \<Rightarrow> Inl CandidateError)"
proof -
  from assms have "case hy_file h sha ''pyproject.toml'' of
      Some source \<Rightarrow> gr_run g [''show'', sha @ '':'' @ ''pyproject.toml''] = Inr (0, source)
    | None \<Rightarrow> failed_command (gr_run g [''show'', sha @ '':'' @ ''pyproject.toml''])"
    unfolding runs_git_def by blast
  then show ?thesis using git_output_failed by (fastforce simp: git_output_def split: option.splits)
qed

text \<open>What a version may be, and the commit a request is about, over the history.\<close>

definition plain_version :: "string \<Rightarrow> bool" where
  "plain_version v \<longleftrightarrow> v \<noteq> [] \<and> py_strip v = v \<and> newline \<notin> set v \<and> carriage_return \<notin> set v"

definition states_version :: "(string \<Rightarrow> pyobj result) \<Rightarrow> history \<Rightarrow> string \<Rightarrow> string \<Rightarrow> bool" where
  "states_version toml_version h sha version \<longleftrightarrow>
     (\<exists>source. hy_file h sha ''pyproject.toml'' = Some source \<and> toml_version (py_strip source) = Inr (PStr version))
     \<and> plain_version version"

definition requested_commit :: "history \<Rightarrow> candidate_request \<Rightarrow> string \<Rightarrow> string \<Rightarrow> bool" where
  "requested_commit h r sha version \<longleftrightarrow>
     cr_mode r = ''tag'' \<and> cr_tag r = ''v'' @ version \<and> version \<noteq> [] \<and> list_all (\<lambda>c. \<not> py_isspace c) version
       \<and> cr_candidate_ref r = ''refs/tags/'' @ cr_tag r
       \<and> cr_event_created r \<and> \<not> cr_event_deleted r \<and> \<not> cr_event_forced r
       \<and> full_sha (cr_event_sha r) \<and> hy_commit h (cr_event_sha r) = Some sha \<and> hy_commit h (''refs/tags/'' @ cr_tag r) = Some sha
       \<and> (cr_expected_version r = [] \<or> cr_expected_version r = version)
     \<or> cr_mode r = ''dry-run'' \<and> cr_tag r = [] \<and> cr_event_sha r = []
       \<and> \<not> cr_event_created r \<and> \<not> cr_event_deleted r \<and> \<not> cr_event_forced r
       \<and> cr_candidate_ref r = sha \<and> hy_commit h sha = Some sha
       \<and> cr_expected_version r = version"

lemma parse_project_version_Inr_iff:
  "parse_project_version toml_version source = Inr v \<longleftrightarrow> toml_version source = Inr (PStr v) \<and> plain_version v"
proof (cases "toml_version source")
  case (Inl e)
  then show ?thesis by (simp add: parse_project_version_def r_catch_def)
next
  case (Inr x)
  then show ?thesis
    by (cases x) (auto simp: parse_project_version_def plain_version_def r_catch_def)
qed

lemma candidate_origin_history:
  assumes "runs_git g h"
  shows "candidate_origin g r sha version \<and> plain_version version \<longleftrightarrow>
    requested_commit h r sha version \<and> full_sha sha \<and> plain_version version"
  using assms
  by (auto simp: candidate_origin_def requested_commit_def plain_version_def runs_git_resolve runs_git_commit split: option.splits)

text \<open>The candidate that the history supports for a request.\<close>

definition supported_candidate ::
    "(string \<Rightarrow> pyobj result) \<Rightarrow> history \<Rightarrow> candidate_request \<Rightarrow> release_candidate \<Rightarrow> bool" where
  "supported_candidate toml_version h r c \<longleftrightarrow>
     rc_mode c = cr_mode r \<and> rc_tag c = cr_tag r
     \<and> hy_commit h (cr_master_ref r) = Some (rc_master_sha c) \<and> full_sha (rc_master_sha c) \<and> full_sha (rc_sha c)
     \<and> requested_commit h r (rc_sha c) (rc_version c)
     \<and> ancestor h (rc_sha c) (rc_master_sha c)
     \<and> states_version toml_version h (rc_sha c) (rc_version c)"

lemma validate_candidate_history:
  assumes "runs_git g h" and "gr_installed g"
  shows "validate_candidate toml_version g r = Inr c \<longleftrightarrow> supported_candidate toml_version h r c"
proof -
  let ?sha = "rc_sha c" and ?master = "rc_master_sha c"
  have master: "resolve_commit g (cr_master_ref r) = Inr ?master \<longleftrightarrow> hy_commit h (cr_master_ref r) = Some ?master \<and> full_sha ?master"
    by (rule runs_git_resolve [OF assms(1)])
  have named: "hy_commit h ?master = Some ?master" if "hy_commit h (cr_master_ref r) = Some ?master"
    using assms(1) that unfolding runs_git_def by blast
  have commit: "hy_commit h ?sha = Some ?sha" if "requested_commit h r ?sha (rc_version c)"
    using assms(1) that unfolding runs_git_def requested_commit_def by blast
  have reachable: "is_ancestor g ?sha ?master = Inr True \<longleftrightarrow> ancestor h ?sha ?master"
    if "hy_commit h ?sha = Some ?sha" "hy_commit h ?master = Some ?master"
    using runs_git_ancestor [OF assms(1) that] by simp
  have version: "candidate_project_version toml_version g ?sha = Inr (rc_version c)
      \<longleftrightarrow> states_version toml_version h ?sha (rc_version c)" if "hy_commit h ?sha = Some ?sha"
    using runs_git_file [OF assms(1) that]
    by (auto simp: candidate_project_version_def states_version_def parse_project_version_Inr_iff split: option.splits)
  have plain: "plain_version (rc_version c)" if "candidate_project_version toml_version g ?sha = Inr (rc_version c)"
    using that by (auto simp: candidate_project_version_def r_bind_Inr_iff parse_project_version_Inr_iff)
  have stated: "plain_version (rc_version c)" if "states_version toml_version h ?sha (rc_version c)"
    using that by (simp add: states_version_def)
  note origin = candidate_origin_history [OF assms(1), of r ?sha "rc_version c"]
  show ?thesis
    unfolding validate_candidate_Inr_iff supported_candidate_def
    using assms(2) master named commit reachable version plain stated origin by metis
qed

section \<open>Outputs\<close>

lemma parse_project_version_clean:
  "parse_project_version toml_version source = Inr v \<Longrightarrow> newline \<notin> set v \<and> carriage_return \<notin> set v \<and> v \<noteq> []"
proof -
  assume "parse_project_version toml_version source = Inr v"
  then obtain x where x: "(case x of
        PStr version \<Rightarrow>
          if version = [] \<or> py_strip version \<noteq> version \<or> newline \<in> set version \<or> carriage_return \<in> set version
          then Inl CandidateError else Inr version
      | _ \<Rightarrow> Inl CandidateError) = Inr v"
    unfolding parse_project_version_def r_bind_Inr_iff by blast
  then show ?thesis by (cases x) (auto split: if_splits)
qed

lemma full_sha_clean: "full_sha s \<Longrightarrow> newline \<notin> set s"
  by (auto simp: full_sha_def list_all_iff is_hex_char_def is_ascii_digit_def)

lemma py_split_line: "c \<notin> set l \<Longrightarrow> py_split c (l @ c # s) = l # py_split c s"
  by (induction l) auto

text \<open>No value of a valid candidate can add a line or another assignment.\<close>

lemma candidate_fields_clean:
  assumes "validate_candidate toml_version g r = Inr c"
  shows "newline \<notin> set (rc_mode c)" "newline \<notin> set (rc_sha c)" "newline \<notin> set (rc_version c)" "newline \<notin> set (rc_tag c)"
    "newline \<notin> set (rc_master_sha c)"
proof -
  note v = assms [unfolded validate_candidate_Inr_iff]
  show version: "newline \<notin> set (rc_version c)"
    using v parse_project_version_clean by (auto simp: candidate_project_version_def r_bind_Inr_iff)
  show "newline \<notin> set (rc_sha c)" using v candidate_origin_sha full_sha_clean by blast
  show "newline \<notin> set (rc_master_sha c)" using v resolve_commit_sha full_sha_clean by blast
  show "newline \<notin> set (rc_mode c)" "newline \<notin> set (rc_tag c)"
    using v version by (auto simp: candidate_origin_def)
qed

lemma outputs_read_back:
  assumes "validate_candidate toml_version g r = Inr c"
  shows "py_split newline (write_github_outputs c []) =
    [''mode='' @ rc_mode c, ''sha='' @ rc_sha c, ''version='' @ rc_version c, ''tag='' @ rc_tag c,
     ''master_sha='' @ rc_master_sha c, []]"
proof -
  have line: "py_split newline (output_line key v @ s) = (key @ ''='' @ v) # py_split newline s"
    if "newline \<notin> set key" "newline \<notin> set v" for key v s
    using py_split_line [of newline "key @ ''='' @ v" s] that by (simp add: output_line_def)
  show ?thesis
    unfolding write_github_outputs_def append_Nil
    using candidate_fields_clean [OF assms] line [of "''master_sha''" "rc_master_sha c" "[]"] by (simp add: line)
qed

section \<open>Listings of the remote\<close>

lemma py_split_whole: "c \<notin> set s \<Longrightarrow> py_split c s = [s]"
  by (induction s) auto

lemma py_split_ne: "py_split c s \<noteq> []"
  by (cases s) (auto split: list.splits)

lemma py_split_single_iff: "py_split c s = [x] \<longleftrightarrow> s = x \<and> c \<notin> set s"
proof (cases "c \<in> set s")
  case True
  then obtain a b where "s = a @ c # b" "c \<notin> set a" by (metis split_list_first)
  then show ?thesis using True py_split_ne [of c b] by (auto simp: py_split_line)
qed (auto simp: py_split_whole)

lemma py_split_pair_iff: "py_split c l = [a, b] \<longleftrightarrow> l = a @ c # b \<and> c \<notin> set a \<and> c \<notin> set b"
proof (cases "c \<in> set l")
  case True
  then obtain x y where "l = x @ c # y" "c \<notin> set x" by (metis split_list_first)
  moreover have "x @ c # y = a @ c # b \<longleftrightarrow> x = a \<and> y = b" if "c \<notin> set a" "c \<notin> set x"
    using that by (auto simp: append_eq_append_conv2 Cons_eq_append_conv append_eq_Cons_conv)
  ultimately show ?thesis by (auto simp: py_split_line py_split_single_iff)
qed (auto simp: py_split_whole)

text \<open>The lines of a listing that is accepted, and the commit they name.\<close>

definition listed :: "string \<times> string \<Rightarrow> string" where
  "listed = (\<lambda>(reference, sha). sha @ CHR 0x09 # reference)"

definition listing_ok :: "string \<Rightarrow> (string \<times> string) list \<Rightarrow> bool" where
  "listing_ok reference identities \<longleftrightarrow>
     distinct (map fst identities) \<and> set (map fst identities) \<subseteq> {reference, reference @ ''^{}''}
     \<and> list_all (\<lambda>(_, sha). full_sha sha) identities"

lemma full_sha_no_tab: "full_sha s \<Longrightarrow> CHR 0x09 \<notin> set s"
  by (auto simp: full_sha_def list_all_iff is_hex_char_def is_ascii_digit_def)

lemma listed_inj: "full_sha (snd a) \<Longrightarrow> full_sha (snd b) \<Longrightarrow> listed a = listed b \<Longrightarrow> a = b"
  using full_sha_no_tab [of "snd a"] full_sha_no_tab [of "snd b"]
  by (cases a; cases b) (auto simp: listed_def append_eq_append_conv2 Cons_eq_append_conv append_eq_Cons_conv)

lemma read_identities_Inr_iff:
  assumes "CHR 0x09 \<notin> set reference" and "listing_ok reference es"
  shows "read_identities reference es ls = Inr es' \<longleftrightarrow>
    (\<exists>ids. ls = map listed ids \<and> es' = es @ ids \<and> listing_ok reference es')"
  using assms(2)
proof (induction ls arbitrary: es)
  case Nil
  then show ?case by auto
next
  case (Cons l ls)
  show ?case
  proof (cases "\<exists>sha r. l = listed (r, sha) \<and> r \<in> {reference, reference @ ''^{}''} \<and> r \<notin> set (map fst es) \<and> full_sha sha")
    case True
    then obtain sha r where l: "l = listed (r, sha)" "r \<in> {reference, reference @ ''^{}''}" "r \<notin> set (map fst es)" "full_sha sha"
      by blast
    have "py_split (CHR 0x09) l = [sha, r]"
      using l assms(1) full_sha_no_tab by (auto simp: py_split_pair_iff listed_def)
    moreover have ok: "listing_ok reference (es @ [(r, sha)])" using Cons.prems l by (auto simp: listing_ok_def)
    ultimately have "read_identities reference es (l # ls) = Inr es' \<longleftrightarrow>
        (\<exists>ids. ls = map listed ids \<and> es' = (es @ [(r, sha)]) @ ids \<and> listing_ok reference es')"
      using Cons.IH [OF ok] l by auto
    also have "\<dots> \<longleftrightarrow> (\<exists>ids. l # ls = map listed ids \<and> es' = es @ ids \<and> listing_ok reference es')"
    proof (intro iffI; elim exE conjE)
      fix ids
      assume "l # ls = map listed ids" "es' = es @ ids" "listing_ok reference es'"
      moreover from this obtain i js where i: "ids = i # js" "listed i = l" by auto
      moreover have "i = (r, sha)"
        using i calculation(2,3) l(1,4) by (intro listed_inj) (auto simp: listing_ok_def)
      ultimately show "\<exists>ids. ls = map listed ids \<and> es' = (es @ [(r, sha)]) @ ids \<and> listing_ok reference es'" by auto
    qed (use l(1) in \<open>force intro!: exI [of _ "(r, sha) # _"]\<close>)
    finally show ?thesis .
  next
    case False
    then have "read_identities reference es (l # ls) = Inl TagError"
      by (auto simp: py_split_pair_iff listed_def split: list.splits)
    moreover have "\<not> (\<exists>ids. l # ls = map listed ids \<and> es' = es @ ids \<and> listing_ok reference es')"
    proof (rule notI; elim exE conjE)
      fix ids
      assume e: "l # ls = map listed ids" "es' = es @ ids" "listing_ok reference es'"
      then obtain r sha js where i: "ids = (r, sha) # js" "l = listed (r, sha)" by (cases ids) auto
      have "r \<in> {reference, reference @ ''^{}''}" "r \<notin> set (map fst es)" "full_sha sha"
        using e(2,3) i(1) by (auto simp: listing_ok_def)
      with i(2) False show False by blast
    qed
    ultimately show ?thesis by simp
  qed
qed

text \<open>The tag is verified exactly when the listing names the commit expected.\<close>

lemma release_tag_no_tab:
  assumes "release_tag t"
  shows "CHR 0x09 \<notin> set (tag_ref t)"
proof -
  have "py_isspace (CHR 0x09)" by (simp add: py_isspace_def)
  then show ?thesis using assms by (auto simp: release_tag_iff tag_ref_def list_all_iff)
qed

lemma verify_remote_tag_Inr_iff:
  "verify_remote_tag g remote tag sha = Inr () \<longleftrightarrow>
     full_sha sha \<and> release_tag tag
     \<and> (\<exists>ids. remote_lines g remote tag = Inr (map listed ids) \<and> listing_ok (tag_ref tag) ids
          \<and> tag_identity (tag_ref tag) ids = Some sha)"
proof (cases "full_sha sha \<and> release_tag tag")
  case True
  have new: "listing_ok (tag_ref tag) []" by (simp add: listing_ok_def)
  have found: "(case x of None \<Rightarrow> Inl TagError | Some s \<Rightarrow> Inr s) = Inr s' \<longleftrightarrow> x = Some s'" for x and s' :: string
    by (cases x) auto
  have "verify_remote_tag g remote tag sha = Inr () \<longleftrightarrow>
      (\<exists>ls ids. remote_lines g remote tag = Inr ls \<and> read_identities (tag_ref tag) [] ls = Inr ids
        \<and> tag_identity (tag_ref tag) ids = Some sha)"
    using True by (auto simp: verify_remote_tag_def remote_tag_commit_def r_bind_Inr_iff found split: if_splits)
  then show ?thesis
    using True read_identities_Inr_iff [OF release_tag_no_tab new] by auto
qed (auto simp: verify_remote_tag_def remote_tag_commit_def split: if_splits)

end
