(* ===== verification/Release_Workflow.thy ===== *)
theory Release_Workflow
  imports Py_Files
begin

text \<open>
  \<^verbatim>\<open>scripts/check_workflow_pins.py\<close> and \<^verbatim>\<open>scripts/check_release_workflow.py\<close>: the checks on the
  text of the continuous integration and release workflows. The regular expressions are
  functions on lines; a job's block is cut out of the text as the expression of \<open>_job\<close> does.
\<close>

section \<open>Pinned actions\<close>

text \<open>
  \<open>_USES\<close>: white space, an optional dash, \<open>uses:\<close>, a reference without white space or number
  sign, and an optional comment that is not empty. What it matches is the reference and the comment.
\<close>

definition skip_space :: "string \<Rightarrow> string" where
  "skip_space s = dropWhile py_isspace s"

definition uses_reference :: "string \<Rightarrow> string option" where
  "uses_reference line =
     (let s = skip_space line;
          t = (case s of c # r \<Rightarrow> if c = CHR ''-'' then skip_space r else s | [] \<Rightarrow> s)
      in if py_startswith t ''uses:'' then Some (skip_space (drop 5 t)) else None)"

definition is_reference_char :: "char \<Rightarrow> bool" where
  "is_reference_char c \<longleftrightarrow> \<not> py_isspace c \<and> c \<noteq> CHR ''#''"

text \<open>What follows the reference: nothing, or a comment after white space.\<close>

definition uses_comment :: "string \<Rightarrow> string option option" where
  "uses_comment s =
     (if list_all py_isspace s then Some None
      else case (s, skip_space s) of
        (c # _, h # r) \<Rightarrow>
          if py_isspace c \<and> h = CHR ''#'' \<and> skip_space r \<noteq> [] then Some (Some (skip_space r)) else None
      | _ \<Rightarrow> None)"

definition match_uses :: "string \<Rightarrow> (string \<times> string option) option" where
  "match_uses line =
     (case uses_reference line of
        None \<Rightarrow> None
      | Some s \<Rightarrow>
          (let reference = takeWhile is_reference_char s
           in if reference = [] then None
              else map_option (Pair reference) (uses_comment (dropWhile is_reference_char s))))"

definition is_action_char :: "char \<Rightarrow> bool" where
  "is_action_char c \<longleftrightarrow> is_name_char c \<or> c = CHR ''.'' \<or> c = CHR ''-''"

text \<open>\<open>_PINNED_ACTION\<close>: an owner, a repository and further components, at a full commit.\<close>

definition pinned_action :: "string \<Rightarrow> bool" where
  "pinned_action s \<longleftrightarrow>
     (case py_split (CHR ''@'') s of
        [action, commit] \<Rightarrow>
          2 \<le> length (py_split (CHR ''/'') action)
          \<and> list_all (\<lambda>p. p \<noteq> [] \<and> list_all is_action_char p) (py_split (CHR ''/'') action)
          \<and> length commit = 40 \<and> list_all is_hex_char commit
      | _ \<Rightarrow> False)"

text \<open>\<open>_VERSION_COMMENT\<close>: \<open>v\<close>, three numbers with dots, a suffix.\<close>

definition number_then :: "(string \<Rightarrow> bool) \<Rightarrow> string \<Rightarrow> bool" where
  "number_then rest s \<longleftrightarrow> takeWhile is_ascii_digit s \<noteq> [] \<and> rest (dropWhile is_ascii_digit s)"

definition dot_then :: "(string \<Rightarrow> bool) \<Rightarrow> string \<Rightarrow> bool" where
  "dot_then rest s \<longleftrightarrow> (case s of c # t \<Rightarrow> c = CHR ''.'' \<and> rest t | [] \<Rightarrow> False)"

definition version_comment :: "string \<Rightarrow> bool" where
  "version_comment s \<longleftrightarrow>
     (case s of
        c # t \<Rightarrow> c = CHR ''v''
          \<and> number_then (dot_then (number_then (dot_then (number_then (list_all is_action_char))))) t
      | [] \<Rightarrow> False)"

text \<open>The two failures; a line is reported by its number.\<close>

datatype pin_failure = NotPinned nat | NoVersionComment nat

definition line_failure :: "nat \<Rightarrow> string \<Rightarrow> pin_failure option" where
  "line_failure n line =
     (case match_uses line of
        None \<Rightarrow> None
      | Some (reference, comment) \<Rightarrow>
          if py_startswith reference ''./'' then None
          else if \<not> pinned_action reference then Some (NotPinned n)
          else (case comment of
                  None \<Rightarrow> Some (NoVersionComment n)
                | Some c \<Rightarrow> if version_comment c then None else Some (NoVersionComment n)))"

definition pin_failures :: "string \<Rightarrow> pin_failure list" where
  "pin_failures workflow =
     List.map_filter (\<lambda>(n, line). line_failure n line) (enumerate 1 (py_splitlines workflow))"

text \<open>\<open>main\<close>: 1 when any workflow has a failure.\<close>

definition main_pins :: "store \<Rightarrow> path list \<Rightarrow> nat result" where
  "main_pins st workflows =
     r_bind (r_map (\<lambda>p. r_bind (read_text st p) (\<lambda>t. Inr (pin_failures t))) workflows) (\<lambda>fs.
     Inr (if concat fs \<noteq> [] then 1 else 0))"

section \<open>Jobs\<close>

definition is_job_char :: "char \<Rightarrow> bool" where
  "is_job_char c \<longleftrightarrow> is_name_char c \<or> c = CHR ''-''"

definition jobs_mark :: string where
  "jobs_mark = newline # ''jobs:'' @ [newline]"

definition job_header :: "string \<Rightarrow> string" where
  "job_header job_id = ''  '' @ job_id @ '':'' @ [newline]"

text \<open>The lookahead: a header of any job begins here.\<close>

definition at_header :: "string \<Rightarrow> bool" where
  "at_header s \<longleftrightarrow>
     (let t = drop 2 s; name = takeWhile is_job_char t
      in py_startswith s ''  '' \<and> name \<noteq> [] \<and> py_startswith (dropWhile is_job_char t) ('':'' @ [newline]))"

text \<open>The text after \<open>key\<close>, where it first begins a line.\<close>

fun after_line_start :: "bool \<Rightarrow> string \<Rightarrow> string \<Rightarrow> string option" where
  "after_line_start bol key [] = (if bol \<and> key = [] then Some [] else None)"
| "after_line_start bol key (c # s) =
     (if bol \<and> py_startswith (c # s) key then Some (drop (length key) (c # s))
      else after_line_start (c = newline) key s)"

text \<open>The shortest text up to the next header or the end.\<close>

fun until_header :: "bool \<Rightarrow> string \<Rightarrow> string" where
  "until_header bol [] = []"
| "until_header bol (c # s) = (if bol \<and> at_header (c # s) then [] else c # until_header (c = newline) s)"

fun find_text :: "string \<Rightarrow> string \<Rightarrow> string option" where
  "find_text mark [] = (if mark = [] then Some [] else None)"
| "find_text mark (c # s) = (if py_startswith (c # s) mark then Some (c # s) else find_text mark s)"

definition job_block :: "string \<Rightarrow> string \<Rightarrow> string" where
  "job_block workflow job_id =
     (case find_text jobs_mark workflow of
        None \<Rightarrow> []
      | Some text_from \<Rightarrow>
          (case after_line_start True (job_header job_id) text_from of
             None \<Rightarrow> []
           | Some block \<Rightarrow> until_header True block))"

section \<open>Policy\<close>

text \<open>The names, tokens and gates that the workflows must contain.\<close>

definition CI_JOB_NAMES :: "(string \<times> string) list" where
  \<open>CI_JOB_NAMES =
     [(''static'', ''Static and package checks''),
      (''contract'', ''${{ matrix.profile }} / Python ${{ matrix.python }} / Daft ${{ matrix.daft }} / Ray ${{ matrix.ray }} / PyArrow ${{ matrix.pyarrow }}''),
      (''clickhouse-it'', ''ClickHouse 25.3.2.39 IT''),
      (''doris-it'', ''Doris 4.0.6 IT'')]\<close>

definition CONTRACT_MATRIX :: "string list list" where
  \<open>CONTRACT_MATRIX =
     [[''minimum-pyarrow'', ''3.12'', ''0.7.23'', ''16.1.0'', ''2.55.1'', ''ray==2.55.1''],
      [''tributo'', ''3.12'', ''0.7.23'', ''19.0.1'', ''2.55.1'', ''ray[default,serve,tune]==2.55.1''],
      [''tributo'', ''3.13'', ''0.7.23'', ''19.0.1'', ''2.55.1'', ''ray[default,serve,tune]==2.55.1''],
      [''upper-pyarrow'', ''3.13'', ''0.7.23'', ''24.0.0'', ''2.55.1'', ''ray==2.55.1'']]\<close>

definition CANDIDATE_CHECKOUT :: string where
  \<open>CANDIDATE_CHECKOUT = ''ref: ${{ needs.candidate.outputs.sha }}''\<close>

definition TAG_REVALIDATION :: string where
  \<open>TAG_REVALIDATION = ''scripts/verify_release_tag.py''\<close>

definition ARTIFACT_REVALIDATION :: string where
  \<open>ARTIFACT_REVALIDATION = ''scripts/verify_release_artifacts.py release/packages''\<close>

definition ARTIFACT_ID_DOWNLOAD :: string where
  \<open>ARTIFACT_ID_DOWNLOAD = ''artifact-ids: ${{ needs.build.outputs.distributions_artifact_id }}''\<close>

definition ARTIFACT_ID_OUTPUT :: string where
  \<open>ARTIFACT_ID_OUTPUT = ''distributions_artifact_id: ${{ steps.upload-distributions.outputs.artifact-id }}''\<close>

definition ARTIFACT_DIGEST_OUTPUT :: string where
  \<open>ARTIFACT_DIGEST_OUTPUT = ''distributions_artifact_digest: ${{ steps.upload-distributions.outputs.artifact-digest }}''\<close>

definition PUBLISH_GATES :: "string list" where
  \<open>PUBLISH_GATES =
     [(''github.event_name == 'push'' @ [CHR 0x27]),
      ''startsWith(github.ref, 'refs/tags/v')'',
      (''needs.candidate.result == 'success'' @ [CHR 0x27]),
      (''needs.gates.result == 'success'' @ [CHR 0x27]),
      (''needs.build.result == 'success'' @ [CHR 0x27]),
      (''needs.install-smoke.result == 'success'' @ [CHR 0x27]),
      (''needs.candidate.outputs.mode == 'tag'' @ [CHR 0x27])]\<close>

text \<open>\<open>workflow.count(p)\<close>: occurrences that do not overlap.\<close>

function (sequential) str_count :: "string \<Rightarrow> string \<Rightarrow> nat" where
  "str_count p [] = 0"
| "str_count p (c # s) =
     (if p \<noteq> [] \<and> py_startswith (c # s) p then Suc (str_count p (drop (length p) (c # s))) else str_count p s)"
  by pat_completeness auto
termination
  by (relation "measure (\<lambda>(p, s). length s)") (auto simp: neq_Nil_conv)

text \<open>
  \<open>_CONTRACT_MATRIX_ENTRY\<close>: an entry begins a line with its profile; five quoted values follow,
  each after its key, and the last ends its line. \<open>findall\<close> goes on after an entry.
\<close>

definition drop_literal :: "string \<Rightarrow> string \<Rightarrow> string option" where
  "drop_literal p s = (if py_startswith s p then Some (drop (length p) s) else None)"

definition value_keys :: "string list" where
  "value_keys = [''python'', ''daft'', ''pyarrow'', ''ray'', ''ray_requirement'']"

definition value_intro :: "string \<Rightarrow> string" where
  "value_intro key = newline # ''            '' @ key @ '': '' @ [CHR 0x22]"

definition not_quote :: "char \<Rightarrow> bool" where
  "not_quote c \<longleftrightarrow> c \<noteq> CHR 0x22"

fun read_values :: "string list \<Rightarrow> string \<Rightarrow> (string list \<times> string) option" where
  "read_values [] s = (if s = [] \<or> hd s = newline then Some ([], s) else None)"
| "read_values (k # ks) s =
     Option.bind (drop_literal (value_intro k) s) (\<lambda>t.
     let v = takeWhile not_quote t
     in if v = [] then None
        else Option.bind (drop_literal [CHR 0x22] (dropWhile not_quote t)) (\<lambda>u.
             map_option (\<lambda>(vs, rest). (v # vs, rest)) (read_values ks u)))"

definition read_entry :: "string \<Rightarrow> (string list \<times> string) option" where
  "read_entry s =
     Option.bind (drop_literal ''          - profile: '' s) (\<lambda>t.
     let profile = takeWhile (\<lambda>c. c \<noteq> newline) t
     in if profile = [] then None
        else map_option (\<lambda>(vs, rest). (profile # vs, rest)) (read_values value_keys (dropWhile (\<lambda>c. c \<noteq> newline) t)))"

lemma drop_literal_length: "drop_literal p s = Some t \<Longrightarrow> length t + length p = length s"
  by (auto simp: drop_literal_def py_startswith_def split: if_splits)
     (metis length_take min.absorb_iff2 min.commute le_add_diff_inverse2)

lemma read_values_length: "read_values ks s = Some (vs, rest) \<Longrightarrow> length rest \<le> length s"
proof (induction ks s arbitrary: vs rest rule: read_values.induct)
  case (2 k ks s)
  then obtain t u where d: "drop_literal (value_intro k) s = Some t" "drop_literal [CHR 0x22] (dropWhile not_quote t) = Some u"
    and "length rest \<le> length u"
    by (auto simp: bind_eq_Some_conv Let_def split: if_splits)
  then show ?case
    using drop_literal_length [OF d(1)] drop_literal_length [OF d(2)] length_dropWhile_le [of not_quote t] by simp
qed (auto split: if_splits)

lemma read_entry_length: "read_entry s = Some (e, rest) \<Longrightarrow> length rest < length s"
proof -
  assume "read_entry s = Some (e, rest)"
  then obtain t vs where "drop_literal ''          - profile: '' s = Some t"
    and "read_values value_keys (dropWhile (\<lambda>c. c \<noteq> newline) t) = Some (vs, rest)"
    by (auto simp: read_entry_def bind_eq_Some_conv Let_def split: if_splits)
  then show ?thesis
    using drop_literal_length [of "''          - profile: ''" s t] read_values_length [of value_keys _ vs rest]
      length_dropWhile_le [of "\<lambda>c. c \<noteq> newline" t] by fastforce
qed

function (sequential) matrix_entries :: "bool \<Rightarrow> string \<Rightarrow> string list list" where
  "matrix_entries bol [] = []"
| "matrix_entries bol (c # s) =
     (case (if bol then read_entry (c # s) else None) of
        Some (e, rest) \<Rightarrow> e # matrix_entries False rest
      | None \<Rightarrow> matrix_entries (c = newline) s)"
  by pat_completeness auto
termination
  by (relation "measure (\<lambda>(bol, s). length s)") (auto dest!: read_entry_length split: if_splits)

text \<open>A check is a condition and the message of its failure.\<close>

type_synonym check = "bool \<times> string"

definition ci_job_checks :: "string \<Rightarrow> check list" where
  \<open>ci_job_checks ci =
     concat (map (\<lambda>(job_id, name).
       [(job_block ci job_id \<noteq> [], ''CI is missing the '' @ job_id @ '' job''),
        (py_contains (job_block ci job_id) (''name: '' @ name), ''CI changed the required check name for '' @ job_id)])
       CI_JOB_NAMES)\<close>

definition ci_checks :: "string \<Rightarrow> check list" where
  \<open>ci_checks ci =
     map (\<lambda>trigger. (py_contains ci trigger, ''CI is missing the '' @ trigger @ '' trigger''))
       [''pull_request:'', ''push:'', ''workflow_call:'']
     @ ci_job_checks ci
     @ [(job_block ci ''dco'' = [] \<and> \<not> py_contains ci ''check_dco.py'', ''CI must not add a repository DCO gate absent from Daft''),
        (matrix_entries True (job_block ci ''contract'') = CONTRACT_MATRIX,
           ''CI changed the four supported contract matrix entries''),
        (0 < str_count ''uses: actions/checkout@'' ci, ''CI has no checkout steps''),
        (str_count ''ref: ${{ inputs.candidate_sha || github.sha }}'' ci = str_count ''uses: actions/checkout@'' ci,
           ''every CI checkout must select the optional immutable candidate SHA'')]\<close>

definition trigger_checks :: "string \<Rightarrow> check list" where
  \<open>trigger_checks release =
     map (\<lambda>trigger. (py_contains release trigger, ''release is missing '' @ trigger))
       [''tags: ["v*"]'', ''workflow_dispatch:'', ''candidate_sha:'', ''expected_version:'']
     @ [(py_contains release ''group: release-${{ github.event_name == 'push' && github.ref || inputs.candidate_sha }}'',
           ''release attempts for the same tag must share one concurrency group'')]
     @ map (\<lambda>job_id. (job_block release job_id \<noteq> [], ''release is missing the '' @ job_id @ '' job''))
         [''candidate'', ''gates'', ''build'', ''install-smoke'', ''publish'', ''github-release'']\<close>

definition CANDIDATE_TOKENS :: "string list" where
  \<open>CANDIDATE_TOKENS =
     [''fetch-depth: 0'', ''ref: master'', ''refs/heads/master:refs/remotes/origin/master'',
      ''scripts/validate_release_candidate.py'', ''--master-ref origin/master'', ''github.event.after'',
      ''github.event.created'', ''github.event.deleted'', ''github.event.forced'', ''--event-sha "${EVENT_SHA}"'',
      ''--event-created "${EVENT_CREATED}"'', ''--event-deleted "${EVENT_DELETED}"'', ''--event-forced "${EVENT_FORCED}"'']\<close>

definition build_checks :: "string \<Rightarrow> check list" where
  \<open>build_checks release =
     (let candidate = job_block release ''candidate''; gates = job_block release ''gates'';
          build = job_block release ''build''; install = job_block release ''install-smoke''
      in map (\<lambda>token. (py_contains candidate token, ''candidate validation is missing '' @ token)) CANDIDATE_TOKENS
         @ [(py_contains gates ''uses: ./.github/workflows/ci.yml''
               \<and> py_contains gates ''candidate_sha: ${{ needs.candidate.outputs.sha }}'',
             ''release gates must call CI with the validated candidate SHA''),
            (str_count ''uv run python -m build --outdir release-artifacts/packages'' release = 1,
             ''release must build distributions exactly once''),
            (py_contains build CANDIDATE_CHECKOUT, ''build must checkout the candidate SHA''),
            (py_contains install CANDIDATE_CHECKOUT, ''install smoke must checkout the candidate SHA''),
            (py_contains install ''needs: [candidate, gates, build]'',
             ''install smoke must explicitly depend on candidate gates and build''),
            (py_contains build ''scripts/verify_release_artifacts.py release-artifacts/packages''
               \<and> py_contains build ''--manifest release-artifacts/SHA256SUMS'' \<and> py_contains build ''--prepare'',
             ''build must prepare and verify the distribution manifest''),
            (py_contains build ARTIFACT_ID_OUTPUT \<and> py_contains build ARTIFACT_DIGEST_OUTPUT
               \<and> py_contains build ''GITHUB_STEP_SUMMARY'',
             ''build must expose and record the immutable distribution artifact identity''),
            (py_contains install ''scripts/verify_release_artifacts.py'',
             ''install smoke must verify downloaded distribution identity and hashes''),
            (list_all (py_contains install) [''base'', ''clickhouse'', ''doris'', ''doris-flight'', ''ray''],
             ''install profiles missing'')])\<close>

text \<open>The checks on each of the two jobs that write outside the repository.\<close>

definition external_write_checks :: "string \<Rightarrow> string \<Rightarrow> check list" where
  \<open>external_write_checks release job_id =
     (let block = job_block release job_id
      in map (\<lambda>gate. (py_contains block gate, job_id @ '' is missing fail-closed condition '' @ gate)) PUBLISH_GATES
         @ [(py_contains block CANDIDATE_CHECKOUT, job_id @ '' must checkout the immutable candidate SHA''),
            (py_contains block TAG_REVALIDATION, job_id @ '' must revalidate the live remote tag''),
            (py_contains block ARTIFACT_REVALIDATION \<and> py_contains block ''--name daft-olap-connectors''
               \<and> py_contains block ''--version "${{ needs.candidate.outputs.version }}"''
               \<and> py_contains block ''--manifest release/SHA256SUMS'',
             job_id @ '' must revalidate distribution identity and manifest''),
            (py_contains block ARTIFACT_ID_DOWNLOAD \<and> py_contains block ''merge-multiple: true'',
             job_id @ '' must download the exact distribution artifact ID'')])\<close>

definition permission_checks :: "string \<Rightarrow> check list" where
  \<open>permission_checks release =
     (let install = job_block release ''install-smoke''; publish = job_block release ''publish'';
          github_release = job_block release ''github-release''
      in [(py_contains install ARTIFACT_ID_DOWNLOAD \<and> py_contains install ''merge-multiple: true'',
           ''install smoke must download the exact distribution artifact ID''),
          (py_contains publish ''packages-dir: release/packages/'',
           ''PyPI publish must exclude SHA256SUMS from the packages directory''),
          (py_contains publish ''needs: [candidate, gates, build, install-smoke]'', ''publish must depend on every read-only gate''),
          (py_contains publish ''id-token: write'' \<and> py_contains publish ''contents: read''
             \<and> \<not> py_contains publish ''contents: write'',
           ''publish must have only OIDC write and contents read permissions''),
          (py_contains github_release ''needs: [candidate, gates, build, install-smoke, publish]'',
           ''GitHub Release must depend on successful publishing''),
          (py_contains github_release (''needs.publish.result == 'success'' @ [CHR 0x27]),
           ''GitHub Release must fail closed unless PyPI publish succeeded''),
          (py_contains github_release ''contents: write'' \<and> \<not> py_contains github_release ''id-token: write'',
           ''GitHub Release must have only contents write permission'')])\<close>

definition release_policy_failures :: "string \<Rightarrow> string \<Rightarrow> string list" where
  "release_policy_failures ci release =
     map snd (filter (\<lambda>c. \<not> fst c)
       (ci_checks ci @ trigger_checks release @ build_checks release
        @ external_write_checks release ''publish'' @ external_write_checks release ''github-release''
        @ permission_checks release))"

definition main_policy :: "store \<Rightarrow> path \<Rightarrow> path \<Rightarrow> nat result" where
  "main_policy st ci release =
     r_bind (read_text st ci) (\<lambda>c. r_bind (read_text st release) (\<lambda>r.
     Inr (if release_policy_failures c r \<noteq> [] then 1 else 0)))"

lemma policy_failure:
  assumes "list_ex (\<lambda>c. \<not> fst c) (external_write_checks release job)" and "job = ''publish'' \<or> job = ''github-release''"
  shows "release_policy_failures ci release \<noteq> []"
proof -
  have "list_ex (\<lambda>c. \<not> fst c) (external_write_checks release ''publish'' @ external_write_checks release ''github-release'')"
    using assms by (elim disjE) (simp_all only: list_ex_append simp_thms)
  then show ?thesis
    unfolding release_policy_failures_def map_is_Nil_conv filter_empty_conv list_ex_iff set_append by blast
qed

lemma external_write_missing:
  assumes "gate \<in> set (PUBLISH_GATES @ [CANDIDATE_CHECKOUT, TAG_REVALIDATION, ARTIFACT_REVALIDATION, ARTIFACT_ID_DOWNLOAD])"
    and "\<not> py_contains (job_block release job) gate"
  shows "list_ex (\<lambda>c. \<not> fst c) (external_write_checks release job)"
proof (cases "gate \<in> set PUBLISH_GATES")
  case True
  then have "list_ex (\<lambda>c. \<not> fst c)
      (map (\<lambda>gate. (py_contains (job_block release job) gate, job @ '' is missing fail-closed condition '' @ gate)) PUBLISH_GATES)"
    using assms(2) unfolding list_ex_iff set_map by (intro bexI [OF _ imageI]) simp_all
  then show ?thesis unfolding external_write_checks_def Let_def list_ex_append by (rule disjI1)
next
  case False
  then have "gate = CANDIDATE_CHECKOUT \<or> gate = TAG_REVALIDATION \<or> gate = ARTIFACT_REVALIDATION \<or> gate = ARTIFACT_ID_DOWNLOAD"
    using assms(1) by (simp only: set_append list.set Un_iff insert_iff empty_iff simp_thms)
  then show ?thesis
    using assms(2) unfolding external_write_checks_def Let_def
    by (elim disjE) (simp_all only: list_ex_append list_ex_Cons_iff list_ex_Nil_iff fst_conv simp_thms)
qed

section \<open>Blocks\<close>

text \<open>A workflow as it is written: the jobs after the mark, each a header and the lines of its body.\<close>

definition body_line :: "string \<Rightarrow> bool" where
  "body_line l \<longleftrightarrow> newline \<notin> set l \<and> \<not> at_header (l @ [newline])"

definition render_body :: "string list \<Rightarrow> string" where
  "render_body ls = concat (map (\<lambda>l. l @ [newline]) ls)"

definition render_jobs :: "(string \<times> string list) list \<Rightarrow> string" where
  "render_jobs jobs = concat (map (\<lambda>(job_id, ls). job_header job_id @ render_body ls) jobs)"

definition job_name :: "string \<Rightarrow> bool" where
  "job_name n \<longleftrightarrow> n \<noteq> [] \<and> list_all is_job_char n"

lemma first_split_unique:
  "c \<notin> set a \<Longrightarrow> c \<notin> set a' \<Longrightarrow> a @ c # b = a' @ c # b' \<longleftrightarrow> a = a' \<and> b = b'"
proof (induction a arbitrary: a')
  case Nil
  then show ?case by (cases a') auto
next
  case (Cons x a)
  then show ?case by (cases a') auto
qed

lemma job_name_no_newline: "job_name n \<Longrightarrow> newline \<notin> set n"
  by (auto simp: job_name_def list_all_iff is_job_char_def char_class_defs)

lemma startswith_iff: "py_startswith s p \<longleftrightarrow> (\<exists>r. s = p @ r)"
  by (metis append_eq_conv_conj append_take_drop_id py_startswith_def)

text \<open>A line is a header exactly when it is two blanks, a name and a colon.\<close>

lemma at_header_iff:
  assumes "newline \<notin> set l"
  shows "at_header (l @ newline # s) \<longleftrightarrow> (\<exists>n. job_name n \<and> l = ''  '' @ n @ '':'')"
proof
  assume h: "at_header (l @ newline # s)"
  then obtain t where t: "l @ newline # s = ''  '' @ t" by (auto simp: at_header_def Let_def startswith_iff)
  let ?n = "takeWhile is_job_char t"
  from h t obtain r where n: "?n \<noteq> []" and r: "dropWhile is_job_char t = '':'' @ newline # r"
    by (auto simp: at_header_def Let_def startswith_iff)
  have name: "job_name ?n" using n by (auto simp: job_name_def list_all_iff dest: set_takeWhileD)
  have "t = ?n @ '':'' @ newline # r" using takeWhile_dropWhile_id [of is_job_char t] r by metis
  then have "l @ newline # s = (''  '' @ ?n @ '':'') @ newline # r" using t by simp
  then have "l = ''  '' @ ?n @ '':''"
    using first_split_unique [OF assms, of "''  '' @ ?n @ '':''" s r] job_name_no_newline [OF name] by auto
  with name show "\<exists>n. job_name n \<and> l = ''  '' @ n @ '':''" by blast
next
  assume "\<exists>n. job_name n \<and> l = ''  '' @ n @ '':''"
  then obtain n where n: "job_name n" "l = ''  '' @ n @ '':''" by blast
  have stop: "\<not> is_job_char (CHR '':'')" by (simp add: is_job_char_def char_class_defs)
  have "takeWhile is_job_char (n @ CHR '':'' # newline # s) = n" "dropWhile is_job_char (n @ CHR '':'' # newline # s) = CHR '':'' # newline # s"
    using n(1) stop by (auto simp: job_name_def list_all_iff takeWhile_append2 dropWhile_append2)
  then show "at_header (l @ newline # s)"
    using n by (simp add: at_header_def Let_def py_startswith_def job_name_def)
qed

lemma header_line_iff:
  assumes "newline \<notin> set l" and "newline \<notin> set n"
  shows "py_startswith (l @ newline # s) (job_header n) \<longleftrightarrow> l = ''  '' @ n @ '':''"
  using first_split_unique [OF assms(1), of "''  '' @ n @ '':''"] assms(2)
  by (auto simp: startswith_iff job_header_def)

lemma after_line_rest:
  "newline \<notin> set l \<Longrightarrow> after_line_start False key (l @ newline # s) = after_line_start True key s"
  by (induction l) auto

lemma after_line_skip:
  assumes "newline \<notin> set l" and "\<not> py_startswith (l @ newline # s) key"
  shows "after_line_start True key (l @ newline # s) = after_line_start True key s"
  using assms by (cases l) (auto simp: after_line_rest)

lemma after_line_found:
  assumes "newline \<notin> set n"
  shows "after_line_start True (job_header n) (job_header n @ s) = Some s"
  by (simp add: job_header_def py_startswith_def)

lemma until_header_rest: "newline \<notin> set l \<Longrightarrow> until_header False (l @ newline # s) = l @ newline # until_header True s"
  by (induction l) auto

lemma until_header_line:
  assumes "newline \<notin> set l" and "\<not> at_header (l @ newline # s)"
  shows "until_header True (l @ newline # s) = l @ newline # until_header True s"
  using assms by (cases l) (auto simp: until_header_rest)

lemma until_header_stop: "at_header s \<Longrightarrow> until_header True s = []"
  by (cases s) (auto simp: at_header_def py_startswith_def)

lemma body_line_iff: "body_line l \<longleftrightarrow> newline \<notin> set l \<and> (\<nexists>n. job_name n \<and> l = ''  '' @ n @ '':'')"
  using at_header_iff [of l "[]"] by (auto simp: body_line_def)

lemma job_header_line: "job_header n @ s = (''  '' @ n @ '':'') @ newline # s"
  by (simp add: job_header_def)

lemma until_header_jobs:
  assumes "list_all body_line ls" and "list_all (\<lambda>(n, _). job_name n) jobs"
  shows "until_header True (render_body ls @ render_jobs jobs) = render_body ls"
  using assms(1)
proof (induction ls)
  case Nil
  show ?case
  proof (cases jobs)
    case (Cons j js)
    then obtain n b where j: "jobs = (n, b) # js" "job_name n" using assms(2) by (cases j) auto
    then have "at_header (render_jobs jobs)"
      using at_header_iff [of "''  '' @ n @ '':''" "render_body b @ render_jobs js"] job_name_no_newline [OF j(2)]
      by (simp add: render_jobs_def job_header_def)
    then show ?thesis by (simp add: until_header_stop render_body_def)
  qed (simp add: render_jobs_def render_body_def)
next
  case (Cons l ls)
  have "\<not> at_header (l @ newline # render_body ls @ render_jobs jobs)"
    using Cons.prems at_header_iff [of l "render_body ls @ render_jobs jobs"] by (auto simp: body_line_iff)
  then have "until_header True (l @ newline # render_body ls @ render_jobs jobs)
      = l @ newline # until_header True (render_body ls @ render_jobs jobs)"
    using Cons.prems by (intro until_header_line) (auto simp: body_line_iff)
  then show ?case using Cons by (simp add: render_body_def)
qed

lemma after_line_body:
  assumes "list_all body_line ls" and "job_name n"
  shows "after_line_start True (job_header n) (render_body ls @ s) = after_line_start True (job_header n) s"
  using assms(1)
proof (induction ls)
  case (Cons l ls)
  have "\<not> py_startswith (l @ newline # render_body ls @ s) (job_header n)"
    using Cons.prems header_line_iff [of l n] job_name_no_newline [OF assms(2)] assms(2) by (auto simp: body_line_iff)
  then have "after_line_start True (job_header n) (l @ newline # render_body ls @ s)
      = after_line_start True (job_header n) (render_body ls @ s)"
    using Cons.prems by (intro after_line_skip) (auto simp: body_line_iff)
  then show ?case using Cons by (simp add: render_body_def)
qed (simp add: render_body_def)

lemma after_line_jobs:
  assumes "list_all (\<lambda>(m, ls). job_name m \<and> list_all body_line ls) before" and "n \<notin> fst ` set before" and "job_name n"
  shows "after_line_start True (job_header n) (render_jobs (before @ (n, ls) # rest)) = Some (render_body ls @ render_jobs rest)"
  using assms(1,2)
proof (induction before)
  case Nil
  then show ?case
    using after_line_found [OF job_name_no_newline [OF assms(3)], of "render_body ls @ render_jobs rest"] by (simp add: render_jobs_def)
next
  case (Cons j before)
  obtain m b where j: "j = (m, b)" by (cases j)
  let ?s = "render_body b @ render_jobs (before @ (n, ls) # rest)"
  have nn: "newline \<notin> set m" "newline \<notin> set n" using Cons.prems j assms(3) job_name_no_newline by auto
  have "\<not> py_startswith ((''  '' @ m @ '':'') @ newline # ?s) (job_header n)"
    using Cons.prems j header_line_iff [of "''  '' @ m @ '':''" n ?s] nn by auto
  then have "after_line_start True (job_header n) ((''  '' @ m @ '':'') @ newline # ?s) = after_line_start True (job_header n) ?s"
    using nn by (intro after_line_skip) auto
  also have "\<dots> = after_line_start True (job_header n) (render_jobs (before @ (n, ls) # rest))"
    using Cons.prems j by (intro after_line_body assms(3)) auto
  also have "\<dots> = Some (render_body ls @ render_jobs rest)" using Cons by auto
  finally show ?case using j by (simp add: render_jobs_def job_header_def)
qed

text \<open>The block of a job is its body, wherever the job stands and whatever the other jobs hold.\<close>

lemma job_block_body:
  assumes "find_text jobs_mark (head @ jobs_mark @ render_jobs jobs) = Some (jobs_mark @ render_jobs jobs)"
    and "list_all (\<lambda>(m, ls). job_name m \<and> list_all body_line ls) jobs" and "distinct (map fst jobs)" and "(n, ls) \<in> set jobs"
  shows "job_block (head @ jobs_mark @ render_jobs jobs) n = render_body ls"
proof -
  from assms(4) obtain before rest where j: "jobs = before @ (n, ls) # rest" by (metis split_list)
  have n: "job_name n" "list_all body_line ls" "n \<notin> fst ` set before" using assms(2,3) j by auto
  have mark: "jobs_mark @ render_jobs jobs = [] @ newline # (''jobs:'' @ newline # render_jobs jobs)" by (simp add: jobs_mark_def)
  have "after_line_start True (job_header n) (jobs_mark @ render_jobs jobs) = after_line_start True (job_header n) (''jobs:'' @ newline # render_jobs jobs)"
    unfolding mark by (rule after_line_skip) (simp_all add: job_header_def py_startswith_def)
  also have "\<dots> = after_line_start True (job_header n) (render_jobs jobs)"
    by (rule after_line_skip) (simp_all add: job_header_def py_startswith_def)
  also have "\<dots> = Some (render_body ls @ render_jobs rest)"
    using assms(2) j n by (simp add: after_line_jobs)
  finally have "after_line_start True (job_header n) (jobs_mark @ render_jobs jobs) = Some (render_body ls @ render_jobs rest)" .
  moreover have "until_header True (render_body ls @ render_jobs rest) = render_body ls"
    using assms(2) j n(2) by (intro until_header_jobs) (auto simp: list_all_iff)
  ultimately show ?thesis using assms(1) by (simp add: job_block_def)
qed

end
