(* ===== verification/Service_Wait.thy ===== *)
theory Service_Wait
  imports Py_Files
begin

text \<open>
  \<^verbatim>\<open>scripts/wait_for_service.py\<close>: the probes of the two services and the loop that polls them.
  The clock, the pause, the sockets and \<open>float(text)\<close> are parameters; the loop is a \<open>partial_function\<close>,
  so that polling forever is the value \<open>None\<close>.
\<close>

section \<open>Backends\<close>

text \<open>A cell of a result row is the text \<open>str\<close> gives for it. \<open>py_float\<close> is \<open>float(text)\<close>, or a \<open>ValueError\<close>.\<close>

definition is_positive_capacity :: "(string \<Rightarrow> pyfloat option) \<Rightarrow> string \<Rightarrow> bool" where
  "is_positive_capacity py_float v =
     (let word = takeWhile (\<lambda>c. \<not> py_isspace c) (py_lstrip v)
      in if word = [] then False
         else case py_float word of Some (FFin q _) \<Rightarrow> 0 < q | _ \<Rightarrow> False)"

fun index_of_name :: "string list \<Rightarrow> string \<Rightarrow> nat option" where
  "index_of_name [] n = None"
| "index_of_name (x # xs) n = (if x = n then Some 0 else map_option Suc (index_of_name xs n))"

definition backend_ready :: "(string \<Rightarrow> pyfloat option) \<Rightarrow> nat \<Rightarrow> nat \<Rightarrow> nat \<Rightarrow> string list \<Rightarrow> bool" where
  "backend_ready py_float alive_index available_index total_index row =
     (if length row \<le> max alive_index (max available_index total_index) then False
      else py_casefold (row ! alive_index) = ''true''
           \<and> is_positive_capacity py_float (row ! available_index) \<and> is_positive_capacity py_float (row ! total_index))"

definition doris_backends_ready :: "(string \<Rightarrow> pyfloat option) \<Rightarrow> string list \<Rightarrow> string list list \<Rightarrow> bool" where
  "doris_backends_ready py_float description rows =
     (case (index_of_name description ''Alive'', index_of_name description ''AvailCapacity'', index_of_name description ''TotalCapacity'') of
        (Some i, Some j, Some k) \<Rightarrow> rows \<noteq> [] \<and> list_all (backend_ready py_float i j k) rows
      | _ \<Rightarrow> False)"

section \<open>Probes\<close>

text \<open>\<open>bytes.strip\<close> removes ASCII white space.\<close>

definition bytes_space :: "char \<Rightarrow> bool" where
  "bytes_space c \<longleftrightarrow> (9 \<le> code c \<and> code c \<le> 13) \<or> code c = 32"

definition bytes_strip :: "string \<Rightarrow> string" where
  "bytes_strip b = rev (dropWhile bytes_space (rev (dropWhile bytes_space b)))"

text \<open>\<open>urlopen\<close> with its URL and the value of the authorization header: a status and what \<open>read\<close> gives.\<close>

definition clickhouse_ready :: "(string \<times> string) list \<Rightarrow> (string \<Rightarrow> string \<Rightarrow> (int \<times> string result) result) \<Rightarrow> bool result" where
  "clickhouse_ready environ urlopen =
     r_bind (py_int (environ_get environ ''CLICKHOUSE_HTTP_PORT'' ''28123'')) (\<lambda>port.
     let password = environ_get environ ''CLICKHOUSE_PASSWORD'' ''daft-olap-test'';
         token = b64encode (utf8_encode (''connector:'' @ password))
     in r_bind (urlopen (''http://127.0.0.1:'' @ int_str port @ ''/?query=SELECT%201'') (''Basic '' @ token)) (\<lambda>(status, body).
        if status = 200 then r_bind body (\<lambda>b. Inr (bytes_strip b = ''1'')) else Inr False))"

record backends_driver =
  bd_connect :: "(string \<times> pyobj) list \<Rightarrow> unit result"
  bd_cursor :: "unit result"
  bd_execute :: "string \<Rightarrow> unit result"
  bd_description :: "string list"
  bd_fetchall :: "string list list result"
  bd_cursor_close :: "unit result"
  bd_close :: "unit result"

definition doris_probe_kwargs :: "int \<Rightarrow> string \<Rightarrow> (string \<times> pyobj) list" where
  "doris_probe_kwargs port password =
     [(''host'', PStr ''127.0.0.1''), (''port'', PInt port), (''user'', PStr ''root''), (''password'', PStr password),
      (''connect_timeout'', PInt 2), (''read_timeout'', PInt 2), (''write_timeout'', PInt 2), (''autocommit'', PBool True)]"

definition doris_ready ::
    "(string \<Rightarrow> pyfloat option) \<Rightarrow> (string \<times> string) list \<Rightarrow> backends_driver \<Rightarrow> bool result" where
  "doris_ready py_float environ d =
     r_bind (py_int (environ_get environ ''DORIS_MYSQL_PORT'' ''29030'')) (\<lambda>port.
     r_bind (bd_connect d (doris_probe_kwargs port (environ_get environ ''DORIS_PASSWORD'' []))) (\<lambda>_.
     and_finally
       (r_bind (bd_cursor d) (\<lambda>_.
        and_finally
          (r_bind (bd_execute d ''SHOW BACKENDS'') (\<lambda>_.
           r_bind (bd_fetchall d) (\<lambda>rows. Inr (doris_backends_ready py_float (bd_description d) rows))))
          (bd_cursor_close d)))
       (bd_close d)))"

section \<open>Polling\<close>

text \<open>
  The machine the loop runs on, in state-passing style: \<open>time.monotonic\<close>, the probe and \<open>time.sleep\<close>,
  which a signal handler can make raise. Readings of the clock are exact numbers.
\<close>

record 'w machine =
  pm_monotonic :: "'w \<Rightarrow> rat \<times> 'w"
  pm_probe :: "'w \<Rightarrow> bool result \<times> 'w"
  pm_sleep :: "rat \<Rightarrow> 'w \<Rightarrow> unit result \<times> 'w"

text \<open>
  The sum of a reading and the time-out, a float that \<open>argparse\<close> may have read as infinite (\<open>FInf True\<close> is
  negative) or as not a number; and \<open><\<close> with it on the right.
\<close>

datatype deadline = At rat | Never | Past

definition deadline_after :: "rat \<Rightarrow> pyfloat \<Rightarrow> deadline" where
  "deadline_after start timeout_seconds =
     (case timeout_seconds of FFin q _ \<Rightarrow> At (start + q) | FInf negative \<Rightarrow> if negative then Past else Never | FNaN \<Rightarrow> Past)"

definition before :: "rat \<Rightarrow> deadline \<Rightarrow> bool" where
  "before now d = (case d of At q \<Rightarrow> now < q | Never \<Rightarrow> True | Past \<Rightarrow> False)"

text \<open>\<open>except Exception\<close> around the probe: what is left of its outcome when it did not succeed.\<close>

definition except_exception :: "bool result \<Rightarrow> unit result" where
  "except_exception outcome = (case outcome of Inl e \<Rightarrow> if is_exception e then Inr () else Inl e | Inr _ \<Rightarrow> Inr ())"

text \<open>The result is the number of the probe that succeeded, or the exception raised.\<close>

partial_function (option) wait_loop ::
    "'w machine \<Rightarrow> deadline \<Rightarrow> nat \<Rightarrow> 'w \<Rightarrow> (nat result \<times> 'w) option" where
  [code]: "wait_loop m d attempt w =
     (let (now, w1) = pm_monotonic m w in
      if before now d then
        let (outcome, w2) = pm_probe m w1 in
        if outcome = Inr True then Some (Inr (Suc attempt), w2)
        else case except_exception outcome of
          Inl e \<Rightarrow> Some (Inl e, w2)
        | Inr _ \<Rightarrow>
            let (paused, w3) = pm_sleep m 2 w2 in
            case paused of Inl x \<Rightarrow> Some (Inl x, w3) | Inr _ \<Rightarrow> wait_loop m d (Suc attempt) w3
      else Some (Inl TimeoutError, w1))"

definition wait_until_ready :: "'w machine \<Rightarrow> pyfloat \<Rightarrow> 'w \<Rightarrow> (nat result \<times> 'w) option" where
  "wait_until_ready m timeout_seconds w =
     (let (start, w1) = pm_monotonic m w in wait_loop m (deadline_after start timeout_seconds) 0 w1)"

text \<open>\<open>main\<close>: the exit code; a time-out is 1.\<close>

definition main_wait :: "'w machine \<Rightarrow> pyfloat \<Rightarrow> 'w \<Rightarrow> (int result \<times> 'w) option" where
  "main_wait m timeout_seconds w =
     map_option (\<lambda>(r, w1). (case r of Inr n \<Rightarrow> Inr 0 | Inl e \<Rightarrow> if e = TimeoutError then Inr 1 else Inl e, w1))
       (wait_until_ready m timeout_seconds w)"

section \<open>Rounds\<close>

text \<open>
  The specification counts rounds: a reading of the clock, a probe and a pause of two seconds. \<open>time\<close> is
  the time in a state; the clock never goes back, a probe takes no negative time, and a pause that
  returns has lasted at least as long as was asked: what the documentation of \<open>time\<close> promises.
\<close>

definition keeps_time :: "'w machine \<Rightarrow> ('w \<Rightarrow> rat) \<Rightarrow> bool" where
  "keeps_time m time \<longleftrightarrow>
     (\<forall>w. time w \<le> fst (pm_monotonic m w) \<and> fst (pm_monotonic m w) \<le> time (snd (pm_monotonic m w)))
     \<and> (\<forall>w. time w \<le> time (snd (pm_probe m w)))
     \<and> (\<forall>s w. fst (pm_sleep m s w) = Inr () \<longrightarrow> time w + s \<le> time (snd (pm_sleep m s w)))"

fun round_start :: "'w machine \<Rightarrow> 'w \<Rightarrow> nat \<Rightarrow> 'w" where
  "round_start m w 0 = w"
| "round_start m w (Suc k) = snd (pm_sleep m 2 (snd (pm_probe m (snd (pm_monotonic m (round_start m w k))))))"

definition reading :: "'w machine \<Rightarrow> 'w \<Rightarrow> rat" where
  "reading m w = fst (pm_monotonic m w)"

definition probed :: "'w machine \<Rightarrow> 'w \<Rightarrow> bool result" where
  "probed m w = fst (pm_probe m (snd (pm_monotonic m w)))"

definition slept :: "'w machine \<Rightarrow> 'w \<Rightarrow> unit result" where
  "slept m w = fst (pm_sleep m 2 (snd (pm_probe m (snd (pm_monotonic m w)))))"

definition probe_failed :: "bool result \<Rightarrow> bool" where
  "probe_failed r \<longleftrightarrow> r = Inr False \<or> (\<exists>e. r = Inl e \<and> is_exception e)"

definition round_fails :: "'w machine \<Rightarrow> deadline \<Rightarrow> 'w \<Rightarrow> bool" where
  "round_fails m d w \<longleftrightarrow> before (reading m w) d \<and> probe_failed (probed m w) \<and> slept m w = Inr ()"

text \<open>Round \<open>n\<close> ends the wait: with a probe that succeeds, the time-out, or an exception that is not caught.\<close>

definition round_ends :: "'w machine \<Rightarrow> deadline \<Rightarrow> 'w \<Rightarrow> nat \<Rightarrow> nat result \<Rightarrow> bool" where
  "round_ends m d w n r \<longleftrightarrow>
     before (reading m w) d \<and> probed m w = Inr True \<and> r = Inr (Suc n)
     \<or> \<not> before (reading m w) d \<and> r = Inl TimeoutError
     \<or> before (reading m w) d \<and> (\<exists>e. r = Inl e \<and> (probed m w = Inl e \<and> \<not> is_exception e
          \<or> probe_failed (probed m w) \<and> slept m w = Inl e))"

definition wait_outcome :: "'w machine \<Rightarrow> deadline \<Rightarrow> 'w \<Rightarrow> nat \<Rightarrow> nat result \<Rightarrow> bool" where
  "wait_outcome m d w n r \<longleftrightarrow>
     (\<forall>k < n. round_fails m d (round_start m w k)) \<and> round_ends m d (round_start m w n) n r"

lemma round_cases:
  obtains (fails) "round_fails m d w" | (ends) r where "round_ends m d w n r"
proof (cases "before (reading m w) d")
  case True
  then consider "probed m w = Inr True" | e where "probed m w = Inl e" "\<not> is_exception e" | "probe_failed (probed m w)"
    by (cases "probed m w") (auto simp: probe_failed_def)
  then show thesis
  proof cases
    case 3
    then show thesis using True fails ends by (cases "slept m w") (auto simp: round_fails_def round_ends_def)
  qed (use True ends in \<open>auto simp: round_ends_def\<close>)
next
  case False
  then show thesis using ends by (auto simp: round_ends_def)
qed

lemma wait_loop_fails:
  assumes "round_fails m d w"
  shows "wait_loop m d n w = wait_loop m d (Suc n) (round_start m w 1)"
  using assms by (subst wait_loop.simps)
    (auto simp: round_fails_def probe_failed_def reading_def probed_def slept_def except_exception_def split_beta Let_def)

lemma wait_loop_ends:
  assumes "round_ends m d w n r"
  shows "\<exists>w'. wait_loop m d n w = Some (r, w')"
  using assms by (subst wait_loop.simps)
    (auto simp: round_ends_def probe_failed_def reading_def probed_def slept_def except_exception_def split_beta Let_def)

lemma wait_loop_rounds:
  assumes "\<forall>k < n. round_fails m d (round_start m w k)"
  shows "wait_loop m d 0 w = wait_loop m d n (round_start m w n)"
  using assms
proof (induction n)
  case (Suc n)
  then show ?case using wait_loop_fails [of m d "round_start m w n" n] by simp
qed simp

lemma wait_outcome_returns:
  assumes "wait_outcome m d w n r"
  shows "\<exists>w'. wait_loop m d 0 w = Some (r, w')"
  using assms wait_loop_rounds [of n m d w] wait_loop_ends [of m d "round_start m w n" n r] by (auto simp: wait_outcome_def)

section \<open>The wait ends\<close>

lemma round_lasts:
  assumes "keeps_time m time" and "round_fails m d w"
  shows "reading m w + 2 \<le> time (round_start m w 1)"
proof -
  let ?read = "snd (pm_monotonic m w)"
  have "reading m w \<le> time ?read" using assms(1) by (simp add: keeps_time_def reading_def)
  also have "\<dots> \<le> time (snd (pm_probe m ?read))" using assms(1) by (simp add: keeps_time_def)
  finally have "reading m w + 2 \<le> time (snd (pm_probe m ?read)) + 2" by simp
  also have "\<dots> \<le> time (round_start m w 1)"
    using assms by (simp add: keeps_time_def round_fails_def slept_def)
  finally show ?thesis .
qed

lemma reading_after: "keeps_time m time \<Longrightarrow> time w \<le> reading m w"
  by (simp add: keeps_time_def reading_def)

lemma rounds_pace:
  assumes "keeps_time m time" and "\<forall>k < n. round_fails m d (round_start m w k)"
  shows "\<forall>k < n. reading m (round_start m w k) + 2 \<le> reading m (round_start m w (Suc k))"
  using assms round_lasts [OF assms(1)] reading_after [OF assms(1)] by (fastforce intro: order_trans)

lemma rounds_elapsed:
  assumes "keeps_time m time" and "\<forall>k < n. round_fails m d (round_start m w k)"
  shows "time w + 2 * of_nat n \<le> reading m (round_start m w n)"
  using assms(2)
proof (induction n)
  case 0
  then show ?case using reading_after [OF assms(1), of w] by simp
next
  case (Suc n)
  then have "time w + 2 * of_nat n + 2 \<le> reading m (round_start m w n) + 2" by simp
  also have "\<dots> \<le> reading m (round_start m w (Suc n))" using rounds_pace [OF assms(1) Suc.prems] by simp
  finally show ?case by (simp add: algebra_simps)
qed

text \<open>The number of rounds a time-out leaves room for; \<open>None\<close> for an infinite one.\<close>

definition rounds_allowed :: "pyfloat \<Rightarrow> nat option" where
  "rounds_allowed t = (case t of FFin q _ \<Rightarrow> Some (nat \<lceil>q / 2\<rceil>) | FInf negative \<Rightarrow> if negative then Some 0 else None | FNaN \<Rightarrow> Some 0)"

lemma rounds_bounded:
  assumes "keeps_time m time" and "start \<le> time w" and "rounds_allowed t = Some limit"
    and "\<forall>k < n. round_fails m (deadline_after start t) (round_start m w k)"
    and "before (reading m (round_start m w n)) (deadline_after start t)"
  shows "n < limit"
proof -
  from assms(3,5) obtain q where q: "limit = nat \<lceil>q / 2\<rceil>" "reading m (round_start m w n) < start + q"
    by (auto simp: rounds_allowed_def deadline_after_def before_def split: pyfloat.splits if_splits)
  have "2 * of_nat n < q" using rounds_elapsed [OF assms(1,4)] assms(2) q(2) by linarith
  then have "of_int (int n) < q / 2" by simp
  then show ?thesis using q(1) by linarith
qed

lemma wait_has_outcome:
  assumes "keeps_time m time" and "start \<le> time w" and "rounds_allowed t = Some limit"
  shows "\<exists>n \<le> limit. \<exists>r. wait_outcome m (deadline_after start t) w n r"
proof -
  let ?fails = "\<lambda>k. round_fails m (deadline_after start t) (round_start m w k)"
  have "\<exists>k \<le> limit. \<not> ?fails k"
  proof (rule ccontr)
    assume a: "\<not> (\<exists>k \<le> limit. \<not> ?fails k)"
    then have "before (reading m (round_start m w limit)) (deadline_after start t)" by (simp add: round_fails_def)
    then show False using rounds_bounded [OF assms, of limit] a by simp
  qed
  then obtain k where k: "k \<le> limit" "\<not> ?fails k" by blast
  define n where "n = (LEAST k. \<not> ?fails k)"
  have "\<not> ?fails n" "n \<le> limit" "\<forall>j < n. ?fails j"
    using k LeastI [of "\<lambda>k. \<not> ?fails k" k] Least_le [of "\<lambda>k. \<not> ?fails k" k] not_less_Least unfolding n_def by fastforce+
  then show ?thesis using round_cases [of m "deadline_after start t" "round_start m w n"] unfolding wait_outcome_def by metis
qed

text \<open>With an infinite time-out, and rounds that all fail, the loop does not end.\<close>

lemma wait_forever:
  assumes "\<And>k. round_fails m Never (round_start m w k)"
  shows "wait_loop m Never n w = None"
proof -
  have never: "m' = m \<longrightarrow> d = Never \<longrightarrow> (\<forall>j. v \<noteq> round_start m w j)" if "wait_loop m' d n v = Some r" for m' d n v r
    using that
  proof (rule wait_loop.raw_induct [of "\<lambda>m' d n v r. m' = m \<longrightarrow> d = Never \<longrightarrow> (\<forall>j. v \<noteq> round_start m w j)", rotated], goal_cases)
    case (1 loop m' d n v r)
    show ?case
    proof (intro impI allI notI)
      fix j
      assume eq: "m' = m" "d = Never" "v = round_start m w j"
      obtain now v1 outcome v2 paused v3 where v: "pm_monotonic m v = (now, v1)" "pm_probe m v1 = (outcome, v2)"
        "pm_sleep m 2 v2 = (paused, v3)" by (metis surj_pair)
      then have "except_exception outcome = Inr ()" "outcome \<noteq> Inr True" "paused = Inr ()"
        using assms [of j] eq(3) [symmetric]
        by (auto simp: round_fails_def probed_def slept_def probe_failed_def except_exception_def)
      then have "loop m Never (Suc n) v3 = Some r" using 1(2) v eq(1,2) by (auto simp: before_def)
      moreover have "v3 = round_start m w (Suc j)" using v eq(3) [symmetric] by simp
      ultimately show False using 1(1) [of m Never "Suc n" v3 r] by blast
    qed
  qed
  show ?thesis
  proof (rule ccontr)
    assume "wait_loop m Never n w \<noteq> None"
    then obtain r where "wait_loop m Never n w = Some r" by blast
    then show False using never [of m Never n w r] round_start.simps(1) [of m w] by metis
  qed
qed

section \<open>Capacity\<close>

lemma doris_backends_ready_iff:
  "doris_backends_ready py_float description rows \<longleftrightarrow>
     rows \<noteq> [] \<and> (\<exists>i j k. index_of_name description ''Alive'' = Some i \<and> index_of_name description ''AvailCapacity'' = Some j
       \<and> index_of_name description ''TotalCapacity'' = Some k \<and> (\<forall>row \<in> set rows. backend_ready py_float i j k row))"
  by (auto simp: doris_backends_ready_def list_all_iff split: option.splits)

end
