(* ===== verification/Tooling.thy ===== *)
theory Tooling
  imports Py_Files
begin

text \<open>
  The small scripts: \<^verbatim>\<open>check_install_profile.py\<close>, \<^verbatim>\<open>check_license_headers.py\<close> and
  \<^verbatim>\<open>init_doris.py\<close>. The import system and the MySQL driver are parameters.
\<close>

section \<open>Installation profiles\<close>

definition ALWAYS_REQUIRED :: "string list" where
  "ALWAYS_REQUIRED = [''daft'', ''daft_olap'']"

definition OPTIONAL_MODULES :: "string list" where
  "OPTIONAL_MODULES =
     [''adbc_driver_flightsql'', ''adbc_driver_manager'', ''clickhouse_connect'', ''pymysql'', ''ray'']"

definition PROFILE_MODULES :: "(string \<times> string list) list" where
  "PROFILE_MODULES =
     [(''base'', []), (''clickhouse'', [''clickhouse_connect'']), (''doris'', [''pymysql'']),
      (''doris-flight'', [''adbc_driver_flightsql'', ''adbc_driver_manager'', ''pymysql'']), (''ray'', [''ray''])]"

text \<open>The installed version, which modules \<open>find_spec\<close> finds, and what importing one does.\<close>

record installation =
  in_version :: "string option"
  in_available :: "string \<Rightarrow> bool"
  in_import :: "string \<Rightarrow> unit result"

definition required_modules :: "string list \<Rightarrow> string list" where
  "required_modules profile_modules = sort (remdups (ALWAYS_REQUIRED @ profile_modules))"

definition forbidden_modules :: "string list \<Rightarrow> string list" where
  "forbidden_modules profile_modules = filter (\<lambda>m. m \<notin> set profile_modules) OPTIONAL_MODULES"

definition verify_install_profile :: "installation \<Rightarrow> string \<Rightarrow> string \<Rightarrow> unit result" where
  "verify_install_profile inst profile expected_version =
     (case in_version inst of
        None \<Rightarrow> Inl InstallProfileError
      | Some installed_version \<Rightarrow>
          if installed_version \<noteq> expected_version then Inl InstallProfileError
          else case map_of PROFILE_MODULES profile of
            None \<Rightarrow> Inl InstallProfileError
          | Some profile_modules \<Rightarrow>
              if list_ex (\<lambda>m. \<not> in_available inst m) (required_modules profile_modules) then Inl InstallProfileError
              else if list_ex (in_available inst) (forbidden_modules profile_modules) then Inl InstallProfileError
              else r_all (in_import inst) (required_modules profile_modules))"

definition main_install_profile :: "installation \<Rightarrow> string \<Rightarrow> string \<Rightarrow> unit result" where
  "main_install_profile inst profile expected_version =
     r_catch (verify_install_profile inst profile expected_version) (\<lambda>e. e = InstallProfileError) (\<lambda>_. Inl SystemExit)"

lemma profile_modules_optional: "map_of PROFILE_MODULES profile = Some ms \<Longrightarrow> set ms \<subseteq> set OPTIONAL_MODULES"
  by (auto simp: PROFILE_MODULES_def OPTIONAL_MODULES_def split: if_splits)

text \<open>
  A profile is accepted exactly when the version is the candidate's, the optional modules that are
  installed are those of the profile, the required ones are installed and all of them import.
\<close>

lemma verify_install_profile_Inr_iff:
  "verify_install_profile inst profile v = Inr () \<longleftrightarrow>
     in_version inst = Some v
     \<and> (\<exists>ms. map_of PROFILE_MODULES profile = Some ms
          \<and> (\<forall>m \<in> set OPTIONAL_MODULES. in_available inst m \<longleftrightarrow> m \<in> set ms)
          \<and> (\<forall>m \<in> set ALWAYS_REQUIRED. in_available inst m)
          \<and> (\<forall>m \<in> set ALWAYS_REQUIRED \<union> set ms. in_import inst m = Inr ()))"
proof (cases "in_version inst = Some v \<and> map_of PROFILE_MODULES profile \<noteq> None")
  case True
  then obtain ms where ms: "map_of PROFILE_MODULES profile = Some ms" by blast
  have "verify_install_profile inst profile v = Inr () \<longleftrightarrow>
      (\<forall>m \<in> set ALWAYS_REQUIRED \<union> set ms. in_available inst m)
      \<and> (\<forall>m \<in> set OPTIONAL_MODULES - set ms. \<not> in_available inst m)
      \<and> (\<forall>m \<in> set ALWAYS_REQUIRED \<union> set ms. in_import inst m = Inr ())"
    using True ms by (auto simp: verify_install_profile_def r_all_Inr_iff required_modules_def forbidden_modules_def list_ex_iff)
  then show ?thesis using True ms profile_modules_optional [OF ms] by auto
qed (auto simp: verify_install_profile_def split: option.splits if_splits)

section \<open>License headers\<close>

definition SUFFIXES :: "string list" where
  "SUFFIXES = [''.conf'', ''.py'', ''.sh'', ''.sql'', ''.toml'', ''.yaml'', ''.yml'']"

definition SPECIAL_NAMES :: "string list" where
  "SPECIAL_NAMES = [''Dockerfile'']"

definition EXCLUDED_PARTS :: "string list" where
  "EXCLUDED_PARTS =
     [''.artifacts'', ''.git'', ''.mypy_cache'', ''.pytest_cache'', ''.ruff_cache'', ''.venv'', ''build'', ''dist'', ''site'']"

definition REQUIRED_TEXT :: "string list" where
  "REQUIRED_TEXT =
     [''Licensed under the Apache License, Version 2.0'', ''http://www.apache.org/licenses/LICENSE-2.0'']"

text \<open>\<open>PurePath.suffix\<close>: from the last dot, when it neither begins nor ends the name.\<close>

definition path_suffix :: "string \<Rightarrow> string" where
  "path_suffix name =
     (let r = takeWhile (\<lambda>c. c \<noteq> CHR ''.'') (rev name)
      in if r = [] \<or> length name \<le> Suc (length r) then [] else CHR ''.'' # rev r)"

definition is_file :: "store \<Rightarrow> path \<Rightarrow> bool" where
  "is_file st p = (case map_of st p of Some (Regular _) \<Rightarrow> True | Some (SymbolicLink (Some _)) \<Rightarrow> True | _ \<Rightarrow> False)"

definition covered_name :: "string \<Rightarrow> bool" where
  "covered_name name \<longleftrightarrow>
     path_suffix name \<in> set SUFFIXES \<or> name \<in> set SPECIAL_NAMES \<or> py_endswith name ''.Dockerfile''"

text \<open>\<open>candidates\<close>, over the absolute paths below \<open>dir\<close>; \<open>parts\<close> are all components of a path.\<close>

definition license_candidates :: "store \<Rightarrow> path \<Rightarrow> path list" where
  "license_candidates st dir =
     sort (filter (\<lambda>p. take (length dir) p = dir \<and> length dir < length p
             \<and> is_file st p \<and> set EXCLUDED_PARTS \<inter> set p = {} \<and> path_name p \<noteq> ''uv.lock'' \<and> covered_name (path_name p))
       (map fst st))"

definition has_header :: "string \<Rightarrow> bool" where
  "has_header t \<longleftrightarrow> list_all (py_contains (py_join [newline] (take 16 (py_splitlines t)))) REQUIRED_TEXT"

text \<open>The exit code of \<open>main\<close>: 1 when a candidate lacks the header.\<close>

definition main_license_headers :: "store \<Rightarrow> path \<Rightarrow> nat result" where
  "main_license_headers st dir =
     r_bind (r_map (\<lambda>p. r_bind (read_text st p) (\<lambda>t. Inr (has_header t))) (license_candidates st dir)) (\<lambda>oks.
     Inr (if list_all id oks then 0 else 1))"

lemma license_headers_checked:
  assumes "main_license_headers st dir = Inr 0" and "p \<in> set (license_candidates st dir)"
  shows "\<exists>t. read_text st p = Inr t \<and> has_header t"
proof -
  from assms(1) obtain oks where r: "r_map (\<lambda>p. r_bind (read_text st p) (\<lambda>t. Inr (has_header t))) (license_candidates st dir) = Inr oks"
    and ok: "list_all id oks" by (auto simp: main_license_headers_def r_bind_Inr_iff split: if_splits)
  from r have "list_all2 (\<lambda>p ok. r_bind (read_text st p) (\<lambda>t. Inr (has_header t)) = Inr ok) (license_candidates st dir) oks"
    by (simp add: r_map_Inr_iff)
  then have len: "length oks = length (license_candidates st dir)"
    and nth: "\<And>i. i < length oks \<Longrightarrow>
      r_bind (read_text st (license_candidates st dir ! i)) (\<lambda>t. Inr (has_header t)) = Inr (oks ! i)"
    by (auto simp: list_all2_conv_all_nth)
  obtain i where i: "i < length oks" "license_candidates st dir ! i = p"
    using assms(2) len by (auto simp: in_set_conv_nth)
  have "oks ! i" using ok i(1) by (simp add: list_all_length)
  then show ?thesis using nth [OF i(1)] i(2) by (cases "read_text st p") auto
qed

text \<open>
  The excluded names are looked for in the whole absolute path, so in a checkout below a folder
  with one of these names nothing is checked.
\<close>

lemma license_check_vacuous:
  assumes "x \<in> set EXCLUDED_PARTS" and "x \<in> set dir"
  shows "main_license_headers st dir = Inr 0"
proof -
  have "x \<in> set p" if "take (length dir) p = dir" for p
    using that assms(2) by (metis in_set_takeD)
  then have "\<not> (take (length dir) p = dir \<and> set EXCLUDED_PARTS \<inter> set p = {})" for p
    using assms(1) by blast
  then have "filter (\<lambda>p. take (length dir) p = dir \<and> length dir < length p
             \<and> is_file st p \<and> set EXCLUDED_PARTS \<inter> set p = {} \<and> path_name p \<noteq> ''uv.lock'' \<and> covered_name (path_name p))
       (map fst st) = []"
    by (subst filter_empty_conv) blast
  then have "license_candidates st dir = []" by (simp only: license_candidates_def sort_key_simps)
  then show ?thesis by (simp add: main_license_headers_def)
qed

section \<open>Fixture statements\<close>

definition statements :: "string \<Rightarrow> string list" where
  "statements sql = map py_strip (filter (\<lambda>s. py_strip s \<noteq> []) (py_split (CHR '';'') sql))"

record fixture_driver =
  fd_connect :: "(string \<times> pyobj) list \<Rightarrow> unit result"
  fd_cursor :: "unit result"
  fd_execute :: "string \<Rightarrow> unit result"
  fd_cursor_close :: "unit result"
  fd_close :: "unit result"

definition fixture_kwargs :: "int \<Rightarrow> string \<Rightarrow> (string \<times> pyobj) list" where
  "fixture_kwargs port password =
     [(''host'', PStr ''127.0.0.1''), (''port'', PInt port), (''user'', PStr ''root''), (''password'', PStr password),
      (''autocommit'', PBool True), (''connect_timeout'', PInt 10), (''read_timeout'', PInt 120), (''write_timeout'', PInt 120)]"

definition main_init_doris :: "store \<Rightarrow> path \<Rightarrow> (string \<times> string) list \<Rightarrow> fixture_driver \<Rightarrow> unit result" where
  "main_init_doris st dir environ d =
     r_bind (read_text st (dir @ [''docker'', ''doris'', ''init.sql''])) (\<lambda>sql.
     r_bind (py_int (environ_get environ ''DORIS_MYSQL_PORT'' ''29030'')) (\<lambda>port.
     r_bind (fd_connect d (fixture_kwargs port (environ_get environ ''DORIS_PASSWORD'' []))) (\<lambda>_.
     and_finally
       (r_bind (fd_cursor d) (\<lambda>_. and_finally (r_all (fd_execute d) (statements sql)) (fd_cursor_close d)))
       (fd_close d))))"

text \<open>The fixture is complete exactly when every statement of the file was executed and both closed.\<close>

lemma main_init_doris_Inr_iff:
  "main_init_doris st dir environ d = Inr () \<longleftrightarrow>
     (\<exists>sql port. read_text st (dir @ [''docker'', ''doris'', ''init.sql'']) = Inr sql
        \<and> py_int (environ_get environ ''DORIS_MYSQL_PORT'' ''29030'') = Inr port
        \<and> fd_connect d (fixture_kwargs port (environ_get environ ''DORIS_PASSWORD'' [])) = Inr ()
        \<and> fd_cursor d = Inr () \<and> (\<forall>s \<in> set (statements sql). fd_execute d s = Inr ())
        \<and> fd_cursor_close d = Inr () \<and> fd_close d = Inr ())"
  by (auto simp: main_init_doris_def r_bind_Inr_iff r_all_Inr_iff)

lemma statements_nonempty: "s \<in> set (statements sql) \<Longrightarrow> s \<noteq> [] \<and> stripped s"
  by (auto simp: statements_def stripped_py_strip)

end
