(* ===== verification/Release_Properties.thy ===== *)
theory Release_Properties
  imports Release_Artifacts Release_Candidate Release_Workflow Service_Wait Tooling
begin

text \<open>
  The properties of the release and test scripts, each followed by an application at a concrete
  release where it has hypotheses.
\<close>

section \<open>Distributions\<close>

text \<open>C35. A release is verified exactly when the directory holds one wheel and one source distribution,
  both regular files with the expected name and version, and the lines of the manifest are, in some
  order, the digest of each of the two with its file name, and nothing else.\<close>

theorem release_artifacts_exact:
  "verify_release_artifacts tools st dir name version manifest = Inr () \<longleftrightarrow>
     (\<exists>w s bw bs t.
        glob_suffix st dir ''.whl'' = [w] \<and> glob_suffix st dir ''.tar.gz'' = [s]
        \<and> map_of st w = Some (Regular bw) \<and> map_of st s = Some (Regular bs)
        \<and> wheel_identity tools st w = Inr \<lparr>di_name = name, di_version = version\<rparr>
        \<and> sdist_identity tools st s = Inr \<lparr>di_name = name, di_version = version\<rparr>
        \<and> read_text st (manifest_path dir manifest) = Inr t
        \<and> mset (map manifest_line (py_splitlines t))
            = {#Some (at_sha256 tools bw, path_name w), Some (at_sha256 tools bs, path_name s)#})"
  unfolding verify_release_artifacts_Inr_iff release_pair_def by auto

text \<open>C34. Preparing a release writes a manifest that verification accepts, changes no other file, and cannot
  fail once the manifest is written: for a digest of 64 hexadecimal digits, file names without a slash
  or a line break, and a manifest that is not itself a distribution.\<close>

theorem prepared_release_verifies:
  assumes "sha256_tools tools" and "verify_distribution_metadata tools st dir name version = Inr [w, s]"
    and "printable_name w" and "printable_name s"
    and "write_manifest tools st dir [w, s] manifest = Inr st'"
    and "q = manifest_path dir manifest"
    and "\<not> (q \<noteq> [] \<and> butlast q = dir \<and> (py_endswith (last q) ''.whl'' \<or> py_endswith (last q) ''.tar.gz''))"
  shows "prepare_release_artifacts tools st dir name version manifest = Inr st'
    \<and> verify_release_artifacts tools st' dir name version manifest = Inr ()
    \<and> (\<forall>p. p \<noteq> q \<longrightarrow> map_of st' p = map_of st p)"
proof -
  have "release_pair tools st dir name version w s"
    using assms(2) by (auto simp: verify_distribution_metadata_Inr_iff)
  from prepared_artifacts_verify [OF assms(1) this assms(3-7)] show ?thesis .
qed

text \<open>Two distributions; a digest that depends on the content.\<close>

definition sample_tools :: archive_tools where
  "sample_tools =
     \<lparr>at_sha256 = (\<lambda>b. replicate 63 (CHR ''0'') @ (if b = ''wheel'' then ''1'' else ''2'')),
      at_zip = (\<lambda>b. if b = ''wheel'' then Inr [(''p/__init__.py'', []), (''p-1.2.dist-info/METADATA'', ''meta'')] else Inl ArchiveError),
      at_tar = (\<lambda>b. if b = ''sdist'' then Inr [\<lparr>tm_name = ''p-1.2/PKG-INFO'', tm_is_file = True, tm_content = Some ''meta''\<rparr>,
          \<lparr>tm_name = ''p-1.2/p.egg-info/PKG-INFO'', tm_is_file = True, tm_content = Some ''other''\<rparr>] else Inl ArchiveError),
      at_header = (\<lambda>m k. if m = ''meta'' then (if k = ''Name'' then Some ''p'' else if k = ''Version'' then Some ''1.2'' else None) else None)\<rparr>"

definition sample_store :: store where
  "sample_store = [([''out''], Folder), ([''out'', ''packages''], Folder),
     ([''out'', ''packages'', ''p.whl''], Regular ''wheel''), ([''out'', ''packages'', ''p.tar.gz''], Regular ''sdist'')]"

lemma sample_sha256_tools: "sha256_tools sample_tools"
  by (simp add: sha256_tools_def sample_tools_def is_sha256_def is_hex_char_def is_ascii_digit_def list_all_iff)

lemma sample_distributions:
  "verify_distribution_metadata sample_tools sample_store [''out'', ''packages''] ''p'' ''1.2''
     = Inr [[''out'', ''packages'', ''p.whl''], [''out'', ''packages'', ''p.tar.gz'']]"
  by code_simp

definition sample_written :: "store result" where
  "sample_written = write_manifest sample_tools sample_store [''out'', ''packages'']
     [[''out'', ''packages'', ''p.whl''], [''out'', ''packages'', ''p.tar.gz'']] (Some [''out'', ''SHA256SUMS''])"

lemma sample_manifest_written: "\<not> isl sample_written"
  by code_simp

lemma sample_names: "printable_name [''out'', ''packages'', ''p.whl'']" "printable_name [''out'', ''packages'', ''p.tar.gz'']"
  by code_simp+

theorem prepared_release_verifies_witness:
  "\<exists>st'. prepare_release_artifacts sample_tools sample_store [''out'', ''packages''] ''p'' ''1.2'' (Some [''out'', ''SHA256SUMS'']) = Inr st'
    \<and> verify_release_artifacts sample_tools st' [''out'', ''packages''] ''p'' ''1.2'' (Some [''out'', ''SHA256SUMS'']) = Inr ()"
proof -
  obtain st' where st': "sample_written = Inr st'" using sum.collapse(2) [OF sample_manifest_written] by metis
  show ?thesis
    using prepared_release_verifies [OF sample_sha256_tools sample_distributions sample_names st' [unfolded sample_written_def] refl]
    by (auto simp: manifest_path_def)
qed

section \<open>Candidates\<close>

text \<open>C36. With a git that does what its documentation says over some history, a candidate is accepted exactly
  when the history supports it: for a tag, the tag was newly created by an unforced push, the pushed
  name and the tag both peel to the candidate's commit and the tag's name is \<open>v\<close> and the version; for a
  dry run, the request is the commit's own full name. The commit is reachable from the master commit by
  following parents (not the other way round), and the project file in that commit's tree, wherever the
  working tree stands, states the version. The result carries these values and no others. What the
  TOML decoder makes of the file's text is a parameter.\<close>

theorem release_candidate_exact:
  assumes "runs_git g h" and "gr_installed g"
  shows "validate_candidate toml_version g r = Inr c \<longleftrightarrow>
     rc_mode c = cr_mode r \<and> rc_tag c = cr_tag r
     \<and> hy_commit h (cr_master_ref r) = Some (rc_master_sha c) \<and> full_sha (rc_master_sha c) \<and> full_sha (rc_sha c)
     \<and> requested_commit h r (rc_sha c) (rc_version c)
     \<and> (rc_sha c, rc_master_sha c) \<in> {(parent, child). parent \<in> set (hy_parents h child)}\<^sup>*
     \<and> (\<exists>source. hy_file h (rc_sha c) ''pyproject.toml'' = Some source
          \<and> toml_version (py_strip source) = Inr (PStr (rc_version c)))
     \<and> plain_version (rc_version c)"
  using validate_candidate_history [OF assms]
  by (simp add: supported_candidate_def states_version_def ancestor_def)

text \<open>The lines that the workflow reads are the five assignments of the accepted candidate, in order:
  no value, not even the tag's name or the version in the project file, can end a line and add or
  replace an assignment.\<close>

theorem candidate_outputs_read_back:
  assumes "main_candidate toml_version g r [] = Inr written"
  shows "\<exists>c. validate_candidate toml_version g r = Inr c
    \<and> py_split newline written =
        [''mode='' @ rc_mode c, ''sha='' @ rc_sha c, ''version='' @ rc_version c, ''tag='' @ rc_tag c,
         ''master_sha='' @ rc_master_sha c, []]"
proof -
  from assms obtain c where "validate_candidate toml_version g r = Inr c" "written = write_github_outputs c []"
    by (auto simp: main_candidate_def r_bind_Inr_iff r_catch_Inr_iff)
  with outputs_read_back show ?thesis by blast
qed

definition sample_commit :: string where
  "sample_commit = replicate 40 (CHR ''b'')"

definition sample_master :: string where
  "sample_master = replicate 40 (CHR ''a'')"

text \<open>A repository with two commits, a tag at the first and the project file of version 1.2.\<close>

definition sample_git :: git_repository where
  "sample_git =
     \<lparr>gr_installed = True,
      gr_run = (\<lambda>a.
        if a = commit_of ''origin/master'' \<or> a = commit_of sample_master then Inr (0, sample_master @ [newline])
        else if a = commit_of sample_commit \<or> a = commit_of ''refs/tags/v1.2'' then Inr (0, sample_commit @ [newline])
        else if a = [''merge-base'', ''--is-ancestor'', sample_master, sample_commit] then Inr (1, [])
        else if take 2 a = [''merge-base'', ''--is-ancestor''] then Inr (0, [])
        else if a = [''show'', sample_commit @ '':pyproject.toml''] then Inr (0, ''project'')
        else if a = [''ls-remote'', ''origin'', ''refs/tags/v1.2'', ''refs/tags/v1.2^{}''] then
          Inr (0, replicate 40 (CHR ''c'') @ [CHR 0x09] @ ''refs/tags/v1.2'' @ [newline]
                  @ sample_commit @ [CHR 0x09] @ ''refs/tags/v1.2^{}'' @ [newline])
        else Inr (128, []))\<rparr>"

definition sample_toml :: "string \<Rightarrow> pyobj result" where
  "sample_toml source = (if source = ''project'' then Inr (PStr ''1.2'') else Inl KeyError)"

definition sample_request :: candidate_request where
  "sample_request =
     \<lparr>cr_mode = ''tag'', cr_candidate_ref = ''refs/tags/v1.2'', cr_expected_version = [], cr_tag = ''v1.2'',
      cr_master_ref = ''origin/master'', cr_event_sha = sample_commit, cr_event_created = True, cr_event_deleted = False,
      cr_event_forced = False\<rparr>"

definition sample_candidate :: release_candidate where
  "sample_candidate = \<lparr>rc_mode = ''tag'', rc_sha = sample_commit, rc_version = ''1.2'', rc_tag = ''v1.2'',
     rc_master_sha = replicate 40 (CHR ''a'')\<rparr>"

lemma sample_candidate_valid: "validate_candidate sample_toml sample_git sample_request = Inr sample_candidate"
  by code_simp

lemma sample_candidate_written:
  "main_candidate sample_toml sample_git sample_request [] = Inr (write_github_outputs sample_candidate [])"
  by (simp add: main_candidate_def sample_candidate_valid)

definition sample_history :: history where
  "sample_history =
     \<lparr>hy_commit = (\<lambda>name.
        if name = ''origin/master'' \<or> name = sample_master then Some sample_master
        else if name = sample_commit \<or> name = ''refs/tags/v1.2'' then Some sample_commit else None),
      hy_parents = (\<lambda>sha. if sha = sample_master then [sample_commit] else []),
      hy_file = (\<lambda>sha p. if sha = sample_commit \<and> p = ''pyproject.toml'' then Some ''project'' else None)\<rparr>"

lemma sample_commits: "list_all is_hex_char sample_commit" "list_all is_hex_char sample_master"
  by code_simp+

lemma sample_revisions:
  "sample_commit \<noteq> sample_master" "sample_commit \<noteq> ''origin/master''" "sample_commit \<noteq> ''refs/tags/v1.2''"
  "sample_master \<noteq> ''origin/master''" "sample_master \<noteq> ''refs/tags/v1.2''"
  by code_simp+

lemmas sample_distinct = sample_revisions sample_revisions [symmetric]

lemma sample_named: "hy_commit sample_history name = Some name \<longleftrightarrow> name = sample_commit \<or> name = sample_master"
  using sample_distinct by (auto simp: sample_history_def)

lemma sample_ancestor: "ancestor sample_history a b \<longleftrightarrow> a = b \<or> a = sample_commit \<and> b = sample_master"
proof -
  let ?r = "{(p, c). p \<in> set (hy_parents sample_history c)}"
  have r: "?r = {(sample_commit, sample_master)}" by (auto simp: sample_history_def split: if_splits)
  have "trancl ?r = ?r" unfolding r using sample_revisions(1) by (intro trancl_id) (auto simp: trans_def)
  then show ?thesis unfolding ancestor_def r by (auto simp: rtrancl_eq_or_trancl r)
qed

lemma sample_show:
  assumes "sha = sample_commit \<or> sha = sample_master"
  shows "sha @ '':'' @ p = sample_commit @ '':pyproject.toml'' \<longleftrightarrow> sha = sample_commit \<and> p = ''pyproject.toml''"
proof -
  have "length sha = length sample_commit" using assms by (auto simp: sample_commit_def sample_master_def)
  then show ?thesis by auto
qed

lemma sample_runs_git: "runs_git sample_git sample_history"
  unfolding runs_git_def
proof (intro conjI allI impI, goal_cases)
  case (1 revision sha)
  then show ?case using sample_commits by (auto simp: sample_history_def split: if_splits)
next
  case (2 revision sha)
  then have "sha = sample_commit \<or> sha = sample_master" by (auto simp: sample_history_def split: if_splits)
  then show ?case by (simp add: sample_named)
next
  case (3 revision)
  show ?case by (auto simp: sample_history_def sample_git_def commit_of_def failed_command_def)
next
  case (4 a b)
  then have "(a = sample_commit \<or> a = sample_master) \<and> (b = sample_commit \<or> b = sample_master)"
    by (simp add: sample_named)
  then show ?case unfolding sample_ancestor
    by (elim conjE disjE) (simp_all add: sample_git_def commit_of_def sample_distinct)
next
  case (5 sha p)
  then have s: "sha = sample_commit \<or> sha = sample_master" by (simp add: sample_named)
  then show ?case using sample_show [OF s, of p]
    by (auto simp: sample_history_def sample_git_def commit_of_def failed_command_def)
qed

theorem release_candidate_exact_witness:
  "requested_commit sample_history sample_request sample_commit ''1.2''
   \<and> (sample_commit, sample_master) \<in> {(parent, child). parent \<in> set (hy_parents sample_history child)}\<^sup>*"
  using iffD1 [OF release_candidate_exact [OF sample_runs_git, of sample_toml sample_request sample_candidate]]
    sample_candidate_valid by (simp add: sample_candidate_def sample_git_def sample_master_def)

theorem candidate_outputs_read_back_witness:
  "py_split newline (write_github_outputs sample_candidate []) =
     [''mode=tag'', ''sha='' @ sample_commit, ''version=1.2'', ''tag=v1.2'', ''master_sha='' @ replicate 40 (CHR ''a''), []]"
  using candidate_outputs_read_back [OF sample_candidate_written] sample_candidate_valid
  by (auto simp: sample_candidate_def)

text \<open>C37. For an accepted tag candidate, the tag check before publishing passes exactly when the remote lists
  the tag, and perhaps its peeled commit, once each and nothing else, and the commit this names is the
  candidate's: a tag that was moved, deleted or listed twice is refused.\<close>

theorem tag_gate_exact:
  assumes "validate_candidate toml_version g r = Inr c" and "cr_mode r = ''tag''"
  shows "verify_remote_tag g' remote (rc_tag c) (rc_sha c) = Inr () \<longleftrightarrow>
    (\<exists>ids. remote_lines g' remote (rc_tag c) = Inr (map listed ids) \<and> listing_ok (tag_ref (rc_tag c)) ids
       \<and> tag_identity (tag_ref (rc_tag c)) ids = Some (rc_sha c))"
proof -
  note v = assms(1) [unfolded validate_candidate_Inr_iff]
  have "full_sha (rc_sha c)" using v candidate_origin_sha by blast
  moreover have "release_tag (rc_tag c)" using v assms(2) by (auto simp: candidate_origin_def release_tag_iff)
  ultimately show ?thesis by (simp add: verify_remote_tag_Inr_iff)
qed

lemma sample_tag_verified: "verify_remote_tag sample_git ''origin'' (rc_tag sample_candidate) (rc_sha sample_candidate) = Inr ()"
  by code_simp

theorem tag_gate_exact_witness:
  "\<exists>ids. remote_lines sample_git ''origin'' ''v1.2'' = Inr (map listed ids) \<and> listing_ok ''refs/tags/v1.2'' ids
     \<and> tag_identity ''refs/tags/v1.2'' ids = Some sample_commit"
proof -
  have "cr_mode sample_request = ''tag''" by (simp add: sample_request_def)
  from tag_gate_exact [OF sample_candidate_valid this, of sample_git "''origin''"] sample_tag_verified show ?thesis
    by (simp add: sample_candidate_def tag_ref_def)
qed

section \<open>Gates\<close>

text \<open>C38. A release workflow is refused whenever the job that publishes or the job that creates the GitHub
  release lacks, in its own body, one of its conditions, the checkout of the candidate, or the
  revalidation of the tag or of the distributions: the same text in another job does not count,
  wherever the jobs stand.\<close>

theorem ungated_release_rejected:
  assumes "release = head @ jobs_mark @ render_jobs jobs"
    and "find_text jobs_mark release = Some (jobs_mark @ render_jobs jobs)"
    and "list_all (\<lambda>(m, ls). job_name m \<and> list_all body_line ls) jobs" and "distinct (map fst jobs)"
    and "(job, ls) \<in> set jobs" and "job = ''publish'' \<or> job = ''github-release''"
    and "gate \<in> set (PUBLISH_GATES @ [CANDIDATE_CHECKOUT, TAG_REVALIDATION, ARTIFACT_REVALIDATION, ARTIFACT_ID_DOWNLOAD])"
    and "\<not> py_contains (render_body ls) gate"
    and "read_text st ci_path = Inr ci" and "read_text st release_path = Inr release"
  shows "main_policy st ci_path release_path = Inr 1"
proof -
  have block: "job_block release job = render_body ls"
    using job_block_body [OF assms(2) [unfolded assms(1)] assms(3,4,5)] assms(1) by simp
  have "\<not> py_contains (job_block release job) gate" using assms(8) block by simp
  from policy_failure [OF external_write_missing [OF assms(7) this] assms(6)] have "release_policy_failures ci release \<noteq> []" .
  then show ?thesis using assms(9,10) by (simp add: main_policy_def)
qed

text \<open>The gate is in the body of one job and missing in the other.\<close>

definition sample_jobs :: "(string \<times> string list) list" where
  \<open>sample_jobs =
     [(''publish'', [''    if: github.event_name == 'push' && always()'', ''    steps:'']), (''github-release'', [''    steps:''])]\<close>

definition sample_release :: string where
  "sample_release = ''on: push'' @ jobs_mark @ render_jobs sample_jobs"

definition sample_workflows :: store where
  "sample_workflows = [([''ci.yml''], Regular ''on: push''), ([''release.yml''], Regular sample_release)]"

lemma sample_release_found: "find_text jobs_mark sample_release = Some (jobs_mark @ render_jobs sample_jobs)"
  by code_simp

lemma sample_jobs_written: "list_all (\<lambda>(m, ls). job_name m \<and> list_all body_line ls) sample_jobs" "distinct (map fst sample_jobs)"
  by code_simp+

lemma sample_job: "(''github-release'', [''    steps:'']) \<in> set sample_jobs"
  by (simp add: sample_jobs_def)

lemma sample_gate:
  "hd PUBLISH_GATES \<in> set (PUBLISH_GATES @ [CANDIDATE_CHECKOUT, TAG_REVALIDATION, ARTIFACT_REVALIDATION, ARTIFACT_ID_DOWNLOAD])"
  "\<not> py_contains (render_body [''    steps:'']) (hd PUBLISH_GATES)"
  by code_simp+

lemma sample_workflows_read:
  "read_text sample_workflows [''ci.yml''] = Inr ''on: push''"
  "read_text sample_workflows [''release.yml''] = Inr sample_release"
  by code_simp+

theorem ungated_release_rejected_witness:
  "py_contains (job_block sample_release ''publish'') (hd PUBLISH_GATES)
   \<and> main_policy sample_workflows [''ci.yml''] [''release.yml''] = Inr 1"
proof -
  have "py_contains (job_block sample_release ''publish'') (hd PUBLISH_GATES)" by code_simp
  then show ?thesis
    using ungated_release_rejected [OF sample_release_def sample_release_found sample_jobs_written sample_job _ sample_gate
        sample_workflows_read] by simp
qed

text \<open>
  The pin check reads no comment where the number sign is the end of the line, and a line it cannot
  read is not reported: an action that is not pinned passes.
\<close>

lemma empty_comment_not_checked:
  "pin_failures ''      - uses: actions/checkout@main #'' = []"
  "pin_failures ''      - uses: actions/checkout@main'' = [NotPinned 1]"
  by code_simp+

section \<open>Waiting\<close>

text \<open>C39. Waiting for a service ends for every time-out but the infinite one, on any machine whose clock does
  not go back and whose \<open>sleep\<close> lasts at least as long as it was asked to: with the first probe that
  succeeds before the deadline, with a time-out at the first reading of the clock that has reached it,
  or with an exception that is not caught (control flow in a probe, anything raised in the pause).
  Every earlier probe failed and was followed by a pause, rounds begin at least two seconds apart, at
  most one round per two seconds of the time-out (rounded up) fails, and the number of the probe that
  succeeds is within the same bound; a time-out that is negative or not a number allows none. With an infinite
  time-out the wait still ends in the first round that is not a failure, and if there is none it
  does not end.\<close>

theorem service_wait_ends:
  assumes "keeps_time m time"
  shows "(\<forall>limit. rounds_allowed timeout_seconds = Some limit \<longrightarrow>
      (\<exists>n r w'. wait_until_ready m timeout_seconds w = Some (r, w')
         \<and> wait_outcome m (deadline_after (reading m w) timeout_seconds) (snd (pm_monotonic m w)) n r
         \<and> n \<le> limit \<and> (\<forall>i. r = Inr i \<longrightarrow> i \<le> limit)
         \<and> (\<forall>k < n. reading m (round_start m (snd (pm_monotonic m w)) k) + 2
                     \<le> reading m (round_start m (snd (pm_monotonic m w)) (Suc k)))))
    \<and> (\<forall>n r. wait_outcome m (deadline_after (reading m w) timeout_seconds) (snd (pm_monotonic m w)) n r \<longrightarrow>
         (\<exists>w'. wait_until_ready m timeout_seconds w = Some (r, w')))
    \<and> (timeout_seconds = FInf False \<longrightarrow> (\<forall>k. round_fails m Never (round_start m (snd (pm_monotonic m w)) k)) \<longrightarrow>
         wait_until_ready m timeout_seconds w = None)"
proof -
  let ?w = "snd (pm_monotonic m w)" and ?d = "deadline_after (reading m w) timeout_seconds"
  have loop: "wait_until_ready m timeout_seconds w = wait_loop m ?d 0 ?w"
    by (simp add: wait_until_ready_def reading_def split_beta)
  have start: "reading m w \<le> time ?w" using assms by (simp add: keeps_time_def reading_def)
  have "\<exists>n r w'. wait_until_ready m timeout_seconds w = Some (r, w') \<and> wait_outcome m ?d ?w n r
      \<and> n \<le> limit \<and> (\<forall>i. r = Inr i \<longrightarrow> i \<le> limit)
      \<and> (\<forall>k < n. reading m (round_start m ?w k) + 2 \<le> reading m (round_start m ?w (Suc k)))"
    if limit: "rounds_allowed timeout_seconds = Some limit" for limit
  proof -
    from wait_has_outcome [OF assms start limit] obtain n r where n: "n \<le> limit" and r: "wait_outcome m ?d ?w n r" by blast
    have "i \<le> limit" if "r = Inr i" for i
      using rounds_bounded [OF assms start limit, of n] r that by (auto simp: wait_outcome_def round_ends_def)
    then show ?thesis
      using n r wait_outcome_returns [OF r] rounds_pace [OF assms, of n ?d ?w] loop unfolding wait_outcome_def by metis
  qed
  moreover have "wait_until_ready m timeout_seconds w = None"
    if "timeout_seconds = FInf False" "\<forall>k. round_fails m Never (round_start m ?w k)"
    using wait_forever [of m ?w 0] that loop by (simp add: deadline_after_def)
  ultimately show ?thesis using wait_outcome_returns [of m ?d ?w] loop by auto
qed

text \<open>The state is the time and the number of probes made; a probe takes one second, the third succeeds.\<close>

definition sample_machine :: "(rat \<times> nat) machine" where
  "sample_machine =
     \<lparr>pm_monotonic = (\<lambda>w. (fst w, w)),
      pm_probe = (\<lambda>(t, n). (if n = 0 then Inl OSError else Inr (n = 2), (t + 1, Suc n))),
      pm_sleep = (\<lambda>s (t, n). (Inr (), (t + s, n)))\<rparr>"

lemma sample_machine_time: "keeps_time sample_machine fst"
  by (simp add: keeps_time_def sample_machine_def split_beta)

lemma sample_wait_third: "wait_outcome sample_machine (At 10) (0, 0) 2 (Inr 3)"
  by (simp add: wait_outcome_def round_ends_def round_fails_def probe_failed_def reading_def probed_def slept_def before_def
      sample_machine_def less_Suc_eq numeral_2_eq_2)

theorem service_wait_ends_witness:
  "(\<exists>w'. wait_until_ready sample_machine (FFin 10 ''10.0'') (0, 0) = Some (Inr 3, w'))
   \<and> (\<exists>n r. wait_outcome sample_machine (At 10) (0, 0) n r \<and> n \<le> 5)"
proof -
  have d: "deadline_after (reading sample_machine (0, 0)) (FFin 10 ''10.0'') = At 10"
    and w: "snd (pm_monotonic sample_machine (0, 0)) = (0, 0)" and l: "rounds_allowed (FFin 10 ''10.0'') = Some 5"
    by (simp_all add: deadline_after_def reading_def sample_machine_def rounds_allowed_def)
  note ends = service_wait_ends [OF sample_machine_time, of "FFin 10 ''10.0''" "(0, 0)", unfolded d w]
  show ?thesis
    using ends [THEN conjunct1, rule_format, OF l] ends [THEN conjunct2, THEN conjunct1] sample_wait_third by blast
qed

end
