(* ===== verification/Benchmark.thy ===== *)
theory Benchmark
  imports Api Py_Files
begin

text \<open>
  \<^verbatim>\<open>benchmarks/scan.py\<close>: the options read from the environment, the raw reads of the three drivers,
  the read through the connector, the URL for \<open>daft.read_sql\<close>, and the records that are printed. The
  drivers, the clock and \<open>daft.read_sql\<close> are parameters; the versions in a record are left out.
\<close>

section \<open>Options\<close>

text \<open>\<open>str.lower\<close> below code point 256.\<close>

definition lower_char :: "char \<Rightarrow> char" where
  "lower_char c =
     (if is_upper_letter c \<or> (192 \<le> code c \<and> code c \<le> 222 \<and> code c \<noteq> 215) then char_of (code c + 32) else c)"

definition environment_flag :: "(string \<times> string) list \<Rightarrow> string \<Rightarrow> bool result" where
  "environment_flag environ name =
     (let v = map lower_char (py_strip (environ_get environ name ''false''))
      in if v \<in> {''1'', ''true'', ''yes''} then Inr True
         else if v \<in> {''0'', ''false'', ''no''} then Inr False
         else Inl ValueError)"

record clickhouse_options =
  bc_host :: string
  bc_port :: int
  bc_username :: string
  bc_password :: string
  bc_database :: string

definition read_clickhouse_options :: "(string \<times> string) list \<Rightarrow> clickhouse_options result" where
  "read_clickhouse_options environ =
     r_bind (py_int (environ_get environ ''CLICKHOUSE_HTTP_PORT'' ''28123'')) (\<lambda>port.
     Inr \<lparr>bc_host = environ_get environ ''CLICKHOUSE_HOST'' ''127.0.0.1'', bc_port = port,
          bc_username = environ_get environ ''CLICKHOUSE_USER'' ''connector'',
          bc_password = environ_get environ ''CLICKHOUSE_PASSWORD'' ''daft-olap-test'',
          bc_database = environ_get environ ''CLICKHOUSE_DATABASE'' ''analytics''\<rparr>)"

record doris_options =
  bo_host :: string
  bo_mysql_port :: int
  bo_http_port :: int
  bo_flight_port :: int
  bo_username :: string
  bo_password :: string
  bo_database :: string
  bo_http_secure :: bool
  bo_flight_secure :: bool

definition read_doris_options :: "(string \<times> string) list \<Rightarrow> doris_options result" where
  "read_doris_options environ =
     r_bind (py_int (environ_get environ ''DORIS_MYSQL_PORT'' ''29030'')) (\<lambda>mysql_port.
     r_bind (py_int (environ_get environ ''DORIS_HTTP_PORT'' ''28030'')) (\<lambda>http_port.
     r_bind (py_int (environ_get environ ''DORIS_FLIGHT_PORT'' ''28070'')) (\<lambda>flight_port.
     r_bind (environment_flag environ ''DORIS_HTTP_SECURE'') (\<lambda>http_secure.
     r_bind (environment_flag environ ''DORIS_FLIGHT_SECURE'') (\<lambda>flight_secure.
     Inr \<lparr>bo_host = environ_get environ ''DORIS_HOST'' ''127.0.0.1'', bo_mysql_port = mysql_port, bo_http_port = http_port,
          bo_flight_port = flight_port, bo_username = environ_get environ ''DORIS_USER'' ''root'',
          bo_password = environ_get environ ''DORIS_PASSWORD'' [],
          bo_database = environ_get environ ''DORIS_DATABASE'' ''analytics'',
          bo_http_secure = http_secure, bo_flight_secure = flight_secure\<rparr>)))))"

definition whole_table_sql :: "string \<Rightarrow> string \<Rightarrow> string result" where
  "whole_table_sql db tb = r_bind (QualifiedTable (PStr db) (PStr tb)) (\<lambda>t. r_bind (table_sql t) (\<lambda>s. Inr (''SELECT * FROM '' @ s)))"

section \<open>Raw reads\<close>

text \<open>
  The sizes of the batches that a driver delivers for a requested batch size, up to the end of the
  result; the last of them may be an exception.
\<close>

primrec count_rows :: "nat result list \<Rightarrow> nat result" where
  "count_rows [] = Inr 0"
| "count_rows (p # ps) = r_bind p (\<lambda>n. r_bind (count_rows ps) (\<lambda>m. Inr (n + m)))"

record raw_driver =
  rw_connect :: "(string \<times> pyobj) list \<Rightarrow> unit result"
  rw_open :: "unit result"
  rw_execute :: "string \<Rightarrow> unit result"
  rw_batches :: "int \<Rightarrow> nat result list"
  rw_open_close :: "unit result"
  rw_close :: "unit result"

text \<open>The stream or the cursor is left before the client or the connection is closed.\<close>

definition raw_read :: "raw_driver \<Rightarrow> (string \<times> pyobj) list \<Rightarrow> string \<Rightarrow> int \<Rightarrow> nat result" where
  "raw_read d kwargs statement rows_wanted =
     r_bind (rw_connect d kwargs) (\<lambda>_.
     and_finally
       (r_bind (rw_open d) (\<lambda>_.
        and_finally (r_bind (rw_execute d statement) (\<lambda>_. count_rows (rw_batches d rows_wanted))) (rw_open_close d)))
       (rw_close d))"

text \<open>ClickHouse: \<open>query_arrow_stream\<close> is the \<open>execute\<close> of the record, entering its context the opening.\<close>

definition raw_clickhouse :: "(string \<times> string) list \<Rightarrow> raw_driver \<Rightarrow> string \<Rightarrow> int \<Rightarrow> nat result" where
  "raw_clickhouse environ d tb rows_wanted =
     r_bind (read_clickhouse_options environ) (\<lambda>o'.
     r_bind (whole_table_sql (bc_database o') tb) (\<lambda>statement.
     r_bind (rw_connect d
         [(''host'', PStr (bc_host o')), (''port'', PInt (bc_port o')), (''username'', PStr (bc_username o')),
          (''password'', PStr (bc_password o')), (''database'', PStr (bc_database o'))]) (\<lambda>_.
     and_finally
       (r_bind (rw_execute d statement) (\<lambda>_.
        r_bind (rw_open d) (\<lambda>_. and_finally (count_rows (rw_batches d rows_wanted)) (rw_open_close d))))
       (rw_close d))))"

definition raw_doris_mysql :: "(string \<times> string) list \<Rightarrow> raw_driver \<Rightarrow> string \<Rightarrow> int \<Rightarrow> nat result" where
  "raw_doris_mysql environ d tb rows_wanted =
     r_bind (read_doris_options environ) (\<lambda>o'.
     r_bind (whole_table_sql (bo_database o') tb) (\<lambda>statement.
     raw_read d
       [(''host'', PStr (bo_host o')), (''port'', PInt (bo_mysql_port o')), (''user'', PStr (bo_username o')),
        (''password'', PStr (bo_password o')), (''database'', PStr (bo_database o')), (''cursorclass'', PCallable)] statement rows_wanted))"

definition raw_flight_uri :: "doris_options \<Rightarrow> string" where
  "raw_flight_uri o' =
     (if bo_flight_secure o' then ''grpc+tls'' else ''grpc'') @ ''://''
     @ (if CHR '':'' \<in> set (bo_host o') then ''['' @ bo_host o' @ '']'' else bo_host o') @ '':'' @ int_str (bo_flight_port o')"

text \<open>The values of \<open>DatabaseOptions\<close> are the driver's.\<close>

definition raw_doris_flight ::
    "(string \<times> string) list \<Rightarrow> string \<times> string \<Rightarrow> raw_driver \<Rightarrow> string \<Rightarrow> int \<Rightarrow> nat result" where
  "raw_doris_flight environ names d tb rows_wanted =
     r_bind (read_doris_options environ) (\<lambda>o'.
     r_bind (whole_table_sql (bo_database o') tb) (\<lambda>statement.
     raw_read d
       [(''uri'', PStr (raw_flight_uri o')), (fst names, PStr (bo_username o')), (snd names, PStr (bo_password o'))] statement rows_wanted))"

section \<open>Arguments\<close>

record bench_args =
  ba_database :: string
  ba_transport :: string
  ba_runner :: string
  ba_table :: string
  ba_batch_rows :: int
  ba_batch_bytes :: int
  ba_target_tasks :: int
  ba_iterations :: int
  ba_include_read_sql :: bool

definition BENCH_BATCH_ROWS :: int where "BENCH_BATCH_ROWS = 1000000"
definition BENCH_BATCH_BYTES :: int where "BENCH_BATCH_BYTES = 1024 * 1024 * 1024"
definition BENCH_TARGET_TASKS :: int where "BENCH_TARGET_TASKS = 1024"

text \<open>\<open>_parse_args\<close> after \<open>parse_args\<close>: \<open>parser.error\<close> ends the process.\<close>

definition check_args :: "bench_args \<Rightarrow> bench_args result" where
  "check_args a =
     r_bind (raise_if (\<not> (1 \<le> ba_batch_rows a \<and> ba_batch_rows a \<le> BENCH_BATCH_ROWS)) SystemExit) (\<lambda>_.
     r_bind (raise_if (\<not> (1 \<le> ba_batch_bytes a \<and> ba_batch_bytes a \<le> BENCH_BATCH_BYTES)) SystemExit) (\<lambda>_.
     r_bind (raise_if (\<not> (1 \<le> ba_target_tasks a \<and> ba_target_tasks a \<le> BENCH_TARGET_TASKS)) SystemExit) (\<lambda>_.
     r_bind (raise_if (ba_iterations a < 1) SystemExit) (\<lambda>_. Inr a))))"

section \<open>Reading through the connector\<close>

text \<open>The limits the public functions get: the caller's, and the defaults of their signatures.\<close>

definition connector_limits :: "bench_args \<Rightarrow> limit_args" where
  "connector_limits a =
     \<lparr>la_batch_rows = PInt (ba_batch_rows a), la_batch_bytes = PInt (ba_batch_bytes a),
      la_target_tasks = PInt (ba_target_tasks a), la_max_tasks = PInt 256,
      la_connect_timeout = PFloat (FFin 10 ''10.0''), la_query_timeout = PFloat (FFin 300 ''300.0'')\<rparr>"

definition connector_args_ch :: "clickhouse_options \<Rightarrow> bench_args \<Rightarrow> string \<Rightarrow> ch_source_args" where
  "connector_args_ch o' a split =
     \<lparr>sa_split = PStr split, sa_policy = PStr ''single'', sa_unsafe_where_sql = PNone, sa_query_parameters = NoMapping,
      sa_table = PStr (ba_table a), sa_limits = connector_limits a,
      sa_connection =
        \<lparr>a_host = PStr (bc_host o'), a_database = PStr (bc_database o'), a_username = PStr (bc_username o'),
         a_password = SecretArg (PlainSecret (bc_password o')), a_port = PInt (bc_port o'), a_secure = PBool False,
         a_settings = NoMapping, a_client_options = NoMapping\<rparr>,
      sa_arrow_schema = None, sa_discoverer = None\<rparr>"

definition connector_args_doris :: "doris_options \<Rightarrow> bench_args \<Rightarrow> string \<Rightarrow> doris_source_args" where
  "connector_args_doris o' a split =
     \<lparr>dsa_transport = PStr (ba_transport a), dsa_split = PStr split, dsa_policy = PStr ''single'', dsa_unsafe_where_sql = PNone,
      dsa_query_parameters = NoMapping, dsa_table = PStr (ba_table a), dsa_planning_timeout = PFloat (FFin 10 ''10.0''),
      dsa_limits = connector_limits a,
      dsa_connection =
        \<lparr>da_host = PStr (bo_host o'), da_database = PStr (bo_database o'), da_username = PStr (bo_username o'),
         da_password = SecretArg (PlainSecret (bo_password o')), da_mysql_port = PInt (bo_mysql_port o'),
         da_http_port = PInt (bo_http_port o'), da_flight_port = PInt (bo_flight_port o'), da_mysql_options = NoMapping,
         da_flight_options = NoMapping, da_http_secure = PBool (bo_http_secure o'), da_flight_secure = PBool (bo_flight_secure o')\<rparr>,
      dsa_arrow_schema = None, dsa_discoverer = None\<rparr>"

record bench_measurement =
  bm_rows :: nat
  bm_schema_setup :: "rat option"
  bm_execution :: "rat option"

text \<open>
  \<open>_connector_measurement\<close>: \<open>read\<close> is the source's \<open>read\<close>, \<open>collect\<close> is \<open>to_arrow().num_rows\<close>; the clock's
  four readings stand around the two.
\<close>

definition timed_read :: "(nat \<Rightarrow> rat) \<Rightarrow> 'f result \<Rightarrow> ('f \<Rightarrow> nat result) \<Rightarrow> bench_measurement result" where
  "timed_read clock frame collect =
     r_bind frame (\<lambda>f.
     r_bind (collect f) (\<lambda>rows.
     Inr \<lparr>bm_rows = rows, bm_schema_setup = Some (clock 1 - clock 0), bm_execution = Some (clock 3 - clock 2)\<rparr>))"

definition connector_measurement ::
    "heap \<Rightarrow> (string \<times> string) list \<Rightarrow> ch_world \<Rightarrow> doris_env \<Rightarrow> 'f frame_ops \<Rightarrow> (ch_source \<Rightarrow> 'f result) \<Rightarrow> (doris_source \<Rightarrow> 'f result)
       \<Rightarrow> ('f \<Rightarrow> nat result) \<Rightarrow> (nat \<Rightarrow> rat) \<Rightarrow> bench_args \<Rightarrow> string \<Rightarrow> bench_measurement result" where
  "connector_measurement h environ w w' ops read read' collect clock a split =
     timed_read clock
       (if ba_database a = ''clickhouse'' then
          r_bind (read_clickhouse_options environ) (\<lambda>o'. read_clickhouse h w ops read NoColumns None (connector_args_ch o' a split))
        else
          r_bind (read_doris_options environ) (\<lambda>o'. read_doris h w' ops read' NoColumns None (connector_args_doris o' a split)))
       collect"

section \<open>Reading with SQL\<close>

definition sql_url :: "string \<Rightarrow> string \<Rightarrow> string \<Rightarrow> string \<Rightarrow> int \<Rightarrow> string \<Rightarrow> string" where
  "sql_url scheme username password host port db =
     scheme @ ''://'' @ url_quote username @ '':'' @ url_quote password @ ''@'' @ host @ '':'' @ int_str port @ ''/'' @ url_quote db"

definition read_sql_rows ::
    "(string \<times> string) list \<Rightarrow> (string \<Rightarrow> string \<Rightarrow> nat result) \<Rightarrow> bench_args \<Rightarrow> nat result" where
  "read_sql_rows environ read_sql a =
     r_bind
       (if ba_database a = ''clickhouse'' then
          r_bind (read_clickhouse_options environ) (\<lambda>o'. Inr (bc_database o',
            sql_url ''clickhouse'' (bc_username o') (bc_password o') (bc_host o') (bc_port o') (bc_database o')))
        else
          r_bind (read_doris_options environ) (\<lambda>o'. Inr (bo_database o',
            sql_url ''mysql'' (bo_username o') (bo_password o') (bo_host o') (bo_mysql_port o') (bo_database o'))))
       (\<lambda>(db, url). r_bind (whole_table_sql db (ba_table a)) (\<lambda>statement. read_sql statement url))"

section \<open>Records\<close>

record bench_result =
  br_mode :: string
  br_iteration :: nat
  br_status :: string
  br_elapsed :: "rat option"
  br_schema_setup :: "rat option"
  br_execution :: "rat option"
  br_rows :: "nat option"
  br_error :: "exn option"

text \<open>\<open>_measure\<close>: an exception becomes a record without figures; control flow is not caught.\<close>

definition measure_operation ::
    "string \<Rightarrow> nat \<Rightarrow> rat \<Rightarrow> rat \<Rightarrow> bench_measurement result \<Rightarrow> bench_result result" where
  "measure_operation mode iteration started ended outcome =
     (case outcome of
        Inr m \<Rightarrow>
          Inr \<lparr>br_mode = mode, br_iteration = iteration, br_status = ''ok'', br_elapsed = Some (ended - started),
               br_schema_setup = bm_schema_setup m, br_execution = bm_execution m, br_rows = Some (bm_rows m), br_error = None\<rparr>
      | Inl e \<Rightarrow>
          if is_exception e then
            Inr \<lparr>br_mode = mode, br_iteration = iteration,
                 br_status = (if mode = ''daft-read-sql'' then ''unavailable'' else ''failed''), br_elapsed = None,
                 br_schema_setup = None, br_execution = None, br_rows = None, br_error = Some e\<rparr>
          else Inl e)"

definition rows_only :: "nat result \<Rightarrow> bench_measurement result" where
  "rows_only operation = r_bind operation (\<lambda>n. Inr \<lparr>bm_rows = n, bm_schema_setup = None, bm_execution = None\<rparr>)"

datatype bench_operation = RawClickHouse | RawMySql | RawFlight | Connector string | ReadSql

definition bench_operations :: "bench_args \<Rightarrow> (string \<times> bench_operation) list" where
  "bench_operations a =
     (''raw-driver'',
        if ba_database a = ''clickhouse'' then RawClickHouse else if ba_transport a = ''mysql'' then RawMySql else RawFlight)
     # [(''connector-single'', Connector ''single''), (''connector-auto'', Connector ''auto'')]
     @ (if ba_include_read_sql a then [(''daft-read-sql'', ReadSql)] else [])"

definition bench_schedule :: "bench_args \<Rightarrow> (nat \<times> string \<times> bench_operation) list" where
  "bench_schedule a =
     concat (map (\<lambda>iteration. map (Pair iteration) (bench_operations a)) [1..<Suc (nat (ba_iterations a))])"

text \<open>
  \<open>main\<close>: the records printed and how the process ends. \<open>perform\<close> gives the two readings of the clock
  around an operation, and its outcome; with Ray, the runtime is started first and stopped at the end.
\<close>

record bench_world =
  bw_ray_init :: "unit result"
  bw_set_runner :: "unit result"
  bw_ray_shutdown :: "unit result"
  bw_perform :: "nat \<Rightarrow> bench_operation \<Rightarrow> rat \<times> rat \<times> bench_measurement result"

definition bench_record :: "bench_world \<Rightarrow> nat \<times> string \<times> bench_operation \<Rightarrow> bench_result result" where
  "bench_record bw = (\<lambda>(iteration, mode, operation).
     case bw_perform bw iteration operation of
       (started, ended, outcome) \<Rightarrow> measure_operation mode iteration started ended outcome)"

definition main_bench :: "bench_world \<Rightarrow> bench_args \<Rightarrow> bench_result list \<times> unit result" where
  "main_bench bw args =
     (case r_bind (check_args args) (\<lambda>a.
             if ba_runner a = ''ray'' then r_bind (bw_ray_init bw) (\<lambda>_. r_bind (bw_set_runner bw) (\<lambda>_. Inr a)) else Inr a) of
        Inl e \<Rightarrow> ([], Inl e)
      | Inr a \<Rightarrow>
          (case emit (bench_record bw) (bench_schedule a) of
             (records, outcome) \<Rightarrow>
               (records,
                and_finally (case outcome of None \<Rightarrow> Inr () | Some e \<Rightarrow> Inl e)
                  (if ba_runner a = ''ray'' then bw_ray_shutdown bw else Inr ()))))"

section \<open>The connector's limits\<close>

lemma check_args_Inr_iff:
  "check_args a = Inr b \<longleftrightarrow> b = a \<and> 1 \<le> ba_batch_rows a \<and> ba_batch_rows a \<le> MAX_BATCH_ROWS
     \<and> 1 \<le> ba_batch_bytes a \<and> ba_batch_bytes a \<le> MAX_BATCH_BYTES
     \<and> 1 \<le> ba_target_tasks a \<and> ba_target_tasks a \<le> MAX_TASKS \<and> 1 \<le> ba_iterations a"
  by (auto simp: check_args_def r_bind_Inr_iff raise_if_def limit_defs BENCH_BATCH_ROWS_def BENCH_BATCH_BYTES_def
      BENCH_TARGET_TASKS_def split: if_splits)

lemma connector_limits_Inr_iff:
  "(\<exists>l. limits_of_args (connector_limits a) = Inr l) \<longleftrightarrow>
     1 \<le> ba_batch_rows a \<and> ba_batch_rows a \<le> MAX_BATCH_ROWS \<and> 1 \<le> ba_batch_bytes a \<and> ba_batch_bytes a \<le> MAX_BATCH_BYTES
     \<and> 1 \<le> ba_target_tasks a \<and> ba_target_tasks a \<le> 256"
proof -
  have t: "validate_timeout_seconds (PFloat (FFin q s)) = Inr q \<longleftrightarrow> 0 < q \<and> q \<le> 86400" for q s
    by (simp add: validate_timeout_Inr_iff limit_defs)
  have "validate_timeout_seconds (PFloat (FFin 10 ''10.0'')) = Inr 10" "validate_timeout_seconds (PFloat (FFin 300 ''300.0'')) = Inr 300"
    unfolding t by simp_all
  then show ?thesis
    by (auto simp: limits_of_args_def connector_limits_def ResourceLimits_def r_bind_Inr_iff bounded_int_Inr_iff raise_if_def
        MAX_TASKS_def)
qed

lemma connector_read_limits:
  assumes "connector_measurement h environ w w' ops read read' collect clock a split = Inr m"
  shows "\<exists>l. limits_of_args (connector_limits a) = Inr l"
  using assms
  by (auto simp: connector_measurement_def timed_read_def r_bind_Inr_iff read_clickhouse_def read_doris_def
      ClickHouseDataSource_def DorisDataSource_def connector_args_ch_def connector_args_doris_def split: if_splits)

section \<open>Records of a run\<close>

lemma measure_operation_Inr:
  assumes "measure_operation mode iteration started ended outcome = Inr r"
  shows "br_mode r = mode \<and> br_iteration r = iteration
    \<and> (case outcome of
         Inr m \<Rightarrow> br_status r = ''ok'' \<and> br_rows r = Some (bm_rows m) \<and> br_elapsed r = Some (ended - started) \<and> br_error r = None
       | Inl e \<Rightarrow> br_status r \<noteq> ''ok'' \<and> br_rows r = None \<and> br_elapsed r = None \<and> br_error r = Some e)"
  using assms by (auto simp: measure_operation_def split: sum.splits if_splits)

lemma main_bench_ended:
  assumes "main_bench bw a = (records, Inr u)"
  shows "list_all2 (\<lambda>x r. bench_record bw x = Inr r) (bench_schedule a) records"
proof -
  from assms obtain o' where "emit (bench_record bw) (bench_schedule a) = (records, o')"
    "(case o' of None \<Rightarrow> Inr () | Some e \<Rightarrow> Inl e) = Inr ()"
    by (auto simp: main_bench_def r_bind_Inr_iff r_bind_Inl_iff check_args_Inr_iff split: sum.splits prod.splits if_splits)
  then have "emit (bench_record bw) (bench_schedule a) = (records, None)" by (cases o') auto
  then show ?thesis by (simp add: emit_complete_iff r_map_Inr_iff)
qed

lemma bench_schedule_slots: "length (bench_schedule a) = nat (ba_iterations a) * (if ba_include_read_sql a then 4 else 3)"
  by (simp add: bench_schedule_def length_concat comp_def bench_operations_def sum_list_triv)

section \<open>The URL of a SQL read\<close>

lemma url_quote_clean:
  assumes "c = CHR '':'' \<or> c = CHR ''@'' \<or> c = CHR ''/''"
  shows "c \<notin> set (url_quote s)"
  using url_quote_chars [of c s] assms by (auto simp: url_unreserved_def char_class_defs)

text \<open>
  Reading the URL back: the user name up to the first colon after the scheme, the password up to
  the first at sign, the database after the last slash, for any characters in the three.
\<close>

definition url_user :: "string \<Rightarrow> string" where
  "url_user after_scheme = takeWhile (\<lambda>c. c \<noteq> CHR '':'') after_scheme"

definition url_password :: "string \<Rightarrow> string" where
  "url_password after_scheme = takeWhile (\<lambda>c. c \<noteq> CHR ''@'') (tl (dropWhile (\<lambda>c. c \<noteq> CHR '':'') after_scheme))"

definition url_database :: "string \<Rightarrow> string" where
  "url_database url = rev (takeWhile (\<lambda>c. c \<noteq> CHR ''/'') (rev url))"

lemma sql_url_reads_back:
  assumes "url = sql_url scheme username password host port db" and "after_scheme = drop (length scheme + 3) url"
  shows "utf8_decode (url_unquote (url_user after_scheme)) = Some username"
    and "utf8_decode (url_unquote (url_password after_scheme)) = Some password"
    and "utf8_decode (url_unquote (url_database url)) = Some db"
proof -
  have a: "after_scheme = url_quote username @ CHR '':'' # url_quote password @ CHR ''@'' # host @ '':'' @ int_str port @ ''/'' @ url_quote db"
    using assms by (simp add: sql_url_def)
  have u: "\<forall>c \<in> set (url_quote s). c \<noteq> CHR '':''" "\<forall>c \<in> set (url_quote s). c \<noteq> CHR ''@''" "\<forall>c \<in> set (url_quote s). c \<noteq> CHR ''/''" for s
    using url_quote_clean by blast+
  show "utf8_decode (url_unquote (url_user after_scheme)) = Some username"
    using u(1) by (simp add: a url_user_def takeWhile_append2 url_quote_inverse)
  show "utf8_decode (url_unquote (url_password after_scheme)) = Some password"
    using u(1,2) by (simp add: a url_password_def dropWhile_append2 takeWhile_append2 url_quote_inverse)
  show "utf8_decode (url_unquote (url_database url)) = Some db"
    using takeWhile_append2 [of "rev (url_quote db)" "\<lambda>c. c \<noteq> CHR ''/''"] u(3) [of db]
    by (simp add: assms(1) sql_url_def url_database_def url_quote_inverse)
qed

end
