(* ===== verification/Benchmark_Properties.thy ===== *)
theory Benchmark_Properties
  imports Benchmark ClickHouse_Properties Doris_Properties
begin

text \<open>The properties of the benchmark, each followed by an application at a concrete run.\<close>

text \<open>C40. Arguments that the command line accepts are limits the connector accepts exactly up to 256 tasks:
  the check allows 1024, but the reads go through the public functions with their default of 256 for
  the largest number of tasks, so every connector measurement beyond it fails, whatever the database
  and the driver do.\<close>

theorem benchmark_task_limit:
  assumes "check_args args = Inr a"
  shows "((\<exists>l. limits_of_args (connector_limits a) = Inr l) \<longleftrightarrow> ba_target_tasks a \<le> 256)
    \<and> (256 < ba_target_tasks a \<longrightarrow>
         (\<exists>e. connector_measurement h environ w w' ops read read' collect clock a split = Inl e))"
proof (intro conjI impI)
  show l: "(\<exists>l. limits_of_args (connector_limits a) = Inr l) \<longleftrightarrow> ba_target_tasks a \<le> 256"
    using assms by (auto simp: check_args_Inr_iff connector_limits_Inr_iff)
  assume "256 < ba_target_tasks a"
  then have "connector_measurement h environ w w' ops read read' collect clock a split \<noteq> Inr m" for m
    using l connector_read_limits by fastforce
  then show "\<exists>e. connector_measurement h environ w w' ops read read' collect clock a split = Inl e"
    by (cases "connector_measurement h environ w w' ops read read' collect clock a split") auto
qed

definition sample_bench :: "int \<Rightarrow> bench_args" where
  "sample_bench n =
     \<lparr>ba_database = ''clickhouse'', ba_transport = ''mysql'', ba_runner = ''ray'', ba_table = ''t'', ba_batch_rows = 65536,
      ba_batch_bytes = 64 * 1024 * 1024, ba_target_tasks = n, ba_iterations = 2, ba_include_read_sql = True\<rparr>"

definition sample_bench_frames :: "nat frame_ops" where
  "sample_bench_frames = \<lparr>fr_filter = (\<lambda>f _. Inr f), fr_select = (\<lambda>f _. Inr f)\<rparr>"

lemma sample_bench_checked: "check_args (sample_bench 300) = Inr (sample_bench 300)"
  by (simp add: check_args_Inr_iff sample_bench_def limit_defs)

theorem benchmark_task_limit_witness:
  "(\<nexists>l. limits_of_args (connector_limits (sample_bench 300)) = Inr l)
   \<and> (\<exists>e. connector_measurement [] [] sample_ch_world sample_doris_env sample_bench_frames (\<lambda>_. Inr 3) (\<lambda>_. Inr 3) Inr of_nat
           (sample_bench 300) ''auto'' = Inl e)"
proof -
  have n: "\<not> ba_target_tasks (sample_bench 300) \<le> 256" "256 < ba_target_tasks (sample_bench 300)" by (simp_all add: sample_bench_def)
  show ?thesis
    using benchmark_task_limit [OF sample_bench_checked, of "[]" "[]" sample_ch_world sample_doris_env sample_bench_frames "\<lambda>_. Inr 3"
        "\<lambda>_. Inr 3" Inr of_nat "''auto''"] n by blast
qed

text \<open>A run that ends prints one record per iteration and mode, in order, three modes or four; a record
  has figures exactly when its operation succeeded, and then they are that operation's: a failure is
  recorded with its exception and never as a measurement.\<close>

theorem benchmark_records_complete:
  assumes "main_bench bw a = (records, Inr u)"
  shows "length records = nat (ba_iterations a) * (if ba_include_read_sql a then 4 else 3)
    \<and> list_all2 (\<lambda>(iteration, mode, operation) r.
          br_iteration r = iteration \<and> br_mode r = mode
          \<and> (case bw_perform bw iteration operation of
               (started, ended, Inr m) \<Rightarrow>
                 br_status r = ''ok'' \<and> br_rows r = Some (bm_rows m) \<and> br_elapsed r = Some (ended - started) \<and> br_error r = None
             | (started, ended, Inl e) \<Rightarrow> br_status r \<noteq> ''ok'' \<and> br_rows r = None \<and> br_elapsed r = None \<and> br_error r = Some e))
        (bench_schedule a) records"
proof -
  note ended = main_bench_ended [OF assms]
  show ?thesis
  proof (rule conjI)
    show "length records = nat (ba_iterations a) * (if ba_include_read_sql a then 4 else 3)"
      using list_all2_lengthD [OF ended] bench_schedule_slots [of a] by simp
    show "list_all2 (\<lambda>(iteration, mode, operation) r.
          br_iteration r = iteration \<and> br_mode r = mode
          \<and> (case bw_perform bw iteration operation of
               (started, ended, Inr m) \<Rightarrow>
                 br_status r = ''ok'' \<and> br_rows r = Some (bm_rows m) \<and> br_elapsed r = Some (ended - started) \<and> br_error r = None
             | (started, ended, Inl e) \<Rightarrow> br_status r \<noteq> ''ok'' \<and> br_rows r = None \<and> br_elapsed r = None \<and> br_error r = Some e))
        (bench_schedule a) records"
      by (rule list_all2_mono [OF ended])
         (auto simp: bench_record_def split: prod.splits sum.splits dest!: measure_operation_Inr)
  qed
qed

definition sample_bench_world :: bench_world where
  "sample_bench_world =
     \<lparr>bw_ray_init = Inr (), bw_set_runner = Inr (), bw_ray_shutdown = Inr (),
      bw_perform = (\<lambda>i op. (1, 3, if op = ReadSql then Inl ValueError
         else Inr \<lparr>bm_rows = 7, bm_schema_setup = None, bm_execution = None\<rparr>))\<rparr>"

definition sample_bench_records :: "bench_result list" where
  "sample_bench_records = fst (main_bench sample_bench_world (sample_bench 8))"

lemma sample_bench_ended: "snd (main_bench sample_bench_world (sample_bench 8)) = Inr ()"
  by code_simp

theorem benchmark_records_complete_witness:
  "length sample_bench_records = 8 \<and> map br_rows sample_bench_records = concat (replicate 2 [Some 7, Some 7, Some 7, None])"
proof -
  have "main_bench sample_bench_world (sample_bench 8) = (sample_bench_records, Inr ())"
    using sample_bench_ended by (simp add: sample_bench_records_def prod_eq_iff)
  moreover have "map br_rows sample_bench_records = concat (replicate 2 [Some 7, Some 7, Some 7, None])" by code_simp
  ultimately show ?thesis using benchmark_records_complete by (auto simp: sample_bench_def)
qed

end
