(* ===== verification/Spec2Isabelle.thy ===== *)
theory Spec2Isabelle
  imports Api Source_Interface ClickHouse_Properties Doris_Properties Reader_Properties Scan_Properties Release_Properties
    Benchmark_Properties
begin

text \<open>
  \<^bold>\<open>daft-olap-connectors: a verification development.\<close>

  The package \<^verbatim>\<open>src/src/daft_olap\<close> lets Daft read tables of ClickHouse and Apache Doris. A caller builds
  a source; the source validates its arguments, discovers the table's Arrow schema, and, asked by
  Daft with a set of pushdowns (filter, columns, limit, count), plans tasks: it compiles the filter to
  a small predicate language, decides which limit is safe to push, asks the database how the table is
  split, groups the parts, and renders one statement per group. A task opens a driver, streams record
  batches, casts them to the planned schema, cuts them to the resource limits, translates driver
  errors and closes what it opened.

  \<^bold>\<open>Theories and what they model.\<close>

  \<^item> \<open>Py_Base\<close>, \<open>Py_Strings\<close>, \<open>Py_Values\<close>, \<open>Py_Format\<close>, \<open>Py_Encoding\<close>, \<open>Py_Net\<close>: the prelude. Results are
    \<open>exn + 'a\<close> with every exception the source raises or catches; \<open>r_bind\<close>, \<open>r_map\<close>, \<open>r_catch\<close> and their
    introduction and elimination rules; Python values with containers in a heap, so that aliasing and
    cycles are visible; string methods, \<open>int()\<close>, percent formatting, UTF-8, base64, URL quoting and JSON
    strings, each with the inverse that the theorems use. A \<open>str\<close> is a list of characters with codes
    below 256.
  \<^item> \<open>Identifiers\<close>, \<open>Contracts\<close>, \<open>Batching\<close>, \<open>Redaction\<close>, \<open>Predicate_IR\<close>: \<^verbatim>\<open>_common/\<close>. Identifier validation and
    quoting; limits, snapshots of caller values, frozen options, query specifications; the slicing
    generator and the two grouping functions; secrets; the predicate language.
  \<^item> \<open>Compat\<close>: \<^verbatim>\<open>_compat.py\<close>, the adapter to Daft: the predicate compiler, the columns a scan needs, the
    limit that is safe to push, count pushdown. Its lemmas give the filter semantics of both sides.
  \<^item> \<open>Error_Translation\<close>, \<open>Connection_Base\<close>: \<^verbatim>\<open>clickhouse/errors.py\<close>, \<^verbatim>\<open>doris/errors.py\<close>, and the handlers and
    argument rules that both connectors repeat (locales \<open>error_translator\<close>, \<open>managed_arguments\<close>).
  \<^item> \<open>CH_Schema\<close>, \<open>CH_Sql\<close>, \<open>CH_Discovery\<close>, \<open>CH_Source\<close>, \<open>CH_Transport\<close>: \<^verbatim>\<open>clickhouse/schema.py\<close>, \<^verbatim>\<open>sql.py\<close>,
    \<^verbatim>\<open>discovery.py\<close>, \<^verbatim>\<open>datasource.py\<close>, \<^verbatim>\<open>transport.py\<close> and \<^verbatim>\<open>task.py\<close>.
  \<^item> \<open>Doris_Schema\<close>, \<open>Doris_Sql\<close>, \<open>Doris_Discovery\<close>, \<open>Doris_Source\<close>, \<open>Doris_Transport\<close>, \<open>SS_Cursor\<close>, \<open>Task_Thread\<close>:
    \<^verbatim>\<open>doris/schema.py\<close>, \<^verbatim>\<open>sql.py\<close>, \<^verbatim>\<open>discovery.py\<close>, \<^verbatim>\<open>datasource.py\<close>, \<^verbatim>\<open>task.py\<close>, \<^verbatim>\<open>transports/mysql.py\<close>, \<^verbatim>\<open>flight.py\<close>,
    \<^verbatim>\<open>_pymysql.py\<close> and \<^verbatim>\<open>_thread.py\<close>. The worker thread is a step relation over its events.
  \<^item> \<open>Query_Plan_Opener\<close>: the opener of the query plan request in \<^verbatim>\<open>doris/discovery.py\<close>, over a network
    that answers in any way and with every request sent on record.
  \<^item> \<open>Scan_Reading\<close>: a whole scan, from the tasks a source plans to the batches of all tasks.
  \<^item> \<open>Reader_Thread\<close>, \<open>Doris_Reader\<close>: the batch readers as concurrent systems. The generator, its consumer
    and the worker thread are one step relation (\<open>stream_run\<close>) over submissions, completions, yields,
    abandonment, cancellation and the close; the locale \<open>pull_reader\<close> states what a reader's three jobs
    are, and the two readers interpret it.
  \<^item> \<open>Source_Interface\<close>: the methods Daft calls on a source and a task besides reading (schemas, count
    capability), and what the statement of a count answers.
  \<^item> \<open>Sql_Common\<close>, \<open>Source_Base\<close>, \<open>Transport_Base\<close>: what the two connectors share in rendering, planning and
    streaming, with the locales for statement binding, splitting and record batches.
  \<^item> \<open>Api\<close>: \<^verbatim>\<open>clickhouse/api.py\<close> and \<^verbatim>\<open>doris/api.py\<close>.
  \<^item> \<open>Py_Files\<close>: files as a store of paths, lines of text and path operations, for the scripts below.
  \<^item> \<open>Release_Artifacts\<close>, \<open>Release_Candidate\<close>, \<open>Release_Workflow\<close>, \<open>Service_Wait\<close>, \<open>Tooling\<close>: \<^verbatim>\<open>src/scripts\<close>. The
    distributions and their manifest; candidates and remote tags; action pins and the policy of the
    workflows; the polling of the test services; installation profiles, licence headers and fixtures.
  \<^item> \<open>Benchmark\<close>: \<^verbatim>\<open>src/benchmarks/scan.py\<close>, on top of \<open>Api\<close>.
  \<^item> \<open>Common_Properties\<close>, \<open>ClickHouse_Properties\<close>, \<open>Doris_Properties\<close>, \<open>Reader_Properties\<close>, \<open>Release_Properties\<close>,
    \<open>Benchmark_Properties\<close> and this theory: the properties, each
    followed by an application at a concrete input where it has hypotheses.

  Operations keep the source's names; where both connectors or HOL use a name, it carries a suffix
  (\<open>_ch\<close>, \<open>_doris\<close>, \<open>_mysql\<close>, \<open>_flight\<close>). Objects are records, and a constructor with checks is the function
  of the class's name (\<open>ResourceLimits\<close>, \<open>QuerySpec\<close>, \<open>ClickHouseConnection\<close>, \<open>DorisDataSource\<close>).

  \<^bold>\<open>Code outside the package\<close> is a parameter. Drivers are records of the calls the source makes and their
  outcomes (\<open>ch_driver\<close>, \<open>ch_async\<close>, \<open>mysql_pkg\<close>, \<open>mysql_stream\<close>, \<open>flight_stream\<close>), so a theorem about a stream
  holds for every behaviour of the driver, failures included. pyarrow's batches are an abstract type
  with the record \<open>arrow_ops\<close>; what the theorems need of it is the locale \<open>arrow_table_ops\<close>, which the list
  tables of \<open>Transport_Base\<close> satisfy. The environment, the network and the JSON decoder are arguments.
  What a database returns for a select is a reference semantics over rows (\<open>database_scan\<close>,
  \<open>select_rows_ch\<close>, \<open>select_rows_doris\<close>), in which comparison and the caller's fragment are parameters.

  \<^bold>\<open>What is shown.\<close>

  \<^item> Reads: when every task of a scan is read to its end, the batches Daft gets hold what Daft would keep of
    the whole table, whatever the grouping, the driver's batches and the slices
    (\<open>clickhouse_read_end_to_end\<close>, \<open>doris_read_end_to_end\<close>). They compose planning
    (\<open>clickhouse_scan_reads_table\<close>, \<open>doris_scan_reads_table\<close>, on top of \<open>pushdown_preserves_rows\<close>), rendering
    and the streams.
  \<^item> Credentials: the query plan request is sent once, to the configured origin, and no redirection is
    followed; the representation of a connection depends neither on its password nor on the values of its options.
  \<^item> Statements: what the database receives after the driver's binding is the statement meant, literal by
    literal and percent sign by percent sign; parameter names cannot collide. A statement with parameters
    needs identifiers without percent signs for this, because the code doubles those of the caller's
    fragment only; one without parameters, and every Flight statement, needs nothing.
  \<^item> Streams: what is delivered has the planned schema and is within the limits; a stream that ends
    normally has delivered every row; errors are the connector's own or control flow.
  \<^item> Discovery: which failures of listing the partitions propagate and which fall back to one group
    (\<open>clickhouse_groups_fallback\<close>); which foreign errors a tablet discovery lets through
    (\<open>doris_tablets_errors\<close>).
  \<^item> Grouping and slicing: total, exact and balanced; the binary search finds the largest slice.
  \<^item> Types: the transport type of a ClickHouse type is stable and valid; parsing inverts printing.
  \<^item> Contracts: a snapshot accepts exactly acyclic plain data; options thaw to what was frozen.
  \<^item> Arguments: caller options cannot replace a managed argument of any driver.
  \<^item> Interleavings: whatever the order in which generator, consumer and worker act, a Doris stream yields
    what its sequential form yields, and in every reachable state a prefix of it; a stream that has
    left its loop ends only after its reader was closed (unless it is interrupted again), and every way
    of going on has a bounded number of steps.
  \<^item> Counts: an aggregation is answered by one statement that counts what Daft would count for it, under
    the field Daft reads, or refused.
  \<^item> Releases: which distributions and manifests, candidates and remote tags are accepted, exactly. For
    candidates the reference is a history of commits with parents and files, and git is any
    implementation that answers three commands over it as documented (\<open>runs_git\<close>); a prepared release verifies; a workflow whose publishing job lacks a gate in its own body is refused.
  \<^item> Waiting for a service ends unless the time-out is infinite: the pauses of the loop, on a machine whose
    clock and \<open>sleep\<close> keep their documented promises (\<open>keeps_time\<close>), bound the number of probes.
  \<^item> The benchmark accepts task counts that the connector refuses, exactly those above 256.
  \<^item> Closing: a cursor is never drained by its close, its connection is never leaked; the worker thread
    runs the close exactly once, in order, and does run it.

  \<^bold>\<open>Bounds and termination.\<close> All functions are total. The slicing loop and the polling loop are
  \<open>partial_function (option)\<close>; \<open>batch_slicing_terminates\<close> shows that the first returns under validated limits,
  \<open>service_wait_ends\<close> that the second does for every time-out that is not infinite, and that for an infinite one it may not. The ClickHouse type recursion,
  the fragment scanners and the fetch loop terminate by measures on their input, the redirections of an
  opener (\<open>open_request\<close>) by the library's limits of ten URLs and four visits each. The only fuel
  is that of \<open>unhashable_within\<close>, which follows the items of a tuple through the heap: the number of the
  heap's cells plus one, more than any chain of distinct tuples has.
  Integers are unbounded as in Python, with the source's own bounds written out.

  \<^bold>\<open>Not modelled.\<close> The text of messages, logging and printing; the declarations handed to \<open>argparse\<close> and
  the \<open>__main__\<close> blocks; package version checks at import; task factories other than the task classes;
  characters beyond code 255; real time in the package: a time-out is a driver failure there, and
  clock and sleep are parameters in the scripts, with exact readings instead of rounded floats. The interpreter's
  recursion limit: a snapshot of acyclic data nested deeper than the limit ends in Python with a
  \<open>ConfigurationError\<close> (the \<open>RecursionError\<close> is caught), where the model accepts it. The \<^verbatim>\<open>__init__.py\<close> files re-export and look up the version, and the shell scripts start
  containers: neither has logic to model. The lines of the modelled files that no definition
  translates are licence headers, imports, docstrings, signatures and these.
\<close>

section \<open>What a caller builds\<close>

text \<open>C29. Every data frame that the two public functions return reads a valid source: limits in their bounds,
  valid identifiers, known modes, ports in range and no caller option with a reserved name; the source
  uses its own discovery, and a projection names distinct valid columns.\<close>

theorem frames_read_valid_sources:
  "(read_clickhouse h w ops read columns condition a = Inr f \<longrightarrow>
      (\<exists>source frame projection. valid_ch_source source \<and> cs_discoverer source = None \<and> read source = Inr frame
         \<and> finish_frame ops frame condition projection = Inr f
         \<and> (\<forall>ns. projection = Some ns \<longrightarrow> ns \<noteq> [] \<and> distinct ns \<and> list_all valid_identifier ns)))
   \<and> (read_doris h w' ops read' columns condition a' = Inr f \<longrightarrow>
      (\<exists>source frame projection. valid_doris_source source \<and> dos_discoverer source = None \<and> read' source = Inr frame
         \<and> finish_frame ops frame condition projection = Inr f
         \<and> (\<forall>ns. projection = Some ns \<longrightarrow> ns \<noteq> [] \<and> distinct ns \<and> list_all valid_identifier ns)))"
proof (intro conjI impI)
  assume "read_clickhouse h w ops read columns condition a = Inr f"
  then show "\<exists>source frame projection. valid_ch_source source \<and> cs_discoverer source = None \<and> read source = Inr frame
      \<and> finish_frame ops frame condition projection = Inr f
      \<and> (\<forall>ns. projection = Some ns \<longrightarrow> ns \<noteq> [] \<and> distinct ns \<and> list_all valid_identifier ns)"
    by (rule read_clickhouse_Inr) (metis normalize_columns_valid)
next
  assume "read_doris h w' ops read' columns condition a' = Inr f"
  then show "\<exists>source frame projection. valid_doris_source source \<and> dos_discoverer source = None \<and> read' source = Inr frame
      \<and> finish_frame ops frame condition projection = Inr f
      \<and> (\<forall>ns. projection = Some ns \<longrightarrow> ns \<noteq> [] \<and> distinct ns \<and> list_all valid_identifier ns)"
    by (rule read_doris_Inr) (metis normalize_columns_valid)
qed

text \<open>Frames as what they read: the table, the filters and the projections applied so far.\<close>

definition sample_frames :: "(string \<times> expr list \<times> string list list) frame_ops" where
  "sample_frames =
     \<lparr>fr_filter = (\<lambda>(t, fs, ps) e. Inr (t, fs @ [e], ps)), fr_select = (\<lambda>(t, fs, ps) ns. Inr (t, fs, ps @ [ns]))\<rparr>"

theorem frames_read_valid_sources_witness:
  "\<exists>source frame projection. valid_ch_source source \<and> cs_discoverer source = None
     \<and> Inr (source_name_ch source, [], []) = (Inr frame :: (string \<times> expr list \<times> string list list) result)
     \<and> finish_frame sample_frames frame None projection = Inr (''clickhouse:db.t'', [], [[''a'']])"
proof -
  have "read_clickhouse [] sample_ch_world sample_frames (\<lambda>s. Inr (source_name_ch s, [], [])) (ColumnList [PStr ''a'']) None
      sample_ch_source_args = Inr (''clickhouse:db.t'', [], [[''a'']])" by code_simp
  then show ?thesis
    using frames_read_valid_sources [of "[]" sample_ch_world sample_frames "\<lambda>s. Inr (source_name_ch s, [], [])"
        "ColumnList [PStr ''a'']" None sample_ch_source_args "(''clickhouse:db.t'', [], [[''a'']])"]
    by blast
qed

section \<open>Bounds on tasks\<close>

text \<open>C30. A scan of either connector yields at most as many tasks as its target, which is at most 1024,
  whatever the database reports and even when the generator ends with an exception.\<close>

theorem scan_tasks_bounded:
  assumes "valid_ch_source s" and "valid_doris_source s'"
  shows "int (length (fst (get_tasks_ch h w s pd))) \<le> target_tasks (cs_limits s) \<and> target_tasks (cs_limits s) \<le> 1024
    \<and> int (length (fst (get_tasks_doris h w' s' pd))) \<le> target_tasks (dos_limits s') \<and> target_tasks (dos_limits s') \<le> 1024"
proof -
  have l: "valid_limits (cs_limits s)" "valid_limits (dos_limits s')"
    using assms by (simp_all add: valid_ch_source_def valid_doris_source_def)
  show ?thesis
    using get_tasks_ch_bounded [OF l(1)] get_tasks_doris_bounded [OF l(2)] valid_limits_tasks [OF l(1)]
      valid_limits_tasks [OF l(2)] by (fastforce simp: MAX_TASKS_def)
qed

theorem scan_tasks_bounded_witness:
  "int (length (fst (get_tasks_ch [] sample_ch_world sample_ch_source sample_scan))) \<le> target_tasks (cs_limits sample_ch_source)
   \<and> int (length (fst (get_tasks_doris [] sample_doris_env sample_doris_source sample_scan))) \<le> target_tasks (dos_limits sample_doris_source)"
  using scan_tasks_bounded [OF sample_ch_source_valid sample_doris_source_valid] by blast

section \<open>Counts\<close>

text \<open>C9. A scan with an aggregation is answered exactly or not at all, by either connector. If it ends well it
  is one task, whose statement counts as many rows as Daft would have counted for this aggregation,
  in its count mode, and gives the number to the field Daft reads it from; otherwise no task is
  produced, and rows are never returned in place of their count. Of Daft it is used that the member
  \<open>CountMode.All\<close> of its native enumeration means counting all rows.\<close>

theorem aggregation_counted_or_refused:
  assumes "pd_aggregation pd = Some agg"
    and "get_tasks_ch h w s pd = (tasks, outcome)" and "get_tasks_doris h w' s' pd = (tasks', outcome')"
    and "\<forall>m. count_mode_all (cw_daft w) = Some m \<longrightarrow> meaning m = CountAll"
    and "\<forall>m. count_mode_all (de_daft w') = Some m \<longrightarrow> meaning m = CountAll"
  shows "((\<exists>e. outcome = Some e \<and> tasks = [])
       \<or> (\<exists>t. outcome = None \<and> tasks = [t] \<and> pd_limit pd = None
            \<and> count_answer_ch cmp fragment key rows (daft_keeps cmp operand truth (pd_filters pd)) meaning agg s t))
    \<and> ((\<exists>e. outcome' = Some e \<and> tasks' = [])
       \<or> (\<exists>t. outcome' = None \<and> tasks' = [t] \<and> pd_limit pd = None
            \<and> count_answer_doris cmp fragment key' rows (daft_keeps cmp operand truth (pd_filters pd)) meaning agg s' t))"
proof (rule conjI)
  show "(\<exists>e. outcome = Some e \<and> tasks = [])
       \<or> (\<exists>t. outcome = None \<and> tasks = [t] \<and> pd_limit pd = None
            \<and> count_answer_ch cmp fragment key rows (daft_keeps cmp operand truth (pd_filters pd)) meaning agg s t)"
    using get_tasks_ch_aggregation [OF assms(1,2)] count_task_ch [where meaning = meaning, OF _ assms(1) assms(4) [rule_format]] by fastforce
  show "(\<exists>e. outcome' = Some e \<and> tasks' = [])
       \<or> (\<exists>t. outcome' = None \<and> tasks' = [t] \<and> pd_limit pd = None
            \<and> count_answer_doris cmp fragment key' rows (daft_keeps cmp operand truth (pd_filters pd)) meaning agg s' t)"
    using get_tasks_doris_aggregation [OF assms(1,3)] count_task_doris [where meaning = meaning, OF _ assms(1) assms(5) [rule_format]] by fastforce
qed

definition sample_count_daft :: daft_api where
  "sample_count_daft = \<lparr>native_module = Some (Some (Some 0)), has_supports_count_pushdown = True, class_converter_callable = True,
     instance_converter_callable = True\<rparr>"

definition sample_count :: pushdowns where
  "sample_count = \<lparr>pd_filters = None, pd_columns = None, pd_limit = None,
     pd_aggregation = Some \<lparr>agg_name = ''n'', agg_count_mode = Some 0, agg_required_columns = []\<rparr>, pd_filter_required = []\<rparr>"

lemma sample_count_tasks:
  "snd (get_tasks_ch [] (sample_ch_world\<lparr>cw_daft := sample_count_daft\<rparr>) sample_ch_source sample_count) = None"
  "snd (get_tasks_doris [] (sample_doris_env\<lparr>de_daft := sample_count_daft\<rparr>) sample_doris_source sample_count) = None"
  by code_simp+

definition sample_meaning :: "nat \<Rightarrow> count_mode" where
  "sample_meaning m = (if m = 0 then CountAll else if m = 1 then CountValid else CountNull)"

definition sample_aggregation :: aggregation where
  "sample_aggregation = \<lparr>agg_name = ''n'', agg_count_mode = Some 0, agg_required_columns = []\<rparr>"

theorem aggregation_counted_or_refused_witness:
  "\<exists>t t'. fst (get_tasks_ch [] (sample_ch_world\<lparr>cw_daft := sample_count_daft\<rparr>) sample_ch_source sample_count) = [t]
     \<and> count_answer_ch sample_cmp (\<lambda>_ _. True) sample_key sample_rows (\<lambda>_. True) sample_meaning sample_aggregation sample_ch_source t
     \<and> fst (get_tasks_doris [] (sample_doris_env\<lparr>de_daft := sample_count_daft\<rparr>) sample_doris_source sample_count) = [t']
     \<and> count_answer_doris sample_cmp (\<lambda>_ _. True) sample_tablet sample_rows (\<lambda>_. True) sample_meaning sample_aggregation
         sample_doris_source t'"
proof -
  have agg: "pd_aggregation sample_count = Some sample_aggregation"
    and all: "daft_keeps cmp operand truth (pd_filters sample_count) = (\<lambda>_. True)" for cmp operand truth
    by (simp_all add: sample_count_def sample_aggregation_def daft_keeps_def [abs_def])
  have m: "\<forall>m. count_mode_all (cw_daft (sample_ch_world\<lparr>cw_daft := sample_count_daft\<rparr>)) = Some m \<longrightarrow> sample_meaning m = CountAll"
    "\<forall>m. count_mode_all (de_daft (sample_doris_env\<lparr>de_daft := sample_count_daft\<rparr>)) = Some m \<longrightarrow> sample_meaning m = CountAll"
    by (simp_all add: count_mode_all_def sample_count_daft_def sample_meaning_def)
  have answered: "\<exists>t. fst x = [t] \<and> P t"
    if "(\<exists>e. snd x = Some e \<and> fst x = []) \<or> (\<exists>t. snd x = None \<and> fst x = [t] \<and> Q \<and> P t)" "snd x = None"
    for x :: "'x list \<times> exn option" and P Q using that by auto
  note counted = aggregation_counted_or_refused [OF agg surjective_pairing surjective_pairing m, unfolded all,
      where cmp = sample_cmp and fragment = "\<lambda>_ _. True" and key = sample_key and key' = sample_tablet and rows = sample_rows]
  show ?thesis
    using answered [OF counted [THEN conjunct1] sample_count_tasks(1)] answered [OF counted [THEN conjunct2] sample_count_tasks(2)]
    by blast
qed

section \<open>Errors of streams\<close>

text \<open>C8. A stream of any transport that fails does so with an error of the connector or with a control-flow
  exception that no handler may swallow: whatever a driver raises, while opening, executing, fetching or
  closing, is translated.\<close>

theorem stream_errors_translated:
  "\<forall>e. snd (stream_query_ch h environ pa ch c q l leave) = Inl e
      \<or> snd (stream_query_mysql h environ pa ar my c' q l leave) = Inl e
      \<or> snd (stream_query_flight environ pa fl c' q l leave) = Inl e
    \<longrightarrow> is_daft_olap_error e \<or> e \<in> {CancelledError, GeneratorExit, KeyboardInterrupt, SystemExit}"
proof (intro allI impI)
  fix e
  assume "snd (stream_query_ch h environ pa ch c q l leave) = Inl e
    \<or> snd (stream_query_mysql h environ pa ar my c' q l leave) = Inl e
    \<or> snd (stream_query_flight environ pa fl c' q l leave) = Inl e"
  then have "is_daft_olap_error e \<or> \<not> is_exception e"
    unfolding contained_def [symmetric]
    by (elim disjE) (erule stream_query_ch_contained stream_query_mysql_contained stream_query_flight_contained)+
  then show "is_daft_olap_error e \<or> e \<in> {CancelledError, GeneratorExit, KeyboardInterrupt, SystemExit}"
    by (cases e) auto
qed

theorem stream_errors_translated_witness:
  "\<exists>e. snd (stream_query_ch [] [(''PW'', ''s3cret'')] sample_ops
        (sample_stream\<lparr>as_get_client := (\<lambda>_. Inl (DriverException \<lparr>ex_attrs = [(''code'', AInt 516)], ex_args = []\<rparr>))\<rparr>)
        sample_ch_connection sample_query sample_limits None) = Inl e
     \<and> (is_daft_olap_error e \<or> e \<in> {CancelledError, GeneratorExit, KeyboardInterrupt, SystemExit})"
proof (intro exI conjI)
  let ?run = "snd (stream_query_ch [] [(''PW'', ''s3cret'')] sample_ops
        (sample_stream\<lparr>as_get_client := (\<lambda>_. Inl (DriverException \<lparr>ex_attrs = [(''code'', AInt 516)], ex_args = []\<rparr>))\<rparr>)
        sample_ch_connection sample_query sample_limits None)"
  show r: "?run = Inl AuthenticationError" by code_simp
  show "is_daft_olap_error AuthenticationError
      \<or> AuthenticationError \<in> {CancelledError, GeneratorExit, KeyboardInterrupt, SystemExit}"
    using stream_errors_translated r by blast
qed

end
